(* ===== verification/Prelude.thy ===== *)
theory Prelude
  imports Main "HOL-Library.Word" "HOL-Library.Char_ord" "HOL-Library.List_Lexorder"
    "HOL-Library.Multiset" "HOL-Library.AList"
begin

section \<open>Prelude: effectful Python code as state transformers with exceptions\<close>

text \<open>
  A Python method that mutates \<^verbatim>\<open>self\<close> and may raise is a function from the state to an
  outcome and the state it leaves behind. The state is kept when the method raises, since a
  Python exception does not undo the assignments made before it: this is what the budget guard
  and the approval service rely on when they record a denial and then raise.
  The theory holds the four combinators the components are written with, a weakest
  precondition \<open>wp\<close> for them with its rewrite rules (collection \<open>wp_simps\<close>), the notion of an
  invariant of an operation, and the list, option and map lemmas shared by the components.
\<close>

type_synonym ('s, 'e, 'a) prog = "'s \<Rightarrow> ('e + 'a) \<times> 's"

named_theorems wp_simps "weakest-precondition rewrite rules"
named_theorems keeps_intros "introduction rules for invariants of operations"

definition ret :: "'a \<Rightarrow> ('s, 'e, 'a) prog" where
  "ret x = (\<lambda>s. (Inr x, s))"

definition raise :: "'e \<Rightarrow> ('s, 'e, 'a) prog" where
  "raise e = (\<lambda>s. (Inl e, s))"

definition bindP :: "('s, 'e, 'a) prog \<Rightarrow> ('a \<Rightarrow> ('s, 'e, 'b) prog) \<Rightarrow> ('s, 'e, 'b) prog" where
  "bindP m k = (\<lambda>s. case m s of (Inl e, s') \<Rightarrow> (Inl e, s') | (Inr x, s') \<Rightarrow> k x s')"

definition thenP :: "('s, 'e, unit) prog \<Rightarrow> ('s, 'e, 'b) prog \<Rightarrow> ('s, 'e, 'b) prog" where
  "thenP m n = bindP m (\<lambda>_. n)"

definition gets :: "('s \<Rightarrow> 'a) \<Rightarrow> ('s, 'e, 'a) prog" where
  "gets f = (\<lambda>s. (Inr (f s), s))"

definition modify :: "('s \<Rightarrow> 's) \<Rightarrow> ('s, 'e, unit) prog" where
  "modify f = (\<lambda>s. (Inr (), f s))"

definition whenP :: "bool \<Rightarrow> ('s, 'e, unit) prog \<Rightarrow> ('s, 'e, unit) prog" where
  "whenP b m = (if b then m else ret ())"

text \<open>\<open>lift_pure\<close> runs a computation that does not touch the state; \<open>seqP\<close> runs statements in order.\<close>

definition lift_pure :: "'e + 'a \<Rightarrow> ('s, 'e, 'a) prog" where
  "lift_pure r = (\<lambda>s. (r, s))"

fun seqP :: "('s, 'e, unit) prog list \<Rightarrow> ('s, 'e, unit) prog" where
  "seqP [] = ret ()"
| "seqP [m] = m"
| "seqP (m # ms) = thenP m (seqP ms)"

definition voidP :: "('s, 'e, 'a) prog \<Rightarrow> ('s, 'e, unit) prog" where
  "voidP m = bindP m (\<lambda>_. ret ())"

definition outcome :: "('s, 'e, 'a) prog \<Rightarrow> 's \<Rightarrow> 'e + 'a" where
  "outcome m s = fst (m s)"

definition final :: "('s, 'e, 'a) prog \<Rightarrow> 's \<Rightarrow> 's" where
  "final m s = snd (m s)"

lemma ret_apply [simp]: "ret x s = (Inr x, s)"
  by (simp add: ret_def)

lemma raise_apply [simp]: "raise e s = (Inl e, s)"
  by (simp add: raise_def)

lemma gets_apply [simp]: "gets f s = (Inr (f s), s)"
  by (simp add: gets_def)

lemma modify_apply [simp]: "modify f s = (Inr (), f s)"
  by (simp add: modify_def)

lemma lift_pure_apply [simp]: "lift_pure r s = (r, s)"
  by (simp add: lift_pure_def)

lemma bindP_ret [simp]: "bindP (ret x) k = k x"
  by (simp add: bindP_def fun_eq_iff)

lemma bindP_raise [simp]: "bindP (raise e) k = raise e"
  by (simp add: bindP_def fun_eq_iff)

lemma bindP_right_ret [simp]: "bindP m ret = m"
  by (auto simp: bindP_def fun_eq_iff split: prod.split sum.split)

lemma bindP_assoc: "bindP (bindP m k) l = bindP m (\<lambda>x. bindP (k x) l)"
  by (auto simp: bindP_def fun_eq_iff split: prod.split sum.split)

subsection \<open>Weakest preconditions\<close>

text \<open>
  \<open>wp m Q E s\<close>: run from \<open>s\<close>, the operation returns a value and a state in \<open>Q\<close>, or raises
  an error and leaves a state in \<open>E\<close>.
\<close>

definition wp :: "('s, 'e, 'a) prog \<Rightarrow> ('a \<Rightarrow> 's \<Rightarrow> bool) \<Rightarrow> ('e \<Rightarrow> 's \<Rightarrow> bool) \<Rightarrow> 's \<Rightarrow> bool" where
  "wp m Q E s = (case m s of (Inl e, s') \<Rightarrow> E e s' | (Inr x, s') \<Rightarrow> Q x s')"

lemma wp_ret [wp_simps]: "wp (ret x) Q E s = Q x s"
  by (simp add: wp_def)

lemma wp_raise [wp_simps]: "wp (raise e) Q E s = E e s"
  by (simp add: wp_def)

lemma wp_gets [wp_simps]: "wp (gets f) Q E s = Q (f s) s"
  by (simp add: wp_def)

lemma wp_modify [wp_simps]: "wp (modify f) Q E s = Q () (f s)"
  by (simp add: wp_def)

lemma wp_lift_pure [wp_simps]:
  "wp (lift_pure r) Q E s = (case r of Inl e \<Rightarrow> E e s | Inr x \<Rightarrow> Q x s)"
  by (simp add: wp_def split: sum.split)

lemma wp_bindP [wp_simps]: "wp (bindP m k) Q E s = wp m (\<lambda>x. wp (k x) Q E) E s"
  by (auto simp: wp_def bindP_def split: prod.split sum.split)

lemma wp_thenP [wp_simps]: "wp (thenP m n) Q E s = wp m (\<lambda>_. wp n Q E) E s"
  by (simp add: thenP_def wp_bindP)

lemma wp_voidP [wp_simps]: "wp (voidP m) Q E s = wp m (\<lambda>_. Q ()) E s"
  by (auto simp: wp_def voidP_def bindP_def split: prod.split sum.split)

lemma wp_whenP [wp_simps]: "wp (whenP b m) Q E s = (if b then wp m Q E s else Q () s)"
  by (simp add: whenP_def wp_ret)

lemma wp_if [wp_simps]: "wp (if b then m else n) Q E s = (if b then wp m Q E s else wp n Q E s)"
  by simp

lemma wp_seqP_Nil [wp_simps]: "wp (seqP []) Q E s = Q () s"
  by (simp add: wp_ret)

lemma wp_seqP_Cons [wp_simps]:
  "wp (seqP (m # ms)) Q E s = wp m (\<lambda>_. wp (seqP ms) Q E) E s"
proof (cases ms)
  case Nil
  have "(\<lambda>_. wp (ret ()) Q E) = Q"
    by (simp add: fun_eq_iff wp_ret)
  with Nil show ?thesis by simp
qed (simp add: wp_thenP)

lemma wp_mono:
  assumes "wp m Q E s"
    and "\<And>x s'. Q x s' \<Longrightarrow> Q' x s'" and "\<And>e s'. E e s' \<Longrightarrow> E' e s'"
  shows "wp m Q' E' s"
  using assms by (auto simp: wp_def split: prod.splits sum.splits)

lemma wp_conj:
  "wp m (\<lambda>x s'. Q x s' \<and> Q' x s') (\<lambda>e s'. E e s' \<and> E' e s') s = (wp m Q E s \<and> wp m Q' E' s)"
  by (auto simp: wp_def split: prod.split sum.split)

lemma wp_outcomeD_Inr: "wp m Q E s \<Longrightarrow> m s = (Inr x, s') \<Longrightarrow> Q x s'"
  by (simp add: wp_def)

lemma wp_outcomeD_Inl: "wp m Q E s \<Longrightarrow> m s = (Inl e, s') \<Longrightarrow> E e s'"
  by (simp add: wp_def)

lemma wp_iff: "wp m Q E s = (\<forall>r s'. m s = (r, s') \<longrightarrow> (case r of Inl e \<Rightarrow> E e s' | Inr x \<Rightarrow> Q x s'))"
  by (auto simp: wp_def split: prod.split sum.split)

subsection \<open>Invariants of operations\<close>

text \<open>\<open>keeps I m\<close>: whatever \<open>m\<close> does, return or raise, it leaves a state in \<open>I\<close> when it starts in one.\<close>

definition keeps :: "('s \<Rightarrow> bool) \<Rightarrow> ('s, 'e, 'a) prog \<Rightarrow> bool" where
  "keeps I m = (\<forall>s. I s \<longrightarrow> I (final m s))"

lemma keepsI_wp: "(\<And>s. I s \<Longrightarrow> wp m (\<lambda>_. I) (\<lambda>_. I) s) \<Longrightarrow> keeps I m"
  unfolding keeps_def wp_def final_def by (force split: prod.splits sum.splits)

lemma keepsD: "keeps I m \<Longrightarrow> I s \<Longrightarrow> m s = (r, s') \<Longrightarrow> I s'"
  by (force simp: keeps_def final_def)

lemma keeps_wp: "keeps I m \<Longrightarrow> I s \<Longrightarrow> wp m (\<lambda>_. I) (\<lambda>_. I) s"
  by (fastforce simp: keeps_def wp_def final_def split: prod.splits sum.splits)

lemma keeps_ret [keeps_intros]: "keeps I (ret x)"
  by (simp add: keeps_def final_def)

lemma keeps_raise [keeps_intros]: "keeps I (raise e)"
  by (simp add: keeps_def final_def)

lemma keeps_gets [keeps_intros]: "keeps I (gets f)"
  by (simp add: keeps_def final_def)

lemma keeps_lift_pure [keeps_intros]: "keeps I (lift_pure r)"
  by (simp add: keeps_def final_def)

lemma keeps_modify: "(\<And>s. I s \<Longrightarrow> I (f s)) \<Longrightarrow> keeps I (modify f)"
  by (simp add: keeps_def final_def)

lemma keeps_bindP [keeps_intros]:
  "keeps I m \<Longrightarrow> (\<And>x. keeps I (k x)) \<Longrightarrow> keeps I (bindP m k)"
  by (fastforce simp: keeps_def final_def bindP_def split: prod.splits sum.splits)

lemma keeps_thenP [keeps_intros]: "keeps I m \<Longrightarrow> keeps I n \<Longrightarrow> keeps I (thenP m n)"
  by (simp add: thenP_def keeps_bindP)

lemma keeps_whenP [keeps_intros]: "keeps I m \<Longrightarrow> keeps I (whenP b m)"
  by (simp add: whenP_def keeps_ret)

lemma keeps_if [keeps_intros]:
  "(b \<Longrightarrow> keeps I m) \<Longrightarrow> (\<not> b \<Longrightarrow> keeps I n) \<Longrightarrow> keeps I (if b then m else n)"
  by simp

lemma keeps_case_option [keeps_intros]:
  "(x = None \<Longrightarrow> keeps I m) \<Longrightarrow> (\<And>y. x = Some y \<Longrightarrow> keeps I (k y)) \<Longrightarrow>
   keeps I (case x of None \<Rightarrow> m | Some y \<Rightarrow> k y)"
  by (cases x) simp_all

lemma keeps_case_sum [keeps_intros]:
  "(\<And>e. x = Inl e \<Longrightarrow> keeps I (m e)) \<Longrightarrow> (\<And>y. x = Inr y \<Longrightarrow> keeps I (k y)) \<Longrightarrow>
   keeps I (case x of Inl e \<Rightarrow> m e | Inr y \<Rightarrow> k y)"
  by (cases x) simp_all

lemma keeps_seqP: "(\<And>m. m \<in> set ms \<Longrightarrow> keeps I m) \<Longrightarrow> keeps I (seqP ms)"
  by (induction ms rule: seqP.induct) (auto intro: keeps_intros)

subsection \<open>Exceptions\<close>

text \<open>\<open>catchP m h\<close> is \<^verbatim>\<open>try: m except e: h(e)\<close>, where the handler raises again what it does not handle.
  \<open>raises_only E m\<close>: every error that \<open>m\<close> raises, from any state, is in \<open>E\<close>.\<close>

definition catchP :: "('s, 'e, 'a) prog \<Rightarrow> ('e \<Rightarrow> ('s, 'e, 'a) prog) \<Rightarrow> ('s, 'e, 'a) prog" where
  "catchP m h = (\<lambda>s. case m s of (Inl e, s') \<Rightarrow> h e s' | (Inr x, s') \<Rightarrow> (Inr x, s'))"

lemma wp_catchP [wp_simps]: "wp (catchP m h) Q E s = wp m Q (\<lambda>e. wp (h e) Q E) s"
  by (auto simp: wp_def catchP_def split: prod.split sum.split)

named_theorems raises_intros "introduction rules for the errors of operations"

definition raises_only :: "('e \<Rightarrow> bool) \<Rightarrow> ('s, 'e, 'a) prog \<Rightarrow> bool" where
  "raises_only E m = (\<forall>s e s'. m s = (Inl e, s') \<longrightarrow> E e)"

lemma raises_onlyD: "raises_only E m \<Longrightarrow> m s = (Inl e, s') \<Longrightarrow> E e"
  by (auto simp: raises_only_def)

lemma raises_only_mono: "raises_only E m \<Longrightarrow> (\<And>e. E e \<Longrightarrow> E' e) \<Longrightarrow> raises_only E' m"
  by (auto simp: raises_only_def)

lemma raises_only_wp: "raises_only E m \<Longrightarrow> wp m Q (\<lambda>_. E') s \<Longrightarrow> wp m Q (\<lambda>e s'. E e \<and> E' s') s"
  by (auto simp: raises_only_def wp_def split: prod.splits sum.splits)

lemma raises_only_basic [raises_intros]:
  "raises_only E (ret x)" "raises_only E (gets f)" "raises_only E (modify g)"
  "E e \<Longrightarrow> raises_only E (raise e)" "(\<And>e. r = Inl e \<Longrightarrow> E e) \<Longrightarrow> raises_only E (lift_pure r)"
  by (simp_all add: raises_only_def)

lemma raises_only_bindP [raises_intros]:
  "raises_only E m \<Longrightarrow> (\<And>x. raises_only E (k x)) \<Longrightarrow> raises_only E (bindP m k)"
  unfolding raises_only_def bindP_def by (fastforce split: prod.splits sum.splits)

lemma raises_only_thenP [raises_intros]: "raises_only E m \<Longrightarrow> raises_only E n \<Longrightarrow> raises_only E (thenP m n)"
  by (simp add: thenP_def raises_only_bindP)

lemma raises_only_whenP [raises_intros]: "raises_only E m \<Longrightarrow> raises_only E (whenP b m)"
  by (simp add: whenP_def raises_only_basic)

lemma raises_only_if [raises_intros]:
  "(b \<Longrightarrow> raises_only E m) \<Longrightarrow> (\<not> b \<Longrightarrow> raises_only E n) \<Longrightarrow> raises_only E (if b then m else n)"
  by simp

lemma raises_only_case_option [raises_intros]:
  "(x = None \<Longrightarrow> raises_only E m) \<Longrightarrow> (\<And>y. x = Some y \<Longrightarrow> raises_only E (k y)) \<Longrightarrow>
   raises_only E (case x of None \<Rightarrow> m | Some y \<Rightarrow> k y)"
  by (cases x) simp_all

lemma raises_only_seqP: "(\<And>m. m \<in> set ms \<Longrightarrow> raises_only E m) \<Longrightarrow> raises_only E (seqP ms)"
  by (induction ms rule: seqP.induct) (auto intro: raises_intros)

subsection \<open>Reachable states\<close>

text \<open>
  The states a component can be in: an initial one, or one step from a reachable one. The locale
  is the contract under which a predicate holds in all of them; each component interprets it on its
  own initial states, steps and invariant.
\<close>

inductive reaches :: "('s \<Rightarrow> bool) \<Rightarrow> ('s \<Rightarrow> 's \<Rightarrow> bool) \<Rightarrow> 's \<Rightarrow> bool" for start step where
  reaches_start: "start s \<Longrightarrow> reaches start step s"
| reaches_step: "reaches start step s \<Longrightarrow> step s t \<Longrightarrow> reaches start step t"

lemma reaches_rtranclp: "reaches start step s \<Longrightarrow> step\<^sup>*\<^sup>* s t \<Longrightarrow> reaches start step t"
  by (rotate_tac, induction rule: rtranclp_induct) (auto intro: reaches_step)

locale invariant_machine =
  fixes start :: "'s \<Rightarrow> bool" and step :: "'s \<Rightarrow> 's \<Rightarrow> bool" and inv :: "'s \<Rightarrow> bool"
  assumes start_inv: "start s \<Longrightarrow> inv s"
    and step_inv: "inv s \<Longrightarrow> step s t \<Longrightarrow> inv t"
begin

lemma reachable_inv: "reaches start step s \<Longrightarrow> inv s"
  by (induction rule: reaches.induct) (auto intro: start_inv step_inv)

lemma steps_inv: "step\<^sup>*\<^sup>* s t \<Longrightarrow> inv s \<Longrightarrow> inv t"
  by (induction rule: rtranclp_induct) (auto intro: step_inv)

text \<open>A second predicate that every step keeps under the invariant also holds in every reachable state.\<close>

lemma reachable_strengthen:
  assumes "reaches start step s" "\<And>s. start s \<Longrightarrow> P s" "\<And>s t. inv s \<Longrightarrow> P s \<Longrightarrow> step s t \<Longrightarrow> P t"
  shows "inv s \<and> P s"
  using assms(1) by (induction rule: reaches.induct) (auto intro: start_inv step_inv assms(2,3))

end

subsection \<open>Options and lists\<close>

text \<open>A constraint on an optional field: absent, or the value satisfies it.\<close>

definition opt_all :: "('a \<Rightarrow> bool) \<Rightarrow> 'a option \<Rightarrow> bool" where
  "opt_all p x = (case x of None \<Rightarrow> True | Some y \<Rightarrow> p y)"

lemma opt_all_simps [simp]: "opt_all p None" "opt_all p (Some y) = p y"
  by (simp_all add: opt_all_def)


text \<open>Python's \<open>xs[-n:]\<close>: the last \<open>n\<close> elements, all of them when there are fewer.\<close>

definition last_n :: "nat \<Rightarrow> 'a list \<Rightarrow> 'a list" where
  "last_n n xs = drop (length xs - n) xs"

lemma length_last_n [simp]: "length (last_n n xs) = min n (length xs)"
  by (auto simp: last_n_def)

lemma set_last_n: "set (last_n n xs) \<subseteq> set xs"
  by (simp add: last_n_def set_drop_subset)

lemma last_n_short: "length xs \<le> n \<Longrightarrow> last_n n xs = xs"
  by (simp add: last_n_def)

lemma last_n_snoc: "last_n n (last_n n xs @ [x]) = last_n n (xs @ [x])"
  by (cases "length xs \<le> n") (auto simp: last_n_def Suc_diff_le)

lemma last_n_last_n [simp]: "last_n n (last_n n xs) = last_n n xs"
  by (simp add: last_n_short)

subsection \<open>Dicts\<close>

text \<open>A Python dict is the list of its items in insertion order: \<^verbatim>\<open>d.get(k)\<close> is \<open>map_of d k\<close>,
  \<^verbatim>\<open>d[k] = v\<close> is \<open>AList.update k v d\<close> (an existing key keeps its place) and \<^verbatim>\<open>d.pop(k, None)\<close>
  is \<open>AList.delete k d\<close>. Two dicts are equal when they have the same items in any order.\<close>

definition distinct_keys :: "('k \<times> 'v) list \<Rightarrow> bool" where
  "distinct_keys kvs = distinct (map fst kvs)"

lemma distinct_map_fst_sort_key [simp]:
  "distinct (map fst (sort_key fst kvs)) = distinct (map fst (kvs :: ('k :: linorder \<times> 'v) list))"
  by (rule mset_eq_imp_distinct_iff) simp

definition dict_eq :: "('k \<times> 'v) list \<Rightarrow> ('k \<times> 'v) list \<Rightarrow> bool" where
  "dict_eq a b = (length a = length b \<and> list_all (\<lambda>kv. map_of b (fst kv) = Some (snd kv)) a)"

lemma dict_eq_iff:
  assumes "distinct_keys a" "distinct_keys b"
  shows "dict_eq a b \<longleftrightarrow> map_of a = map_of b"
proof
  have d: "distinct (map fst a)" "distinct (map fst b)"
    using assms by (simp_all add: distinct_keys_def)
  have card: "card (set a) = length a" "card (set b) = length b"
    using d by (simp_all add: distinct_card distinct_map)
  show "map_of a = map_of b" if "dict_eq a b"
  proof -
    have "set a \<subseteq> set b"
      using that unfolding dict_eq_def list_all_iff by (metis map_of_SomeD subsetI surjective_pairing)
    then have "set a = set b"
      using that card by (intro card_subset_eq) (simp_all add: dict_eq_def)
    then show ?thesis
      using map_of_inject_set [OF d] by simp
  qed
  show "dict_eq a b" if "map_of a = map_of b"
  proof -
    have "set a = set b"
      using that map_of_inject_set [OF d] by simp
    then show ?thesis
      using card that d by (auto simp: dict_eq_def list_all_iff)
  qed
qed

lemma dict_eq_refl [simp]: "distinct_keys a \<Longrightarrow> dict_eq a a"
  by (simp add: dict_eq_iff)

lemma distinct_keys_update [simp]: "distinct_keys d \<Longrightarrow> distinct_keys (AList.update k v d)"
  by (simp add: distinct_keys_def distinct_update)

lemma distinct_keys_delete [simp]: "distinct_keys d \<Longrightarrow> distinct_keys (AList.delete k d)"
  by (simp add: distinct_keys_def distinct_delete)

lemma distinct_keys_Nil [simp]: "distinct_keys []"
  by (simp add: distinct_keys_def)

lemma map_of_update [simp]: "map_of (AList.update k v d) k' = (if k' = k then Some v else map_of d k')"
  by (simp add: update_conv')

lemma map_of_delete [simp]: "map_of (AList.delete k d) k' = (if k' = k then None else map_of d k')"
  by (simp add: delete_conv')

subsection \<open>Write-once stores\<close>

text \<open>
  The contract the cache backend (without refresh) and the memory repository share: a value
  is stored under its key when the key is free, and a value already stored is never replaced, neither
  by a repeated write (\<open>same\<close>) nor by a conflicting one, which is refused. What the store holds
  after any sequence of writes is then the first value written under each key.
\<close>

locale write_once_store =
  fixes key :: "'v \<Rightarrow> 'k" and get :: "'s \<Rightarrow> 'k \<Rightarrow> 'v option" and put :: "'v \<Rightarrow> ('s, 'e, unit) prog"
    and same :: "'v \<Rightarrow> 'v \<Rightarrow> bool"
  assumes put_free: "get s (key v) = None \<Longrightarrow>
      \<exists>s'. put v s = (Inr (), s') \<and> (\<forall>k. get s' k = (if k = key v then Some v else get s k))"
    and put_same: "get s (key v) = Some w \<Longrightarrow> same w v \<Longrightarrow> put v s = (Inr (), s)"
    and put_conflict: "get s (key v) = Some w \<Longrightarrow> \<not> same w v \<Longrightarrow> \<exists>e. put v s = (Inl e, s)"
begin

lemma get_after_put:
  "get (final (put v) s) k = (if k = key v \<and> get s k = None then Some v else get s k)"
proof (cases "get s (key v)")
  case None
  then show ?thesis
    using put_free [OF None] by (auto simp: final_def)
next
  case (Some w)
  then show ?thesis
    using put_same [OF Some] put_conflict [OF Some] by (cases "same w v") (auto simp: final_def)
qed

lemma first_write_wins:
  "get (fold (\<lambda>v s. final (put v) s) vs s) k =
     (case get s k of Some w \<Rightarrow> Some w | None \<Rightarrow> find (\<lambda>v. key v = k) vs)"
  by (induction vs arbitrary: s) (auto simp: get_after_put split: option.split)

lemma stored_forever:
  "get s k = Some w \<Longrightarrow> get (fold (\<lambda>v s. final (put v) s) vs s) k = Some w"
  by (simp add: first_write_wins)

end

lemma list_all2_nth_iff: "list_all2 P xs ys = (length xs = length ys \<and> (\<forall>i < length xs. P (xs ! i) (ys ! i)))"
  by (auto simp: list_all2_conv_all_nth)

end
