(* ===== verification/PyValues.thy ===== *)
theory PyValues
  imports Prelude
begin

section \<open>Python values: text, identifiers, time, JSON and SHA-256\<close>

text \<open>
  The standard-library values the program computes with. \<^verbatim>\<open>str\<close> is \<^typ>\<open>string\<close>, one
  \<^typ>\<open>char\<close> per code point (code points above 255 are not represented); \<^verbatim>\<open>UUID\<close> is a
  128-bit word; a \<^verbatim>\<open>datetime\<close> counts microseconds and carries its UTC offset when it is
  aware; JSON values are a datatype whose objects keep the insertion order of a Python dict.
  \<open>dumps\<close> is \<^verbatim>\<open>json.dumps(value, sort_keys=True, separators=(",", ":"))\<close> followed by
  \<^verbatim>\<open>.encode("utf-8")\<close>, for both values of \<^verbatim>\<open>ensure_ascii\<close>; \<open>sha256\<close> is FIPS 180-4.
  The digest is a total function here, so the components are stated over the real digest and
  never assume that it has no collisions.
\<close>

unbundle bit_operations_syntax

type_synonym uuid = "128 word"

subsection \<open>Numerals in text\<close>

definition digit_char :: "nat \<Rightarrow> char" where
  "digit_char d = ''0123456789abcdef'' ! (d mod 16)"

fun show_nat :: "nat \<Rightarrow> string" where
  "show_nat n = (if n < 10 then [digit_char n] else show_nat (n div 10) @ [digit_char (n mod 10)])"

declare show_nat.simps [simp del]

definition show_int :: "int \<Rightarrow> string" where
  "show_int i = (if i < 0 then CHR ''-'' # show_nat (nat (- i)) else show_nat (nat i))"

text \<open>\<open>hex_fixed k n\<close>: the low \<open>k\<close> hexadecimal digits of \<open>n\<close>, most significant first
  (\<^verbatim>\<open>format(n, "0kx")\<close> for \<open>n < 16 ^ k\<close>).\<close>

fun hex_fixed :: "nat \<Rightarrow> nat \<Rightarrow> string" where
  "hex_fixed 0 n = []"
| "hex_fixed (Suc k) n = hex_fixed k (n div 16) @ [digit_char (n mod 16)]"

fun pad_left :: "nat \<Rightarrow> string \<Rightarrow> string" where
  "pad_left k s = replicate (k - length s) (CHR ''0'') @ s"

text \<open>\<^verbatim>\<open>str(uuid)\<close>: 8-4-4-4-12 hexadecimal digits.\<close>

definition str_uuid :: "uuid \<Rightarrow> string" where
  "str_uuid u = (let h = hex_fixed 32 (unat u) in
     take 8 h @ ''-'' @ take 4 (drop 8 h) @ ''-'' @ take 4 (drop 12 h) @ ''-'' @
     take 4 (drop 16 h) @ ''-'' @ drop 20 h)"

definition uuid_hex :: "uuid \<Rightarrow> string" where
  "uuid_hex u = hex_fixed 32 (unat u)"

subsection \<open>Time\<close>

text \<open>An aware datetime is its instant in microseconds since 1970-01-01T00:00:00Z and its offset
  in minutes; a naive one only has local microseconds. Ordering comparisons compare instants
  (\<open>dt_us\<close>); where the program may compare an aware value with a naive one they raise (\<open>dt_lt\<close>, \<open>dt_le\<close>). The years 1 to 9999 that
  \<^verbatim>\<open>datetime\<close> is limited to are not represented: time arithmetic here never overflows.\<close>

datatype datetime = Aware (instant: int) (offset: int) | Naive (local_us: int)

definition is_aware :: "datetime \<Rightarrow> bool" where
  "is_aware d = (case d of Aware _ _ \<Rightarrow> True | Naive _ \<Rightarrow> False)"

definition is_utc :: "datetime \<Rightarrow> bool" where
  "is_utc d = (case d of Aware _ z \<Rightarrow> z = 0 | Naive _ \<Rightarrow> False)"

definition utc :: "int \<Rightarrow> datetime" where
  "utc t = Aware t 0"

fun add_seconds :: "datetime \<Rightarrow> int \<Rightarrow> datetime" where
  "add_seconds (Aware t z) n = Aware (t + n * 1000000) z"
| "add_seconds (Naive t) n = Naive (t + n * 1000000)"

definition add_days :: "datetime \<Rightarrow> int \<Rightarrow> datetime" where
  "add_days d n = add_seconds d (n * 86400)"

text \<open>The microseconds that order aware datetimes, and naive ones among themselves.\<close>

definition dt_us :: "datetime \<Rightarrow> int" where
  "dt_us d = (case d of Aware t _ \<Rightarrow> t | Naive t \<Rightarrow> t)"

text \<open>Proleptic Gregorian date of a day number (days since 1970-01-01).\<close>

definition civil_from_days :: "int \<Rightarrow> int \<times> int \<times> int" where
  "civil_from_days days = (let
     z = days + 719468;
     era = z div 146097;
     doe = z - era * 146097;
     yoe = (doe - doe div 1460 + doe div 36524 - doe div 146096) div 365;
     doy = doe - (365 * yoe + yoe div 4 - yoe div 100);
     mp = (5 * doy + 2) div 153;
     d = doy - (153 * mp + 2) div 5 + 1;
     m = (if mp < 10 then mp + 3 else mp - 9);
     y = yoe + era * 400 + (if m \<le> 2 then 1 else 0)
   in (y, m, d))"

definition two_digits :: "int \<Rightarrow> string" where
  "two_digits n = pad_left 2 (show_int n)"

definition iso_local :: "int \<Rightarrow> string" where
  "iso_local us = (let
     secs = us div 1000000; micro = us mod 1000000;
     (y, m, d) = civil_from_days (secs div 86400); sod = secs mod 86400
   in pad_left 4 (show_int y) @ ''-'' @ two_digits m @ ''-'' @ two_digits d @ ''T'' @
      two_digits (sod div 3600) @ '':'' @ two_digits (sod div 60 mod 60) @ '':'' @ two_digits (sod mod 60) @
      (if micro = 0 then [] else ''.'' @ pad_left 6 (show_int micro)))"

definition iso_offset :: "int \<Rightarrow> string" where
  "iso_offset z = (if z < 0 then ''-'' else ''+'') @ two_digits (\<bar>z\<bar> div 60) @ '':'' @ two_digits (\<bar>z\<bar> mod 60)"

text \<open>\<^verbatim>\<open>datetime.isoformat()\<close>, and the text of a datetime in \<^verbatim>\<open>model_dump(mode="json")\<close>, which
  writes \<^verbatim>\<open>Z\<close> for a zero offset.\<close>

fun isoformat :: "datetime \<Rightarrow> string" where
  "isoformat (Aware t z) = iso_local (t + z * 60000000) @ iso_offset z"
| "isoformat (Naive t) = iso_local t"

fun json_datetime :: "datetime \<Rightarrow> string" where
  "json_datetime (Aware t z) =
     (if z = 0 then iso_local t @ ''Z'' else iso_local (t + z * 60000000) @ iso_offset z)"
| "json_datetime (Naive t) = iso_local t"

subsection \<open>Exceptions\<close>

text \<open>The service errors of the program carry a code, a message and a next action
  (\<^verbatim>\<open>CacheError\<close>, \<^verbatim>\<open>MemoryError\<close>, \<^verbatim>\<open>LifecycleError\<close>); beside them a model may fail to validate
  and a dict lookup may miss.\<close>

datatype fault =
    Fault (fault_code: string) (fault_message: string) (fault_next_action: string)
  | ValidationError
  | KeyError
  | TypeError

text \<open>Comparing an aware datetime with a naive one raises \<^verbatim>\<open>TypeError\<close>.\<close>

definition dt_lt :: "datetime \<Rightarrow> datetime \<Rightarrow> fault + bool" where
  "dt_lt a b = (if is_aware a = is_aware b then Inr (dt_us a < dt_us b) else Inl TypeError)"

definition dt_le :: "datetime \<Rightarrow> datetime \<Rightarrow> fault + bool" where
  "dt_le a b = (if is_aware a = is_aware b then Inr (dt_us a \<le> dt_us b) else Inl TypeError)"

subsection \<open>JSON\<close>

text \<open>A float is carried by its \<^verbatim>\<open>repr\<close> text. An object is a list of items in insertion order.\<close>

datatype json =
    JNull
  | JBool bool
  | JInt int
  | JFloat string
  | JStr string
  | JArr "json list"
  | JObj "(string \<times> json) list"

definition utf8 :: "char \<Rightarrow> string" where
  "utf8 c = (let n = of_char c :: nat in
     if n < 128 then [c] else [char_of (192 + n div 64), char_of (128 + n mod 64)])"

definition escape_char :: "bool \<Rightarrow> char \<Rightarrow> string" where
  "escape_char ascii c = (let n = of_char c :: nat in
     if n = 34 \<or> n = 92 then [char_of (92 :: nat), c]
     else if n = 10 then [char_of (92 :: nat), CHR ''n'']
     else if n = 13 then [char_of (92 :: nat), CHR ''r'']
     else if n = 9 then [char_of (92 :: nat), CHR ''t'']
     else if n = 12 then [char_of (92 :: nat), CHR ''f'']
     else if n = 8 then [char_of (92 :: nat), CHR ''b'']
     else if n < 32 \<or> (ascii \<and> 126 < n) then [char_of (92 :: nat), CHR ''u''] @ hex_fixed 4 n
     else utf8 c)"

definition quote :: char where
  "quote = CHR 0x22"

definition quote_str :: "bool \<Rightarrow> string \<Rightarrow> string" where
  "quote_str ascii s = quote # concat (map (escape_char ascii) s) @ [quote]"

fun join_comma :: "string list \<Rightarrow> string" where
  "join_comma [] = []"
| "join_comma [x] = x"
| "join_comma (x # y # ys) = x @ CHR '','' # join_comma (y # ys)"

definition item_text :: "bool \<Rightarrow> string \<times> string \<Rightarrow> string" where
  "item_text ascii kv = quote_str ascii (fst kv) @ CHR '':'' # snd kv"

fun dumps :: "bool \<Rightarrow> json \<Rightarrow> string" where
  "dumps a JNull = ''null''"
| "dumps a (JBool b) = (if b then ''true'' else ''false'')"
| "dumps a (JInt i) = show_int i"
| "dumps a (JFloat r) = r"
| "dumps a (JStr s) = quote_str a s"
| "dumps a (JArr xs) = ''['' @ join_comma (map (dumps a) xs) @ '']''"
| "dumps a (JObj kvs) =
     ''{'' @ join_comma (map (item_text a) (sort_key fst (map (\<lambda>kv. (fst kv, dumps a (snd kv))) kvs))) @ ''}''"

definition jget :: "(string \<times> json) list \<Rightarrow> string \<Rightarrow> json option" where
  "jget kvs k = map_of kvs k"

subsection \<open>SHA-256\<close>

type_synonym byte = "8 word"
type_synonym u32 = "32 word"

definition bytes_of_string :: "string \<Rightarrow> byte list" where
  "bytes_of_string s = map (\<lambda>c. word_of_nat (of_char c)) s"

text \<open>The constants are the first 32 bits of the fractional parts of the cube roots of the first 64
  primes and of the square roots of the first eight; \<open>root_bits k n b r\<close> adds to \<open>r\<close> the low
  \<open>b\<close> bits of the integer \<open>k\<close>-th root of \<open>n\<close>.\<close>

fun root_bits :: "nat \<Rightarrow> nat \<Rightarrow> nat \<Rightarrow> nat \<Rightarrow> nat" where
  "root_bits k n 0 r = r"
| "root_bits k n (Suc b) r = root_bits k n b (if (r + 2 ^ b) ^ k \<le> n then r + 2 ^ b else r)"

definition sha256_primes :: "nat list" where
  "sha256_primes =
    [2, 3, 5, 7, 11, 13, 17, 19, 23, 29, 31, 37, 41, 43, 47, 53, 59, 61, 67, 71, 73, 79, 83,
     89, 97, 101, 103, 107, 109, 113, 127, 131, 137, 139, 149, 151, 157, 163, 167, 173, 179,
     181, 191, 193, 197, 199, 211, 223, 227, 229, 233, 239, 241, 251, 257, 263, 269, 271, 277,
     281, 283, 293, 307, 311]"

definition sha256_k :: "u32 list" where
  "sha256_k = map (\<lambda>p. word_of_nat (root_bits 3 (p * 2 ^ 96) 35 0)) sha256_primes"

definition sha256_init :: "u32 list" where
  "sha256_init = map (\<lambda>p. word_of_nat (root_bits 2 (p * 2 ^ 64) 35 0)) (take 8 sha256_primes)"

definition small_sigma0 :: "u32 \<Rightarrow> u32" where
  "small_sigma0 x = word_rotr 7 x XOR word_rotr 18 x XOR drop_bit 3 x"

definition small_sigma1 :: "u32 \<Rightarrow> u32" where
  "small_sigma1 x = word_rotr 17 x XOR word_rotr 19 x XOR drop_bit 10 x"

definition big_sigma0 :: "u32 \<Rightarrow> u32" where
  "big_sigma0 x = word_rotr 2 x XOR word_rotr 13 x XOR word_rotr 22 x"

definition big_sigma1 :: "u32 \<Rightarrow> u32" where
  "big_sigma1 x = word_rotr 6 x XOR word_rotr 11 x XOR word_rotr 25 x"

text \<open>The message schedule is kept newest word first.\<close>

fun sha256_extend :: "nat \<Rightarrow> u32 list \<Rightarrow> u32 list" where
  "sha256_extend 0 ws = ws"
| "sha256_extend (Suc n) ws =
     sha256_extend n ((small_sigma1 (ws ! 1) + ws ! 6 + small_sigma0 (ws ! 14) + ws ! 15) # ws)"

fun sha256_rounds :: "(u32 \<times> u32) list \<Rightarrow> u32 list \<Rightarrow> u32 list" where
  "sha256_rounds ((k, w) # kws) [a, b, c, d, e, f, g, h] =
     (let t1 = h + big_sigma1 e + ((e AND f) XOR (NOT e AND g)) + k + w;
          t2 = big_sigma0 a + ((a AND b) XOR (a AND c) XOR (b AND c))
      in sha256_rounds kws [t1 + t2, a, b, c, d + t1, e, f, g])"
| "sha256_rounds _ st = st"

definition be_word :: "byte list \<Rightarrow> u32" where
  "be_word bs = foldl (\<lambda>acc b. push_bit 8 acc OR ucast b) 0 bs"

fun chunks :: "nat \<Rightarrow> nat \<Rightarrow> 'a list \<Rightarrow> 'a list list" where
  "chunks 0 k xs = []"
| "chunks (Suc n) k xs = take k xs # chunks n k (drop k xs)"

definition sha256_block :: "u32 list \<Rightarrow> byte list \<Rightarrow> u32 list" where
  "sha256_block st block = (let ws = rev (sha256_extend 48 (rev (map be_word (chunks 16 4 block))))
     in map2 (+) st (sha256_rounds (zip sha256_k ws) st))"

fun be_bytes :: "nat \<Rightarrow> nat \<Rightarrow> byte list" where
  "be_bytes 0 n = []"
| "be_bytes (Suc k) n = be_bytes k (n div 256) @ [word_of_nat (n mod 256)]"

definition sha_pad :: "byte list \<Rightarrow> byte list" where
  "sha_pad m = m @ [0x80] @ replicate ((119 - length m mod 64) mod 64) 0 @ be_bytes 8 (8 * length m)"

definition sha256_words :: "byte list \<Rightarrow> u32 list" where
  "sha256_words m = foldl sha256_block sha256_init (chunks ((length m + 72) div 64) 64 (sha_pad m))"

text \<open>\<^verbatim>\<open>hashlib.sha256(data).hexdigest()\<close>: eight words of eight digits.\<close>

definition sha256_hex :: "string \<Rightarrow> string" where
  "sha256_hex s = concat (map (\<lambda>i. hex_fixed 8 (unat (sha256_words (bytes_of_string s) ! i))) [0..<8])"

text \<open>\<^verbatim>\<open>canonical_sha256\<close> of the approval and audit modules (\<^verbatim>\<open>ensure_ascii=True\<close>) and the digest
  of \<^verbatim>\<open>canonical_json_bytes\<close> of the context, cache and lifecycle modules (\<^verbatim>\<open>ensure_ascii=False\<close>).\<close>

definition canonical_sha256 :: "json \<Rightarrow> string" where
  "canonical_sha256 j = sha256_hex (dumps True j)"

definition canonical_json_bytes :: "json \<Rightarrow> string" where
  "canonical_json_bytes j = dumps False j"

definition is_hex_char :: "char \<Rightarrow> bool" where
  "is_hex_char c = (c \<in> set ''0123456789abcdef'')"

text \<open>The field pattern \<^verbatim>\<open>^[0-9a-f]{64}$\<close>.\<close>

definition is_sha256 :: "string \<Rightarrow> bool" where
  "is_sha256 v = (length v = 64 \<and> list_all is_hex_char v)"

end
