(* ===== verification/CanonicalJson.thy ===== *)
theory CanonicalJson
  imports PyValues
begin

section \<open>Canonical JSON and digests: shape and unambiguity\<close>

text \<open>
  Facts on the encodings every integrity check of the program rests on: a hexadecimal digest
  always satisfies the field pattern \<^verbatim>\<open>^[0-9a-f]{64}$\<close>, and canonical JSON text determines the
  value up to the order of object keys, so two values with equal digests are equal or exhibit a
  collision of SHA-256 itself.
\<close>

definition digit_val :: "char \<Rightarrow> nat" where
  "digit_val c = (let n = of_char c :: nat in if n < 58 then n - 48 else n - 87)"

definition text_val :: "nat \<Rightarrow> string \<Rightarrow> nat" where
  "text_val b s = foldl (\<lambda>acc c. acc * b + digit_val c) 0 s"

text \<open>Characters of a number in JSON text, the texts a finite float has, and what may follow a value.\<close>

definition num_char :: "char \<Rightarrow> bool" where
  "num_char c = (c \<in> set ''0123456789+-.e'')"

definition dec_char :: "char \<Rightarrow> bool" where
  "dec_char c = (c \<in> set ''0123456789'')"

definition float_text :: "string \<Rightarrow> bool" where
  "float_text r = (r \<noteq> [] \<and> list_all num_char r \<and> (CHR ''.'' \<in> set r \<or> CHR ''e'' \<in> set r))"

definition stops :: "string \<Rightarrow> bool" where
  "stops r = (case r of [] \<Rightarrow> True | c # _ \<Rightarrow> \<not> num_char c)"

fun json_wf :: "json \<Rightarrow> bool" where
  "json_wf (JFloat r) = float_text r"
| "json_wf (JArr xs) = list_all json_wf xs"
| "json_wf (JObj kvs) = list_all (\<lambda>kv. json_wf (snd kv)) kvs"
| "json_wf _ = True"

text \<open>The value with every object sorted by key: what canonical text can still tell apart.\<close>

fun json_norm :: "json \<Rightarrow> json" where
  "json_norm (JArr xs) = JArr (map json_norm xs)"
| "json_norm (JObj kvs) = JObj (sort_key fst (map (\<lambda>kv. (fst kv, json_norm (snd kv))) kvs))"
| "json_norm j = j"

text \<open>Reading one character back from an escaped text.\<close>

definition unescape :: "string \<Rightarrow> char \<times> string" where
  "unescape t = (case t of [] \<Rightarrow> (CHR 0x00, []) | c # u \<Rightarrow>
     (let n = of_char c :: nat in
      if n = 92 then (case u of [] \<Rightarrow> (CHR 0x00, []) | d # v \<Rightarrow>
        (let m = of_char d :: nat in
         if m = 110 then (char_of (10 :: nat), v)
         else if m = 114 then (char_of (13 :: nat), v)
         else if m = 116 then (char_of (9 :: nat), v)
         else if m = 102 then (char_of (12 :: nat), v)
         else if m = 98 then (char_of (8 :: nat), v)
         else if m = 117 then (char_of (text_val 16 (take 4 v)), drop 4 v)
         else (d, v)))
      else if n < 128 then (c, u)
      else (char_of ((n - 192) * 64 + (of_char (hd u) - 128)), tl u)))"

subsection \<open>Numerals\<close>

lemma less_16_cases: "d < (16 :: nat) \<Longrightarrow> d \<in> set [0..<16]"
  by simp

lemma digit_val_digit_char [simp]: "d < 16 \<Longrightarrow> digit_val (digit_char d) = d"
  by (drule less_16_cases) (auto simp: upt_rec digit_val_def digit_char_def Let_def)

lemma hex_digit_char [simp]: "is_hex_char (digit_char d)"
proof -
  have "d mod 16 < length ''0123456789abcdef''" by simp
  then have "''0123456789abcdef'' ! (d mod 16) \<in> set ''0123456789abcdef''" by (rule nth_mem)
  then show ?thesis
    unfolding is_hex_char_def digit_char_def .
qed

lemma dec_char_digit_char: "d < 10 \<Longrightarrow> dec_char (digit_char d)"
  by (subgoal_tac "d \<in> set [0..<10]") (auto simp: upt_rec dec_char_def digit_char_def)

lemma dec_char_simps:
  "dec_char c \<Longrightarrow> num_char c" "\<not> dec_char (CHR ''-'')" "\<not> dec_char (CHR ''.'')" "\<not> dec_char (CHR ''e'')"
  "num_char (CHR ''-'')"
  by (auto simp: dec_char_def num_char_def)

lemma length_hex_fixed [simp]: "length (hex_fixed k n) = k"
  by (induction k n rule: hex_fixed.induct) auto

lemma hex_fixed_chars: "list_all is_hex_char (hex_fixed k n)"
  by (induction k n rule: hex_fixed.induct) auto

lemma text_val_snoc: "text_val b (s @ [c]) = text_val b s * b + digit_val c"
  by (simp add: text_val_def)

lemma text_val_hex_fixed: "text_val 16 (hex_fixed k n) = n mod 16 ^ k"
proof (induction k n rule: hex_fixed.induct)
  case (1 n)
  show ?case by (simp add: text_val_def)
next
  case (2 k n)
  have "n mod 16 ^ Suc k = 16 * (n div 16 mod 16 ^ k) + n mod 16"
    by (simp add: mod_mult2_eq)
  with "2" show ?case by (simp add: text_val_snoc mult.commute)
qed

lemma text_val_show_nat: "text_val 10 (show_nat n) = n"
proof (induction n rule: show_nat.induct)
  case (1 n)
  then show ?case
    by (subst show_nat.simps) (auto simp: text_val_snoc, simp add: text_val_def)
qed

lemma show_nat_inject [simp]: "show_nat m = show_nat n \<longleftrightarrow> m = n"
  by (metis text_val_show_nat)

lemma show_nat_chars: "show_nat n \<noteq> [] \<and> list_all dec_char (show_nat n)"
proof (induction n rule: show_nat.induct)
  case (1 n)
  show ?case
  proof (cases "n < 10")
    case True
    then have "show_nat n = [digit_char n]" by (subst show_nat.simps) simp
    with True show ?thesis by (simp add: dec_char_digit_char)
  next
    case False
    then have "show_nat n = show_nat (n div 10) @ [digit_char (n mod 10)]"
      by (subst show_nat.simps) simp
    with "1" [OF False] show ?thesis by (simp add: dec_char_digit_char)
  qed
qed

lemma hd_show_nat: "dec_char (hd (show_nat n))"
  using show_nat_chars [of n] by (cases "show_nat n") auto

lemma show_nat_not_minus [simp]:
  "show_nat m \<noteq> CHR ''-'' # s" "CHR ''-'' # s \<noteq> show_nat m"
  using hd_show_nat [of m] dec_char_simps(2) by (metis list.sel(1))+

lemma show_int_inject [simp]: "show_int i = show_int j \<longleftrightarrow> i = j"
  by (auto simp: show_int_def)

lemma show_int_chars:
  "show_int i \<noteq> [] \<and> list_all num_char (show_int i) \<and>
   CHR ''.'' \<notin> set (show_int i) \<and> CHR ''e'' \<notin> set (show_int i)"
proof -
  have "list_all num_char (show_nat n) \<and> CHR ''.'' \<notin> set (show_nat n) \<and> CHR ''e'' \<notin> set (show_nat n)" for n
    using show_nat_chars [of n] dec_char_simps by (auto simp: list_all_iff)
  then show ?thesis
    using show_nat_chars dec_char_simps(5) by (simp add: show_int_def)
qed

subsection \<open>Strings\<close>

lemma of_char_less_256 [simp]: "(of_char c :: nat) < 256"
  using of_char_mod_256 [of c, where ?'a = nat] by (metis mod_less_divisor zero_less_numeral)

lemma unescape_escape_char: "unescape (escape_char a c @ u) = (c, u)"
proof -
  define n where "n = (of_char c :: nat)"
  have c: "c = char_of n" and n: "n < 256"
    by (simp_all add: n_def)
  have hex: "text_val 16 (hex_fixed 4 n) = n"
    using n by (simp add: text_val_hex_fixed)
  have split2: "(n div 64) * 64 + n mod 64 = n"
    by simp
  have hi: "n div 64 < 4"
    using n by simp
  then have [simp]: "(192 + n div 64) mod 256 = 192 + n div 64" "(128 + n mod 64) mod 256 = 128 + n mod 64"
    by auto
  consider "n = 34 \<or> n = 92" | "n \<in> {10, 13, 9, 12, 8}"
    | "n \<notin> {34, 92, 10, 13, 9, 12, 8}" "n < 32 \<or> (a \<and> 126 < n)"
    | "n \<notin> {34, 92, 10, 13, 9, 12, 8}" "\<not> (n < 32 \<or> (a \<and> 126 < n))" "n < 128"
    | "n \<notin> {34, 92, 10, 13, 9, 12, 8}" "\<not> (n < 32 \<or> (a \<and> 126 < n))" "128 \<le> n"
    by fastforce
  then show ?thesis
  proof cases
    case 3
    then have "escape_char a c = [char_of (92 :: nat), CHR ''u''] @ hex_fixed 4 n"
      by (simp add: escape_char_def n_def [symmetric] del: append_Cons)
    then show ?thesis
      by (simp add: unescape_def hex c)
  next
    case 4
    then have "escape_char a c = [c]"
      by (auto simp: escape_char_def utf8_def n_def [symmetric])
    with 4 show ?thesis
      by (auto simp: unescape_def n_def [symmetric])
  next
    case 5
    then have "escape_char a c = [char_of (192 + n div 64), char_of (128 + n mod 64)]"
      by (auto simp: escape_char_def utf8_def n_def [symmetric])
    with 5 split2 show ?thesis
      by (simp add: unescape_def c of_char_of)
  qed (auto simp: escape_char_def unescape_def n_def [symmetric] c)
qed

lemma escape_char_prefix_free:
  "escape_char a c @ u = escape_char a d @ v \<Longrightarrow> c = d \<and> u = v"
  by (metis unescape_escape_char prod.inject)

lemma of_char_Char_34: "of_char (CHR 0x22) = (34 :: nat)"
  by simp

lemma escape_char_hd: "escape_char a c \<noteq> [] \<and> hd (escape_char a c) \<noteq> quote"
proof -
  have "(of_char c :: nat) div 64 < 4"
    using of_char_less_256 [of c] by linarith
  then have "(192 + (of_char c :: nat) div 64) mod 256 \<noteq> 34"
    by simp
  then have "char_of (192 + (of_char c :: nat) div 64) \<noteq> CHR 0x22"
    by (metis of_char_of of_char_Char_34)
  moreover have "char_of (92 :: nat) \<noteq> CHR 0x22" by code_simp
  moreover have "c \<noteq> CHR 0x22" if "(of_char c :: nat) \<noteq> 34" using that of_char_Char_34 by metis
  ultimately show ?thesis
    by (auto simp: escape_char_def quote_def utf8_def Let_def)
qed

lemma escape_char_not_quote: "escape_char a c @ u \<noteq> quote # v"
  using escape_char_hd [of a c] by (cases "escape_char a c") auto

lemma escaped_text_inject:
  "concat (map (escape_char a) s) @ quote # r = concat (map (escape_char a) s') @ quote # r' \<Longrightarrow>
   s = s' \<and> r = r'"
proof (induction s arbitrary: s')
  case Nil
  then show ?case
    by (cases s') (auto dest: sym simp: escape_char_not_quote)
next
  case (Cons c s)
  then obtain d t where s': "s' = d # t"
    by (cases s') (auto simp: escape_char_not_quote)
  from Cons.prems have "escape_char a c @ concat (map (escape_char a) s) @ quote # r =
      escape_char a d @ concat (map (escape_char a) t) @ quote # r'"
    by (simp add: s')
  from escape_char_prefix_free [OF this] Cons.IH [of t] show ?case
    by (simp add: s')
qed

lemma quote_str_inject: "quote_str a s @ r = quote_str a s' @ r' \<Longrightarrow> s = s' \<and> r = r'"
  by (rule escaped_text_inject [of a]) (simp add: quote_str_def)

subsection \<open>Sequences separated by commas\<close>

lemma join_comma_Cons:
  "join_comma (x # xs) = x @ (if xs = [] then [] else CHR '','' # join_comma xs)"
  by (cases xs) auto

lemma join_comma_inject:
  assumes "join_comma (map f xs) @ cl # r = join_comma (map g ys) @ cl # r'"
    and elem: "\<And>x y u v. x \<in> set xs \<Longrightarrow> y \<in> set ys \<Longrightarrow> stops u \<Longrightarrow> stops v \<Longrightarrow>
      f x @ u = g y @ v \<Longrightarrow> nf x = ng y \<and> u = v"
    and start: "\<And>x. x \<in> set xs \<Longrightarrow> f x \<noteq> [] \<and> hd (f x) \<noteq> cl"
      "\<And>y. y \<in> set ys \<Longrightarrow> g y \<noteq> [] \<and> hd (g y) \<noteq> cl"
    and cl: "cl \<noteq> CHR '',''" "\<not> num_char cl"
  shows "map nf xs = map ng ys \<and> r = r'"
  using assms
proof (induction xs arbitrary: ys)
  case Nil
  show ?case
  proof (cases ys)
    case (Cons y zs)
    with Nil.prems(4) [of y] obtain c t where "g y = c # t" "c \<noteq> cl"
      by (cases "g y") auto
    with Nil.prems(1) Cons show ?thesis by (simp add: join_comma_Cons)
  qed (use Nil.prems(1) in simp)
next
  case (Cons x xs)
  from Cons.prems(1) Cons.prems(3) [of x] obtain y zs where ys: "ys = y # zs"
    by (cases ys; cases "f x") (auto simp: join_comma_Cons)
  let ?u = "(if xs = [] then [] else CHR '','' # join_comma (map f xs)) @ cl # r"
  let ?v = "(if zs = [] then [] else CHR '','' # join_comma (map g zs)) @ cl # r'"
  have "stops ?u" "stops ?v"
    using cl by (auto simp: stops_def num_char_def)
  moreover have "f x @ ?u = g y @ ?v"
    using Cons.prems(1) by (simp add: ys join_comma_Cons)
  ultimately have hd: "nf x = ng y" and eq: "?u = ?v"
    using Cons.prems(2) [of x y ?u ?v] by (auto simp: ys)
  show ?case
  proof (cases "xs = []")
    case True
    with eq hd cl show ?thesis by (cases "zs = []") (auto simp: ys)
  next
    case False
    with eq cl have "zs \<noteq> []"
      by (cases "zs = []") auto
    with eq False have "join_comma (map f xs) @ cl # r = join_comma (map g zs) @ cl # r'"
      by simp
    then have "map nf xs = map ng zs \<and> r = r'"
      using Cons.prems by (intro Cons.IH) (auto simp: ys)
    with hd show ?thesis by (simp add: ys)
  qed
qed

subsection \<open>Values\<close>

lemma num_token_inject:
  assumes "list_all num_char s" "list_all num_char t" "stops r" "stops r'" "s @ r = t @ r'"
  shows "s = t \<and> r = r'"
proof -
  have tw: "takeWhile num_char (u @ v) = u" if "list_all num_char u" "stops v" for u v
    using that by (cases v) (auto simp: takeWhile_append list_all_iff stops_def)
  from assms have "s = t"
    by (metis tw)
  with assms show ?thesis by simp
qed

lemma insort_key_fst_map:
  "insort_key fst (fst x, h (snd x)) (map (\<lambda>kv. (fst kv, h (snd kv))) xs) =
   map (\<lambda>kv. (fst kv, h (snd kv))) (insort_key fst x xs)"
  by (induction xs) auto

lemma sort_key_fst_map:
  "sort_key fst (map (\<lambda>kv. (fst kv, h (snd kv))) kvs) = map (\<lambda>kv. (fst kv, h (snd kv))) (sort_key fst kvs)"
  by (induction kvs) (auto simp: insort_key_fst_map)

datatype json_kind = KNull | KTrue | KFalse | KNum | KStr | KArr | KObj

text \<open>The first character of a canonical text tells which kind of value it is.\<close>

fun kind_of :: "json \<Rightarrow> json_kind" where
  "kind_of JNull = KNull"
| "kind_of (JBool b) = (if b then KTrue else KFalse)"
| "kind_of (JInt i) = KNum"
| "kind_of (JFloat r) = KNum"
| "kind_of (JStr s) = KStr"
| "kind_of (JArr xs) = KArr"
| "kind_of (JObj kvs) = KObj"

definition kind_of_head :: "char \<Rightarrow> json_kind" where
  "kind_of_head c = (if c = CHR ''n'' then KNull else if c = CHR ''t'' then KTrue
     else if c = CHR ''f'' then KFalse else if c = quote then KStr else if c = CHR ''['' then KArr
     else if c = CHR ''{'' then KObj else KNum)"

lemma num_char_head: "num_char c \<Longrightarrow> kind_of_head c = KNum \<and> c \<noteq> CHR '']'' \<and> c \<noteq> CHR ''}''"
  by (auto simp: num_char_def kind_of_head_def quote_def)

lemma dumps_head:
  assumes "json_wf j"
  shows "dumps a j \<noteq> [] \<and> hd (dumps a j) \<noteq> CHR '']'' \<and> hd (dumps a j) \<noteq> CHR ''}'' \<and>
    kind_of_head (hd (dumps a j)) = kind_of j"
proof -
  have num: "kind_of_head (hd s) = KNum \<and> hd s \<noteq> CHR '']'' \<and> hd s \<noteq> CHR ''}''"
    if "s \<noteq> []" "list_all num_char s" for s
    using that num_char_head by (cases s) auto
  show ?thesis
  proof (cases j)
    case (JInt i)
    then show ?thesis using num [of "show_int i"] show_int_chars by simp
  next
    case (JFloat r)
    then show ?thesis using num [of r] assms by (simp add: float_text_def)
  qed (auto simp: kind_of_head_def quote_str_def quote_def)
qed

lemma dumps_same_kind:
  assumes "json_wf j" "json_wf j'" "dumps a j @ r = dumps a j' @ r'"
  shows "kind_of j = kind_of j'"
proof -
  have "hd (dumps a j) = hd (dumps a j')"
    using assms dumps_head by (metis hd_append2)
  with assms dumps_head show ?thesis by metis
qed

lemma item_text_hd: "item_text a kv \<noteq> [] \<and> hd (item_text a kv) \<noteq> CHR ''}''"
  by (simp add: item_text_def quote_str_def quote_def)

lemma dumps_inject_append:
  assumes "json_wf j" "json_wf j'" "stops r" "stops r'" "dumps a j @ r = dumps a j' @ r'"
  shows "json_norm j = json_norm j' \<and> r = r'"
  using assms
proof (induction j arbitrary: j' r r')
  case (JInt i)
  show ?case
  proof (cases j')
    case (JInt k)
    then show ?thesis
      using JInt.prems num_token_inject [of "show_int i" "show_int k" r r'] show_int_chars by simp
  next
    case (JFloat t)
    then show ?thesis
      using JInt.prems num_token_inject [of "show_int i" t r r'] show_int_chars [of i]
      by (auto simp: float_text_def)
  qed (use dumps_same_kind [OF JInt.prems(1,2,5)] in \<open>auto split: if_splits\<close>)
next
  case (JFloat t)
  show ?case
  proof (cases j')
    case (JInt k)
    then show ?thesis
      using JFloat.prems num_token_inject [of t "show_int k" r r'] show_int_chars [of k]
      by (auto simp: float_text_def)
  next
    case (JFloat t')
    then show ?thesis
      using JFloat.prems num_token_inject [of t t' r r'] by (auto simp: float_text_def)
  qed (use dumps_same_kind [OF JFloat.prems(1,2,5)] in \<open>auto split: if_splits\<close>)
next
  case (JStr s)
  from dumps_same_kind [OF JStr.prems(1,2,5)] show ?case
    using JStr.prems quote_str_inject [of a s r _ r']
    by (cases j') (auto split: if_splits)
next
  case (JArr xs)
  from dumps_same_kind [OF JArr.prems(1,2,5)] obtain ys where j': "j' = JArr ys"
    by (cases j') (auto split: if_splits)
  have "map json_norm xs = map json_norm ys \<and> r = r'"
  proof (rule join_comma_inject)
    show "join_comma (map (dumps a) xs) @ CHR '']'' # r = join_comma (map (dumps a) ys) @ CHR '']'' # r'"
      using JArr.prems(5) by (simp add: j')
    show "json_norm x = json_norm y \<and> u = v"
      if "x \<in> set xs" "y \<in> set ys" "stops u" "stops v" "dumps a x @ u = dumps a y @ v" for x y u v
      using JArr.IH that JArr.prems(1,2) by (auto simp: j' list_all_iff)
  qed (use JArr.prems(1,2) dumps_head in \<open>auto simp: j' list_all_iff num_char_def\<close>)
  then show ?case by (simp add: j')
next
  case (JObj kvs)
  from dumps_same_kind [OF JObj.prems(1,2,5)] obtain kvs' where j': "j' = JObj kvs'"
    by (cases j') (auto split: if_splits)
  define ks where "ks = sort_key fst kvs"
  define ks' where "ks' = sort_key fst kvs'"
  have sets: "set ks = set kvs" "set ks' = set kvs'"
    by (simp_all add: ks_def ks'_def)
  let ?t = "\<lambda>kv. item_text a (fst kv, dumps a (snd kv))"
  let ?n = "\<lambda>kv. (fst kv, json_norm (snd kv))"
  have "map ?n ks = map ?n ks' \<and> r = r'"
  proof (rule join_comma_inject)
    show "join_comma (map ?t ks) @ CHR ''}'' # r = join_comma (map ?t ks') @ CHR ''}'' # r'"
      using JObj.prems(5) by (simp add: j' sort_key_fst_map ks_def ks'_def comp_def)
    show "?n x = ?n y \<and> u = v"
      if mem: "x \<in> set ks" "y \<in> set ks'" and "stops u" "stops v" and eq: "?t x @ u = ?t y @ v" for x y u v
    proof -
      from eq have key: "fst x = fst y" and rest: "dumps a (snd x) @ u = dumps a (snd y) @ v"
        by (auto simp: item_text_def dest!: quote_str_inject)
      have wf: "json_wf (snd x)" "json_wf (snd y)"
        using JObj.prems(1,2) mem sets by (auto simp: j' list_all_iff)
      have sub: "x \<in> set kvs" "snd x \<in> Basic_BNFs.snds x"
        using mem sets by (auto simp: snds.simps prod_eq_iff)
      from JObj.IH [OF sub wf that(3,4) rest] key show ?thesis by simp
    qed
  qed (auto simp: item_text_hd num_char_def)
  then show ?case by (simp add: j' sort_key_fst_map ks_def ks'_def)
next
  case JNull
  from dumps_same_kind [OF JNull.prems(1,2,5)] have "j' = JNull"
    by (cases j') (auto split: if_splits)
  with JNull.prems(5) show ?case by simp
next
  case (JBool b)
  from dumps_same_kind [OF JBool.prems(1,2,5)] have "j' = JBool b"
    by (cases j') (auto split: if_splits)
  with JBool.prems(5) show ?case by simp
qed

lemma dumps_inject:
  "json_wf j \<Longrightarrow> json_wf j' \<Longrightarrow> dumps a j = dumps a j' \<Longrightarrow> json_norm j = json_norm j'"
  using dumps_inject_append [of j j' "[]" "[]" a] by (simp add: stops_def)

subsection \<open>Digests\<close>

lemma length_concat_hex_fixed: "length (concat (map (\<lambda>i. hex_fixed k (f i)) xs)) = k * length xs"
  by (induction xs) auto

lemma sha256_hex_pattern [simp]: "is_sha256 (sha256_hex s)"
proof -
  have "list_all is_hex_char (concat (map (\<lambda>i. hex_fixed k (f i)) xs))" for k f and xs :: "nat list"
    using hex_fixed_chars by (induction xs) auto
  then show ?thesis
    by (simp add: is_sha256_def sha256_hex_def length_concat_hex_fixed del: upt_Suc)
qed

lemma canonical_sha256_pattern [simp]: "is_sha256 (canonical_sha256 j)"
  by (simp add: canonical_sha256_def)

text \<open>
  Canonical digests identify the value: if two JSON values with finite floats have the same
  \<^verbatim>\<open>canonical_sha256\<close> then they are equal up to the order of object keys, unless the two
  canonical texts are themselves a collision of SHA-256.
\<close>

theorem canonical_sha256_identifies:
  "json_wf j \<Longrightarrow> json_wf j' \<Longrightarrow> canonical_sha256 j = canonical_sha256 j' \<Longrightarrow>
   json_norm j = json_norm j' \<or>
   (dumps True j \<noteq> dumps True j' \<and> sha256_hex (dumps True j) = sha256_hex (dumps True j'))"
  using dumps_inject [of j j' True] by (auto simp: canonical_sha256_def)

theorem canonical_sha256_identifies_witness:
  "json_norm (JObj [(''b'', JInt 2), (''a'', JNull)]) = json_norm (JObj [(''a'', JNull), (''b'', JInt 2)]) \<or>
   (dumps True (JObj [(''b'', JInt 2), (''a'', JNull)]) \<noteq> dumps True (JObj [(''a'', JNull), (''b'', JInt 2)]) \<and>
    sha256_hex (dumps True (JObj [(''b'', JInt 2), (''a'', JNull)])) =
    sha256_hex (dumps True (JObj [(''a'', JNull), (''b'', JInt 2)])))"
proof -
  have "dumps True (JObj [(''b'', JInt 2), (''a'', JNull)]) = dumps True (JObj [(''a'', JNull), (''b'', JInt 2)])"
    by simp
  then have "canonical_sha256 (JObj [(''b'', JInt 2), (''a'', JNull)]) =
      canonical_sha256 (JObj [(''a'', JNull), (''b'', JInt 2)])"
    unfolding canonical_sha256_def by (rule arg_cong)
  then show ?thesis
    by (intro canonical_sha256_identifies) simp_all
qed

end
