(* ===== verification/Contracts.thy ===== *)
theory Contracts
  imports CanonicalJson
begin

section \<open>Public contracts\<close>

text \<open>
  The boundary models of \<^verbatim>\<open>contracts/v1.py\<close> the components share: enumerations, tenant
  scopes, limits, budget policies and approval records. A model class is a record; its field
  constraints and \<^verbatim>\<open>model_validator\<close> are a bool-valued predicate, and constructing an instance
  that fails it raises \<^verbatim>\<open>ValidationError\<close> (a \<open>None\<close> or an error branch of the operation that
  constructs it). \<open>dump_\<dots>\<close> is \<^verbatim>\<open>model_dump(mode="json")\<close>: the fields in declaration order.
\<close>

subsection \<open>Text constraints\<close>

definition text_len :: "nat \<Rightarrow> nat \<Rightarrow> string \<Rightarrow> bool" where
  "text_len lo hi s = (lo \<le> length s \<and> length s \<le> hi)"

definition is_lower :: "char \<Rightarrow> bool" where
  "is_lower c = (let n = of_char c :: nat in 97 \<le> n \<and> n \<le> 122)"

definition is_upper :: "char \<Rightarrow> bool" where
  "is_upper c = (let n = of_char c :: nat in 65 \<le> n \<and> n \<le> 90)"

definition is_decimal :: "char \<Rightarrow> bool" where
  "is_decimal c = (let n = of_char c :: nat in 48 \<le> n \<and> n \<le> 57)"

definition is_alnum :: "char \<Rightarrow> bool" where
  "is_alnum c = (is_lower c \<or> is_upper c \<or> is_decimal c)"

text \<open>A pattern \<^verbatim>\<open>^[first][rest]{0,k}$\<close>.\<close>

definition head_tail :: "(char \<Rightarrow> bool) \<Rightarrow> (char \<Rightarrow> bool) \<Rightarrow> nat \<Rightarrow> string \<Rightarrow> bool" where
  "head_tail p q k s = (case s of [] \<Rightarrow> False | c # cs \<Rightarrow> p c \<and> list_all q cs \<and> length cs \<le> k)"

definition dotted_name :: "nat \<Rightarrow> string \<Rightarrow> bool" where
  "dotted_name k s = head_tail is_lower (\<lambda>c. is_lower c \<or> is_decimal c \<or> c \<in> set ''_.-'') k s"

definition request_id_ok :: "string \<Rightarrow> bool" where
  "request_id_ok s = head_tail is_alnum (\<lambda>c. is_alnum c \<or> c \<in> set ''._:-'') 127 s"

definition version_name :: "string \<Rightarrow> bool" where
  "version_name s = head_tail is_alnum (\<lambda>c. is_alnum c \<or> c \<in> set ''._-'') 63 s"

subsection \<open>Enumerations\<close>

datatype approval_outcome = APPROVED | REJECTED | CHANGES_REQUESTED | EXPIRED | CANCELLED

fun approval_outcome_value :: "approval_outcome \<Rightarrow> string" where
  "approval_outcome_value APPROVED = ''APPROVED''"
| "approval_outcome_value REJECTED = ''REJECTED''"
| "approval_outcome_value CHANGES_REQUESTED = ''CHANGES_REQUESTED''"
| "approval_outcome_value EXPIRED = ''EXPIRED''"
| "approval_outcome_value CANCELLED = ''CANCELLED''"

datatype data_classification = PUBLIC | INTERNAL | CONFIDENTIAL | RESTRICTED

fun classification_value :: "data_classification \<Rightarrow> string" where
  "classification_value PUBLIC = ''PUBLIC''"
| "classification_value INTERNAL = ''INTERNAL''"
| "classification_value CONFIDENTIAL = ''CONFIDENTIAL''"
| "classification_value RESTRICTED = ''RESTRICTED''"

datatype memory_scope = RUNTIME | SESSION | USER | PROJECT | AUDIT

datatype task_class = G0 | P1 | P2 | P3 | K1

fun task_class_value :: "task_class \<Rightarrow> string" where
  "task_class_value G0 = ''G0''"
| "task_class_value P1 = ''P1''"
| "task_class_value P2 = ''P2''"
| "task_class_value P3 = ''P3''"
| "task_class_value K1 = ''K1''"

subsection \<open>Tenant scope\<close>

record tenant_scope =
  ts_tenant_id :: uuid
  ts_project_id :: uuid
  ts_user_id :: uuid
  ts_role_codes :: "string list"
  ts_permission_version :: string

definition valid_scope :: "tenant_scope \<Rightarrow> bool" where
  "valid_scope s = (ts_role_codes s \<noteq> [] \<and> text_len 1 128 (ts_permission_version s))"

definition dump_scope :: "tenant_scope \<Rightarrow> json" where
  "dump_scope s = JObj
    [(''schema_version'', JStr ''1.0.0''),
     (''tenant_id'', JStr (str_uuid (ts_tenant_id s))),
     (''project_id'', JStr (str_uuid (ts_project_id s))),
     (''user_id'', JStr (str_uuid (ts_user_id s))),
     (''role_codes'', JArr (map JStr (ts_role_codes s))),
     (''permission_version'', JStr (ts_permission_version s))]"

definition project_key :: "tenant_scope \<Rightarrow> uuid \<times> uuid" where
  "project_key s = (ts_tenant_id s, ts_project_id s)"

subsection \<open>Limits and budget policies\<close>

record limit =
  lim_default :: int
  lim_active :: int
  lim_hard :: int

definition valid_limit :: "limit \<Rightarrow> bool" where
  "valid_limit l = (0 \<le> lim_default l \<and> 0 \<le> lim_active l \<and> 0 \<le> lim_hard l \<and>
     lim_default l \<le> lim_active l \<and> lim_active l \<le> lim_hard l)"

definition mk_limit :: "int \<Rightarrow> int \<Rightarrow> int \<Rightarrow> limit option" where
  "mk_limit d a h = (let l = \<lparr>lim_default = d, lim_active = a, lim_hard = h\<rparr>
     in if valid_limit l then Some l else None)"

record budget_policy =
  bp_policy_id :: string
  bp_task_class :: task_class
  bp_graph_steps :: limit
  bp_llm_calls :: limit
  bp_tool_calls :: limit
  bp_total_tokens :: limit
  bp_wall_time_ms :: limit
  bp_professional_concurrency :: limit
  bp_review_rounds :: limit
  bp_correction_rounds :: limit

definition valid_policy :: "budget_policy \<Rightarrow> bool" where
  "valid_policy p = (text_len 1 128 (bp_policy_id p) \<and>
     valid_limit (bp_graph_steps p) \<and> valid_limit (bp_llm_calls p) \<and> valid_limit (bp_tool_calls p) \<and>
     valid_limit (bp_total_tokens p) \<and> valid_limit (bp_wall_time_ms p) \<and>
     valid_limit (bp_professional_concurrency p) \<and> valid_limit (bp_review_rounds p) \<and>
     valid_limit (bp_correction_rounds p))"

subsection \<open>Approval records\<close>

record approval_record =
  ar_approval_id :: uuid
  ar_scope :: tenant_scope
  ar_action :: string
  ar_target_type :: string
  ar_target_id :: uuid
  ar_target_version :: string
  ar_target_sha256 :: string
  ar_policy_version :: string
  ar_actor_id :: uuid
  ar_outcome :: approval_outcome
  ar_reason :: string
  ar_decided_at :: datetime
  ar_expires_at :: "datetime option"

definition valid_approval_record :: "approval_record \<Rightarrow> bool" where
  "valid_approval_record r = (valid_scope (ar_scope r) \<and> text_len 1 128 (ar_action r) \<and>
     text_len 1 128 (ar_target_type r) \<and> text_len 1 128 (ar_target_version r) \<and>
     is_sha256 (ar_target_sha256 r) \<and> text_len 1 128 (ar_policy_version r) \<and>
     text_len 1 4000 (ar_reason r))"

definition json_opt :: "('a \<Rightarrow> json) \<Rightarrow> 'a option \<Rightarrow> json" where
  "json_opt f x = (case x of None \<Rightarrow> JNull | Some y \<Rightarrow> f y)"

definition dump_approval_record :: "approval_record \<Rightarrow> json" where
  "dump_approval_record r = JObj
    [(''schema_version'', JStr ''1.0.0''),
     (''approval_id'', JStr (str_uuid (ar_approval_id r))),
     (''scope'', dump_scope (ar_scope r)),
     (''action'', JStr (ar_action r)),
     (''target_type'', JStr (ar_target_type r)),
     (''target_id'', JStr (str_uuid (ar_target_id r))),
     (''target_version'', JStr (ar_target_version r)),
     (''target_sha256'', JStr (ar_target_sha256 r)),
     (''policy_version'', JStr (ar_policy_version r)),
     (''actor_id'', JStr (str_uuid (ar_actor_id r))),
     (''outcome'', JStr (approval_outcome_value (ar_outcome r))),
     (''reason'', JStr (ar_reason r)),
     (''decided_at'', JStr (json_datetime (ar_decided_at r))),
     (''expires_at'', json_opt (\<lambda>t. JStr (json_datetime t)) (ar_expires_at r))]"

subsection \<open>Identifiers and scopes are determined by their text\<close>

lemma hex_fixed_inject: "m < 16 ^ k \<Longrightarrow> n < 16 ^ k \<Longrightarrow> hex_fixed k m = hex_fixed k n \<longleftrightarrow> m = n"
  by (metis text_val_hex_fixed mod_less)

lemma split_8_4_4_4:
  "take 8 h @ take 4 (drop 8 h) @ take 4 (drop 12 h) @ take 4 (drop 16 h) @ drop 20 h = h"
proof -
  have d: "drop 20 h = drop 4 (drop 16 h)" "drop 16 h = drop 4 (drop 12 h)" "drop 12 h = drop 4 (drop 8 h)"
    by simp_all
  show ?thesis
    by (simp only: d append_take_drop_id)
qed

lemma str_uuid_inject [simp]: "str_uuid u = str_uuid v \<longleftrightarrow> u = v"
proof
  assume "str_uuid u = str_uuid v"
  moreover obtain h h' where h: "h = hex_fixed 32 (unat u)" "h' = hex_fixed 32 (unat v)"
    by blast
  moreover have "length h = 32" "length h' = 32"
    by (simp_all add: h)
  ultimately have "take 8 h = take 8 h'" "take 4 (drop 8 h) = take 4 (drop 8 h')"
    "take 4 (drop 12 h) = take 4 (drop 12 h')" "take 4 (drop 16 h) = take 4 (drop 16 h')" "drop 20 h = drop 20 h'"
    by (auto simp: str_uuid_def Let_def append_eq_append_conv)
  then have "h = h'"
    by (metis split_8_4_4_4)
  moreover have "unat w < 16 ^ 32" for w :: uuid
    using unsigned_less [of w, where ?'a = nat] by simp
  ultimately show "u = v"
    by (simp add: h hex_fixed_inject unsigned_word_eqI)
qed simp

lemma map_JStr_inject [simp]: "map JStr xs = map JStr ys \<longleftrightarrow> xs = ys"
  by (simp add: inj_map_eq_map inj_def)

lemma dump_scope_inject [simp]: "dump_scope s = dump_scope s' \<longleftrightarrow> s = s'"
  by (cases s; cases s') (auto simp: dump_scope_def)

lemma json_wf_dump_scope [simp]: "json_wf (dump_scope s)"
  by (simp add: dump_scope_def list_all_iff)

lemma json_wf_dump_approval_record [simp]: "json_wf (dump_approval_record r)"
  by (auto simp: dump_approval_record_def json_opt_def split: option.split)

lemma approval_outcome_value_inject [simp]: "approval_outcome_value x = approval_outcome_value y \<longleftrightarrow> x = y"
  by (cases x; cases y) simp_all

end
