(* ===== verification/Budget.thy ===== *)
theory Budget
  imports Contracts Complex_Main
begin

section \<open>Budget policies and the budget guard\<close>

text \<open>
  \<^verbatim>\<open>orchestration/budget.py\<close>: the default policy table, policy elevation, and the guard that
  reserves capacity before calls, records an event for every decision and raises a typed stop.
  The guard's attributes are the record \<open>budget_guard\<close>; each method is an operation on it.
  The clock and \<^verbatim>\<open>uuid4\<close> are the environment \<open>budget_env\<close>: the value of the \<open>n\<close>-th reading
  and of the \<open>n\<close>-th draw; the guard counts its readings and draws, so a method that reads the
  clock three times may see three different times. Clock values and the usage ratios are exact
  rationals: the rounding of binary64 is not represented.
\<close>

subsection \<open>Data\<close>

datatype budget_dimension =
    GRAPH_STEPS | LLM_CALLS | TOOL_CALLS | TOTAL_TOKENS | WALL_TIME_MS
  | PROFESSIONAL_CONCURRENCY | REVIEW_ROUNDS | CORRECTION_ROUNDS

fun dimension_value :: "budget_dimension \<Rightarrow> string" where
  "dimension_value GRAPH_STEPS = ''graph_steps''"
| "dimension_value LLM_CALLS = ''llm_calls''"
| "dimension_value TOOL_CALLS = ''tool_calls''"
| "dimension_value TOTAL_TOKENS = ''total_tokens''"
| "dimension_value WALL_TIME_MS = ''wall_time_ms''"
| "dimension_value PROFESSIONAL_CONCURRENCY = ''professional_concurrency''"
| "dimension_value REVIEW_ROUNDS = ''review_rounds''"
| "dimension_value CORRECTION_ROUNDS = ''correction_rounds''"

datatype budget_action_class = LOW_VALUE | QUERY_EXPANSION | STANDARD | VALIDATION | FINALIZATION

fun action_class_value :: "budget_action_class \<Rightarrow> string" where
  "action_class_value LOW_VALUE = ''LOW_VALUE''"
| "action_class_value QUERY_EXPANSION = ''QUERY_EXPANSION''"
| "action_class_value STANDARD = ''STANDARD''"
| "action_class_value VALIDATION = ''VALIDATION''"
| "action_class_value FINALIZATION = ''FINALIZATION''"

datatype degradation_stage = NORMAL | REDUCE_LOW_VALUE | STOP_EXPANSION | FINALIZE_ONLY | STOPPED

fun stage_value :: "degradation_stage \<Rightarrow> string" where
  "stage_value NORMAL = ''NORMAL''"
| "stage_value REDUCE_LOW_VALUE = ''REDUCE_LOW_VALUE''"
| "stage_value STOP_EXPANSION = ''STOP_EXPANSION''"
| "stage_value FINALIZE_ONLY = ''FINALIZE_ONLY''"
| "stage_value STOPPED = ''STOPPED''"

datatype budget_decision = ALLOWED | RECORDED | DENIED

record budget_event =
  be_sequence :: int
  be_event_type :: string
  be_dimension :: "budget_dimension option"
  be_amount :: int
  be_before :: int
  be_after :: int
  be_active_limit :: "int option"
  be_hard_limit :: "int option"
  be_decision :: budget_decision
  be_error_code :: "string option"
  be_elapsed_ms :: int
  be_action_signature :: "string option"
  be_observation_sha256 :: "string option"

definition valid_event :: "budget_event \<Rightarrow> bool" where
  "valid_event e = (1 \<le> be_sequence e \<and> text_len 1 128 (be_event_type e) \<and>
     0 \<le> be_amount e \<and> 0 \<le> be_before e \<and> 0 \<le> be_after e \<and>
     opt_all (\<lambda>x. 0 \<le> x) (be_active_limit e) \<and> opt_all (\<lambda>x. 0 \<le> x) (be_hard_limit e) \<and>
     opt_all (text_len 0 128) (be_error_code e) \<and> 0 \<le> be_elapsed_ms e \<and>
     opt_all (text_len 0 512) (be_action_signature e) \<and> opt_all is_sha256 (be_observation_sha256 e))"

record budget_counters =
  bc_graph_steps :: int
  bc_reserved_graph_steps :: int
  bc_terminal_transitions :: int
  bc_terminal_budget_stops :: int
  bc_physical_llm_calls :: int
  bc_physical_tool_calls :: int
  bc_actual_total_tokens :: int
  bc_reserved_total_tokens :: int
  bc_logical_actions :: int
  bc_retries :: int
  bc_llm_failures :: int
  bc_tool_failures :: int
  bc_cache_lookups :: int
  bc_cache_hits :: int
  bc_review_rounds :: int
  bc_correction_rounds :: int
  bc_current_professional_concurrency :: int
  bc_peak_professional_concurrency :: int

definition valid_counters :: "budget_counters \<Rightarrow> bool" where
  "valid_counters c = list_all (\<lambda>f. 0 \<le> f c)
     [bc_graph_steps, bc_reserved_graph_steps, bc_terminal_transitions, bc_terminal_budget_stops,
      bc_physical_llm_calls, bc_physical_tool_calls, bc_actual_total_tokens, bc_reserved_total_tokens,
      bc_logical_actions, bc_retries, bc_llm_failures, bc_tool_failures, bc_cache_lookups, bc_cache_hits,
      bc_review_rounds, bc_correction_rounds, bc_current_professional_concurrency,
      bc_peak_professional_concurrency]"

record budget_telemetry =
  bt_policy :: budget_policy
  bt_counters :: budget_counters
  bt_elapsed_ms :: int
  bt_degradation_stage :: degradation_stage
  bt_events :: "budget_event list"

text \<open>\<^verbatim>\<open>BudgetExceeded(code, cause, impact, next_action, telemetry)\<close>,
  \<^verbatim>\<open>BudgetContractError(code, message)\<close> and pydantic's \<^verbatim>\<open>ValidationError\<close>.\<close>

datatype budget_error =
    BudgetExceeded string string string string budget_telemetry
  | BudgetContractError string string
  | BudgetValidationError

datatype stop_status = PARTIAL | FAILED

record budget_stop =
  bs_status :: stop_status
  bs_error_code :: string
  bs_cause :: string
  bs_completed_work :: "string list"
  bs_impact :: string
  bs_next_action :: string
  bs_telemetry :: budget_telemetry

fun to_stop :: "budget_error \<Rightarrow> string list \<Rightarrow> bool \<Rightarrow> budget_stop option" where
  "to_stop (BudgetExceeded code cause impact next_action t) completed partial =
     (if text_len 1 128 code \<and> text_len 1 1000 cause \<and> text_len 1 2000 impact \<and> text_len 1 2000 next_action
      then Some \<lparr>bs_status = (if partial then PARTIAL else FAILED), bs_error_code = code, bs_cause = cause,
        bs_completed_work = completed, bs_impact = impact, bs_next_action = next_action, bs_telemetry = t\<rparr>
      else None)"
| "to_stop _ _ _ = None"

subsection \<open>Default policies\<close>

fun default_limits :: "task_class \<Rightarrow> budget_dimension \<Rightarrow> int \<times> int" where
  "default_limits G0 GRAPH_STEPS = (8, 12)"
| "default_limits G0 LLM_CALLS = (3, 4)"
| "default_limits G0 TOOL_CALLS = (2, 4)"
| "default_limits G0 TOTAL_TOKENS = (4000, 8000)"
| "default_limits G0 WALL_TIME_MS = (30000, 60000)"
| "default_limits G0 PROFESSIONAL_CONCURRENCY = (0, 0)"
| "default_limits P1 GRAPH_STEPS = (16, 24)"
| "default_limits P1 LLM_CALLS = (6, 10)"
| "default_limits P1 TOOL_CALLS = (6, 10)"
| "default_limits P1 TOTAL_TOKENS = (10000, 20000)"
| "default_limits P1 WALL_TIME_MS = (120000, 300000)"
| "default_limits P1 PROFESSIONAL_CONCURRENCY = (1, 1)"
| "default_limits P2 GRAPH_STEPS = (32, 48)"
| "default_limits P2 LLM_CALLS = (18, 32)"
| "default_limits P2 TOOL_CALLS = (16, 24)"
| "default_limits P2 TOTAL_TOKENS = (35000, 60000)"
| "default_limits P2 WALL_TIME_MS = (900000, 1800000)"
| "default_limits P2 PROFESSIONAL_CONCURRENCY = (1, 2)"
| "default_limits P3 GRAPH_STEPS = (48, 64)"
| "default_limits P3 LLM_CALLS = (24, 40)"
| "default_limits P3 TOOL_CALLS = (30, 48)"
| "default_limits P3 TOTAL_TOKENS = (60000, 120000)"
| "default_limits P3 WALL_TIME_MS = (3600000, 7200000)"
| "default_limits P3 PROFESSIONAL_CONCURRENCY = (3, 4)"
| "default_limits K1 GRAPH_STEPS = (48, 64)"
| "default_limits K1 LLM_CALLS = (7, 12)"
| "default_limits K1 TOOL_CALLS = (5, 8)"
| "default_limits K1 TOTAL_TOKENS = (20000, 40000)"
| "default_limits K1 WALL_TIME_MS = (7200000, 14400000)"
| "default_limits K1 PROFESSIONAL_CONCURRENCY = (2, 4)"
| "default_limits _ REVIEW_ROUNDS = (1, 2)"
| "default_limits _ CORRECTION_ROUNDS = (1, 2)"

fun task_class_lower :: "task_class \<Rightarrow> string" where
  "task_class_lower G0 = ''g0''"
| "task_class_lower P1 = ''p1''"
| "task_class_lower P2 = ''p2''"
| "task_class_lower P3 = ''p3''"
| "task_class_lower K1 = ''k1''"

definition k1_tool_calls :: "int \<Rightarrow> int \<times> int" where
  "k1_tool_calls file_count = (let v = (5 * file_count, min (8 * file_count) 400)
     in if snd v < fst v then (snd v, snd v) else v)"

definition default_budget_policy :: "task_class \<Rightarrow> int \<Rightarrow> budget_error + budget_policy" where
  "default_budget_policy tc file_count =
    (if \<not> (1 \<le> file_count \<and> file_count \<le> 10000)
     then Inl (BudgetContractError ''BUDGET_FILE_COUNT_INVALID'' ''file count is outside bounds'')
     else
       let values = (default_limits tc)(TOOL_CALLS :=
             if tc = K1 then k1_tool_calls file_count else default_limits tc TOOL_CALLS);
           policy_id = ''budget-'' @ task_class_lower tc @ ''-v1'' @
             (if tc = K1 then ''-files-'' @ show_int file_count else []);
           limit = (\<lambda>d. let (default, hard) = values d in
             \<lparr>lim_default = default, lim_active = default, lim_hard = hard\<rparr>);
           p = \<lparr>bp_policy_id = policy_id, bp_task_class = tc,
             bp_graph_steps = limit GRAPH_STEPS, bp_llm_calls = limit LLM_CALLS,
             bp_tool_calls = limit TOOL_CALLS, bp_total_tokens = limit TOTAL_TOKENS,
             bp_wall_time_ms = limit WALL_TIME_MS,
             bp_professional_concurrency = limit PROFESSIONAL_CONCURRENCY,
             bp_review_rounds = limit REVIEW_ROUNDS, bp_correction_rounds = limit CORRECTION_ROUNDS\<rparr>
       in if valid_policy p then Inr p else Inl BudgetValidationError)"

subsection \<open>Elevation\<close>

fun limit_of :: "budget_policy \<Rightarrow> budget_dimension \<Rightarrow> limit" where
  "limit_of p GRAPH_STEPS = bp_graph_steps p"
| "limit_of p LLM_CALLS = bp_llm_calls p"
| "limit_of p TOOL_CALLS = bp_tool_calls p"
| "limit_of p TOTAL_TOKENS = bp_total_tokens p"
| "limit_of p WALL_TIME_MS = bp_wall_time_ms p"
| "limit_of p PROFESSIONAL_CONCURRENCY = bp_professional_concurrency p"
| "limit_of p REVIEW_ROUNDS = bp_review_rounds p"
| "limit_of p CORRECTION_ROUNDS = bp_correction_rounds p"

fun set_limit :: "budget_policy \<Rightarrow> budget_dimension \<Rightarrow> limit \<Rightarrow> budget_policy" where
  "set_limit p GRAPH_STEPS l = p\<lparr>bp_graph_steps := l\<rparr>"
| "set_limit p LLM_CALLS l = p\<lparr>bp_llm_calls := l\<rparr>"
| "set_limit p TOOL_CALLS l = p\<lparr>bp_tool_calls := l\<rparr>"
| "set_limit p TOTAL_TOKENS l = p\<lparr>bp_total_tokens := l\<rparr>"
| "set_limit p WALL_TIME_MS l = p\<lparr>bp_wall_time_ms := l\<rparr>"
| "set_limit p PROFESSIONAL_CONCURRENCY l = p\<lparr>bp_professional_concurrency := l\<rparr>"
| "set_limit p REVIEW_ROUNDS l = p\<lparr>bp_review_rounds := l\<rparr>"
| "set_limit p CORRECTION_ROUNDS l = p\<lparr>bp_correction_rounds := l\<rparr>"

datatype authority_kind = DETERMINISTIC_RISK_POLICY | HUMAN_APPROVAL

record elevation_authority =
  ea_kind :: authority_kind
  ea_reference_id :: string

record elevation_record =
  el_source_policy_id :: string
  el_elevated_policy :: budget_policy
  el_authority :: elevation_authority
  el_active_limits :: "(string \<times> int) list"

text \<open>The loop over \<^verbatim>\<open>active_limits.items()\<close>: a mapping, so each dimension occurs once.\<close>

fun elevate_limits :: "budget_policy \<Rightarrow> (budget_dimension \<times> int) list \<Rightarrow>
    budget_policy \<Rightarrow> (string \<times> int) list \<Rightarrow> budget_error + (budget_policy \<times> (string \<times> int) list)" where
  "elevate_limits source [] acc recorded = Inr (acc, recorded)"
| "elevate_limits source ((d, active) # rest) acc recorded =
     (let current = limit_of source d in
      if active < lim_default current \<or> active > lim_hard current
      then Inl (BudgetContractError ''BUDGET_ELEVATION_DENIED''
        ''active limit must remain between default and non-overridable hard limit'')
      else case mk_limit (lim_default current) active (lim_hard current) of
          None \<Rightarrow> Inl BudgetValidationError
        | Some l \<Rightarrow> elevate_limits source rest (set_limit acc d l) (recorded @ [(dimension_value d, active)]))"

definition elevate_budget_policy :: "budget_policy \<Rightarrow> string \<Rightarrow> (budget_dimension \<times> int) list \<Rightarrow>
    elevation_authority \<Rightarrow> budget_error + elevation_record" where
  "elevate_budget_policy p new_policy_id active_limits authority =
    (if new_policy_id = [] \<or> length new_policy_id > 128 \<or> new_policy_id = bp_policy_id p
     then Inl (BudgetContractError ''BUDGET_POLICY_ID_INVALID''
       ''an elevated policy requires a distinct bounded ID'')
     else case elevate_limits p active_limits (p\<lparr>bp_policy_id := new_policy_id\<rparr>) [] of
         Inl e \<Rightarrow> Inl e
       | Inr (elevated, recorded) \<Rightarrow>
           Inr \<lparr>el_source_policy_id = bp_policy_id p, el_elevated_policy = elevated,
             el_authority = authority, el_active_limits = recorded\<rparr>)"

subsection \<open>The guard's state\<close>

record budget_env =
  env_clock :: "nat \<Rightarrow> rat"
  env_uuid4 :: "nat \<Rightarrow> uuid"

record budget_guard =
  bg_policy :: budget_policy
  bg_started :: rat
  bg_counts :: "budget_dimension \<Rightarrow> int"
  bg_reserved_graph_steps :: int
  bg_reserved_tokens :: int
  bg_logical_actions :: int
  bg_terminal_transitions :: int
  bg_terminal_budget_stops :: int
  bg_retries :: int
  bg_llm_failures :: int
  bg_tool_failures :: int
  bg_cache_lookups :: int
  bg_cache_hits :: int
  bg_peak_concurrency :: int
  bg_events :: "budget_event list"
  bg_llm_reservations :: "uuid \<rightharpoonup> int"
  bg_tool_reservations :: "uuid set"
  bg_action_history :: "(string \<times> string) list"
  bg_reads :: nat
  bg_draws :: nat

type_synonym 'a guarded = "(budget_guard, budget_error, 'a) prog"

text \<open>\<^verbatim>\<open>BudgetGuard(policy, clock=clock)\<close>: the constructor takes one clock reading, number \<open>n\<close>.\<close>

definition new_guard :: "budget_env \<Rightarrow> nat \<Rightarrow> nat \<Rightarrow> budget_policy \<Rightarrow> budget_guard" where
  "new_guard env n k p =
    \<lparr>bg_policy = p, bg_started = env_clock env n, bg_counts = (\<lambda>_. 0), bg_reserved_graph_steps = 0,
     bg_reserved_tokens = 0, bg_logical_actions = 0, bg_terminal_transitions = 0,
     bg_terminal_budget_stops = 0, bg_retries = 0, bg_llm_failures = 0, bg_tool_failures = 0,
     bg_cache_lookups = 0, bg_cache_hits = 0, bg_peak_concurrency = 0, bg_events = [],
     bg_llm_reservations = Map.empty, bg_tool_reservations = {}, bg_action_history = [],
     bg_reads = Suc n, bg_draws = k\<rparr>"

end
