(* ===== verification/BudgetGuard.thy ===== *)
theory BudgetGuard
  imports Budget
begin

section \<open>The operations of the budget guard\<close>

text \<open>
  One definition per method of \<^verbatim>\<open>BudgetGuard\<close>, statement by statement. \<open>slot_acquire\<close> and
  \<open>slot_release\<close> are the two halves of the asynchronous context manager
  \<^verbatim>\<open>professional_slot\<close>, around the \<^verbatim>\<open>yield\<close>.
\<close>

subsection \<open>Clock, telemetry, event log\<close>

definition py_int :: "rat \<Rightarrow> int" where
  "py_int x = (if 0 \<le> x then \<lfloor>x\<rfloor> else \<lceil>x\<rceil>)"

definition elapsed_ms :: "budget_env \<Rightarrow> int guarded" where
  "elapsed_ms env = bindP (gets (\<lambda>g. max 0 (py_int ((env_clock env (bg_reads g) - bg_started g) * 1000))))
     (\<lambda>ms. thenP (modify (\<lambda>g. g\<lparr>bg_reads := Suc (bg_reads g)\<rparr>)) (ret ms))"

definition stage_dimensions :: "budget_dimension list" where
  "stage_dimensions =
     [GRAPH_STEPS, LLM_CALLS, TOOL_CALLS, TOTAL_TOKENS, WALL_TIME_MS, REVIEW_ROUNDS, CORRECTION_ROUNDS]"

definition stage_usage :: "budget_guard \<Rightarrow> int \<Rightarrow> budget_dimension \<Rightarrow> int" where
  "stage_usage g elapsed d =
    (if d = WALL_TIME_MS then elapsed
     else if d = TOTAL_TOKENS then bg_counts g d + bg_reserved_tokens g
     else if d = GRAPH_STEPS then bg_counts g d + bg_reserved_graph_steps g
     else bg_counts g d)"

definition stage_ratios :: "budget_guard \<Rightarrow> int \<Rightarrow> rat list" where
  "stage_ratios g elapsed =
     map (\<lambda>d. of_int (stage_usage g elapsed d) / of_int (lim_active (limit_of (bg_policy g) d)))
       (filter (\<lambda>d. lim_active (limit_of (bg_policy g) d) \<noteq> 0) stage_dimensions)"

definition stage_of_ratio :: "rat \<Rightarrow> degradation_stage" where
  "stage_of_ratio ratio =
    (if 1 \<le> ratio then STOPPED else if 95 / 100 \<le> ratio then FINALIZE_ONLY
     else if 85 / 100 \<le> ratio then STOP_EXPANSION else if 70 / 100 \<le> ratio then REDUCE_LOW_VALUE
     else NORMAL)"

definition max_ratio :: "rat list \<Rightarrow> rat" where
  "max_ratio rs = (case rs of [] \<Rightarrow> 0 | r # rs' \<Rightarrow> fold max rs' r)"

definition degradation_stage_of :: "budget_guard \<Rightarrow> int \<Rightarrow> degradation_stage" where
  "degradation_stage_of g elapsed = stage_of_ratio (max_ratio (stage_ratios g elapsed))"

definition counters_of :: "budget_guard \<Rightarrow> budget_counters" where
  "counters_of g =
    \<lparr>bc_graph_steps = bg_counts g GRAPH_STEPS,
     bc_reserved_graph_steps = bg_reserved_graph_steps g,
     bc_terminal_transitions = bg_terminal_transitions g,
     bc_terminal_budget_stops = bg_terminal_budget_stops g,
     bc_physical_llm_calls = bg_counts g LLM_CALLS,
     bc_physical_tool_calls = bg_counts g TOOL_CALLS,
     bc_actual_total_tokens = bg_counts g TOTAL_TOKENS,
     bc_reserved_total_tokens = bg_reserved_tokens g,
     bc_logical_actions = bg_logical_actions g,
     bc_retries = bg_retries g,
     bc_llm_failures = bg_llm_failures g,
     bc_tool_failures = bg_tool_failures g,
     bc_cache_lookups = bg_cache_lookups g,
     bc_cache_hits = bg_cache_hits g,
     bc_review_rounds = bg_counts g REVIEW_ROUNDS,
     bc_correction_rounds = bg_counts g CORRECTION_ROUNDS,
     bc_current_professional_concurrency = bg_counts g PROFESSIONAL_CONCURRENCY,
     bc_peak_professional_concurrency = bg_peak_concurrency g\<rparr>"

definition telemetry :: "budget_env \<Rightarrow> budget_telemetry guarded" where
  "telemetry env = bindP (elapsed_ms env) (\<lambda>elapsed. bindP (gets (\<lambda>g. g)) (\<lambda>g.
     if valid_counters (counters_of g)
     then ret \<lparr>bt_policy = bg_policy g, bt_counters = counters_of g, bt_elapsed_ms = elapsed,
       bt_degradation_stage = degradation_stage_of g elapsed, bt_events = bg_events g\<rparr>
     else raise BudgetValidationError))"

text \<open>The keyword arguments of \<^verbatim>\<open>_record\<close>; \<open>rec0\<close> has its defaults.\<close>

record record_args =
  ra_event_type :: string
  ra_decision :: budget_decision
  ra_dimension :: "budget_dimension option"
  ra_amount :: int
  ra_before :: int
  ra_after :: int
  ra_error_code :: "string option"
  ra_action_signature :: "string option"
  ra_observation_sha256 :: "string option"

definition rec0 :: "string \<Rightarrow> budget_decision \<Rightarrow> record_args" where
  "rec0 event_type decision = \<lparr>ra_event_type = event_type, ra_decision = decision, ra_dimension = None,
     ra_amount = 0, ra_before = 0, ra_after = 0, ra_error_code = None, ra_action_signature = None,
     ra_observation_sha256 = None\<rparr>"

definition rec_dim :: "string \<Rightarrow> budget_decision \<Rightarrow> budget_dimension \<Rightarrow> int \<Rightarrow> int \<Rightarrow> int \<Rightarrow> record_args" where
  "rec_dim event_type decision d amount before after = (rec0 event_type decision)
     \<lparr>ra_dimension := Some d, ra_amount := amount, ra_before := before, ra_after := after\<rparr>"

definition event_of :: "budget_guard \<Rightarrow> record_args \<Rightarrow> int \<Rightarrow> budget_event" where
  "event_of g a elapsed =
    \<lparr>be_sequence = int (length (bg_events g)) + 1, be_event_type = ra_event_type a,
     be_dimension = ra_dimension a, be_amount = ra_amount a, be_before = ra_before a, be_after = ra_after a,
     be_active_limit = map_option (\<lambda>d. lim_active (limit_of (bg_policy g) d)) (ra_dimension a),
     be_hard_limit = map_option (\<lambda>d. lim_hard (limit_of (bg_policy g) d)) (ra_dimension a),
     be_decision = ra_decision a, be_error_code = ra_error_code a, be_elapsed_ms = elapsed,
     be_action_signature = ra_action_signature a, be_observation_sha256 = ra_observation_sha256 a\<rparr>"

definition record_event :: "budget_env \<Rightarrow> record_args \<Rightarrow> unit guarded" where
  "record_event env a = bindP (elapsed_ms env) (\<lambda>elapsed. bindP (gets (\<lambda>g. event_of g a elapsed)) (\<lambda>e.
     if valid_event e then modify (\<lambda>g. g\<lparr>bg_events := bg_events g @ [e]\<rparr>) else raise BudgetValidationError))"

definition raise_exceeded :: "budget_env \<Rightarrow> string \<Rightarrow> string \<Rightarrow> string \<Rightarrow> string \<Rightarrow> 'a guarded" where
  "raise_exceeded env code cause impact next_action =
     bindP (telemetry env) (\<lambda>t. raise (BudgetExceeded code cause impact next_action t))"

subsection \<open>Checks\<close>

definition time_code :: "limit \<Rightarrow> int \<Rightarrow> string option" where
  "time_code l elapsed = (if elapsed \<ge> lim_hard l then Some ''BUDGET_HARD_TIME_EXCEEDED''
     else if elapsed \<ge> lim_active l then Some ''BUDGET_ACTIVE_TIME_EXCEEDED'' else None)"

definition check_time :: "budget_env \<Rightarrow> unit guarded" where
  "check_time env = bindP (elapsed_ms env) (\<lambda>elapsed. bindP (gets bg_policy) (\<lambda>p.
     case time_code (bp_wall_time_ms p) elapsed of
       None \<Rightarrow> ret ()
     | Some code \<Rightarrow> thenP
         (record_event env ((rec_dim ''wall_time_denied'' DENIED WALL_TIME_MS 0 elapsed elapsed)\<lparr>ra_error_code := Some code\<rparr>))
         (raise_exceeded env code ''The task wall-time limit has been reached.''
           ''No new guarded call was started.''
           ''Return the preserved partial result or resume under an approved policy.'')))"

definition capacity_code :: "limit \<Rightarrow> int \<Rightarrow> string option" where
  "capacity_code l projected = (if projected > lim_hard l then Some ''BUDGET_HARD_LIMIT_EXCEEDED''
     else if projected > lim_active l then Some ''BUDGET_ACTIVE_LIMIT_EXCEEDED'' else None)"

definition ensure_capacity_at :: "budget_env \<Rightarrow> budget_dimension \<Rightarrow> int \<Rightarrow> string \<Rightarrow> int \<Rightarrow> unit guarded" where
  "ensure_capacity_at env d amount event_type current = bindP (gets bg_policy) (\<lambda>p.
     case capacity_code (limit_of p d) (current + amount) of
       None \<Rightarrow> ret ()
     | Some code \<Rightarrow> thenP
         (record_event env ((rec_dim event_type DENIED d amount current current)\<lparr>ra_error_code := Some code\<rparr>))
         (raise_exceeded env code (''The '' @ dimension_value d @ '' limit would be exceeded.'')
           ''The guarded action was not started and existing completed work is preserved.''
           ''Finalize a partial result or obtain a recorded active-limit elevation.''))"

definition ensure_capacity :: "budget_env \<Rightarrow> budget_dimension \<Rightarrow> int \<Rightarrow> string \<Rightarrow> unit guarded" where
  "ensure_capacity env d amount event_type =
     bindP (gets (\<lambda>g. bg_counts g d)) (\<lambda>current. ensure_capacity_at env d amount event_type current)"

definition ensure_token_capacity :: "budget_env \<Rightarrow> int \<Rightarrow> string \<Rightarrow> unit guarded" where
  "ensure_token_capacity env amount event_type =
     bindP (gets (\<lambda>g. bg_counts g TOTAL_TOKENS + bg_reserved_tokens g))
       (\<lambda>current. ensure_capacity_at env TOTAL_TOKENS amount event_type current)"

fun stage_denies :: "degradation_stage \<Rightarrow> budget_action_class \<Rightarrow> bool" where
  "stage_denies STOPPED c = (c \<notin> {VALIDATION, FINALIZATION})"
| "stage_denies FINALIZE_ONLY c = (c \<notin> {VALIDATION, FINALIZATION})"
| "stage_denies STOP_EXPANSION c = (c \<in> {LOW_VALUE, QUERY_EXPANSION})"
| "stage_denies REDUCE_LOW_VALUE c = (c = LOW_VALUE)"
| "stage_denies NORMAL c = False"

definition authorize_action :: "budget_env \<Rightarrow> budget_action_class \<Rightarrow> unit guarded" where
  "authorize_action env c = thenP (check_time env) (bindP (elapsed_ms env) (\<lambda>elapsed.
     bindP (gets (\<lambda>g. degradation_stage_of g elapsed)) (\<lambda>stage.
       if stage_denies stage c then
         (let code = ''BUDGET_DEGRADATION_'' @ stage_value stage in thenP
           (record_event env ((rec0 ''degradation_action_denied'' DENIED)
              \<lparr>ra_error_code := Some code, ra_action_signature := Some (action_class_value c)\<rparr>))
           (raise_exceeded env code (''The '' @ stage_value stage @ '' policy denies this action class.'')
             ''The requested branch was not started.''
             ''Continue only with an action permitted at the current degradation stage.''))
       else ret ())))"

subsection \<open>Counting\<close>

definition increment :: "budget_dimension \<Rightarrow> int \<Rightarrow> unit guarded" where
  "increment d amount = modify (\<lambda>g. g\<lparr>bg_counts := (bg_counts g)(d := bg_counts g d + amount)\<rparr>)"

definition add_logical :: "int \<Rightarrow> unit guarded" where
  "add_logical n = modify (\<lambda>g. g\<lparr>bg_logical_actions := bg_logical_actions g + n\<rparr>)"

definition add_retry :: "unit guarded" where
  "add_retry = modify (\<lambda>g. g\<lparr>bg_retries := bg_retries g + 1\<rparr>)"

definition consume :: "budget_env \<Rightarrow> budget_dimension \<Rightarrow> int \<Rightarrow> string \<Rightarrow> bool \<Rightarrow> unit guarded" where
  "consume env d amount event_type logical = thenP (check_time env) (thenP
     (ensure_capacity env d amount (event_type @ ''_denied''))
     (bindP (gets (\<lambda>g. bg_counts g d)) (\<lambda>before. seqP
       [increment d amount,
        whenP logical (add_logical 1),
        record_event env (rec_dim event_type ALLOWED d amount before (before + amount))])))"

subsection \<open>Graph steps\<close>

definition record_graph_step :: "budget_env \<Rightarrow> budget_action_class \<Rightarrow> unit guarded" where
  "record_graph_step env c = bindP (gets (\<lambda>g. bg_reserved_graph_steps g)) (\<lambda>reserved.
     if reserved \<noteq> 0 then thenP (check_time env) (bindP (gets (\<lambda>g. bg_counts g GRAPH_STEPS)) (\<lambda>before. seqP
       [modify (\<lambda>g. g\<lparr>bg_reserved_graph_steps := bg_reserved_graph_steps g - 1\<rparr>),
        increment GRAPH_STEPS 1,
        add_logical 1,
        record_event env (rec_dim ''graph_step_reservation_consumed'' ALLOWED GRAPH_STEPS 1 before (before + 1))]))
     else seqP
       [ensure_capacity env GRAPH_STEPS 1 ''graph_step_denied'',
        authorize_action env c,
        consume env GRAPH_STEPS 1 ''graph_step'' True])"

definition reserve_graph_steps :: "budget_env \<Rightarrow> int \<Rightarrow> unit guarded" where
  "reserve_graph_steps env amount =
    (if amount < 1 then raise (BudgetContractError ''BUDGET_GRAPH_RESERVATION_INVALID''
       ''graph-step reservation must be positive'')
     else thenP (check_time env) (bindP (gets (\<lambda>g. bg_counts g GRAPH_STEPS + bg_reserved_graph_steps g)) (\<lambda>current. seqP
       [ensure_capacity_at env GRAPH_STEPS amount ''graph_steps_reservation_denied'' current,
        authorize_action env STANDARD,
        modify (\<lambda>g. g\<lparr>bg_reserved_graph_steps := bg_reserved_graph_steps g + amount\<rparr>),
        record_event env (rec_dim ''graph_steps_reserved'' ALLOWED GRAPH_STEPS amount current (current + amount))])))"

definition abandon_graph_reservation :: "budget_env \<Rightarrow> unit guarded" where
  "abandon_graph_reservation env = bindP (gets (\<lambda>g. bg_reserved_graph_steps g)) (\<lambda>amount.
     if amount = 0 then ret ()
     else bindP (gets (\<lambda>g. bg_counts g GRAPH_STEPS)) (\<lambda>before. seqP
       [modify (\<lambda>g. g\<lparr>bg_reserved_graph_steps := 0\<rparr>),
        increment GRAPH_STEPS amount,
        add_logical amount,
        add_retry,
        record_event env (rec_dim ''graph_reservation_abandoned'' RECORDED GRAPH_STEPS amount before (before + amount))]))"

definition release_graph_reservation :: "budget_env \<Rightarrow> unit guarded" where
  "release_graph_reservation env = bindP (gets (\<lambda>g. bg_reserved_graph_steps g)) (\<lambda>amount.
     if amount = 0 then ret ()
     else bindP (gets (\<lambda>g. bg_counts g GRAPH_STEPS + amount)) (\<lambda>current. seqP
       [modify (\<lambda>g. g\<lparr>bg_reserved_graph_steps := 0\<rparr>),
        record_event env (rec_dim ''graph_reservation_released'' RECORDED GRAPH_STEPS amount current (current - amount))]))"

definition record_cache_lookup :: "budget_env \<Rightarrow> bool \<Rightarrow> unit guarded" where
  "record_cache_lookup env hit = seqP
     [ensure_capacity env GRAPH_STEPS 1 ''cache_lookup_denied'',
      authorize_action env STANDARD,
      consume env GRAPH_STEPS 1 ''cache_lookup'' True,
      modify (\<lambda>g. g\<lparr>bg_cache_lookups := bg_cache_lookups g + 1\<rparr>),
      whenP hit (modify (\<lambda>g. g\<lparr>bg_cache_hits := bg_cache_hits g + 1\<rparr>)),
      record_event env (rec0 (if hit then ''cache_hit'' else ''cache_miss'') RECORDED)]"

definition record_terminal_transition :: "budget_env \<Rightarrow> bool \<Rightarrow> unit guarded" where
  "record_terminal_transition env budget_stop = seqP
     [modify (\<lambda>g. g\<lparr>bg_terminal_transitions := bg_terminal_transitions g + 1\<rparr>),
      whenP budget_stop (modify (\<lambda>g. g\<lparr>bg_terminal_budget_stops := bg_terminal_budget_stops g + 1\<rparr>)),
      record_event env (rec0
        (if budget_stop then ''terminal_budget_stop_transition'' else ''terminal_transition'') RECORDED)]"

subsection \<open>Model calls\<close>

definition draw_uuid4 :: "budget_env \<Rightarrow> uuid guarded" where
  "draw_uuid4 env = bindP (gets (\<lambda>g. env_uuid4 env (bg_draws g)))
     (\<lambda>u. thenP (modify (\<lambda>g. g\<lparr>bg_draws := Suc (bg_draws g)\<rparr>)) (ret u))"

definition begin_llm_call :: "budget_env \<Rightarrow> int \<Rightarrow> bool \<Rightarrow> budget_action_class \<Rightarrow> uuid guarded" where
  "begin_llm_call env maximum_total_tokens retry c =
    (if maximum_total_tokens < 1 then raise (BudgetContractError ''BUDGET_TOKEN_RESERVATION_INVALID''
       ''token reservation must be positive'')
     else thenP (seqP
       [check_time env,
        ensure_capacity env LLM_CALLS 1 ''llm_call_denied'',
        ensure_token_capacity env maximum_total_tokens ''llm_token_reservation_denied'',
        authorize_action env c,
        increment LLM_CALLS 1,
        add_logical 1,
        whenP retry add_retry])
       (bindP (draw_uuid4 env) (\<lambda>reservation_id.
        bindP (gets (\<lambda>g. bg_counts g TOTAL_TOKENS + bg_reserved_tokens g)) (\<lambda>token_before.
        bindP (gets (\<lambda>g. bg_counts g LLM_CALLS)) (\<lambda>calls.
        thenP (seqP
         [modify (\<lambda>g. g\<lparr>bg_llm_reservations := (bg_llm_reservations g)(reservation_id \<mapsto> maximum_total_tokens)\<rparr>),
          modify (\<lambda>g. g\<lparr>bg_reserved_tokens := bg_reserved_tokens g + maximum_total_tokens\<rparr>),
          record_event env (rec_dim ''llm_call_reserved'' ALLOWED LLM_CALLS 1 (calls - 1) calls),
          record_event env (rec_dim ''llm_tokens_reserved'' ALLOWED TOTAL_TOKENS maximum_total_tokens
            token_before (token_before + maximum_total_tokens))])
         (ret reservation_id))))))"

definition complete_llm_call :: "budget_env \<Rightarrow> uuid \<Rightarrow> int \<Rightarrow> int \<Rightarrow> bool \<Rightarrow> unit guarded" where
  "complete_llm_call env reservation_id input_tokens output_tokens success =
     bindP (gets (\<lambda>g. bg_llm_reservations g reservation_id)) (\<lambda>found. case found of
       None \<Rightarrow> raise (BudgetContractError ''BUDGET_RESERVATION_UNKNOWN''
         ''LLM reservation is missing or already completed'')
     | Some reserved \<Rightarrow>
         if input_tokens < 0 \<or> output_tokens < 0
         then raise (BudgetContractError ''BUDGET_ACTUAL_TOKENS_INVALID'' ''actual token counts cannot be negative'')
         else let actual = input_tokens + output_tokens in thenP (seqP
             [modify (\<lambda>g. g\<lparr>bg_llm_reservations := (bg_llm_reservations g)(reservation_id := None)\<rparr>),
              modify (\<lambda>g. g\<lparr>bg_reserved_tokens := bg_reserved_tokens g - reserved\<rparr>)])
           (bindP (gets (\<lambda>g. bg_counts g TOTAL_TOKENS)) (\<lambda>before. thenP (seqP
             [increment TOTAL_TOKENS actual,
              whenP (\<not> success) (modify (\<lambda>g. g\<lparr>bg_llm_failures := bg_llm_failures g + 1\<rparr>))])
            (if actual > reserved then thenP
               (record_event env ((rec_dim ''llm_token_reservation_exceeded'' DENIED TOTAL_TOKENS actual
                  before (before + actual))\<lparr>ra_error_code := Some ''BUDGET_TOKEN_RESERVATION_EXCEEDED''\<rparr>))
               (raise_exceeded env ''BUDGET_TOKEN_RESERVATION_EXCEEDED''
                 ''The provider reported more tokens than the pre-call reservation.''
                 ''Token telemetry may exceed the planned limit; no further model call is safe.''
                 ''Inspect the provider token cap and return a typed partial result.'')
             else record_event env (rec_dim (if success then ''llm_call_completed'' else ''llm_call_failed'')
                 RECORDED TOTAL_TOKENS actual before (before + actual))))))"

subsection \<open>Tool calls\<close>

text \<open>\<open>arguments\<close> is \<open>None\<close> when \<^verbatim>\<open>json.dumps\<close> rejects the mapping with \<^verbatim>\<open>TypeError\<close> or \<^verbatim>\<open>ValueError\<close>.\<close>

definition tool_signature :: "string \<Rightarrow> string \<Rightarrow> json \<Rightarrow> string" where
  "tool_signature tool_name tool_version arguments =
     tool_name @ ''@'' @ tool_version @ '':'' @ sha256_hex (dumps False arguments)"

definition begin_tool_call :: "budget_env \<Rightarrow> string \<Rightarrow> string \<Rightarrow> json option \<Rightarrow> string \<Rightarrow> bool \<Rightarrow>
    budget_action_class \<Rightarrow> uuid guarded" where
  "begin_tool_call env tool_name tool_version arguments observation_sha256 retry c = thenP (check_time env)
    (if \<not> text_len 1 128 tool_name \<or> \<not> text_len 1 64 tool_version
     then raise (BudgetContractError ''BUDGET_TOOL_IDENTITY_INVALID'' ''tool name and version are required'')
     else if \<not> is_sha256 observation_sha256
     then raise (BudgetContractError ''BUDGET_OBSERVATION_HASH_INVALID'' ''observation hash must be SHA-256'')
     else case arguments of
       None \<Rightarrow> raise (BudgetContractError ''BUDGET_TOOL_ARGUMENTS_INVALID'' ''tool arguments must be canonical JSON'')
     | Some args \<Rightarrow> let signature = tool_signature tool_name tool_version args in
       bindP (gets bg_action_history) (\<lambda>history.
         thenP (whenP ((signature, observation_sha256) \<in> set history) (thenP
           (record_event env ((rec0 ''identical_tool_call_denied'' DENIED)\<lparr>ra_dimension := Some TOOL_CALLS,
              ra_error_code := Some ''BUDGET_IDENTICAL_TOOL_CALL'', ra_action_signature := Some signature\<rparr>))
           (raise_exceeded env ''BUDGET_IDENTICAL_TOOL_CALL''
             ''An identical tool call has no new observation.''
             ''The repeated physical call was not started.''
             ''Change the input, provide new evidence, or stop with the current result.'')))
         (thenP (seqP
           [ensure_capacity env TOOL_CALLS 1 ''tool_call_denied'',
            authorize_action env c])
         (bindP (gets (\<lambda>g. bg_counts g TOOL_CALLS)) (\<lambda>before. thenP (seqP
           [increment TOOL_CALLS 1,
            add_logical 1,
            whenP retry add_retry,
            modify (\<lambda>g. g\<lparr>bg_action_history := last_n 10 (bg_action_history g @ [(signature, observation_sha256)])\<rparr>)])
         (bindP (draw_uuid4 env) (\<lambda>reservation_id. thenP (seqP
           [modify (\<lambda>g. g\<lparr>bg_tool_reservations := insert reservation_id (bg_tool_reservations g)\<rparr>),
            record_event env ((rec_dim ''tool_call_started'' ALLOWED TOOL_CALLS 1 before (before + 1))
              \<lparr>ra_action_signature := Some signature, ra_observation_sha256 := Some observation_sha256\<rparr>)])
         (ret reservation_id))))))))"

definition complete_tool_call :: "budget_env \<Rightarrow> uuid \<Rightarrow> bool \<Rightarrow> unit guarded" where
  "complete_tool_call env reservation_id success =
     bindP (gets (\<lambda>g. reservation_id \<in> bg_tool_reservations g)) (\<lambda>known.
       if \<not> known then raise (BudgetContractError ''BUDGET_RESERVATION_UNKNOWN''
         ''tool reservation is missing or already completed'')
       else seqP
         [modify (\<lambda>g. g\<lparr>bg_tool_reservations := bg_tool_reservations g - {reservation_id}\<rparr>),
          whenP (\<not> success) (modify (\<lambda>g. g\<lparr>bg_tool_failures := bg_tool_failures g + 1\<rparr>)),
          record_event env (rec0 (if success then ''tool_call_completed'' else ''tool_call_failed'') RECORDED)])"

subsection \<open>Review, correction and concurrency\<close>

definition record_review :: "budget_env \<Rightarrow> unit guarded" where
  "record_review env = seqP
     [ensure_capacity env REVIEW_ROUNDS 1 ''review_round_denied'',
      authorize_action env VALIDATION,
      consume env REVIEW_ROUNDS 1 ''review_round'' True]"

definition record_correction :: "budget_env \<Rightarrow> unit guarded" where
  "record_correction env = seqP
     [ensure_capacity env CORRECTION_ROUNDS 1 ''correction_round_denied'',
      authorize_action env VALIDATION,
      consume env CORRECTION_ROUNDS 1 ''correction_round'' True]"

definition slot_acquire :: "budget_env \<Rightarrow> unit guarded" where
  "slot_acquire env = thenP (seqP
     [check_time env,
      ensure_capacity env PROFESSIONAL_CONCURRENCY 1 ''professional_concurrency_denied''])
     (bindP (gets (\<lambda>g. bg_counts g PROFESSIONAL_CONCURRENCY)) (\<lambda>before. seqP
       [increment PROFESSIONAL_CONCURRENCY 1,
        modify (\<lambda>g. g\<lparr>bg_peak_concurrency := max (bg_peak_concurrency g) (bg_counts g PROFESSIONAL_CONCURRENCY)\<rparr>),
        record_event env (rec_dim ''professional_slot_acquired'' ALLOWED PROFESSIONAL_CONCURRENCY 1 before (before + 1))]))"

definition slot_release :: "budget_env \<Rightarrow> unit guarded" where
  "slot_release env = bindP (gets (\<lambda>g. bg_counts g PROFESSIONAL_CONCURRENCY)) (\<lambda>before. seqP
     [increment PROFESSIONAL_CONCURRENCY (- 1),
      record_event env (rec_dim ''professional_slot_released'' RECORDED PROFESSIONAL_CONCURRENCY 0 before (before - 1))])"

subsection \<open>Restoring a guard\<close>

definition started_calls :: "budget_event list \<Rightarrow> (string \<times> string) list" where
  "started_calls es = concat (map (\<lambda>e.
     case (be_action_signature e, be_observation_sha256 e) of
       (Some s, Some obs) \<Rightarrow> (if be_event_type e = ''tool_call_started'' then [(s, obs)] else [])
     | _ \<Rightarrow> []) es)"

text \<open>The constructor reads the clock (number \<open>n\<close>), then \<^verbatim>\<open>_started\<close> is set from the next reading.\<close>

definition from_telemetry :: "budget_env \<Rightarrow> nat \<Rightarrow> nat \<Rightarrow> budget_telemetry \<Rightarrow> budget_error + budget_guard" where
  "from_telemetry env n k t = (let c = bt_counters t in
     if bc_current_professional_concurrency c \<noteq> 0
     then Inl (BudgetContractError ''BUDGET_RESTORE_CONCURRENCY_ACTIVE''
       ''budget telemetry cannot restore an active professional lease'')
     else if bc_reserved_total_tokens c \<noteq> 0
     then Inl (BudgetContractError ''BUDGET_RESTORE_LLM_RESERVATION_ACTIVE''
       ''budget telemetry cannot restore an in-flight LLM reservation'')
     else Inr ((new_guard env n k (bt_policy t))
       \<lparr>bg_started := env_clock env (Suc n) - of_int (bt_elapsed_ms t) / 1000,
        bg_counts := (bg_counts (new_guard env n k (bt_policy t)))
          (GRAPH_STEPS := bc_graph_steps c, LLM_CALLS := bc_physical_llm_calls c,
           TOOL_CALLS := bc_physical_tool_calls c, TOTAL_TOKENS := bc_actual_total_tokens c,
           REVIEW_ROUNDS := bc_review_rounds c, CORRECTION_ROUNDS := bc_correction_rounds c,
           PROFESSIONAL_CONCURRENCY := 0),
        bg_reserved_graph_steps := bc_reserved_graph_steps c,
        bg_logical_actions := bc_logical_actions c,
        bg_terminal_transitions := bc_terminal_transitions c,
        bg_terminal_budget_stops := bc_terminal_budget_stops c,
        bg_retries := bc_retries c,
        bg_llm_failures := bc_llm_failures c,
        bg_tool_failures := bc_tool_failures c,
        bg_cache_lookups := bc_cache_lookups c,
        bg_cache_hits := bc_cache_hits c,
        bg_peak_concurrency := bc_peak_professional_concurrency c,
        bg_events := bt_events t,
        bg_action_history := last_n 10 (started_calls (bt_events t)),
        bg_reads := Suc (Suc n)\<rparr>))"

end
