(* ===== verification/BudgetInvariant.thy ===== *)
theory BudgetInvariant
  imports BudgetGuard
begin

section \<open>The budget guard's invariant\<close>

text \<open>
  What the guard keeps true between calls, whether a call returns or raises: counters are
  non-negative, usage plus reservations stays within the active limit of every counted dimension,
  the token reservations are covered by the reserved total, the event log is numbered without gaps
  and the remembered tool calls are the last ten started ones of the log. Token usage may pass the
  active limit only after the provider reported more tokens than were reserved, which leaves an
  event of type \<^verbatim>\<open>llm_token_reservation_exceeded\<close>.
\<close>

definition overrun_logged :: "budget_guard \<Rightarrow> bool" where
  "overrun_logged g = (\<exists>e \<in> set (bg_events g). be_event_type e = ''llm_token_reservation_exceeded'')"

definition active_limit :: "budget_guard \<Rightarrow> budget_dimension \<Rightarrow> int" where
  "active_limit g d = lim_active (limit_of (bg_policy g) d)"

definition counters_inv :: "budget_guard \<Rightarrow> bool" where
  "counters_inv g = ((\<forall>d. 0 \<le> bg_counts g d) \<and> bg_counts g WALL_TIME_MS = 0 \<and>
     0 \<le> bg_reserved_graph_steps g \<and> 0 \<le> bg_reserved_tokens g \<and> 0 \<le> bg_logical_actions g \<and>
     0 \<le> bg_retries g \<and> 0 \<le> bg_llm_failures g \<and> 0 \<le> bg_tool_failures g \<and>
     0 \<le> bg_terminal_budget_stops g \<and> bg_terminal_budget_stops g \<le> bg_terminal_transitions g \<and>
     0 \<le> bg_cache_hits g \<and> bg_cache_hits g \<le> bg_cache_lookups g \<and>
     bg_counts g PROFESSIONAL_CONCURRENCY \<le> bg_peak_concurrency g)"

definition limits_inv :: "budget_guard \<Rightarrow> bool" where
  "limits_inv g = (bg_counts g GRAPH_STEPS + bg_reserved_graph_steps g \<le> active_limit g GRAPH_STEPS \<and>
     bg_counts g LLM_CALLS \<le> active_limit g LLM_CALLS \<and>
     bg_counts g TOOL_CALLS \<le> active_limit g TOOL_CALLS \<and>
     bg_counts g REVIEW_ROUNDS \<le> active_limit g REVIEW_ROUNDS \<and>
     bg_counts g CORRECTION_ROUNDS \<le> active_limit g CORRECTION_ROUNDS \<and>
     bg_peak_concurrency g \<le> active_limit g PROFESSIONAL_CONCURRENCY)"

definition reserved_sum :: "(uuid \<rightharpoonup> int) \<Rightarrow> int" where
  "reserved_sum m = (\<Sum>i \<in> dom m. the (m i))"

definition reservations_inv :: "budget_guard \<Rightarrow> bool" where
  "reservations_inv g = ((\<forall>i r. bg_llm_reservations g i = Some r \<longrightarrow> 1 \<le> r) \<and>
     reserved_sum (bg_llm_reservations g) \<le> bg_reserved_tokens g)"

definition tokens_inv :: "budget_guard \<Rightarrow> bool" where
  "tokens_inv g = (bg_counts g TOTAL_TOKENS + bg_reserved_tokens g \<le> active_limit g TOTAL_TOKENS \<or> overrun_logged g)"

definition log_inv :: "budget_guard \<Rightarrow> bool" where
  "log_inv g = (map be_sequence (bg_events g) = map int [1..<Suc (length (bg_events g))] \<and>
     list_all valid_event (bg_events g) \<and>
     bg_action_history g = last_n 10 (started_calls (bg_events g)))"

definition guard_inv :: "budget_guard \<Rightarrow> bool" where
  "guard_inv g = (valid_policy (bg_policy g) \<and> counters_inv g \<and> limits_inv g \<and> reservations_inv g \<and>
     tokens_inv g \<and> log_inv g)"

text \<open>What a call must establish: the invariant again, and no failed validation inside the guard.\<close>

abbreviation guard_post :: "'a \<Rightarrow> budget_guard \<Rightarrow> bool" where
  "guard_post \<equiv> \<lambda>_. guard_inv"

definition guard_err :: "budget_error \<Rightarrow> budget_guard \<Rightarrow> bool" where
  "guard_err e g = (e \<noteq> BudgetValidationError \<and> guard_inv g)"

lemmas guard_inv_defs = guard_inv_def counters_inv_def limits_inv_def reservations_inv_def tokens_inv_def

subsection \<open>Reservations\<close>

lemma finite_dom_uuid [simp]: "finite (dom (m :: uuid \<rightharpoonup> 'a))"
  by (rule finite_subset [OF subset_UNIV]) simp

lemma reserved_sum_remove: "m i = Some r \<Longrightarrow> reserved_sum (m(i := None)) = reserved_sum m - r"
proof -
  assume m: "m i = Some r"
  have "(\<Sum>j \<in> dom m - {i}. the ((m(i := None)) j)) = (\<Sum>j \<in> dom m - {i}. the (m j))"
    by (rule sum.cong) auto
  moreover have "reserved_sum m = r + (\<Sum>j \<in> dom m - {i}. the (m j))"
    using m sum.remove [of "dom m" i "\<lambda>j. the (m j)"] by (auto simp: reserved_sum_def)
  ultimately show ?thesis by (simp add: reserved_sum_def)
qed

lemma reserved_sum_fresh: "m i = None \<Longrightarrow> reserved_sum (m(i \<mapsto> r)) = r + reserved_sum m"
proof -
  assume "m i = None"
  then have i: "i \<notin> dom m" by (simp add: domIff)
  then have "(\<Sum>j \<in> dom m. the ((m(i \<mapsto> r)) j)) = reserved_sum m"
    unfolding reserved_sum_def by (intro sum.cong) auto
  with i show ?thesis
    by (simp add: reserved_sum_def)
qed

lemma reserved_sum_upd:
  assumes "\<forall>i r. m i = Some r \<longrightarrow> 1 \<le> r"
  shows "reserved_sum (m(i \<mapsto> r)) \<le> r + reserved_sum m"
proof (cases "m i")
  case None
  then show ?thesis by (simp add: reserved_sum_fresh)
next
  case (Some q)
  have "reserved_sum (m(i \<mapsto> r)) = r + reserved_sum (m(i := None))"
    using reserved_sum_fresh [of "m(i := None)" i r] by simp
  with Some assms show ?thesis
    by (force simp: reserved_sum_remove)
qed

lemma reserved_sum_nonneg: "\<forall>i r. m i = Some r \<longrightarrow> 1 \<le> r \<Longrightarrow> 0 \<le> reserved_sum m"
  unfolding reserved_sum_def by (rule sum_nonneg) (force simp: dom_def)

lemma reserved_sum_member:
  assumes "\<forall>i r. m i = Some r \<longrightarrow> 1 \<le> r" "m i = Some r"
  shows "r \<le> reserved_sum m"
proof -
  have "0 \<le> reserved_sum (m(i := None))"
    using assms(1) by (intro reserved_sum_nonneg) auto
  with assms(2) show ?thesis by (simp add: reserved_sum_remove)
qed

lemma reserved_sum_zero:
  "\<forall>i r. m i = Some r \<longrightarrow> 1 \<le> r \<Longrightarrow> reserved_sum m \<le> 0 \<Longrightarrow> m = Map.empty"
proof (rule ext)
  fix i
  assume "\<forall>i r. m i = Some r \<longrightarrow> 1 \<le> r" "reserved_sum m \<le> 0"
  then show "m i = None"
    using reserved_sum_member [of m i] by (cases "m i") force+
qed

subsection \<open>The event log\<close>

lemma started_calls_append [simp]: "started_calls (xs @ ys) = started_calls xs @ started_calls ys"
  by (simp add: started_calls_def)

lemma started_calls_other: "be_event_type e \<noteq> ''tool_call_started'' \<Longrightarrow> started_calls [e] = []"
  by (simp add: started_calls_def split: option.split)

lemma started_calls_event:
  "be_event_type e = ''tool_call_started'' \<Longrightarrow> be_action_signature e = Some s \<Longrightarrow>
   be_observation_sha256 e = Some obs \<Longrightarrow> started_calls [e] = [(s, obs)]"
  by (simp add: started_calls_def)

definition args_ok :: "record_args \<Rightarrow> bool" where
  "args_ok a = (text_len 1 128 (ra_event_type a) \<and> 0 \<le> ra_amount a \<and> 0 \<le> ra_before a \<and> 0 \<le> ra_after a \<and>
     opt_all (text_len 0 128) (ra_error_code a) \<and> opt_all (text_len 0 512) (ra_action_signature a) \<and>
     opt_all is_sha256 (ra_observation_sha256 a))"

lemma valid_policy_limit: "valid_policy p \<Longrightarrow> valid_limit (limit_of p d)"
  by (cases d) (simp_all add: valid_policy_def)

lemma valid_event_of:
  assumes "valid_policy (bg_policy g)" "args_ok a" "0 \<le> ms"
  shows "valid_event (event_of g a ms)"
proof -
  have "0 \<le> lim_active (limit_of (bg_policy g) d) \<and> 0 \<le> lim_hard (limit_of (bg_policy g) d)" for d
    using valid_policy_limit [OF assms(1)] by (simp add: valid_limit_def)
  with assms(2,3) show ?thesis
    by (cases "ra_dimension a") (simp_all add: valid_event_def event_of_def args_ok_def)
qed

lemma event_of_simps [simp]:
  "be_sequence (event_of g a ms) = int (length (bg_events g)) + 1"
  "be_event_type (event_of g a ms) = ra_event_type a"
  "be_action_signature (event_of g a ms) = ra_action_signature a"
  "be_observation_sha256 (event_of g a ms) = ra_observation_sha256 a"
  "be_decision (event_of g a ms) = ra_decision a"
  by (simp_all add: event_of_def)

lemma rec_simps [simp]:
  "ra_event_type (rec0 t x) = t" "ra_decision (rec0 t x) = x" "ra_amount (rec0 t x) = 0"
  "ra_before (rec0 t x) = 0" "ra_after (rec0 t x) = 0" "ra_error_code (rec0 t x) = None"
  "ra_action_signature (rec0 t x) = None" "ra_observation_sha256 (rec0 t x) = None"
  "ra_event_type (rec_dim t x d n b c) = t" "ra_decision (rec_dim t x d n b c) = x"
  "ra_amount (rec_dim t x d n b c) = n" "ra_before (rec_dim t x d n b c) = b"
  "ra_after (rec_dim t x d n b c) = c" "ra_error_code (rec_dim t x d n b c) = None"
  "ra_action_signature (rec_dim t x d n b c) = None" "ra_observation_sha256 (rec_dim t x d n b c) = None"
  by (simp_all add: rec0_def rec_dim_def)

text \<open>The state after a successful check differs only in the number of clock readings; after a
  refused one it also has the event of the refusal.\<close>

abbreviation ticked :: "budget_guard \<Rightarrow> nat \<Rightarrow> budget_guard" where
  "ticked g n \<equiv> g\<lparr>bg_reads := n\<rparr>"

abbreviation logged :: "budget_guard \<Rightarrow> nat \<Rightarrow> budget_event \<Rightarrow> budget_guard" where
  "logged g n e \<equiv> g\<lparr>bg_events := bg_events g @ [e], bg_reads := n\<rparr>"

lemma inv_ticked [simp]:
  "counters_inv (ticked g n) = counters_inv g" "limits_inv (ticked g n) = limits_inv g"
  "reservations_inv (ticked g n) = reservations_inv g" "tokens_inv (ticked g n) = tokens_inv g"
  "log_inv (ticked g n) = log_inv g" "guard_inv (ticked g n) = guard_inv g"
  by (simp_all add: guard_inv_defs log_inv_def active_limit_def overrun_logged_def)

definition log_step :: "budget_guard \<Rightarrow> budget_event \<Rightarrow> bool" where
  "log_step g e = (be_sequence e = int (length (bg_events g)) + 1 \<and> valid_event e)"

lemma log_step_event_of:
  "valid_policy (bg_policy g) \<Longrightarrow> args_ok a \<Longrightarrow> 0 \<le> ms \<Longrightarrow> log_step g (event_of g a ms)"
  by (simp add: log_step_def valid_event_of)

lemma inv_logged [simp]:
  "counters_inv (logged g n e) = counters_inv g" "limits_inv (logged g n e) = limits_inv g"
  "reservations_inv (logged g n e) = reservations_inv g"
  by (simp_all add: guard_inv_defs active_limit_def)

lemma tokens_inv_logged [intro]: "tokens_inv g \<Longrightarrow> tokens_inv (logged g n e)"
  by (auto simp: tokens_inv_def active_limit_def overrun_logged_def)

lemma log_inv_logged [intro]:
  "log_inv g \<Longrightarrow> log_step g e \<Longrightarrow> be_event_type e \<noteq> ''tool_call_started'' \<Longrightarrow> log_inv (logged g n e)"
  by (simp add: log_inv_def log_step_def started_calls_other)

lemma guard_inv_logged [intro]:
  "guard_inv g \<Longrightarrow> log_step g e \<Longrightarrow> be_event_type e \<noteq> ''tool_call_started'' \<Longrightarrow> guard_inv (logged g n e)"
  unfolding guard_inv_def
  by (intro conjI log_inv_logged tokens_inv_logged)
    (simp_all only: inv_logged, simp_all)

subsection \<open>Rules for the guard's internal calls\<close>

lemma events_after_tick: "(ticked g n)\<lparr>bg_events := es\<rparr> = g\<lparr>bg_events := es, bg_reads := n\<rparr>"
  by (cases g) simp

lemma elapsed_ms_rule:
  "(\<And>ms. 0 \<le> ms \<Longrightarrow> Q ms (ticked g (Suc (bg_reads g)))) \<Longrightarrow> wp (elapsed_ms env) Q E g"
  by (simp add: elapsed_ms_def wp_simps)

lemma record_event_rule:
  assumes "valid_policy (bg_policy g)" "args_ok a"
    and "\<And>ms n. 0 \<le> ms \<Longrightarrow> Q () (logged g n (event_of g a ms))"
  shows "wp (record_event env a) Q E g"
  unfolding record_event_def wp_bindP
proof (rule elapsed_ms_rule)
  fix ms :: int
  assume ms: "0 \<le> ms"
  have "event_of (ticked g n) a ms = event_of g a ms" for n
    by (simp add: event_of_def)
  with ms assms show "wp (gets (\<lambda>g. event_of g a ms)) (\<lambda>x. wp (if valid_event x
      then modify (\<lambda>g. g\<lparr>bg_events := bg_events g @ [x]\<rparr>) else raise BudgetValidationError) Q E) E
      (ticked g (Suc (bg_reads g)))"
    by (simp add: wp_simps valid_event_of events_after_tick)
qed

lemma valid_counters_of: "counters_inv g \<Longrightarrow> valid_counters (counters_of g)"
  by (auto simp: valid_counters_def counters_of_def counters_inv_def intro: order_trans)

lemma telemetry_rule:
  assumes "counters_inv g"
    and "\<And>t n. bt_counters t = counters_of g \<Longrightarrow> bt_policy t = bg_policy g \<Longrightarrow> bt_events t = bg_events g \<Longrightarrow>
      Q t (ticked g n)"
  shows "wp (telemetry env) Q E g"
proof -
  have "counters_of (ticked g n) = counters_of g" for n
    by (simp add: counters_of_def)
  with assms show ?thesis
    unfolding telemetry_def wp_bindP by (intro elapsed_ms_rule) (simp add: wp_simps valid_counters_of)
qed

text \<open>Recording a refusal and raising: one event, then a typed stop.\<close>

lemma deny_rule:
  assumes "guard_inv g" "args_ok a" "ra_event_type a \<noteq> ''tool_call_started''"
    and "\<And>t e n. log_step g e \<Longrightarrow> be_event_type e = ra_event_type a \<Longrightarrow>
      E (BudgetExceeded code cause impact next t) (logged g n e)"
  shows "wp (thenP (record_event env a) (raise_exceeded env code cause impact next)) Q E g"
proof -
  have p: "valid_policy (bg_policy g)" and c: "counters_inv g"
    using assms(1) by (simp_all add: guard_inv_def)
  have "wp (raise_exceeded env code cause impact next) Q E (logged g n (event_of g a ms))"
    if "0 \<le> ms" for ms n
    unfolding raise_exceeded_def wp_bindP
  proof (rule telemetry_rule)
    show "counters_inv (logged g n (event_of g a ms))"
      using c by (simp only: inv_logged)
    fix t m
    have "log_step g (event_of g a ms)"
      using p assms(2) that by (rule log_step_event_of)
    then show "wp (raise (BudgetExceeded code cause impact next t)) Q E (ticked (logged g n (event_of g a ms)) m)"
      using assms(4) [of "event_of g a ms" t m] by (simp add: wp_simps)
  qed
  then show ?thesis
    unfolding wp_thenP using p assms(2) by (intro record_event_rule) simp_all
qed

lemma text_len_code [simp]:
  "text_len 0 128 ''BUDGET_HARD_TIME_EXCEEDED''" "text_len 0 128 ''BUDGET_ACTIVE_TIME_EXCEEDED''"
  "text_len 0 128 ''BUDGET_HARD_LIMIT_EXCEEDED''" "text_len 0 128 ''BUDGET_ACTIVE_LIMIT_EXCEEDED''"
  by (simp_all add: text_len_def)

lemma check_time_rule:
  assumes "guard_inv g"
    and "\<And>n. Q () (ticked g n)"
    and "\<And>e x n. log_step g x \<Longrightarrow> be_event_type x \<noteq> ''tool_call_started'' \<Longrightarrow> e \<noteq> BudgetValidationError \<Longrightarrow> E e (logged g n x)"
  shows "wp (check_time env) Q E g"
  unfolding check_time_def wp_bindP
proof (rule elapsed_ms_rule)
  fix ms :: int
  assume ms: "0 \<le> ms"
  show "wp (gets bg_policy) (\<lambda>p. wp (case time_code (bp_wall_time_ms p) ms of None \<Rightarrow> ret ()
      | Some code \<Rightarrow> thenP
         (record_event env ((rec_dim ''wall_time_denied'' DENIED WALL_TIME_MS 0 ms ms)\<lparr>ra_error_code := Some code\<rparr>))
         (raise_exceeded env code ''The task wall-time limit has been reached.''
           ''No new guarded call was started.''
           ''Return the preserved partial result or resume under an approved policy.'')) Q E) E
      (ticked g (Suc (bg_reads g)))"
  proof (cases "time_code (bp_wall_time_ms (bg_policy g)) ms")
    case None
    with assms(2) show ?thesis by (simp add: wp_simps)
  next
    case (Some code)
    then have "text_len 0 128 code"
      by (auto simp: time_code_def split: if_splits)
    then show ?thesis
      using Some assms ms
      by (simp add: wp_gets) (rule deny_rule, auto simp: args_ok_def text_len_def log_step_def)
  qed
qed

lemma ensure_capacity_at_rule:
  assumes "guard_inv g" "0 \<le> amount" "0 \<le> current" "text_len 1 128 t" "t \<noteq> ''tool_call_started''"
    and "current + amount \<le> active_limit g d \<Longrightarrow> Q () g"
    and "\<And>e x n. log_step g x \<Longrightarrow> be_event_type x \<noteq> ''tool_call_started'' \<Longrightarrow> e \<noteq> BudgetValidationError \<Longrightarrow> E e (logged g n x)"
  shows "wp (ensure_capacity_at env d amount t current) Q E g"
proof (cases "capacity_code (limit_of (bg_policy g) d) (current + amount)")
  case None
  then have "current + amount \<le> active_limit g d"
    by (auto simp: capacity_code_def active_limit_def split: if_splits)
  with None assms(6) show ?thesis by (simp add: ensure_capacity_at_def wp_simps)
next
  case (Some code)
  then have "text_len 0 128 code"
    by (auto simp: capacity_code_def split: if_splits)
  then show ?thesis
    using Some assms unfolding ensure_capacity_at_def wp_bindP wp_gets
    by simp (rule deny_rule, auto simp: args_ok_def text_len_def)
qed

lemma ensure_capacity_rule:
  assumes "guard_inv g" "0 \<le> amount" "text_len 1 128 t" "t \<noteq> ''tool_call_started''"
    and "bg_counts g d + amount \<le> active_limit g d \<Longrightarrow> Q () g"
    and "\<And>e x n. log_step g x \<Longrightarrow> be_event_type x \<noteq> ''tool_call_started'' \<Longrightarrow> e \<noteq> BudgetValidationError \<Longrightarrow> E e (logged g n x)"
  shows "wp (ensure_capacity env d amount t) Q E g"
  unfolding ensure_capacity_def wp_bindP wp_gets
  using assms by (intro ensure_capacity_at_rule) (auto simp: guard_inv_def counters_inv_def)

lemma ensure_token_capacity_rule:
  assumes "guard_inv g" "0 \<le> amount" "text_len 1 128 t" "t \<noteq> ''tool_call_started''"
    and "bg_counts g TOTAL_TOKENS + bg_reserved_tokens g + amount \<le> active_limit g TOTAL_TOKENS \<Longrightarrow> Q () g"
    and "\<And>e x n. log_step g x \<Longrightarrow> be_event_type x \<noteq> ''tool_call_started'' \<Longrightarrow> e \<noteq> BudgetValidationError \<Longrightarrow> E e (logged g n x)"
  shows "wp (ensure_token_capacity env amount t) Q E g"
  unfolding ensure_token_capacity_def wp_bindP wp_gets
  using assms by (intro ensure_capacity_at_rule) (auto simp: guard_inv_def counters_inv_def)

lemma degradation_stage_ticked [simp]: "degradation_stage_of (ticked g n) ms = degradation_stage_of g ms"
proof -
  have "stage_usage (ticked g n) ms = stage_usage g ms"
    by (simp add: stage_usage_def fun_eq_iff)
  then show ?thesis
    by (simp add: degradation_stage_of_def stage_ratios_def)
qed

lemma text_len_stage: "length (stage_value st) \<le> 16" "0 < length (stage_value st)"
  "length (action_class_value c) \<le> 16"
  by (cases st; simp)+ (cases c; simp)

lemma authorize_action_rule:
  assumes "guard_inv g"
    and "\<And>n ms. 0 \<le> ms \<Longrightarrow> \<not> stage_denies (degradation_stage_of g ms) c \<Longrightarrow> Q () (ticked g n)"
    and err: "\<And>e x n. log_step g x \<Longrightarrow> be_event_type x \<noteq> ''tool_call_started'' \<Longrightarrow> e \<noteq> BudgetValidationError \<Longrightarrow> E e (logged g n x)"
  shows "wp (authorize_action env c) Q E g"
  unfolding authorize_action_def wp_thenP
proof (rule check_time_rule [OF assms(1)], goal_cases)
  case (1 n)
  show ?case
    unfolding wp_bindP
  proof (rule elapsed_ms_rule, goal_cases)
    case (1 ms)
    let ?stage = "degradation_stage_of g ms"
    let ?code = "''BUDGET_DEGRADATION_'' @ stage_value ?stage"
    have "length ?code \<le> 128" "length (action_class_value c) \<le> 512"
      using text_len_stage(1) [of ?stage] text_len_stage(3) [of c] by simp_all
    then have "args_ok ((rec0 ''degradation_action_denied'' DENIED)
        \<lparr>ra_error_code := Some ?code, ra_action_signature := Some (action_class_value c)\<rparr>)"
      by (simp add: args_ok_def text_len_def)
    then show ?case
      using 1 assms unfolding wp_gets
      by (simp add: wp_ret Let_def) (auto intro!: deny_rule simp: log_step_def)
  qed
qed (rule err)

text \<open>A standard action is only allowed while every tracked dimension is strictly below its active limit.\<close>

lemma fold_max_ge: "r \<le> fold max rs (r :: rat) \<and> (\<forall>x \<in> set rs. x \<le> fold max rs r)"
proof (induction rs arbitrary: r)
  case (Cons a rs)
  from Cons [of "max a r"] show ?case by auto
qed simp

lemma max_ratio_ge: "x \<in> set rs \<Longrightarrow> x \<le> max_ratio rs"
  using fold_max_ge by (cases rs) (auto simp: max_ratio_def)

lemma stage_of_ratio_standard: "\<not> stage_denies (stage_of_ratio r) STANDARD \<Longrightarrow> r < 95 / 100"
  by (auto simp: stage_of_ratio_def split: if_splits)

lemma standard_below_limit:
  assumes "\<not> stage_denies (degradation_stage_of g ms) STANDARD"
    and "d \<in> set stage_dimensions" "0 < active_limit g d"
  shows "stage_usage g ms d < active_limit g d"
proof -
  let ?l = "active_limit g d"
  have "of_int (stage_usage g ms d) / of_int ?l \<in> set (stage_ratios g ms)"
    using assms(2,3) by (auto simp: stage_ratios_def active_limit_def)
  then have "of_int (stage_usage g ms d) / of_int ?l < (95 / 100 :: rat)"
    using assms(1) stage_of_ratio_standard max_ratio_ge
    by (metis degradation_stage_of_def order_le_less_trans)
  then have "of_int (stage_usage g ms d) < (95 / 100 :: rat) * of_int ?l"
    using assms(3) by (simp add: divide_less_eq)
  also have "\<dots> \<le> of_int ?l"
    using assms(3) by simp
  finally show ?thesis by simp
qed

subsection \<open>Every operation keeps the invariant\<close>

lemma guard_err_logged:
  "guard_inv g \<Longrightarrow> log_step g e \<Longrightarrow> be_event_type e \<noteq> ''tool_call_started'' \<Longrightarrow> x \<noteq> BudgetValidationError \<Longrightarrow>
   guard_err x (logged g n e)"
  unfolding guard_err_def by (intro conjI guard_inv_logged)

lemma guard_err_ticked_logged:
  "guard_inv g \<Longrightarrow> log_step (ticked g m) e \<Longrightarrow> be_event_type e \<noteq> ''tool_call_started'' \<Longrightarrow> x \<noteq> BudgetValidationError \<Longrightarrow>
   guard_err x (logged (ticked g m) n e)"
  by (rule guard_err_logged) simp_all

end
