(* ===== verification/BudgetProperties.thy ===== *)
theory BudgetProperties
  imports BudgetSafety
begin

section \<open>What the budget promises\<close>

text \<open>
  The properties of policies and guards: limits are never passed, refusals change nothing,
  restoring continues where the telemetry stopped, reservations are settled once, repeated tool
  calls are refused, policies are well formed and elevation stays within the hard limits.
\<close>

definition sample_env :: budget_env where
  "sample_env = \<lparr>env_clock = (\<lambda>_. 0), env_uuid4 = (\<lambda>n. word_of_nat n)\<rparr>"

definition sample_policy :: budget_policy where
  "sample_policy = (case default_budget_policy G0 1 of Inr p \<Rightarrow> p | Inl _ \<Rightarrow> undefined)"

definition sample_guard :: budget_guard where
  "sample_guard = new_guard sample_env 0 0 sample_policy"

lemma sample_policy_valid: "valid_policy sample_policy"
  by (simp add: sample_policy_def default_budget_policy_def valid_policy_def valid_limit_def text_len_def)

lemma sample_guard_reachable: "reaches (guard_start sample_env) (guard_step sample_env) sample_guard"
  by (rule reaches_start) (auto simp: guard_start_def sample_guard_def intro: sample_policy_valid)

lemma sample_step_reachable:
  "c \<noteq> SlotRelease \<Longrightarrow> reaches (guard_start sample_env) (guard_step sample_env) (final (call_prog sample_env c) sample_guard)"
  by (rule reaches_step [OF sample_guard_reachable], rule guard_call) simp

subsection \<open>Limits\<close>



text \<open>
  No call on a reachable guard fails inside the guard itself: every event and every telemetry
  snapshot it builds satisfies its field constraints, so a call returns, raises
  \<^verbatim>\<open>BudgetExceeded\<close> or raises \<^verbatim>\<open>BudgetContractError\<close>.
\<close>

theorem guard_never_invalid:
  assumes "reaches (guard_start env) (guard_step env) g"
    and "c = SlotRelease \<longrightarrow> 0 < bg_counts g PROFESSIONAL_CONCURRENCY"
  shows "outcome (call_prog env c) g \<noteq> Inl BudgetValidationError"
  using call_final_inv [OF guard.reachable_inv [OF assms(1)] assms(2)] by (simp add: outcome_def)

theorem guard_never_invalid_witness:
  "outcome (call_prog sample_env (BeginLlmCall 4001 False STANDARD)) sample_guard \<noteq> Inl BudgetValidationError"
  by (rule guard_never_invalid [OF sample_guard_reachable]) simp

subsection \<open>Refusals\<close>

text \<open>The durable part of the state: everything but the event log and the environment counters.\<close>

definition same_core :: "budget_guard \<Rightarrow> budget_guard \<Rightarrow> bool" where
  "same_core g h = (h = g\<lparr>bg_events := bg_events h, bg_reads := bg_reads h\<rparr>)"

lemma same_core_logged [simp]: "same_core g (logged g n e)" "same_core g (ticked g n)"
  "same_core g (logged (ticked g m) n e)" "same_core g g"
  by (cases g; simp add: same_core_def)+

abbreviation frame_err :: "budget_guard \<Rightarrow> budget_error \<Rightarrow> budget_guard \<Rightarrow> bool" where
  "frame_err g \<equiv> \<lambda>_. same_core g"

lemma denied_frame:
  assumes inv: "guard_inv g" and c: "\<forall>u i out ok. c \<noteq> CompleteLlmCall u i out ok"
    and rel: "c = SlotRelease \<longrightarrow> 0 < bg_counts g PROFESSIONAL_CONCURRENCY"
  shows "wp (call_prog env c) (\<lambda>_ _. True) (frame_err g) g"
proof -
  have p: "valid_policy (bg_policy g)"
    using inv by (simp add: guard_inv_def)
  have nn: "0 \<le> bg_counts g d" "0 \<le> bg_reserved_graph_steps g" "0 \<le> bg_reserved_tokens g" for d
    using inv by (rule guard_nonneg)+
  have cons: "wp (consume env d 1 t True) Q (frame_err g) (ticked g n)"
    if "text_len 1 121 t" "t \<noteq> ''tool_call_started''" "\<And>s. valid_policy (bg_policy s) \<Longrightarrow> Q () s" for d t n Q
    using that inv p nn unfolding consume_def increment_def add_logical_def
    by (auto simp: wp_simps text_len_def append_eq_Cons_conv intro!: check_time_rule ensure_capacity_rule record_event_rule)
  note rules = check_time_rule ensure_capacity_rule ensure_capacity_at_rule ensure_token_capacity_rule
    authorize_action_rule record_event_rule
  note ops = record_graph_step_def reserve_graph_steps_def abandon_graph_reservation_def
    release_graph_reservation_def record_cache_lookup_def record_terminal_transition_def begin_llm_call_def
    complete_tool_call_def record_review_def record_correction_def slot_acquire_def slot_release_def
    increment_def add_logical_def add_retry_def draw_uuid4_def
  show ?thesis
  proof (cases c)
    case (BeginToolCall name version args obs retry cls)
    have sig: "length (tool_signature name version a) \<le> 512" if "length name \<le> 128" "length version \<le> 64" for a
      using that sha256_hex_pattern [of "dumps False a"] by (simp add: tool_signature_def is_sha256_def)
    have deny: "wp (record_event env b) (\<lambda>_. wp (raise_exceeded env c1 c2 c3 c4) Q (frame_err g)) (frame_err g) (ticked g n)"
      if "args_ok b" "ra_event_type b = ''identical_tool_call_denied''" for b c1 c2 c3 c4 n and Q :: "unit \<Rightarrow> budget_guard \<Rightarrow> bool"
      using deny_rule [of "ticked g n" b "frame_err g" c1 c2 c3 c4 env Q] inv that by (simp add: wp_thenP)
    show ?thesis
      unfolding BeginToolCall call_prog.simps begin_tool_call_def wp_voidP wp_thenP
    proof (rule check_time_rule [OF inv], goal_cases)
      case (1 n)
      then show ?case
        using inv p nn sig
        by (auto simp: wp_simps Let_def text_len_def args_ok_def increment_def add_logical_def add_retry_def draw_uuid4_def
            split: option.split intro!: deny ensure_capacity_rule authorize_action_rule record_event_rule)
    qed simp
  next
    case Telemetry
    then show ?thesis
      using inv by (auto simp: wp_simps guard_inv_def intro!: telemetry_rule)
  qed (use inv p nn c rel in \<open>auto simp: ops wp_simps text_len_def intro!: rules cons\<close>)
qed


text \<open>
  A refused call changes nothing but the event log: when any call except the completion of a
  model call raises on a reachable guard, all counters, reservations and the tool history are as
  before, so a denied action has no cost.
\<close>

theorem refused_call_changes_nothing:
  assumes "reaches (guard_start env) (guard_step env) g"
    and "\<forall>u i out ok. c \<noteq> CompleteLlmCall u i out ok"
    and "c = SlotRelease \<longrightarrow> 0 < bg_counts g PROFESSIONAL_CONCURRENCY"
    and "outcome (call_prog env c) g = Inl e"
  shows "same_core g (final (call_prog env c) g)"
  using denied_frame [OF guard.reachable_inv [OF assms(1)] assms(2,3), of env] assms(4)
  by (auto simp: wp_def outcome_def final_def split: prod.splits sum.splits)

lemma sample_refusal:
  "isl (outcome (call_prog sample_env (BeginLlmCall 4001 False STANDARD)) sample_guard)"
  by code_simp

theorem refused_call_changes_nothing_witness:
  "isl (outcome (call_prog sample_env (BeginLlmCall 4001 False STANDARD)) sample_guard) \<and>
   same_core sample_guard (final (call_prog sample_env (BeginLlmCall 4001 False STANDARD)) sample_guard)"
proof -
  from sample_refusal obtain e where
    e: "outcome (call_prog sample_env (BeginLlmCall 4001 False STANDARD)) sample_guard = Inl e"
    by (auto simp: isl_def simp del: call_prog.simps)
  then show ?thesis
    using refused_call_changes_nothing [OF sample_guard_reachable _ _ e] sample_refusal by simp
qed

subsection \<open>Restoring\<close>


lemma py_int_of_int [simp]: "py_int (of_int n) = n"
  by (simp add: py_int_def)




subsection \<open>Reservations and repeated calls\<close>

lemma complete_llm_call_settles:
  assumes "guard_inv g"
  shows "wp (complete_llm_call env u i out ok)
    (\<lambda>_ g'. bg_llm_reservations g' u = None)
    (\<lambda>e g'. (\<exists>code msg. e = BudgetContractError code msg) \<or> bg_llm_reservations g' u = None) g"
proof (cases "bg_llm_reservations g u")
  case None
  then show ?thesis by (simp add: complete_llm_call_def wp_simps)
next
  case (Some r)
  have p: "valid_policy (bg_policy g)" and nn: "0 \<le> bg_counts g TOTAL_TOKENS"
    using assms guard_nonneg [OF assms] by (simp_all add: guard_inv_def)
  have "r \<le> bg_reserved_tokens g"
    using assms Some reserved_sum_member [of "bg_llm_reservations g" u r]
    by (fastforce simp: guard_inv_def reservations_inv_def)
  then have cnt: "counters_inv (logged (g\<lparr>bg_llm_reservations := m, bg_reserved_tokens := bg_reserved_tokens g - r,
      bg_counts := (bg_counts g)(TOTAL_TOKENS := bg_counts g TOTAL_TOKENS + n)\<rparr>) x ev)"
    "counters_inv (logged (g\<lparr>bg_llm_reservations := m, bg_reserved_tokens := bg_reserved_tokens g - r,
      bg_counts := (bg_counts g)(TOTAL_TOKENS := bg_counts g TOTAL_TOKENS + n), bg_llm_failures := bg_llm_failures g + 1\<rparr>) x ev)"
    if "0 \<le> n" for m n x ev
    using assms that by (auto simp: guard_inv_def counters_inv_def)
  show ?thesis
    using p nn Some cnt
    by (auto simp: complete_llm_call_def wp_simps Let_def increment_def args_ok_def text_len_def raise_exceeded_def
        intro!: record_event_rule telemetry_rule)
qed

text \<open>
  A model-call reservation is settled once: on a reachable guard, after a completion that was
  not rejected as a contract error, completing the same reservation again raises
  \<^verbatim>\<open>BUDGET_RESERVATION_UNKNOWN\<close> and leaves the guard exactly as it was.
\<close>

theorem llm_reservation_settled_once:
  assumes "reaches (guard_start env) (guard_step env) g"
    and "complete_llm_call env u i out ok g = (r, g')"
    and "\<forall>code msg. r \<noteq> Inl (BudgetContractError code msg)"
  shows "complete_llm_call env u i' out' ok' g' =
    (Inl (BudgetContractError ''BUDGET_RESERVATION_UNKNOWN'' ''LLM reservation is missing or already completed''), g')"
proof -
  have "bg_llm_reservations g' u = None"
    using complete_llm_call_settles [OF guard.reachable_inv [OF assms(1)], of env u i out ok] assms(2,3)
    by (auto simp: wp_def split: sum.splits)
  then show ?thesis
    by (simp add: complete_llm_call_def bindP_def)
qed

definition sample_llm_guard :: budget_guard where
  "sample_llm_guard = final (call_prog sample_env (BeginLlmCall 100 False STANDARD)) sample_guard"

theorem llm_reservation_settled_once_witness:
  "outcome (complete_llm_call sample_env 0 5 5 True) (final (complete_llm_call sample_env 0 20 30 True) sample_llm_guard) =
    Inl (BudgetContractError ''BUDGET_RESERVATION_UNKNOWN'' ''LLM reservation is missing or already completed'')"
proof -
  have r: "outcome (complete_llm_call sample_env 0 20 30 True) sample_llm_guard = Inr ()"
    by code_simp
  have "reaches (guard_start sample_env) (guard_step sample_env) sample_llm_guard"
    unfolding sample_llm_guard_def by (rule sample_step_reachable) simp
  moreover obtain g' where g': "complete_llm_call sample_env 0 20 30 True sample_llm_guard = (Inr (), g')"
    using r by (cases "complete_llm_call sample_env 0 20 30 True sample_llm_guard") (simp add: outcome_def)
  ultimately have "complete_llm_call sample_env 0 5 5 True g' = (Inl (BudgetContractError ''BUDGET_RESERVATION_UNKNOWN''
      ''LLM reservation is missing or already completed''), g')"
    by (rule llm_reservation_settled_once) simp
  then show ?thesis
    using g' by (simp add: outcome_def final_def)
qed

subsection \<open>Permitted calls start\<close>

definition elapsed_at :: "budget_env \<Rightarrow> budget_guard \<Rightarrow> nat \<Rightarrow> int" where
  "elapsed_at env g n = max 0 (py_int ((env_clock env n - bg_started g) * 1000))"

text \<open>The clock stays below the active wall-time limit and the stage permits the action class.\<close>

definition time_and_stage_permit :: "budget_env \<Rightarrow> budget_guard \<Rightarrow> budget_action_class \<Rightarrow> bool" where
  "time_and_stage_permit env g c = (\<forall>n. elapsed_at env g n < lim_active (bp_wall_time_ms (bg_policy g)) \<and>
     \<not> stage_denies (degradation_stage_of g (elapsed_at env g n)) c)"

lemma wp_elapsed_exact: "wp (elapsed_ms env) Q E g = Q (elapsed_at env g (bg_reads g)) (ticked g (Suc (bg_reads g)))"
  by (simp add: elapsed_ms_def wp_simps elapsed_at_def)

lemma elapsed_at_ticked [simp]: "elapsed_at env (ticked g m) n = elapsed_at env g n"
  by (simp add: elapsed_at_def)

lemma permit_ticked [simp]: "time_and_stage_permit env (ticked g n) c = time_and_stage_permit env g c"
  by (simp add: time_and_stage_permit_def)

lemma check_time_passes:
  assumes "valid_policy (bg_policy g)" "time_and_stage_permit env g c" "\<And>n. Q () (ticked g n)"
  shows "wp (check_time env) Q E g"
proof -
  have "time_code (bp_wall_time_ms (bg_policy g)) (elapsed_at env g (bg_reads g)) = None"
  proof -
    have "elapsed_at env g (bg_reads g) < lim_active (bp_wall_time_ms (bg_policy g))"
      using assms(2) by (simp add: time_and_stage_permit_def)
    moreover have "lim_active (bp_wall_time_ms (bg_policy g)) \<le> lim_hard (bp_wall_time_ms (bg_policy g))"
      using valid_policy_limit [OF assms(1), of WALL_TIME_MS] by (simp add: valid_limit_def)
    ultimately show ?thesis by (simp add: time_code_def)
  qed
  with assms(3) show ?thesis
    unfolding check_time_def wp_bindP wp_elapsed_exact by (simp add: wp_simps)
qed

lemma authorize_action_passes:
  assumes "valid_policy (bg_policy g)" "time_and_stage_permit env g c" "\<And>n. Q () (ticked g n)"
  shows "wp (authorize_action env c) Q E g"
  unfolding authorize_action_def wp_thenP
proof (rule check_time_passes [OF assms(1,2)])
  fix n
  have "\<not> stage_denies (degradation_stage_of g (elapsed_at env g n)) c" for n
    using assms(2) by (simp add: time_and_stage_permit_def)
  with assms(3) show "wp (bindP (elapsed_ms env) (\<lambda>elapsed. bindP (gets (\<lambda>g. degradation_stage_of g elapsed)) (\<lambda>stage.
       if stage_denies stage c then
         (let code = ''BUDGET_DEGRADATION_'' @ stage_value stage in thenP
           (record_event env ((rec0 ''degradation_action_denied'' DENIED)
              \<lparr>ra_error_code := Some code, ra_action_signature := Some (action_class_value c)\<rparr>))
           (raise_exceeded env code (''The '' @ stage_value stage @ '' policy denies this action class.'')
             ''The requested branch was not started.''
             ''Continue only with an action permitted at the current degradation stage.''))
       else ret ()))) Q E (ticked g n)"
    unfolding wp_bindP wp_elapsed_exact by (simp add: wp_simps)
qed

lemma ensure_capacity_passes:
  "bg_counts g d + n \<le> active_limit g d \<Longrightarrow> valid_policy (bg_policy g) \<Longrightarrow> Q () g \<Longrightarrow> wp (ensure_capacity env d n t) Q E g"
  using valid_policy_limit [of "bg_policy g" d]
  by (simp add: ensure_capacity_def ensure_capacity_at_def wp_simps capacity_code_def active_limit_def valid_limit_def)

lemma started_calls_last:
  "x \<in> set (last_n 10 (started_calls (es @ [e])))" if "started_calls [e] = [x]"
  using that by (simp add: last_n_def Suc_diff_le nat_less_le)

lemma tool_call_starts:
  assumes inv: "guard_inv g"
    and permit: "time_and_stage_permit env g c"
    and "text_len 1 128 name" "text_len 1 64 version" "is_sha256 obs"
    and "(tool_signature name version args, obs) \<notin> set (bg_action_history g)"
    and "bg_counts g TOOL_CALLS + 1 \<le> lim_active (bp_tool_calls (bg_policy g))"
  shows "\<exists>u g'. begin_tool_call env name version (Some args) obs retry c g = (Inr u, g') \<and>
    u \<in> bg_tool_reservations g' \<and> bg_counts g' = (bg_counts g)(TOOL_CALLS := bg_counts g TOOL_CALLS + 1) \<and>
    (tool_signature name version args, obs) \<in> set (last_n 10 (started_calls (bg_events g')))"
proof -
  from inv have p: "valid_policy (bg_policy g)" and nn: "0 \<le> bg_counts g TOOL_CALLS"
    by (simp_all add: guard_inv_def guard_nonneg)
  have sig: "length (tool_signature name version args) \<le> 512"
    using assms(3,4) sha256_hex_pattern [of "dumps False args"] by (simp add: tool_signature_def text_len_def is_sha256_def)
  have "wp (begin_tool_call env name version (Some args) obs retry c)
     (\<lambda>u g'. u \<in> bg_tool_reservations g' \<and> bg_counts g' = (bg_counts g)(TOOL_CALLS := bg_counts g TOOL_CALLS + 1) \<and>
       (tool_signature name version args, obs) \<in> set (last_n 10 (started_calls (bg_events g')))) (\<lambda>_ _. False) g"
    unfolding begin_tool_call_def wp_thenP
    using assms(2-) sig p nn
    by (intro check_time_passes [OF p permit])
      (auto simp: wp_simps Let_def increment_def add_logical_def add_retry_def draw_uuid4_def active_limit_def args_ok_def
        text_len_def simp del: started_calls_append
        intro!: ensure_capacity_passes authorize_action_passes record_event_rule started_calls_last started_calls_event)
  then show ?thesis
    by (auto simp: wp_def split: prod.splits sum.splits)
qed


text \<open>
  A permitted tool call starts: when the clock is below the active wall-time limit at every
  reading, the degradation stage permits the action class, one more tool call fits the active limit,
  the identity fields are well formed and the call is not among the remembered ones, then
  \<^verbatim>\<open>begin_tool_call\<close> returns a reservation, counts exactly one tool call, and the call is from then on
  among the last ten started calls of the log.
\<close>

theorem permitted_tool_call_starts:
  assumes "reaches (guard_start env) (guard_step env) g"
    and permit: "time_and_stage_permit env g c"
    and "text_len 1 128 name" "text_len 1 64 version" "is_sha256 obs"
    and "(tool_signature name version args, obs) \<notin> set (bg_action_history g)"
    and "bg_counts g TOOL_CALLS + 1 \<le> lim_active (bp_tool_calls (bg_policy g))"
  shows "\<exists>u g'. begin_tool_call env name version (Some args) obs retry c g = (Inr u, g') \<and>
    u \<in> bg_tool_reservations g' \<and> bg_counts g' = (bg_counts g)(TOOL_CALLS := bg_counts g TOOL_CALLS + 1) \<and>
    (tool_signature name version args, obs) \<in> set (last_n 10 (started_calls (bg_events g')))"
  using guard.reachable_inv [OF assms(1)] assms(2-) by (rule tool_call_starts)

lemma sample_permits: "time_and_stage_permit sample_env sample_guard STANDARD"
proof -
  have "elapsed_at sample_env sample_guard n = 0" for n
    by (simp add: elapsed_at_def sample_env_def sample_guard_def new_guard_def py_int_def)
  moreover have "\<not> stage_denies (degradation_stage_of sample_guard 0) STANDARD" "0 < lim_active (bp_wall_time_ms (bg_policy sample_guard))"
    by code_simp+
  ultimately show ?thesis by (simp add: time_and_stage_permit_def)
qed

abbreviation sample_obs :: string where
  "sample_obs \<equiv> replicate 64 (CHR ''0'')"

lemma sample_obs_ok: "is_sha256 sample_obs"
  by (simp add: is_sha256_def list_all_iff is_hex_char_def)

lemma sample_tool_room:
  "bg_counts sample_guard TOOL_CALLS + 1 \<le> lim_active (bp_tool_calls (bg_policy sample_guard))" "bg_action_history sample_guard = []"
  by code_simp+

theorem permitted_tool_call_starts_witness:
  "\<exists>u g'. begin_tool_call sample_env ''read'' ''1'' (Some (JObj [])) sample_obs False STANDARD sample_guard = (Inr u, g') \<and>
    bg_counts g' TOOL_CALLS = bg_counts sample_guard TOOL_CALLS + 1"
proof -
  have "\<exists>u g'. begin_tool_call sample_env ''read'' ''1'' (Some (JObj [])) sample_obs False STANDARD sample_guard = (Inr u, g') \<and>
    u \<in> bg_tool_reservations g' \<and> bg_counts g' = (bg_counts sample_guard)(TOOL_CALLS := bg_counts sample_guard TOOL_CALLS + 1) \<and>
    (tool_signature ''read'' ''1'' (JObj []), sample_obs) \<in> set (last_n 10 (started_calls (bg_events g')))"
    by (rule permitted_tool_call_starts [OF sample_guard_reachable sample_permits])
      (simp_all add: sample_obs_ok sample_tool_room text_len_def)
  then show ?thesis by force
qed

lemma sample_started: "\<exists>g'. reaches (guard_start sample_env) (guard_step sample_env) g' \<and>
    (tool_signature ''read'' ''1'' (JObj []), sample_obs) \<in> set (last_n 10 (started_calls (bg_events g')))"
proof -
  obtain u g' where g': "begin_tool_call sample_env ''read'' ''1'' (Some (JObj [])) sample_obs False STANDARD sample_guard = (Inr u, g')"
    and mem: "(tool_signature ''read'' ''1'' (JObj []), sample_obs) \<in> set (last_n 10 (started_calls (bg_events g')))"
    using tool_call_starts [OF guard.reachable_inv [OF sample_guard_reachable] sample_permits, of "''read''" "''1''" sample_obs "JObj []" False]
    by (auto simp: sample_obs_ok sample_tool_room text_len_def)
  have "final (call_prog sample_env (BeginToolCall ''read'' ''1'' (Some (JObj [])) sample_obs False STANDARD)) sample_guard = g'"
    using g' by (simp add: final_def voidP_def bindP_def)
  with mem sample_step_reachable [of "BeginToolCall ''read'' ''1'' (Some (JObj [])) sample_obs False STANDARD"] show ?thesis
    by auto
qed

text \<open>
  A physical tool call is not repeated without a new observation: on a reachable guard, a tool
  call whose signature and observation hash are among the last ten started tool calls of the event
  log never starts, whatever the action class and the retry flag.
\<close>

theorem identical_tool_call_refused:
  assumes "reaches (guard_start env) (guard_step env) g"
    and "(tool_signature name version args, obs) \<in> set (last_n 10 (started_calls (bg_events g)))"
  shows "isl (outcome (begin_tool_call env name version (Some args) obs retry c) g)"
proof -
  have inv: "guard_inv g"
    using assms(1) by (rule guard.reachable_inv)
  then have hist: "(tool_signature name version args, obs) \<in> set (bg_action_history g)"
    using assms(2) by (simp add: guard_inv_def log_inv_def)
  have never: "wp (thenP (record_event env b) (raise_exceeded env c1 c2 c3 c4)) Q (\<lambda>_ _. True) h"
    for b c1 c2 c3 c4 h and Q :: "unit \<Rightarrow> budget_guard \<Rightarrow> bool"
    by (auto simp: raise_exceeded_def wp_def thenP_def bindP_def raise_def split: prod.split sum.split)
  have "wp (begin_tool_call env name version (Some args) obs retry c) (\<lambda>_ _. False) (\<lambda>_ _. True) g"
    unfolding begin_tool_call_def wp_thenP
    using hist never [unfolded wp_thenP]
    by (intro check_time_rule [OF inv]) (auto simp: wp_simps Let_def)
  then show ?thesis
    by (auto simp: wp_def outcome_def isl_def split: prod.splits sum.splits)
qed

theorem identical_tool_call_refused_witness:
  "\<exists>g. isl (outcome (begin_tool_call sample_env ''read'' ''1'' (Some (JObj [])) sample_obs True FINALIZATION) g)"
proof -
  obtain g where "reaches (guard_start sample_env) (guard_step sample_env) g"
    "(tool_signature ''read'' ''1'' (JObj []), sample_obs) \<in> set (last_n 10 (started_calls (bg_events g)))"
    using sample_started by blast
  from identical_tool_call_refused [OF this] show ?thesis by blast
qed

end
