(* ===== verification/HashChain.thy ===== *)
theory HashChain
  imports Contracts
begin

section \<open>Hash-chained journals\<close>

text \<open>
  The audit log (\<^verbatim>\<open>observability/audit.py\<close>) and the approval journal
  (\<^verbatim>\<open>approval/service.py\<close>) keep their events the same way: numbered from 1, each with
  the digest of its predecessor and the digest of its own content. The locale \<open>hash_chain\<close> is
  that contract: a verification loop over the events, and the fact that the digested content
  covers the number and the predecessor's digest. Its lemmas are what both components use: how a
  chain grows, that a verified chain has verified prefixes, and that the last digest pins down the
  whole chain unless two of its serialised events collide under SHA-256.
\<close>

definition zero_sha256 :: string where
  "zero_sha256 = replicate 64 (CHR ''0'')"

lemma zero_sha256_pattern [simp]: "is_sha256 zero_sha256"
  by (simp add: zero_sha256_def is_sha256_def list_all_iff is_hex_char_def)

text \<open>Two texts that are a collision of the digest.\<close>

definition sha_collision :: "string \<Rightarrow> string \<Rightarrow> bool" where
  "sha_collision x y = (x \<noteq> y \<and> sha256_hex x = sha256_hex y)"

lemma canonical_sha256_norm:
  assumes "json_wf j" "json_wf j'" "canonical_sha256 j = canonical_sha256 j'"
  shows "json_norm j = json_norm j' \<or> sha_collision (dumps True j) (dumps True j')"
  using dumps_inject [of j j' True] assms by (auto simp: canonical_sha256_def sha_collision_def)

text \<open>Fields of two objects with the same normal form agree up to normalisation.\<close>

lemma json_norm_map_of:
  assumes eq: "json_norm (JObj kvs) = json_norm (JObj kvs')"
    and d: "distinct (map fst kvs)" "distinct (map fst kvs')"
  shows "map_option json_norm (map_of kvs k) = map_option json_norm (map_of kvs' k)"
proof -
  let ?n = "\<lambda>kv :: string \<times> json. (fst kv, json_norm (snd kv))"
  have norm: "map_option json_norm (map_of xs k) = map_of (map ?n (sort_key fst xs)) k"
    if "distinct (map fst xs)" for xs
  proof -
    have "map_of (map ?n ys) k = map_option json_norm (map_of ys k)" for ys
      by (induction ys) auto
    moreover have "map_of (sort_key fst xs) = map_of xs"
      using that by (intro map_of_inject_set [THEN iffD2]) auto
    ultimately show ?thesis by simp
  qed
  show ?thesis
    using eq by (simp add: norm d sort_key_fst_map)
qed

text \<open>Objects with the same keys in the same places have the same normal form exactly when their values do.\<close>

lemma json_norm_same_keys:
  assumes keys: "map fst kvs = map fst kvs'" and d: "distinct (map fst kvs)"
  shows "json_norm (JObj kvs) = json_norm (JObj kvs') \<longleftrightarrow>
    map (\<lambda>kv. json_norm (snd kv)) kvs = map (\<lambda>kv. json_norm (snd kv)) kvs'"
proof
  assume eq: "json_norm (JObj kvs) = json_norm (JObj kvs')"
  have len: "length kvs = length kvs'"
    using keys by (rule map_eq_imp_length_eq)
  show "map (\<lambda>kv. json_norm (snd kv)) kvs = map (\<lambda>kv. json_norm (snd kv)) kvs'"
  proof (rule nth_equalityI)
    fix i assume "i < length (map (\<lambda>kv. json_norm (snd kv)) kvs)"
    then have i: "i < length kvs" "i < length kvs'"
      using len by simp_all
    then have k: "fst (kvs ! i) = fst (kvs' ! i)"
      using keys by (metis nth_map)
    have "map_of kvs (fst (kvs ! i)) = Some (snd (kvs ! i))" "map_of kvs' (fst (kvs' ! i)) = Some (snd (kvs' ! i))"
      using i d keys by (auto intro: map_of_is_SomeI)
    then show "map (\<lambda>kv. json_norm (snd kv)) kvs ! i = map (\<lambda>kv. json_norm (snd kv)) kvs' ! i"
      using json_norm_map_of [OF eq d, of "fst (kvs ! i)"] i k d keys by simp
  qed (simp add: len)
next
  assume "map (\<lambda>kv. json_norm (snd kv)) kvs = map (\<lambda>kv. json_norm (snd kv)) kvs'"
  then have "map (\<lambda>kv. (fst kv, json_norm (snd kv))) kvs = map (\<lambda>kv. (fst kv, json_norm (snd kv))) kvs'"
    using keys by (simp add: list_eq_iff_nth_eq)
  then show "json_norm (JObj kvs) = json_norm (JObj kvs')"
    by simp
qed

locale hash_chain =
  fixes sq :: "'e \<Rightarrow> nat" and pv dg :: "'e \<Rightarrow> string" and body :: "'e \<Rightarrow> json"
    and ok :: "'e \<Rightarrow> bool" and verify_from :: "nat \<Rightarrow> string \<Rightarrow> 'e list \<Rightarrow> bool"
  assumes verify_Nil: "verify_from n p []"
    and verify_Cons: "verify_from n p (e # es) =
      (sq e = n \<and> pv e = p \<and> ok e \<and> dg e = canonical_sha256 (body e) \<and> verify_from (Suc n) (dg e) es)"
    and body_wf: "ok e \<Longrightarrow> json_wf (body e)"
    and body_link: "json_norm (body e) = json_norm (body e') \<Longrightarrow> sq e = sq e' \<and> pv e = pv e'"
begin

lemma verify_append:
  "verify_from n p (es @ fs) = (verify_from n p es \<and>
     verify_from (n + length es) (if es = [] then p else dg (last es)) fs)"
  by (induction es arbitrary: n p) (auto simp: verify_Nil verify_Cons)

lemma verify_snoc:
  "verify_from n p (es @ [e]) = (verify_from n p es \<and> sq e = n + length es \<and>
     pv e = (if es = [] then p else dg (last es)) \<and> ok e \<and> dg e = canonical_sha256 (body e))"
  by (auto simp: verify_append verify_Cons verify_Nil)

lemma verify_prefix: "verify_from n p (es @ fs) \<Longrightarrow> verify_from n p es"
  by (simp add: verify_append)

lemma verify_last: "verify_from n p es \<Longrightarrow> es \<noteq> [] \<Longrightarrow>
   Suc (sq (last es)) = n + length es \<and> dg (last es) = canonical_sha256 (body (last es))"
  by (cases es rule: rev_cases) (auto simp: verify_snoc)

lemma verify_digest_pattern: "verify_from n p es \<Longrightarrow> e \<in> set es \<Longrightarrow> is_sha256 (dg e)"
  by (induction es arbitrary: n p) (auto simp: verify_Cons)

lemma verify_number: "verify_from n p es \<Longrightarrow> i < length es \<Longrightarrow> sq (es ! i) = n + i"
  by (induction es arbitrary: n p i) (auto simp: verify_Cons nth_Cons split: nat.split)

text \<open>No number occurs twice, so the events of a verified chain are distinct.\<close>

lemma verify_distinct: "verify_from n p es \<Longrightarrow> distinct es"
  by (metis add_left_cancel distinct_conv_nth verify_number)

lemma last_digest_determines:
  assumes "verify_from 1 p es" "verify_from 1 p es'" "es \<noteq> []" "es' \<noteq> []" "dg (last es) = dg (last es')"
  shows "map (json_norm \<circ> body) es = map (json_norm \<circ> body) es' \<or>
    (\<exists>e \<in> set es. \<exists>e' \<in> set es'. sha_collision (dumps True (body e)) (dumps True (body e')))"
  using assms
proof (induction es arbitrary: es' rule: rev_induct)
  case (snoc e es)
  obtain fs f where es': "es' = fs @ [f]"
    using snoc.prems(4) by (cases es' rule: rev_cases) auto
  have e: "verify_from 1 p es" "sq e = 1 + length es" "pv e = (if es = [] then p else dg (last es))"
    "dg e = canonical_sha256 (body e)" "ok e"
    using snoc.prems(1) by (simp_all add: verify_snoc)
  have f: "verify_from 1 p fs" "sq f = 1 + length fs" "pv f = (if fs = [] then p else dg (last fs))"
    "dg f = canonical_sha256 (body f)" "ok f"
    using snoc.prems(2) by (simp_all add: es' verify_snoc)
  have "json_norm (body e) = json_norm (body f) \<or> sha_collision (dumps True (body e)) (dumps True (body f))"
    using canonical_sha256_norm [OF body_wf body_wf, of e f] snoc.prems(5) e(4,5) f(4,5) by (simp add: es')
  then show ?case
  proof
    assume norm: "json_norm (body e) = json_norm (body f)"
    with body_link have "sq e = sq f" "pv e = pv f" by blast+
    with e f have len: "length es = length fs" by simp
    show ?thesis
    proof (cases "es = []")
      case True
      with len norm show ?thesis by (simp add: es')
    next
      case False
      with len have "fs \<noteq> []" by auto
      with False e f \<open>pv e = pv f\<close> have "dg (last es) = dg (last fs)" by simp
      from snoc.IH [OF e(1) f(1) False \<open>fs \<noteq> []\<close> this] norm show ?thesis by (auto simp: es')
    qed
  qed (auto simp: es')
qed simp

end

end
