(* ===== verification/AuditLog.thy ===== *)
theory AuditLog
  imports HashChain Complex_Main
begin

section \<open>Trace links and the audit log\<close>

text \<open>
  \<^verbatim>\<open>observability/audit.py\<close> with the part of \<^verbatim>\<open>observability/tracing.py\<close> it calls: the
  link to the current span, audit records and events, the append-only repository keyed by tenant
  and project, its readers and its verification loop, and the audit service. The span context comes
  from OpenTelemetry and is an argument. \<^verbatim>\<open>AuditEvent(**event_payload)\<close> reads back the JSON dump
  of the record's own fields, so the event extends the record; only the trace identifiers are
  checked again. \<open>audit_inv\<close> is the repository's invariant, kept by every append.
\<close>

subsection \<open>Trace links\<close>

record span_context =
  sc_trace_id :: "128 word"
  sc_span_id :: "64 word"
  sc_is_valid :: bool

record trace_link =
  tl_trace_id :: string
  tl_span_id :: string

datatype audit_error =
    AuditError string
  | TraceError string
  | AuditValidationError

definition hex_pattern :: "nat \<Rightarrow> string \<Rightarrow> bool" where
  "hex_pattern k s = (length s = k \<and> list_all is_hex_char s)"

definition link_of :: "span_context \<Rightarrow> audit_error + trace_link" where
  "link_of c = (if sc_trace_id c = 0 \<or> sc_span_id c = 0 then Inl AuditValidationError
     else Inr \<lparr>tl_trace_id = hex_fixed 32 (unat (sc_trace_id c)), tl_span_id = hex_fixed 16 (unat (sc_span_id c))\<rparr>)"

definition current_link :: "span_context \<Rightarrow> audit_error + trace_link" where
  "current_link c = (if \<not> sc_is_valid c then Inl (TraceError ''TRACE_CONTEXT_INVALID'') else link_of c)"

subsection \<open>Records and events\<close>

datatype audit_kind = AK_AUTHORIZATION | AK_TASK | AK_AGENT | AK_CHECKPOINT | AK_BUDGET | AK_REVIEW
  | AK_CORRECTION | AK_MODEL | AK_TOOL | AK_CACHE | AK_ARTIFACT | AK_KNOWLEDGE | AK_APPROVAL | AK_SECURITY

fun audit_kind_value :: "audit_kind \<Rightarrow> string" where
  "audit_kind_value AK_AUTHORIZATION = ''AUTHORIZATION''"
| "audit_kind_value AK_TASK = ''TASK''"
| "audit_kind_value AK_AGENT = ''AGENT''"
| "audit_kind_value AK_CHECKPOINT = ''CHECKPOINT''"
| "audit_kind_value AK_BUDGET = ''BUDGET''"
| "audit_kind_value AK_REVIEW = ''REVIEW''"
| "audit_kind_value AK_CORRECTION = ''CORRECTION''"
| "audit_kind_value AK_MODEL = ''MODEL''"
| "audit_kind_value AK_TOOL = ''TOOL''"
| "audit_kind_value AK_CACHE = ''CACHE''"
| "audit_kind_value AK_ARTIFACT = ''ARTIFACT''"
| "audit_kind_value AK_KNOWLEDGE = ''KNOWLEDGE''"
| "audit_kind_value AK_APPROVAL = ''APPROVAL''"
| "audit_kind_value AK_SECURITY = ''SECURITY''"

datatype audit_outcome = AO_SUCCESS | AO_PARTIAL | AO_DENIED | AO_FAILED

fun audit_outcome_value :: "audit_outcome \<Rightarrow> string" where
  "audit_outcome_value AO_SUCCESS = ''SUCCESS''"
| "audit_outcome_value AO_PARTIAL = ''PARTIAL''"
| "audit_outcome_value AO_DENIED = ''DENIED''"
| "audit_outcome_value AO_FAILED = ''FAILED''"

record audit_record =
  au_event_id :: uuid
  au_scope :: tenant_scope
  au_kind :: audit_kind
  au_action :: string
  au_target_type :: string
  au_target_id :: string
  au_task_id :: "uuid option"
  au_policy_version :: string
  au_decision :: string
  au_outcome :: audit_outcome
  au_input_sha256 :: string
  au_output_sha256 :: string
  au_request_id :: string
  au_occurred_at :: datetime

record audit_event = audit_record +
  au_sequence :: nat
  au_trace_id :: string
  au_span_id :: string
  au_previous_sha256 :: string
  au_event_sha256 :: string

definition target_id_ok :: "string \<Rightarrow> bool" where
  "target_id_ok = head_tail is_alnum (\<lambda>c. is_alnum c \<or> c \<in> set ''._:/-'') 255"

definition decision_ok :: "string \<Rightarrow> bool" where
  "decision_ok = head_tail is_upper (\<lambda>c. is_upper c \<or> is_decimal c \<or> c = CHR ''_'') 63"

definition valid_audit_record :: "'a audit_record_scheme \<Rightarrow> bool" where
  "valid_audit_record r = (valid_scope (au_scope r) \<and> dotted_name 127 (au_action r) \<and>
     dotted_name 63 (au_target_type r) \<and> target_id_ok (au_target_id r) \<and>
     text_len 1 128 (au_policy_version r) \<and> decision_ok (au_decision r) \<and>
     is_sha256 (au_input_sha256 r) \<and> is_sha256 (au_output_sha256 r) \<and>
     request_id_ok (au_request_id r) \<and> is_utc (au_occurred_at r))"

definition dump_audit_record :: "'a audit_record_scheme \<Rightarrow> (string \<times> json) list" where
  "dump_audit_record r =
    [(''schema_version'', JStr ''1.0.0''),
     (''event_id'', JStr (str_uuid (au_event_id r))),
     (''scope'', dump_scope (au_scope r)),
     (''kind'', JStr (audit_kind_value (au_kind r))),
     (''action'', JStr (au_action r)),
     (''target_type'', JStr (au_target_type r)),
     (''target_id'', JStr (au_target_id r)),
     (''task_id'', json_opt (\<lambda>t. JStr (str_uuid t)) (au_task_id r)),
     (''policy_version'', JStr (au_policy_version r)),
     (''decision'', JStr (au_decision r)),
     (''outcome'', JStr (audit_outcome_value (au_outcome r))),
     (''input_sha256'', JStr (au_input_sha256 r)),
     (''output_sha256'', JStr (au_output_sha256 r)),
     (''request_id'', JStr (au_request_id r)),
     (''occurred_at'', JStr (json_datetime (au_occurred_at r)))]"

text \<open>The content an event's digest covers: every field but the digest itself.\<close>

definition audit_payload :: "'a audit_record_scheme \<Rightarrow> nat \<Rightarrow> string \<Rightarrow> string \<Rightarrow> string \<Rightarrow> json" where
  "audit_payload r sequence trace_id span_id previous = JObj (dump_audit_record r @
    [(''sequence'', JInt (int sequence)),
     (''trace_id'', JStr trace_id),
     (''span_id'', JStr span_id),
     (''previous_sha256'', JStr previous)])"

definition event_payload :: "audit_event \<Rightarrow> json" where
  "event_payload e = audit_payload e (au_sequence e) (au_trace_id e) (au_span_id e) (au_previous_sha256 e)"

definition audit_request :: "'a audit_record_scheme \<Rightarrow> string \<Rightarrow> string \<Rightarrow> json" where
  "audit_request r trace_id span_id = JObj
    [(''record'', JObj (dump_audit_record r)), (''trace_id'', JStr trace_id), (''span_id'', JStr span_id)]"

definition audit_request_sha256 :: "'a audit_record_scheme \<Rightarrow> string \<Rightarrow> string \<Rightarrow> string" where
  "audit_request_sha256 r trace_id span_id = canonical_sha256 (audit_request r trace_id span_id)"

subsection \<open>The repository\<close>

record audit_repo =
  aud_events :: "uuid \<times> uuid \<Rightarrow> audit_event list"
  aud_by_id :: "uuid \<Rightarrow> (string \<times> audit_event) option"

definition empty_audit :: audit_repo where
  "empty_audit = \<lparr>aud_events = (\<lambda>_. []), aud_by_id = (\<lambda>_. None)\<rparr>"

definition audit_extend :: "audit_record \<Rightarrow> nat \<Rightarrow> string \<Rightarrow> string \<Rightarrow> string \<Rightarrow> audit_event" where
  "audit_extend r sequence trace_id span_id previous = audit_record.extend r
    \<lparr>au_sequence = sequence, au_trace_id = trace_id, au_span_id = span_id, au_previous_sha256 = previous,
     au_event_sha256 = canonical_sha256 (audit_payload r sequence trace_id span_id previous)\<rparr>"

definition next_audit_event :: "audit_repo \<Rightarrow> audit_record \<Rightarrow> string \<Rightarrow> string \<Rightarrow> audit_event" where
  "next_audit_event s r trace_id span_id = (let chain = aud_events s (project_key (au_scope r));
     previous = (if chain = [] then zero_sha256 else au_event_sha256 (last chain))
   in audit_extend r (length chain + 1) trace_id span_id previous)"

definition audit_append :: "audit_record \<Rightarrow> string \<Rightarrow> string \<Rightarrow> (audit_repo, audit_error, audit_event) prog" where
  "audit_append r trace_id span_id = (\<lambda>s.
     case aud_by_id s (au_event_id r) of
       Some existing \<Rightarrow>
         if fst existing = audit_request_sha256 r trace_id span_id then (Inr (snd existing), s)
         else (Inl (AuditError ''AUDIT_IDEMPOTENCY_CONFLICT''), s)
     | None \<Rightarrow>
         if \<not> (hex_pattern 32 trace_id \<and> hex_pattern 16 span_id) then (Inl AuditValidationError, s)
         else let e = next_audit_event s r trace_id span_id; k = project_key (au_scope r)
           in (Inr e, s\<lparr>aud_events := (aud_events s)(k := aud_events s k @ [e]),
                aud_by_id := (aud_by_id s)(au_event_id r \<mapsto> (audit_request_sha256 r trace_id span_id, e))\<rparr>))"

definition audit_list :: "audit_repo \<Rightarrow> tenant_scope \<Rightarrow> audit_event list" where
  "audit_list s scope = aud_events s (project_key scope)"

definition audit_get :: "audit_repo \<Rightarrow> tenant_scope \<Rightarrow> uuid \<Rightarrow> audit_error + audit_event" where
  "audit_get s scope event_id = (case aud_by_id s event_id of
     None \<Rightarrow> Inl (AuditError ''AUDIT_EVENT_INVALID'')
   | Some (_, e) \<Rightarrow> if project_key (au_scope e) \<noteq> project_key scope then Inl (AuditError ''AUDIT_SCOPE_MISMATCH'') else Inr e)"

fun verify_audit_from :: "nat \<Rightarrow> string \<Rightarrow> audit_event list \<Rightarrow> audit_error + unit" where
  "verify_audit_from expected previous [] = Inr ()"
| "verify_audit_from expected previous (e # es) =
     (if au_sequence e \<noteq> expected \<or> au_previous_sha256 e \<noteq> previous \<or>
         au_event_sha256 e \<noteq> canonical_sha256 (event_payload e)
      then Inl (AuditError ''AUDIT_CHAIN_INVALID'')
      else verify_audit_from (Suc expected) (au_event_sha256 e) es)"

definition verify_audit_events :: "audit_event list \<Rightarrow> audit_error + unit" where
  "verify_audit_events es = verify_audit_from 1 zero_sha256 es"

definition audit_verify :: "audit_repo \<Rightarrow> tenant_scope \<Rightarrow> audit_error + unit" where
  "audit_verify s scope = verify_audit_events (audit_list s scope)"

subsection \<open>The service\<close>

definition audit_service_record :: "span_context \<Rightarrow> audit_record \<Rightarrow> (audit_repo, audit_error, audit_event) prog" where
  "audit_service_record ctx r = bindP (lift_pure (current_link ctx))
     (\<lambda>link. audit_append r (tl_trace_id link) (tl_span_id link))"

text \<open>The ratio is a Python float; here it is the exact quotient it rounds.\<close>

record completeness_result =
  cr_required :: "audit_kind set"
  cr_present :: "audit_kind set"
  cr_missing :: "audit_kind set"
  cr_numerator :: nat
  cr_denominator :: nat
  cr_ratio :: rat

definition audit_completeness :: "audit_repo \<Rightarrow> tenant_scope \<Rightarrow> string \<Rightarrow> uuid \<Rightarrow> audit_kind set \<Rightarrow>
    audit_error + completeness_result" where
  "audit_completeness s scope request_id task_id required =
     (if required = {} then Inl (AuditError ''AUDIT_EVENT_INVALID'')
      else let present = set (map au_kind (filter (\<lambda>e. au_request_id e = request_id \<and> au_task_id e = Some task_id)
                 (audit_list s scope)));
               matched = present \<inter> required
        in Inr \<lparr>cr_required = required, cr_present = matched, cr_missing = required - matched,
             cr_numerator = card matched, cr_denominator = card required,
             cr_ratio = of_nat (card matched) / of_nat (card required)\<rparr>)"

subsection \<open>The chain contract\<close>

lemma json_wf_dump_audit_record [simp]:
  "list_all (\<lambda>kv. json_wf (snd kv)) (dump_audit_record r)" "distinct (map fst (dump_audit_record r))"
  by (auto simp: dump_audit_record_def json_opt_def split: option.split)

lemma audit_payload_wf [simp]: "json_wf (audit_payload r n t p q)"
  by (auto simp: audit_payload_def dump_audit_record_def json_opt_def split: option.split)

lemma audit_kind_value_inject [simp]: "audit_kind_value x = audit_kind_value y \<longleftrightarrow> x = y"
  by (cases x; cases y) simp_all

lemma audit_outcome_value_inject [simp]: "audit_outcome_value x = audit_outcome_value y \<longleftrightarrow> x = y"
  by (cases x; cases y) simp_all

lemma json_norm_dump_scope [simp]: "json_norm (dump_scope s) = json_norm (dump_scope s') \<longleftrightarrow> s = s'"
proof
  assume eq: "json_norm (dump_scope s) = json_norm (dump_scope s')"
  note field = json_norm_map_of [OF eq [unfolded dump_scope_def], simplified]
  have "ts_tenant_id s = ts_tenant_id s'" using field [of "''tenant_id''"] by simp
  moreover have "ts_project_id s = ts_project_id s'" using field [of "''project_id''"] by simp
  moreover have "ts_user_id s = ts_user_id s'" using field [of "''user_id''"] by simp
  moreover have "ts_role_codes s = ts_role_codes s'" using field [of "''role_codes''"] by (simp add: comp_def)
  moreover have "ts_permission_version s = ts_permission_version s'" using field [of "''permission_version''"] by simp
  ultimately show "s = s'" by (cases s; cases s') simp
qed simp

text \<open>What two events with the same digested content share: every field, the time up to its text.\<close>

definition same_audit_content :: "audit_event \<Rightarrow> audit_event \<Rightarrow> bool" where
  "same_audit_content e e' = (au_event_id e = au_event_id e' \<and> au_scope e = au_scope e' \<and>
     au_kind e = au_kind e' \<and> au_action e = au_action e' \<and> au_target_type e = au_target_type e' \<and>
     au_target_id e = au_target_id e' \<and> au_task_id e = au_task_id e' \<and>
     au_policy_version e = au_policy_version e' \<and> au_decision e = au_decision e' \<and>
     au_outcome e = au_outcome e' \<and> au_input_sha256 e = au_input_sha256 e' \<and>
     au_output_sha256 e = au_output_sha256 e' \<and> au_request_id e = au_request_id e' \<and>
     json_datetime (au_occurred_at e) = json_datetime (au_occurred_at e') \<and>
     au_sequence e = au_sequence e' \<and> au_trace_id e = au_trace_id e' \<and> au_span_id e = au_span_id e' \<and>
     au_previous_sha256 e = au_previous_sha256 e')"

lemma json_opt_uuid_norm [simp]:
  "json_norm (json_opt (\<lambda>t. JStr (str_uuid t)) x) = json_norm (json_opt (\<lambda>t. JStr (str_uuid t)) y) \<longleftrightarrow> x = y"
  by (auto simp: json_opt_def split: option.split)

lemma event_payload_field:
  assumes "json_norm (event_payload e) = json_norm (event_payload e')"
  shows "map_option json_norm (map_of (dump_audit_record e @ [(''sequence'', JInt (int (au_sequence e))),
       (''trace_id'', JStr (au_trace_id e)), (''span_id'', JStr (au_span_id e)),
       (''previous_sha256'', JStr (au_previous_sha256 e))]) k) =
    map_option json_norm (map_of (dump_audit_record e' @ [(''sequence'', JInt (int (au_sequence e'))),
       (''trace_id'', JStr (au_trace_id e')), (''span_id'', JStr (au_span_id e')),
       (''previous_sha256'', JStr (au_previous_sha256 e'))]) k)"
  by (rule json_norm_map_of [OF assms [unfolded event_payload_def audit_payload_def]])
    (simp_all add: dump_audit_record_def)

lemma event_payload_content:
  assumes "json_norm (event_payload e) = json_norm (event_payload e')"
  shows "same_audit_content e e'"
proof -
  note field = event_payload_field [OF assms, unfolded dump_audit_record_def]
  have "au_event_id e = au_event_id e'" using field [of "''event_id''"] by simp
  moreover have "au_scope e = au_scope e'" using field [of "''scope''"] by simp
  moreover have "au_kind e = au_kind e'" using field [of "''kind''"] by simp
  moreover have "au_action e = au_action e'" using field [of "''action''"] by simp
  moreover have "au_target_type e = au_target_type e'" using field [of "''target_type''"] by simp
  moreover have "au_target_id e = au_target_id e'" using field [of "''target_id''"] by simp
  moreover have "au_task_id e = au_task_id e'" using field [of "''task_id''"] by simp
  moreover have "au_policy_version e = au_policy_version e'" using field [of "''policy_version''"] by simp
  moreover have "au_decision e = au_decision e'" using field [of "''decision''"] by simp
  moreover have "au_outcome e = au_outcome e'" using field [of "''outcome''"] by simp
  moreover have "au_input_sha256 e = au_input_sha256 e'" using field [of "''input_sha256''"] by simp
  moreover have "au_output_sha256 e = au_output_sha256 e'" using field [of "''output_sha256''"] by simp
  moreover have "au_request_id e = au_request_id e'" using field [of "''request_id''"] by simp
  moreover have "json_datetime (au_occurred_at e) = json_datetime (au_occurred_at e')"
    using field [of "''occurred_at''"] by simp
  moreover have "au_sequence e = au_sequence e'" using field [of "''sequence''"] by simp
  moreover have "au_trace_id e = au_trace_id e'" using field [of "''trace_id''"] by simp
  moreover have "au_span_id e = au_span_id e'" using field [of "''span_id''"] by simp
  moreover have "au_previous_sha256 e = au_previous_sha256 e'" using field [of "''previous_sha256''"] by simp
  ultimately show ?thesis by (simp add: same_audit_content_def)
qed

interpretation audit_chain: hash_chain au_sequence au_previous_sha256 au_event_sha256 event_payload
  "\<lambda>_. True" "\<lambda>n p es. verify_audit_from n p es = Inr ()"
proof unfold_locales
  show "json_wf (event_payload e)" for e by (simp add: event_payload_def)
  show "au_sequence e = au_sequence e' \<and> au_previous_sha256 e = au_previous_sha256 e'"
    if "json_norm (event_payload e) = json_norm (event_payload e')" for e e'
    using event_payload_content [OF that] by (simp add: same_audit_content_def)
qed auto

end
