(* ===== verification/Approval.thy ===== *)
theory Approval
  imports AuditLog
begin

section \<open>Approval checkpoints: data and journal\<close>

text \<open>
  \<^verbatim>\<open>approval/service.py\<close> up to the repository: policies, candidates, delegations, decisions,
  grants, journal events, and \<^verbatim>\<open>InMemoryApprovalRepository\<close>. A journal payload is the JSON
  dump of one of four model classes; since those classes forbid extra fields and have different
  field sets, it is kept as the tagged value it was dumped from, and \<^verbatim>\<open>model_validate\<close> of
  another class fails. Error values keep the code of \<^verbatim>\<open>ApprovalError\<close>, not its texts.
\<close>

subsection \<open>Policies\<close>

datatype approval_kind = KIND_KNOWLEDGE | KIND_PLAN | KIND_REPORT | KIND_CRITICAL_FINDING
  | KIND_INSTRUMENT | KIND_DESTRUCTIVE | KIND_RELEASE

fun approval_kind_value :: "approval_kind \<Rightarrow> string" where
  "approval_kind_value KIND_KNOWLEDGE = ''KNOWLEDGE''"
| "approval_kind_value KIND_PLAN = ''PLAN''"
| "approval_kind_value KIND_REPORT = ''REPORT''"
| "approval_kind_value KIND_CRITICAL_FINDING = ''CRITICAL_FINDING''"
| "approval_kind_value KIND_INSTRUMENT = ''INSTRUMENT''"
| "approval_kind_value KIND_DESTRUCTIVE = ''DESTRUCTIVE''"
| "approval_kind_value KIND_RELEASE = ''RELEASE''"

datatype approval_state = ST_PENDING | ST_APPROVED | ST_REJECTED | ST_CHANGES_REQUESTED | ST_EXPIRED | ST_CANCELLED

datatype approval_event_type = EV_CANDIDATE | EV_DELEGATION | EV_DECISION | EV_RESUME

fun event_type_value :: "approval_event_type \<Rightarrow> string" where
  "event_type_value EV_CANDIDATE = ''CANDIDATE''"
| "event_type_value EV_DELEGATION = ''DELEGATION''"
| "event_type_value EV_DECISION = ''DECISION''"
| "event_type_value EV_RESUME = ''RESUME''"

record approval_rule =
  rule_required_roles :: "string set"
  rule_require_all_roles :: bool
  rule_delegation_allowed :: bool
  rule_validity_seconds :: int

definition valid_rule :: "approval_rule \<Rightarrow> bool" where
  "valid_rule r = (finite (rule_required_roles r) \<and> rule_required_roles r \<noteq> {} \<and>
     60 \<le> rule_validity_seconds r \<and> rule_validity_seconds r \<le> 2592000)"

text \<open>The validator demands a rule for every kind, so the dict of rules is a total function.\<close>

record approval_policy =
  pol_version :: string
  pol_rules :: "approval_kind \<Rightarrow> approval_rule"

definition valid_approval_policy :: "approval_policy \<Rightarrow> bool" where
  "valid_approval_policy p = (text_len 1 128 (pol_version p) \<and> (\<forall>k. valid_rule (pol_rules p k)))"

definition mk_rule :: "string list \<Rightarrow> bool \<Rightarrow> bool \<Rightarrow> int \<Rightarrow> approval_rule" where
  "mk_rule roles require_all delegation validity = \<lparr>rule_required_roles = set roles,
     rule_require_all_roles = require_all, rule_delegation_allowed = delegation, rule_validity_seconds = validity\<rparr>"

fun default_rule :: "approval_kind \<Rightarrow> approval_rule" where
  "default_rule KIND_KNOWLEDGE = mk_rule [''QUALIFIED_APPROVER'', ''KNOWLEDGE_OWNER''] False True 86400"
| "default_rule KIND_PLAN = mk_rule [''QUALIFIED_APPROVER''] False True 86400"
| "default_rule KIND_REPORT = mk_rule [''QUALIFIED_APPROVER''] False False 86400"
| "default_rule KIND_CRITICAL_FINDING = mk_rule [''QUALIFIED_APPROVER''] False False 21600"
| "default_rule KIND_INSTRUMENT = mk_rule [''DEVICE_AUTHORIZED_APPROVER''] False False 3600"
| "default_rule KIND_DESTRUCTIVE = mk_rule [''TENANT_ADMINISTRATOR''] False False 3600"
| "default_rule KIND_RELEASE = mk_rule [''SECURITY_OWNER'', ''QUALITY_OWNER''] True False 86400"

definition default_approval_policy :: approval_policy where
  "default_approval_policy = \<lparr>pol_version = ''approval-policy-1'', pol_rules = default_rule\<rparr>"

subsection \<open>Models\<close>

text \<open>\<^verbatim>\<open>ApprovalActor\<close> holds a scope; its properties read it.\<close>

record approval_actor =
  act_scope :: tenant_scope

definition actor_id :: "approval_actor \<Rightarrow> uuid" where
  "actor_id a = ts_user_id (act_scope a)"

definition actor_roles :: "approval_actor \<Rightarrow> string set" where
  "actor_roles a = set (ts_role_codes (act_scope a))"

record approval_candidate =
  ac_approval_id :: uuid
  ac_scope :: tenant_scope
  ac_task_id :: uuid
  ac_request_id :: string
  ac_kind :: approval_kind
  ac_action :: string
  ac_target_type :: string
  ac_target_id :: uuid
  ac_target_version :: string
  ac_candidate_sha256 :: string
  ac_preview :: "(string \<times> json) list"
  ac_preview_sha256 :: string
  ac_policy_version :: string
  ac_created_at :: datetime
  ac_expires_at :: datetime

definition valid_candidate :: "approval_candidate \<Rightarrow> bool" where
  "valid_candidate c = (valid_scope (ac_scope c) \<and> request_id_ok (ac_request_id c) \<and>
     dotted_name 127 (ac_action c) \<and> dotted_name 127 (ac_target_type c) \<and>
     text_len 1 128 (ac_target_version c) \<and> is_sha256 (ac_candidate_sha256 c) \<and>
     is_sha256 (ac_preview_sha256 c) \<and> text_len 1 128 (ac_policy_version c) \<and>
     is_utc (ac_created_at c) \<and> is_utc (ac_expires_at c) \<and>
     dt_us (ac_created_at c) < dt_us (ac_expires_at c) \<and>
     ac_preview_sha256 c = canonical_sha256 (JObj (ac_preview c)))"

record approval_delegation =
  dl_delegation_id :: uuid
  dl_approval_id :: uuid
  dl_candidate_sha256 :: string
  dl_grantor_id :: uuid
  dl_delegate_id :: uuid
  dl_delegated_role :: string
  dl_created_at :: datetime
  dl_expires_at :: datetime

definition valid_delegation :: "approval_delegation \<Rightarrow> bool" where
  "valid_delegation d = (is_sha256 (dl_candidate_sha256 d) \<and> text_len 1 128 (dl_delegated_role d))"

record approval_decision =
  dc_decision_id :: uuid
  dc_approval :: approval_record
  dc_actor_role :: string

definition valid_decision :: "approval_decision \<Rightarrow> bool" where
  "valid_decision d = (valid_approval_record (dc_approval d) \<and> text_len 1 128 (dc_actor_role d))"

record approval_grant =
  gr_resume_id :: uuid
  gr_approval_id :: uuid
  gr_scope :: tenant_scope
  gr_task_id :: uuid
  gr_candidate_sha256 :: string
  gr_policy_version :: string
  gr_decision_sha256s :: "string list"
  gr_resumed_at :: datetime

definition valid_grant :: "approval_grant \<Rightarrow> bool" where
  "valid_grant g = (valid_scope (gr_scope g) \<and> is_sha256 (gr_candidate_sha256 g) \<and>
     text_len 1 128 (gr_policy_version g) \<and> gr_decision_sha256s g \<noteq> [])"

datatype approval_payload =
    PCandidate approval_candidate
  | PDelegation approval_delegation
  | PDecision approval_decision
  | PGrant approval_grant

definition dump_candidate :: "approval_candidate \<Rightarrow> json" where
  "dump_candidate c = JObj
    [(''schema_version'', JStr ''1.0.0''),
     (''approval_id'', JStr (str_uuid (ac_approval_id c))),
     (''scope'', dump_scope (ac_scope c)),
     (''task_id'', JStr (str_uuid (ac_task_id c))),
     (''request_id'', JStr (ac_request_id c)),
     (''kind'', JStr (approval_kind_value (ac_kind c))),
     (''action'', JStr (ac_action c)),
     (''target_type'', JStr (ac_target_type c)),
     (''target_id'', JStr (str_uuid (ac_target_id c))),
     (''target_version'', JStr (ac_target_version c)),
     (''candidate_sha256'', JStr (ac_candidate_sha256 c)),
     (''preview'', JObj (ac_preview c)),
     (''preview_sha256'', JStr (ac_preview_sha256 c)),
     (''policy_version'', JStr (ac_policy_version c)),
     (''created_at'', JStr (json_datetime (ac_created_at c))),
     (''expires_at'', JStr (json_datetime (ac_expires_at c)))]"

definition dump_delegation :: "approval_delegation \<Rightarrow> json" where
  "dump_delegation d = JObj
    [(''schema_version'', JStr ''1.0.0''),
     (''delegation_id'', JStr (str_uuid (dl_delegation_id d))),
     (''approval_id'', JStr (str_uuid (dl_approval_id d))),
     (''candidate_sha256'', JStr (dl_candidate_sha256 d)),
     (''grantor_id'', JStr (str_uuid (dl_grantor_id d))),
     (''delegate_id'', JStr (str_uuid (dl_delegate_id d))),
     (''delegated_role'', JStr (dl_delegated_role d)),
     (''created_at'', JStr (json_datetime (dl_created_at d))),
     (''expires_at'', JStr (json_datetime (dl_expires_at d)))]"

definition dump_decision :: "approval_decision \<Rightarrow> json" where
  "dump_decision d = JObj
    [(''schema_version'', JStr ''1.0.0''),
     (''decision_id'', JStr (str_uuid (dc_decision_id d))),
     (''approval'', dump_approval_record (dc_approval d)),
     (''actor_role'', JStr (dc_actor_role d))]"

definition dump_grant :: "approval_grant \<Rightarrow> json" where
  "dump_grant g = JObj
    [(''schema_version'', JStr ''1.0.0''),
     (''resume_id'', JStr (str_uuid (gr_resume_id g))),
     (''approval_id'', JStr (str_uuid (gr_approval_id g))),
     (''scope'', dump_scope (gr_scope g)),
     (''task_id'', JStr (str_uuid (gr_task_id g))),
     (''candidate_sha256'', JStr (gr_candidate_sha256 g)),
     (''policy_version'', JStr (gr_policy_version g)),
     (''decision_sha256s'', JArr (map JStr (gr_decision_sha256s g))),
     (''resumed_at'', JStr (json_datetime (gr_resumed_at g)))]"

fun dump_payload :: "approval_payload \<Rightarrow> json" where
  "dump_payload (PCandidate c) = dump_candidate c"
| "dump_payload (PDelegation d) = dump_delegation d"
| "dump_payload (PDecision d) = dump_decision d"
| "dump_payload (PGrant g) = dump_grant g"

subsection \<open>Errors and model validation of payloads\<close>

datatype approval_error =
    ApprovalError string
  | ApprovalValidationError
  | ApprovalAuditError audit_error

fun as_candidate :: "approval_payload \<Rightarrow> approval_error + approval_candidate" where
  "as_candidate (PCandidate c) = (if valid_candidate c then Inr c else Inl ApprovalValidationError)"
| "as_candidate _ = Inl ApprovalValidationError"

fun as_delegation :: "approval_payload \<Rightarrow> approval_error + approval_delegation" where
  "as_delegation (PDelegation d) = (if valid_delegation d then Inr d else Inl ApprovalValidationError)"
| "as_delegation _ = Inl ApprovalValidationError"

fun as_decision :: "approval_payload \<Rightarrow> approval_error + approval_decision" where
  "as_decision (PDecision d) = (if valid_decision d then Inr d else Inl ApprovalValidationError)"
| "as_decision _ = Inl ApprovalValidationError"

fun as_grant :: "approval_payload \<Rightarrow> approval_error + approval_grant" where
  "as_grant (PGrant g) = (if valid_grant g then Inr g else Inl ApprovalValidationError)"
| "as_grant _ = Inl ApprovalValidationError"

text \<open>A tuple comprehension over fallible conversions: the first failure is raised.\<close>

fun map_sum_list :: "('a \<Rightarrow> 'e + 'b) \<Rightarrow> 'a list \<Rightarrow> 'e + 'b list" where
  "map_sum_list f [] = Inr []"
| "map_sum_list f (x # xs) = (case f x of Inl e \<Rightarrow> Inl e | Inr y \<Rightarrow>
     (case map_sum_list f xs of Inl e \<Rightarrow> Inl e | Inr ys \<Rightarrow> Inr (y # ys)))"

subsection \<open>The repository\<close>

record approval_event =
  ev_event_id :: uuid
  ev_approval_id :: uuid
  ev_scope :: tenant_scope
  ev_sequence :: nat
  ev_type :: approval_event_type
  ev_payload :: approval_payload
  ev_payload_sha256 :: string
  ev_previous_sha256 :: string
  ev_event_sha256 :: string
  ev_created_at :: datetime

type_synonym journal_key = "(uuid \<times> uuid) \<times> uuid"

record approval_repo =
  ap_events :: "journal_key \<Rightarrow> approval_event list"
  ap_by_id :: "uuid \<Rightarrow> approval_event option"

definition empty_approvals :: approval_repo where
  "empty_approvals = \<lparr>ap_events = (\<lambda>_. []), ap_by_id = (\<lambda>_. None)\<rparr>"

definition journal_data :: "uuid \<Rightarrow> uuid \<Rightarrow> tenant_scope \<Rightarrow> nat \<Rightarrow> approval_event_type \<Rightarrow> json \<Rightarrow> string \<Rightarrow>
    string \<Rightarrow> datetime \<Rightarrow> json" where
  "journal_data event_id approval_id scope sequence ty payload payload_sha previous created = JObj
    [(''event_id'', JStr (str_uuid event_id)),
     (''approval_id'', JStr (str_uuid approval_id)),
     (''scope'', dump_scope scope),
     (''sequence'', JInt (int sequence)),
     (''event_type'', JStr (event_type_value ty)),
     (''payload'', payload),
     (''payload_sha256'', JStr payload_sha),
     (''previous_sha256'', JStr previous),
     (''created_at'', JStr (isoformat created))]"

definition journal_body :: "approval_event \<Rightarrow> json" where
  "journal_body e = journal_data (ev_event_id e) (ev_approval_id e) (ev_scope e) (ev_sequence e) (ev_type e)
     (dump_payload (ev_payload e)) (ev_payload_sha256 e) (ev_previous_sha256 e) (ev_created_at e)"

definition journal_event :: "approval_event list \<Rightarrow> uuid \<Rightarrow> uuid \<Rightarrow> tenant_scope \<Rightarrow> approval_event_type \<Rightarrow>
    approval_payload \<Rightarrow> datetime \<Rightarrow> approval_event" where
  "journal_event chain event_id approval_id scope ty payload created = (let
     sequence = length chain + 1;
     previous = (if chain = [] then zero_sha256 else ev_event_sha256 (last chain));
     payload_sha = canonical_sha256 (dump_payload payload)
   in \<lparr>ev_event_id = event_id, ev_approval_id = approval_id, ev_scope = scope, ev_sequence = sequence,
       ev_type = ty, ev_payload = payload, ev_payload_sha256 = payload_sha, ev_previous_sha256 = previous,
       ev_event_sha256 = canonical_sha256 (journal_data event_id approval_id scope sequence ty
         (dump_payload payload) payload_sha previous created),
       ev_created_at = created\<rparr>)"

definition repo_append :: "uuid \<Rightarrow> uuid \<Rightarrow> tenant_scope \<Rightarrow> approval_event_type \<Rightarrow> approval_payload \<Rightarrow> datetime \<Rightarrow>
    (approval_repo, approval_error, approval_event) prog" where
  "repo_append event_id approval_id scope ty payload created = (\<lambda>s. case ap_by_id s event_id of
     Some existing \<Rightarrow>
       if ev_approval_id existing = approval_id \<and> project_key (ev_scope existing) = project_key scope \<and>
          ev_type existing = ty \<and> ev_payload_sha256 existing = canonical_sha256 (dump_payload payload)
       then (Inr existing, s)
       else (Inl (ApprovalError ''APPROVAL_IDEMPOTENCY_CONFLICT''), s)
   | None \<Rightarrow>
       let k = (project_key scope, approval_id);
           e = journal_event (ap_events s k) event_id approval_id scope ty payload created
       in (Inr e, s\<lparr>ap_events := (ap_events s)(k := ap_events s k @ [e]),
                    ap_by_id := (ap_by_id s)(event_id \<mapsto> e)\<rparr>))"

fun verify_journal_from :: "nat \<Rightarrow> string \<Rightarrow> approval_event list \<Rightarrow> approval_error + unit" where
  "verify_journal_from sequence previous [] = Inr ()"
| "verify_journal_from sequence previous (e # es) =
     (if ev_sequence e \<noteq> sequence \<or> ev_previous_sha256 e \<noteq> previous \<or>
         ev_payload_sha256 e \<noteq> canonical_sha256 (dump_payload (ev_payload e)) \<or>
         ev_event_sha256 e \<noteq> canonical_sha256 (journal_body e)
      then Inl (ApprovalError ''APPROVAL_CHAIN_INVALID'')
      else verify_journal_from (Suc sequence) (ev_event_sha256 e) es)"

definition verify_journal :: "approval_event list \<Rightarrow> approval_error + unit" where
  "verify_journal es = verify_journal_from 1 zero_sha256 es"

definition repo_list :: "approval_repo \<Rightarrow> tenant_scope \<Rightarrow> uuid \<Rightarrow> approval_error + approval_event list" where
  "repo_list s scope approval_id = (let chain = ap_events s (project_key scope, approval_id)
     in case verify_journal chain of Inl e \<Rightarrow> Inl e | Inr _ \<Rightarrow> Inr chain)"

definition repo_get :: "approval_repo \<Rightarrow> tenant_scope \<Rightarrow> uuid \<Rightarrow> approval_error + approval_event option" where
  "repo_get s scope event_id = (case ap_by_id s event_id of
     None \<Rightarrow> Inr None
   | Some e \<Rightarrow> if project_key (ev_scope e) \<noteq> project_key scope then Inl (ApprovalError ''APPROVAL_SCOPE_MISMATCH'')
       else Inr (Some e))"

end
