(* ===== verification/ApprovalService.thy ===== *)
theory ApprovalService
  imports Approval
begin

section \<open>The approval service\<close>

text \<open>
  \<^verbatim>\<open>ApprovalService\<close> of \<^verbatim>\<open>approval/service.py\<close>: one program per method, over a world that
  holds the journal, the audit repository and how often the clock and \<^verbatim>\<open>uuid4\<close> have been used.
  The environment gives the policy, the clock (UTC readings), the drawn identifiers and the
  current span. A denial is audited and then raised; when the audit append itself fails, its error
  propagates and nothing is written to the journal.
\<close>

record approval_env =
  en_policy :: approval_policy
  en_clock :: "nat \<Rightarrow> int"
  en_uuid4 :: "nat \<Rightarrow> uuid"
  en_span :: span_context

record approval_world =
  aw_repo :: approval_repo
  aw_audit :: audit_repo
  aw_reads :: nat
  aw_draws :: nat

type_synonym 'a approving = "(approval_world, approval_error, 'a) prog"

definition new_world :: approval_world where
  "new_world = \<lparr>aw_repo = empty_approvals, aw_audit = empty_audit, aw_reads = 0, aw_draws = 0\<rparr>"

record approval_status =
  st_candidate :: approval_candidate
  st_state :: approval_state
  st_decisions :: "approval_decision list"
  st_delegations :: "approval_delegation list"
  st_grant :: "approval_grant option"

subsection \<open>Clock, identifiers, repository and audit calls\<close>

definition read_clock :: "approval_env \<Rightarrow> datetime approving" where
  "read_clock env = (\<lambda>w. (Inr (utc (en_clock env (aw_reads w))), w\<lparr>aw_reads := Suc (aw_reads w)\<rparr>))"

definition draw_event_id :: "approval_env \<Rightarrow> uuid approving" where
  "draw_event_id env = (\<lambda>w. (Inr (en_uuid4 env (aw_draws w)), w\<lparr>aw_draws := Suc (aw_draws w)\<rparr>))"

definition journal_append :: "uuid \<Rightarrow> uuid \<Rightarrow> tenant_scope \<Rightarrow> approval_event_type \<Rightarrow> approval_payload \<Rightarrow> datetime \<Rightarrow>
    unit approving" where
  "journal_append event_id approval_id scope ty payload created = (\<lambda>w.
     case repo_append event_id approval_id scope ty payload created (aw_repo w) of
       (Inl e, r) \<Rightarrow> (Inl e, w\<lparr>aw_repo := r\<rparr>)
     | (Inr _, r) \<Rightarrow> (Inr (), w\<lparr>aw_repo := r\<rparr>))"

definition journal_list :: "tenant_scope \<Rightarrow> uuid \<Rightarrow> approval_event list approving" where
  "journal_list scope approval_id = (\<lambda>w. (repo_list (aw_repo w) scope approval_id, w))"

definition journal_get :: "tenant_scope \<Rightarrow> uuid \<Rightarrow> approval_event option approving" where
  "journal_get scope event_id = (\<lambda>w. (repo_get (aw_repo w) scope event_id, w))"

definition audit_call :: "approval_env \<Rightarrow> audit_record \<Rightarrow> unit approving" where
  "audit_call env r = (\<lambda>w. case audit_service_record (en_span env) r (aw_audit w) of
     (Inl e, a) \<Rightarrow> (Inl (ApprovalAuditError e), w\<lparr>aw_audit := a\<rparr>)
   | (Inr _, a) \<Rightarrow> (Inr (), w\<lparr>aw_audit := a\<rparr>))"

definition approval_audit_record :: "approval_candidate \<Rightarrow> string \<Rightarrow> string \<Rightarrow> audit_outcome \<Rightarrow> string \<Rightarrow> uuid \<Rightarrow>
    datetime \<Rightarrow> audit_record" where
  "approval_audit_record c action decision res input event_id occurred_at =
     \<lparr>au_event_id = event_id, au_scope = ac_scope c, au_kind = AK_APPROVAL, au_action = action,
      au_target_type = ''approval'', au_target_id = str_uuid (ac_approval_id c), au_task_id = Some (ac_task_id c),
      au_policy_version = ac_policy_version c, au_decision = decision, au_outcome = res,
      au_input_sha256 = input, au_output_sha256 = canonical_sha256 (JObj [(''decision'', JStr decision)]),
      au_request_id = ac_request_id c, au_occurred_at = occurred_at\<rparr>"

definition approval_audit :: "approval_env \<Rightarrow> approval_candidate \<Rightarrow> string \<Rightarrow> string \<Rightarrow> audit_outcome \<Rightarrow> string \<Rightarrow>
    unit approving" where
  "approval_audit env c action decision res input =
     bindP (draw_event_id env) (\<lambda>u. bindP (read_clock env) (\<lambda>t.
       let r = approval_audit_record c action decision res input u t
       in if valid_audit_record r then audit_call env r else raise ApprovalValidationError))"

definition deny :: "approval_env \<Rightarrow> approval_candidate \<Rightarrow> string \<Rightarrow> 'a approving" where
  "deny env c code = bindP (approval_audit env c ''approval.deny'' code AO_DENIED (ac_candidate_sha256 c))
     (\<lambda>_. raise (ApprovalError code))"

subsection \<open>Requests compared on a retry\<close>

text \<open>
  Python's \<^verbatim>\<open>==\<close> on JSON values, used on dumped candidates: the order of object keys does not
  count and \<^verbatim>\<open>True == 1 == 1.0\<close>. (A float of magnitude \<open>10^16\<close> or more, whose text has an
  exponent, is only compared with floats here.)
\<close>

definition decimal_value :: "string \<Rightarrow> int" where
  "decimal_value s = foldl (\<lambda>acc c. acc * 10 + int (of_char c) - 48) 0 s"

definition int_of_float_text :: "string \<Rightarrow> int option" where
  "int_of_float_text r = (let n = length r - 2; body = take n r; neg = (body \<noteq> [] \<and> hd body = CHR ''-'');
     digits = (if neg then tl body else body)
   in if drop n r = ''.0'' \<and> digits \<noteq> [] \<and> list_all is_decimal digits
      then Some (if neg then - decimal_value digits else decimal_value digits) else None)"

fun py_norm :: "json \<Rightarrow> json" where
  "py_norm (JBool b) = JInt (if b then 1 else 0)"
| "py_norm (JFloat r) = (case int_of_float_text r of None \<Rightarrow> JFloat r | Some i \<Rightarrow> JInt i)"
| "py_norm (JArr xs) = JArr (map py_norm xs)"
| "py_norm (JObj kvs) = JObj (sort_key fst (map (\<lambda>kv. (fst kv, py_norm (snd kv))) kvs))"
| "py_norm j = j"

definition candidate_request :: "approval_candidate \<Rightarrow> json" where
  "candidate_request c = JObj
    [(''schema_version'', JStr ''1.0.0''),
     (''approval_id'', JStr (str_uuid (ac_approval_id c))),
     (''scope'', dump_scope (ac_scope c)),
     (''task_id'', JStr (str_uuid (ac_task_id c))),
     (''request_id'', JStr (ac_request_id c)),
     (''kind'', JStr (approval_kind_value (ac_kind c))),
     (''action'', JStr (ac_action c)),
     (''target_type'', JStr (ac_target_type c)),
     (''target_id'', JStr (str_uuid (ac_target_id c))),
     (''target_version'', JStr (ac_target_version c)),
     (''candidate_sha256'', JStr (ac_candidate_sha256 c)),
     (''preview'', JObj (ac_preview c)),
     (''policy_version'', JStr (ac_policy_version c))]"

definition decision_request_of :: "uuid \<Rightarrow> string \<Rightarrow> uuid \<Rightarrow> string \<Rightarrow> approval_outcome \<Rightarrow> string \<Rightarrow> json" where
  "decision_request_of approval_id sha actor role res reason = JObj
    [(''approval_id'', JStr (str_uuid approval_id)), (''candidate_sha256'', JStr sha),
     (''actor_id'', JStr (str_uuid actor)), (''actor_role'', JStr role),
     (''outcome'', JStr (approval_outcome_value res)), (''reason'', JStr reason)]"

definition decision_request :: "approval_decision \<Rightarrow> json" where
  "decision_request d = (let a = dc_approval d in decision_request_of (ar_approval_id a) (ar_target_sha256 a)
     (ar_actor_id a) (dc_actor_role d) (ar_outcome a) (ar_reason a))"

definition delegation_request_of :: "uuid \<Rightarrow> string \<Rightarrow> uuid \<Rightarrow> uuid \<Rightarrow> string \<Rightarrow> datetime \<Rightarrow> json" where
  "delegation_request_of approval_id sha grantor delegate role expires = JObj
    [(''approval_id'', JStr (str_uuid approval_id)), (''candidate_sha256'', JStr sha),
     (''grantor_id'', JStr (str_uuid grantor)), (''delegate_id'', JStr (str_uuid delegate)),
     (''delegated_role'', JStr role), (''expires_at'', JStr (isoformat expires))]"

definition delegation_request :: "approval_delegation \<Rightarrow> json" where
  "delegation_request d = delegation_request_of (dl_approval_id d) (dl_candidate_sha256 d) (dl_grantor_id d)
     (dl_delegate_id d) (dl_delegated_role d) (dl_expires_at d)"

definition resume_request :: "uuid \<Rightarrow> string \<Rightarrow> json" where
  "resume_request approval_id sha = JObj
    [(''approval_id'', JStr (str_uuid approval_id)), (''candidate_sha256'', JStr sha)]"

subsection \<open>Status\<close>

fun terminal_state :: "approval_outcome \<Rightarrow> approval_state option" where
  "terminal_state APPROVED = None"
| "terminal_state REJECTED = Some ST_REJECTED"
| "terminal_state CHANGES_REQUESTED = Some ST_CHANGES_REQUESTED"
| "terminal_state EXPIRED = Some ST_EXPIRED"
| "terminal_state CANCELLED = Some ST_CANCELLED"

definition approved_roles :: "approval_decision list \<Rightarrow> string set" where
  "approved_roles ds = set (map dc_actor_role (filter (\<lambda>d. ar_outcome (dc_approval d) = APPROVED) ds))"

definition quorum :: "approval_rule \<Rightarrow> string set \<Rightarrow> bool" where
  "quorum r roles = (if rule_require_all_roles r then rule_required_roles r \<subseteq> roles
     else rule_required_roles r \<inter> roles \<noteq> {})"

fun first_terminal :: "approval_decision list \<Rightarrow> approval_state option" where
  "first_terminal [] = None"
| "first_terminal (d # ds) = (case terminal_state (ar_outcome (dc_approval d)) of
     Some s \<Rightarrow> Some s | None \<Rightarrow> first_terminal ds)"

definition state_of :: "approval_policy \<Rightarrow> approval_candidate \<Rightarrow> approval_decision list \<Rightarrow> approval_state" where
  "state_of pol c ds = (case first_terminal ds of Some s \<Rightarrow> s
     | None \<Rightarrow> if quorum (pol_rules pol (ac_kind c)) (approved_roles ds) then ST_APPROVED else ST_PENDING)"

definition payloads_of :: "approval_event_type \<Rightarrow> approval_event list \<Rightarrow> approval_payload list" where
  "payloads_of ty es = map ev_payload (filter (\<lambda>e. ev_type e = ty) es)"

definition status_of :: "approval_policy \<Rightarrow> approval_event list \<Rightarrow> approval_error + approval_status" where
  "status_of pol es =
     (if es = [] \<or> ev_type (hd es) \<noteq> EV_CANDIDATE then Inl (ApprovalError ''APPROVAL_NOT_FOUND'')
      else case as_candidate (ev_payload (hd es)) of Inl e \<Rightarrow> Inl e | Inr c \<Rightarrow>
        if ac_policy_version c \<noteq> pol_version pol then Inl (ApprovalError ''APPROVAL_POLICY_INCOMPATIBLE'')
        else case map_sum_list as_decision (payloads_of EV_DECISION es) of Inl e \<Rightarrow> Inl e | Inr ds \<Rightarrow>
          case map_sum_list as_delegation (payloads_of EV_DELEGATION es) of Inl e \<Rightarrow> Inl e | Inr ls \<Rightarrow>
            case map_sum_list as_grant (payloads_of EV_RESUME es) of Inl e \<Rightarrow> Inl e | Inr gs \<Rightarrow>
              Inr \<lparr>st_candidate = c, st_state = state_of pol c ds, st_decisions = ds, st_delegations = ls,
                st_grant = (if gs = [] then None else Some (last gs))\<rparr>)"

definition status :: "approval_env \<Rightarrow> tenant_scope \<Rightarrow> uuid \<Rightarrow> approval_status approving" where
  "status env scope approval_id = bindP (journal_list scope approval_id)
     (\<lambda>es. lift_pure (status_of (en_policy env) es))"

subsection \<open>Guards\<close>

definition require_pending_current :: "approval_env \<Rightarrow> approval_status \<Rightarrow> string \<Rightarrow> bool \<Rightarrow> unit approving" where
  "require_pending_current env st expected check_expiry = (let c = st_candidate st in
     if expected \<noteq> ac_candidate_sha256 c then deny env c ''APPROVAL_CANDIDATE_STALE''
     else if st_state st \<noteq> ST_PENDING then deny env c ''APPROVAL_TERMINAL''
     else if check_expiry then bindP (read_clock env) (\<lambda>t.
       if dt_us (ac_expires_at c) \<le> dt_us t then deny env c ''APPROVAL_EXPIRED'' else ret ())
     else ret ())"

definition actor_scope_ok :: "approval_candidate \<Rightarrow> approval_actor \<Rightarrow> bool" where
  "actor_scope_ok c a = (project_key (act_scope a) = project_key (ac_scope c) \<and>
     ts_permission_version (act_scope a) = ts_permission_version (ac_scope c))"

definition require_actor_scope :: "approval_env \<Rightarrow> approval_candidate \<Rightarrow> approval_actor \<Rightarrow> unit approving" where
  "require_actor_scope env c a = (if actor_scope_ok c a then ret () else deny env c ''APPROVAL_SCOPE_MISMATCH'')"

text \<open>The clock is read once for each delegation to this actor of this candidate.\<close>

fun delegated_roles :: "approval_env \<Rightarrow> approval_candidate \<Rightarrow> approval_actor \<Rightarrow> string set \<Rightarrow>
    approval_delegation list \<Rightarrow> string list approving" where
  "delegated_roles env c a used [] = ret []"
| "delegated_roles env c a used (d # ds) =
     (if dl_delegate_id d = actor_id a \<and> dl_candidate_sha256 d = ac_candidate_sha256 c
      then bindP (read_clock env) (\<lambda>t. bindP (delegated_roles env c a used ds) (\<lambda>rs.
        ret (if dt_us t < dt_us (dl_expires_at d) \<and> dl_delegated_role d \<notin> used then dl_delegated_role d # rs else rs)))
      else delegated_roles env c a used ds)"

definition choose_role :: "approval_env \<Rightarrow> approval_status \<Rightarrow> approval_actor \<Rightarrow> string approving" where
  "choose_role env st a = (let c = st_candidate st;
     rule = pol_rules (en_policy env) (ac_kind c);
     used = set (map dc_actor_role (st_decisions st));
     direct = sorted_list_of_set ((actor_roles a \<inter> rule_required_roles rule) - used)
   in if direct \<noteq> [] then ret (hd direct)
      else bindP (delegated_roles env c a used (st_delegations st)) (\<lambda>rs.
        ret (if rs \<noteq> [] then hd (sort rs) else ''UNAUTHORIZED'')))"

fun any_delegation :: "approval_env \<Rightarrow> approval_candidate \<Rightarrow> approval_actor \<Rightarrow> string \<Rightarrow>
    approval_delegation list \<Rightarrow> bool approving" where
  "any_delegation env c a role [] = ret False"
| "any_delegation env c a role (d # ds) =
     (if dl_delegate_id d = actor_id a \<and> dl_delegated_role d = role \<and> dl_candidate_sha256 d = ac_candidate_sha256 c
      then bindP (read_clock env) (\<lambda>t.
        if dt_us t < dt_us (dl_expires_at d) then ret True else any_delegation env c a role ds)
      else any_delegation env c a role ds)"

definition authorize_role :: "approval_env \<Rightarrow> approval_status \<Rightarrow> approval_actor \<Rightarrow> string \<Rightarrow> unit approving" where
  "authorize_role env st a role = (let c = st_candidate st in
     if role \<notin> rule_required_roles (pol_rules (en_policy env) (ac_kind c)) then deny env c ''APPROVAL_ROLE_DENIED''
     else if role \<in> actor_roles a then ret ()
     else bindP (any_delegation env c a role (st_delegations st)) (\<lambda>valid.
       if valid then ret () else deny env c ''APPROVAL_ROLE_DENIED''))"

subsection \<open>Operations\<close>

definition new_candidate :: "approval_env \<Rightarrow> uuid \<Rightarrow> tenant_scope \<Rightarrow> uuid \<Rightarrow> string \<Rightarrow> approval_kind \<Rightarrow> string \<Rightarrow> string \<Rightarrow>
    uuid \<Rightarrow> string \<Rightarrow> string \<Rightarrow> (string \<times> json) list \<Rightarrow> datetime \<Rightarrow> approval_candidate" where
  "new_candidate env approval_id scope task_id request_id kind action target_type target_id target_version
     candidate_sha256 preview now =
     \<lparr>ac_approval_id = approval_id, ac_scope = scope, ac_task_id = task_id, ac_request_id = request_id,
      ac_kind = kind, ac_action = action, ac_target_type = target_type, ac_target_id = target_id,
      ac_target_version = target_version, ac_candidate_sha256 = candidate_sha256, ac_preview = preview,
      ac_preview_sha256 = canonical_sha256 (JObj preview), ac_policy_version = pol_version (en_policy env),
      ac_created_at = now,
      ac_expires_at = add_seconds now (rule_validity_seconds (pol_rules (en_policy env) kind))\<rparr>"

definition store_candidate :: "approval_env \<Rightarrow> approval_candidate \<Rightarrow> approval_status approving" where
  "store_candidate env c = bindP (approval_audit env c ''approval.create'' ''PENDING'' AO_SUCCESS (ac_candidate_sha256 c))
     (\<lambda>_. bindP (journal_append (ac_approval_id c) (ac_approval_id c) (ac_scope c) EV_CANDIDATE (PCandidate c)
        (ac_created_at c)) (\<lambda>_. status env (ac_scope c) (ac_approval_id c)))"

definition create :: "approval_env \<Rightarrow> uuid \<Rightarrow> tenant_scope \<Rightarrow> uuid \<Rightarrow> string \<Rightarrow> approval_kind \<Rightarrow> string \<Rightarrow> string \<Rightarrow>
    uuid \<Rightarrow> string \<Rightarrow> string \<Rightarrow> (string \<times> json) list \<Rightarrow> approval_status approving" where
  "create env approval_id scope task_id request_id kind action target_type target_id target_version
     candidate_sha256 preview = bindP (read_clock env) (\<lambda>now.
       let c = new_candidate env approval_id scope task_id request_id kind action target_type target_id
             target_version candidate_sha256 preview now
       in if \<not> valid_candidate c then raise ApprovalValidationError
          else bindP (journal_list scope approval_id) (\<lambda>existing.
            if existing \<noteq> [] then bindP (lift_pure (as_candidate (ev_payload (hd existing)))) (\<lambda>stored.
              if py_norm (candidate_request stored) = py_norm (candidate_request c) then status env scope approval_id
              else deny env c ''APPROVAL_IDEMPOTENCY_CONFLICT'')
            else store_candidate env c))"

definition new_delegation :: "uuid \<Rightarrow> uuid \<Rightarrow> string \<Rightarrow> uuid \<Rightarrow> uuid \<Rightarrow> string \<Rightarrow> datetime \<Rightarrow> datetime \<Rightarrow> approval_delegation" where
  "new_delegation delegation_id approval_id sha grantor delegate_id role now expires =
     \<lparr>dl_delegation_id = delegation_id, dl_approval_id = approval_id, dl_candidate_sha256 = sha,
      dl_grantor_id = grantor, dl_delegate_id = delegate_id, dl_delegated_role = role,
      dl_created_at = now, dl_expires_at = expires\<rparr>"

definition delegate :: "approval_env \<Rightarrow> uuid \<Rightarrow> tenant_scope \<Rightarrow> uuid \<Rightarrow> string \<Rightarrow> approval_actor \<Rightarrow> uuid \<Rightarrow> string \<Rightarrow>
    datetime \<Rightarrow> approval_delegation approving" where
  "delegate env delegation_id scope approval_id expected grantor delegate_id role expires =
     bindP (status env scope approval_id) (\<lambda>st. let c = st_candidate st;
       request = delegation_request_of approval_id expected (actor_id grantor) delegate_id role expires;
       rule = pol_rules (en_policy env) (ac_kind c) in
     bindP (journal_get scope delegation_id) (\<lambda>existing. case existing of
       Some ev \<Rightarrow> bindP (lift_pure (as_delegation (ev_payload ev))) (\<lambda>stored.
         if canonical_sha256 request = canonical_sha256 (delegation_request stored) then ret stored
         else deny env c ''APPROVAL_IDEMPOTENCY_CONFLICT'')
     | None \<Rightarrow>
       bindP (require_pending_current env st expected True) (\<lambda>_.
       bindP (require_actor_scope env c grantor) (\<lambda>_.
       if \<not> rule_delegation_allowed rule \<or> role \<notin> rule_required_roles rule then deny env c ''APPROVAL_DELEGATION_DENIED''
       else if role \<notin> actor_roles grantor \<or> actor_id grantor = ts_user_id (ac_scope c)
         then deny env c ''APPROVAL_DELEGATION_DENIED''
       else bindP (read_clock env) (\<lambda>now.
         if \<not> is_aware expires \<or> dt_us expires \<le> dt_us now \<or> dt_us (ac_expires_at c) < dt_us expires
         then deny env c ''APPROVAL_DELEGATION_INVALID''
         else let d = new_delegation delegation_id approval_id expected (actor_id grantor) delegate_id role now expires
           in if \<not> valid_delegation d then raise ApprovalValidationError
              else bindP (approval_audit env c ''approval.delegate'' ''DELEGATED'' AO_SUCCESS (canonical_sha256 request)) (\<lambda>_.
                bindP (journal_append delegation_id approval_id (ac_scope c) EV_DELEGATION (PDelegation d) now)
                  (\<lambda>_. ret d)))))))"

definition approval_record_for :: "uuid \<Rightarrow> approval_candidate \<Rightarrow> uuid \<Rightarrow> approval_outcome \<Rightarrow> string \<Rightarrow> datetime \<Rightarrow> approval_record" where
  "approval_record_for approval_id c actor res reason now =
     \<lparr>ar_approval_id = approval_id, ar_scope = ac_scope c, ar_action = ac_action c,
      ar_target_type = ac_target_type c, ar_target_id = ac_target_id c, ar_target_version = ac_target_version c,
      ar_target_sha256 = ac_candidate_sha256 c, ar_policy_version = ac_policy_version c, ar_actor_id = actor,
      ar_outcome = res, ar_reason = reason, ar_decided_at = now, ar_expires_at = Some (ac_expires_at c)\<rparr>"

text \<open>The common tail of \<^verbatim>\<open>decide\<close> and \<^verbatim>\<open>_terminal_system_decision\<close>: read the clock, build and validate
  the decision, audit it, append it.\<close>

definition record_decision :: "approval_env \<Rightarrow> uuid \<Rightarrow> uuid \<Rightarrow> approval_candidate \<Rightarrow> uuid \<Rightarrow> string \<Rightarrow> approval_outcome \<Rightarrow> string \<Rightarrow>
    json \<Rightarrow> approval_decision approving" where
  "record_decision env decision_id approval_id c actor role res reason request = bindP (read_clock env) (\<lambda>now.
     let d = \<lparr>dc_decision_id = decision_id, dc_approval = approval_record_for approval_id c actor res reason now, dc_actor_role = role\<rparr>
     in if \<not> valid_decision d then raise ApprovalValidationError
        else bindP (approval_audit env c ''approval.decide'' (approval_outcome_value res) AO_SUCCESS (canonical_sha256 request)) (\<lambda>_.
          bindP (journal_append decision_id approval_id (ac_scope c) EV_DECISION (PDecision d) now) (\<lambda>_. ret d)))"

definition stored_decision :: "approval_event option \<Rightarrow> approval_error + approval_decision option" where
  "stored_decision existing = (case existing of None \<Rightarrow> Inr None
     | Some ev \<Rightarrow> (case as_decision (ev_payload ev) of Inl e \<Rightarrow> Inl e | Inr d \<Rightarrow> Inr (Some d)))"

definition decide :: "approval_env \<Rightarrow> uuid \<Rightarrow> tenant_scope \<Rightarrow> uuid \<Rightarrow> string \<Rightarrow> approval_actor \<Rightarrow> approval_outcome \<Rightarrow>
    string \<Rightarrow> string option \<Rightarrow> approval_decision approving" where
  "decide env decision_id scope approval_id expected actor res reason actor_role =
     bindP (status env scope approval_id) (\<lambda>st. let c = st_candidate st in
     if res \<notin> {APPROVED, REJECTED, CHANGES_REQUESTED} then deny env c ''APPROVAL_OUTCOME_INVALID'' else
     bindP (journal_get scope decision_id) (\<lambda>existing.
     bindP (lift_pure (stored_decision existing)) (\<lambda>stored.
     bindP (if actor_role \<noteq> None \<and> actor_role \<noteq> Some [] then ret (the actor_role)
            else case stored of Some d \<Rightarrow> ret (dc_actor_role d) | None \<Rightarrow> choose_role env st actor) (\<lambda>role.
     let request = decision_request_of approval_id expected (actor_id actor) role res reason in
     case stored of
       Some d \<Rightarrow> if canonical_sha256 request = canonical_sha256 (decision_request d) then ret d
         else deny env c ''APPROVAL_IDEMPOTENCY_CONFLICT''
     | None \<Rightarrow>
       bindP (require_pending_current env st expected True) (\<lambda>_.
       bindP (require_actor_scope env c actor) (\<lambda>_.
       if actor_id actor = ts_user_id (ac_scope c) then deny env c ''APPROVAL_SELF_APPROVAL_DENIED''
       else if \<exists>d \<in> set (st_decisions st). ar_actor_id (dc_approval d) = actor_id actor
         then deny env c ''APPROVAL_DUPLICATE_ACTOR''
       else bindP (authorize_role env st actor role) (\<lambda>_.
         record_decision env decision_id approval_id c (actor_id actor) role res reason request)))))))"

definition system_actor_id :: uuid where
  "system_actor_id = 0"

definition terminal_system_decision :: "approval_env \<Rightarrow> uuid \<Rightarrow> approval_status \<Rightarrow> string \<Rightarrow> approval_outcome \<Rightarrow> string \<Rightarrow>
    uuid \<Rightarrow> string \<Rightarrow> approval_decision approving" where
  "terminal_system_decision env decision_id st expected res reason actor role = (let c = st_candidate st;
     request = decision_request_of (ac_approval_id c) expected actor role res reason in
     bindP (journal_get (ac_scope c) decision_id) (\<lambda>existing.
     bindP (lift_pure (stored_decision existing)) (\<lambda>stored. case stored of
       Some d \<Rightarrow> if canonical_sha256 request = canonical_sha256 (decision_request d) then ret d
         else deny env c ''APPROVAL_IDEMPOTENCY_CONFLICT''
     | None \<Rightarrow> bindP (require_pending_current env st expected False) (\<lambda>_.
         record_decision env decision_id (ac_approval_id c) c actor role res reason request))))"

definition expire :: "approval_env \<Rightarrow> uuid \<Rightarrow> tenant_scope \<Rightarrow> uuid \<Rightarrow> string \<Rightarrow> string \<Rightarrow> approval_decision approving" where
  "expire env decision_id scope approval_id expected reason = bindP (status env scope approval_id) (\<lambda>st.
     bindP (read_clock env) (\<lambda>t.
       if dt_us t < dt_us (ac_expires_at (st_candidate st)) then deny env (st_candidate st) ''APPROVAL_NOT_EXPIRED''
       else terminal_system_decision env decision_id st expected EXPIRED reason system_actor_id ''SYSTEM''))"

definition cancel :: "approval_env \<Rightarrow> uuid \<Rightarrow> tenant_scope \<Rightarrow> uuid \<Rightarrow> string \<Rightarrow> approval_actor \<Rightarrow> string \<Rightarrow>
    approval_decision approving" where
  "cancel env decision_id scope approval_id expected actor reason = bindP (status env scope approval_id) (\<lambda>st.
     let c = st_candidate st in bindP (require_actor_scope env c actor) (\<lambda>_.
     if actor_id actor \<noteq> ts_user_id (ac_scope c) \<and> ''PROJECT_ADMINISTRATOR'' \<notin> actor_roles actor
     then deny env c ''APPROVAL_CANCEL_DENIED''
     else terminal_system_decision env decision_id st expected CANCELLED reason (actor_id actor)
       (if actor_id actor = ts_user_id (ac_scope c) then ''REQUESTER'' else ''PROJECT_ADMINISTRATOR'')))"

definition new_grant :: "approval_candidate \<Rightarrow> uuid \<Rightarrow> uuid \<Rightarrow> approval_decision list \<Rightarrow> datetime \<Rightarrow> approval_grant" where
  "new_grant c resume_id approval_id ds now =
     \<lparr>gr_resume_id = resume_id, gr_approval_id = approval_id, gr_scope = ac_scope c, gr_task_id = ac_task_id c,
      gr_candidate_sha256 = ac_candidate_sha256 c, gr_policy_version = ac_policy_version c,
      gr_decision_sha256s = map (\<lambda>d. canonical_sha256 (dump_decision d)) ds, gr_resumed_at = now\<rparr>"

definition resume :: "approval_env \<Rightarrow> uuid \<Rightarrow> tenant_scope \<Rightarrow> uuid \<Rightarrow> string \<Rightarrow> approval_grant approving" where
  "resume env resume_id scope approval_id expected = bindP (status env scope approval_id) (\<lambda>st.
     let c = st_candidate st; request = resume_request approval_id expected in
     bindP (journal_get scope resume_id) (\<lambda>existing. case existing of
       Some ev \<Rightarrow> bindP (lift_pure (as_grant (ev_payload ev))) (\<lambda>stored.
         if canonical_sha256 request = canonical_sha256 (resume_request (gr_approval_id stored) (gr_candidate_sha256 stored))
         then ret stored else deny env c ''APPROVAL_IDEMPOTENCY_CONFLICT'')
     | None \<Rightarrow>
       if st_grant st \<noteq> None then deny env c ''APPROVAL_REPLAYED''
       else if st_state st \<noteq> ST_APPROVED then deny env c ''APPROVAL_NOT_APPROVED''
       else if expected \<noteq> ac_candidate_sha256 c then deny env c ''APPROVAL_CANDIDATE_STALE''
       else bindP (read_clock env) (\<lambda>now. let g = new_grant c resume_id approval_id (st_decisions st) now in
         if \<not> valid_grant g then raise ApprovalValidationError
         else bindP (approval_audit env c ''approval.resume'' ''RESUMED'' AO_SUCCESS (canonical_sha256 request)) (\<lambda>_.
           bindP (journal_append resume_id approval_id (ac_scope c) EV_RESUME (PGrant g) now) (\<lambda>_. ret g)))))"

end
