(* ===== verification/ApprovalJournal.thy ===== *)
theory ApprovalJournal
  imports ApprovalService
begin

section \<open>What an approval journal may contain\<close>

text \<open>
  The specification of a checkpoint's journal, independent of the service that writes it: it opens
  with a valid candidate of its own key, and every later event was admissible when it was written
  (\<open>admissible\<close>): delegations and decisions only while the checkpoint is pending, human decisions
  only by independent actors in a required role, one grant and only after approval. From
  \<open>journal_ok\<close> alone follow the facts about quorum, terminal states and grants, and that
  \<^verbatim>\<open>status\<close> can always read the journal back. The theory also interprets the hash chain.
\<close>

subsection \<open>The chain contract\<close>

lemma event_type_value_inject [simp]: "event_type_value x = event_type_value y \<longleftrightarrow> x = y"
  by (cases x; cases y) simp_all

definition payload_wf :: "approval_event \<Rightarrow> bool" where
  "payload_wf e = (json_wf (dump_payload (ev_payload e)) \<and>
     ev_payload_sha256 e = canonical_sha256 (dump_payload (ev_payload e)))"

lemma journal_body_fields:
  assumes "json_norm (journal_body e) = json_norm (journal_body e')"
  shows "ev_event_id e = ev_event_id e' \<and> ev_approval_id e = ev_approval_id e' \<and> ev_scope e = ev_scope e' \<and>
    ev_sequence e = ev_sequence e' \<and> ev_type e = ev_type e' \<and>
    json_norm (dump_payload (ev_payload e)) = json_norm (dump_payload (ev_payload e')) \<and>
    ev_previous_sha256 e = ev_previous_sha256 e' \<and> isoformat (ev_created_at e) = isoformat (ev_created_at e')"
proof -
  note field = json_norm_map_of [OF assms [unfolded journal_body_def journal_data_def], simplified]
  have "ev_event_id e = ev_event_id e'" using field [of "''event_id''"] by simp
  moreover have "ev_approval_id e = ev_approval_id e'" using field [of "''approval_id''"] by simp
  moreover have "ev_scope e = ev_scope e'" using field [of "''scope''"] by simp
  moreover have "ev_sequence e = ev_sequence e'" using field [of "''sequence''"] by simp
  moreover have "ev_type e = ev_type e'" using field [of "''event_type''"] by simp
  moreover have "json_norm (dump_payload (ev_payload e)) = json_norm (dump_payload (ev_payload e'))"
    using field [of "''payload''"] by simp
  moreover have "ev_previous_sha256 e = ev_previous_sha256 e'" using field [of "''previous_sha256''"] by simp
  moreover have "isoformat (ev_created_at e) = isoformat (ev_created_at e')" using field [of "''created_at''"] by simp
  ultimately show ?thesis by simp
qed

interpretation approval_chain: hash_chain ev_sequence ev_previous_sha256 ev_event_sha256 journal_body payload_wf
  "\<lambda>n p es. verify_journal_from n p es = Inr () \<and> list_all (\<lambda>e. json_wf (dump_payload (ev_payload e))) es"
proof unfold_locales
  show "json_wf (journal_body e)" if "payload_wf e" for e
    using that by (auto simp: payload_wf_def journal_body_def journal_data_def)
  show "ev_sequence e = ev_sequence e' \<and> ev_previous_sha256 e = ev_previous_sha256 e'"
    if "json_norm (journal_body e) = json_norm (journal_body e')" for e e'
    using journal_body_fields [OF that] by simp
qed (auto simp: payload_wf_def)

lemma journal_event_fields [simp]:
  "ev_event_id (journal_event es i a s ty p t) = i" "ev_approval_id (journal_event es i a s ty p t) = a"
  "ev_scope (journal_event es i a s ty p t) = s" "ev_type (journal_event es i a s ty p t) = ty"
  "ev_payload (journal_event es i a s ty p t) = p" "ev_sequence (journal_event es i a s ty p t) = Suc (length es)"
  "ev_created_at (journal_event es i a s ty p t) = t"
  by (simp_all add: journal_event_def Let_def)

lemma journal_event_links:
  "ev_previous_sha256 (journal_event es i a s ty p t) = (if es = [] then zero_sha256 else ev_event_sha256 (last es))"
  "ev_payload_sha256 (journal_event es i a s ty p t) = canonical_sha256 (dump_payload p)"
  "ev_event_sha256 (journal_event es i a s ty p t) = canonical_sha256 (journal_body (journal_event es i a s ty p t))"
  by (simp_all add: journal_event_def Let_def journal_body_def)

lemma verify_journal_snoc:
  assumes "verify_journal es = Inr ()" "list_all (\<lambda>e. json_wf (dump_payload (ev_payload e))) es" "json_wf (dump_payload p)"
  shows "verify_journal (es @ [journal_event es i a s ty p t]) = Inr ()"
  using approval_chain.verify_snoc [of 1 zero_sha256 es "journal_event es i a s ty p t"] assms
  by (simp add: verify_journal_def payload_wf_def journal_event_links)

subsection \<open>Reading a journal\<close>

fun decision_of :: "approval_payload \<Rightarrow> approval_decision option" where
  "decision_of (PDecision d) = Some d"
| "decision_of _ = None"

fun delegation_of :: "approval_payload \<Rightarrow> approval_delegation option" where
  "delegation_of (PDelegation d) = Some d"
| "delegation_of _ = None"

fun grant_of :: "approval_payload \<Rightarrow> approval_grant option" where
  "grant_of (PGrant g) = Some g"
| "grant_of _ = None"

definition decisions_in :: "approval_event list \<Rightarrow> approval_decision list" where
  "decisions_in es = List.map_filter (decision_of \<circ> ev_payload) es"

definition delegations_in :: "approval_event list \<Rightarrow> approval_delegation list" where
  "delegations_in es = List.map_filter (delegation_of \<circ> ev_payload) es"

definition grants_in :: "approval_event list \<Rightarrow> approval_grant list" where
  "grants_in es = List.map_filter (grant_of \<circ> ev_payload) es"

definition candidate_in :: "approval_event list \<Rightarrow> approval_candidate option" where
  "candidate_in es = (case es of [] \<Rightarrow> None | e # _ \<Rightarrow> (case ev_payload e of PCandidate c \<Rightarrow> Some c | _ \<Rightarrow> None))"

lemma reading_snoc [simp]:
  "decisions_in (es @ [e]) = decisions_in es @ (case decision_of (ev_payload e) of None \<Rightarrow> [] | Some d \<Rightarrow> [d])"
  "delegations_in (es @ [e]) = delegations_in es @ (case delegation_of (ev_payload e) of None \<Rightarrow> [] | Some d \<Rightarrow> [d])"
  "grants_in (es @ [e]) = grants_in es @ (case grant_of (ev_payload e) of None \<Rightarrow> [] | Some g \<Rightarrow> [g])"
  "es \<noteq> [] \<Longrightarrow> candidate_in (es @ [e]) = candidate_in es"
  by (auto simp: decisions_in_def delegations_in_def grants_in_def candidate_in_def map_filter_def neq_Nil_conv split: option.split)

lemma reading_Nil [simp]: "decisions_in [] = []" "delegations_in [] = []" "grants_in [] = []" "candidate_in [] = None"
  by (simp_all add: decisions_in_def delegations_in_def grants_in_def candidate_in_def map_filter_def)

subsection \<open>Admissible events\<close>

definition human_decision_ok :: "approval_policy \<Rightarrow> approval_candidate \<Rightarrow> approval_decision list \<Rightarrow> approval_decision \<Rightarrow> bool" where
  "human_decision_ok pol c ds d =
     (ar_actor_id (dc_approval d) \<noteq> ts_user_id (ac_scope c) \<and>
      ar_actor_id (dc_approval d) \<notin> set (map (\<lambda>x. ar_actor_id (dc_approval x)) ds) \<and>
      dc_actor_role d \<in> rule_required_roles (pol_rules pol (ac_kind c)))"

definition system_decision_ok :: "approval_candidate \<Rightarrow> approval_decision \<Rightarrow> bool" where
  "system_decision_ok c d = (case ar_outcome (dc_approval d) of
     EXPIRED \<Rightarrow> ar_actor_id (dc_approval d) = system_actor_id \<and> dc_actor_role d = ''SYSTEM''
   | CANCELLED \<Rightarrow> dc_actor_role d = (if ar_actor_id (dc_approval d) = ts_user_id (ac_scope c) then ''REQUESTER'' else ''PROJECT_ADMINISTRATOR'')
   | _ \<Rightarrow> False)"

definition bound_to :: "approval_candidate \<Rightarrow> approval_decision \<Rightarrow> bool" where
  "bound_to c d = (let a = dc_approval d in
     a = approval_record_for (ac_approval_id c) c (ar_actor_id a) (ar_outcome a) (ar_reason a) (ar_decided_at a))"

fun admissible :: "approval_policy \<Rightarrow> approval_candidate \<Rightarrow> approval_event list \<Rightarrow> approval_event_type \<Rightarrow> approval_payload \<Rightarrow> bool" where
  "admissible pol c es EV_DELEGATION (PDelegation d) =
     (valid_delegation d \<and> state_of pol c (decisions_in es) = ST_PENDING \<and> grants_in es = [] \<and>
      dl_approval_id d = ac_approval_id c \<and> dl_candidate_sha256 d = ac_candidate_sha256 c \<and>
      rule_delegation_allowed (pol_rules pol (ac_kind c)) \<and>
      dl_delegated_role d \<in> rule_required_roles (pol_rules pol (ac_kind c)) \<and>
      dl_grantor_id d \<noteq> ts_user_id (ac_scope c) \<and>
      dt_us (dl_created_at d) < dt_us (dl_expires_at d) \<and> dt_us (dl_expires_at d) \<le> dt_us (ac_expires_at c))"
| "admissible pol c es EV_DECISION (PDecision d) =
     (valid_decision d \<and> state_of pol c (decisions_in es) = ST_PENDING \<and> grants_in es = [] \<and> bound_to c d \<and>
      (if ar_outcome (dc_approval d) \<in> {APPROVED, REJECTED, CHANGES_REQUESTED}
       then human_decision_ok pol c (decisions_in es) d else system_decision_ok c d))"
| "admissible pol c es EV_RESUME (PGrant g) =
     (valid_grant g \<and> state_of pol c (decisions_in es) = ST_APPROVED \<and> grants_in es = [] \<and>
      g = new_grant c (gr_resume_id g) (ac_approval_id c) (decisions_in es) (gr_resumed_at g))"
| "admissible pol c es _ _ = False"

inductive journal_ok :: "approval_policy \<Rightarrow> journal_key \<Rightarrow> approval_event list \<Rightarrow> bool" for pol k where
  journal_empty: "journal_ok pol k []"
| journal_first: "ev_type e = EV_CANDIDATE \<Longrightarrow> ev_payload e = PCandidate c \<Longrightarrow> valid_candidate c \<Longrightarrow>
    json_wf (JObj (ac_preview c)) \<Longrightarrow> k = (project_key (ac_scope c), ac_approval_id c) \<Longrightarrow>
    ac_policy_version c = pol_version pol \<Longrightarrow> journal_ok pol k [e]"
| journal_next: "journal_ok pol k es \<Longrightarrow> candidate_in es = Some c \<Longrightarrow>
    admissible pol c es (ev_type e) (ev_payload e) \<Longrightarrow> journal_ok pol k (es @ [e])"

inductive_cases journal_snocE: "journal_ok pol k (es @ [e])"

lemma candidate_in_nonempty: "candidate_in es = Some c \<Longrightarrow> es \<noteq> []"
  by auto

lemma admissible_cases:
  assumes "admissible pol c es ty p"
  obtains (delegation) d where "ty = EV_DELEGATION" "p = PDelegation d"
  | (decision) d where "ty = EV_DECISION" "p = PDecision d"
  | (grant) g where "ty = EV_RESUME" "p = PGrant g"
  using assms by (cases ty; cases p) auto

lemma journal_candidate:
  assumes "journal_ok pol k es" "es \<noteq> []"
  shows "\<exists>c. candidate_in es = Some c \<and> valid_candidate c \<and> k = (project_key (ac_scope c), ac_approval_id c) \<and>
    ac_policy_version c = pol_version pol \<and> json_wf (JObj (ac_preview c)) \<and>
    ev_type (hd es) = EV_CANDIDATE \<and> ev_payload (hd es) = PCandidate c"
  using assms
proof (induction rule: journal_ok.induct)
  case (journal_first e c)
  then show ?case by (simp add: candidate_in_def)
next
  case (journal_next es c e)
  then have "es \<noteq> []" by auto
  with journal_next show ?case by simp
qed simp

lemma dump_payload_wf [simp]:
  "json_wf (dump_payload (PDelegation d))" "json_wf (dump_payload (PDecision x))" "json_wf (dump_payload (PGrant g))"
  "json_wf (dump_payload (PCandidate c)) = json_wf (JObj (ac_preview c))"
  by (auto simp: dump_delegation_def dump_decision_def dump_grant_def dump_candidate_def list_all_iff)

lemma journal_wf: "journal_ok pol k es \<Longrightarrow> list_all (\<lambda>e. json_wf (dump_payload (ev_payload e))) es"
proof (induction rule: journal_ok.induct)
  case (journal_next es c e)
  from journal_next.hyps(3) have "json_wf (dump_payload (ev_payload e))"
    by (cases rule: admissible_cases) (simp_all del: dump_payload.simps)
  with journal_next.IH show ?case by simp
qed (simp_all del: dump_payload.simps json_wf.simps)

text \<open>Events of a type carry payloads of that type, and they validate when read back.\<close>

lemma map_sum_list_Inr_append [simp]:
  "map_sum_list f (xs @ ys) = (case map_sum_list f xs of Inl e \<Rightarrow> Inl e | Inr us \<Rightarrow>
     (case map_sum_list f ys of Inl e \<Rightarrow> Inl e | Inr vs \<Rightarrow> Inr (us @ vs)))"
  by (induction xs) (auto split: sum.split)

lemma journal_reads:
  assumes "journal_ok pol k es"
  shows "map_sum_list as_decision (payloads_of EV_DECISION es) = Inr (decisions_in es) \<and>
    map_sum_list as_delegation (payloads_of EV_DELEGATION es) = Inr (delegations_in es) \<and>
    map_sum_list as_grant (payloads_of EV_RESUME es) = Inr (grants_in es)"
  using assms
proof (induction rule: journal_ok.induct)
  case journal_empty
  then show ?case by (simp add: payloads_of_def)
next
  case (journal_first e c)
  then show ?case
    using reading_snoc(1-3) [of "[]" e] by (simp add: payloads_of_def)
next
  case (journal_next es c e)
  from journal_next.hyps(3) show ?case
    by (cases rule: admissible_cases) (use journal_next in \<open>auto simp: payloads_of_def\<close>)
qed

lemma journal_status:
  assumes "journal_ok pol k es" "candidate_in es = Some c"
  shows "status_of pol es = Inr \<lparr>st_candidate = c, st_state = state_of pol c (decisions_in es),
    st_decisions = decisions_in es, st_delegations = delegations_in es,
    st_grant = (if grants_in es = [] then None else Some (last (grants_in es)))\<rparr>"
  using journal_candidate [OF assms(1) candidate_in_nonempty [OF assms(2)]] assms(2) journal_reads [OF assms(1)]
  by (auto simp: status_of_def)

subsection \<open>Consequences\<close>

lemma first_terminal_pending: "first_terminal ds = Some s \<Longrightarrow> s \<noteq> ST_PENDING"
  by (induction ds) (auto split: option.splits elim: terminal_state.elims)

lemma pending_first_terminal: "state_of pol c ds = ST_PENDING \<Longrightarrow> first_terminal ds = None"
  by (cases "first_terminal ds") (auto simp: state_of_def dest: first_terminal_pending)

text \<open>Approval means a quorum of required roles and no negative outcome.\<close>

lemma first_terminal_None: "first_terminal ds = None \<longleftrightarrow> (\<forall>d \<in> set ds. ar_outcome (dc_approval d) = APPROVED)"
  by (induction ds) (auto split: option.splits elim: terminal_state.elims)

lemma state_approved:
  "state_of pol c ds = ST_APPROVED \<longleftrightarrow>
     (\<forall>d \<in> set ds. ar_outcome (dc_approval d) = APPROVED) \<and> quorum (pol_rules pol (ac_kind c)) (set (map dc_actor_role ds))"
proof -
  have "first_terminal ds = Some s \<Longrightarrow> s \<noteq> ST_APPROVED" for s
    by (induction ds) (auto split: option.splits elim: terminal_state.elims)
  moreover have "approved_roles ds = set (map dc_actor_role ds)" if "first_terminal ds = None"
    using that by (auto simp: approved_roles_def first_terminal_None)
  ultimately show ?thesis
    by (cases "first_terminal ds") (auto simp: state_of_def first_terminal_None [symmetric])
qed

text \<open>A grant exists at most once, and is exactly the grant the approved decisions support.\<close>

lemma journal_grants:
  assumes "journal_ok pol k es" "candidate_in es = Some c"
  shows "grants_in es = [] \<or> (state_of pol c (decisions_in es) = ST_APPROVED \<and>
    (\<exists>g. grants_in es = [g] \<and> valid_grant g \<and>
       g = new_grant c (gr_resume_id g) (ac_approval_id c) (decisions_in es) (gr_resumed_at g)))"
  using assms
proof (induction rule: journal_ok.induct)
  case (journal_first e c')
  then show ?case using reading_snoc(3) [of "[]" e] by simp
next
  case (journal_next es c' e)
  then have "es \<noteq> []" by auto
  with journal_next have "c' = c" by simp
  from journal_next.hyps(3) show ?case
    by (cases rule: admissible_cases) (use journal_next \<open>es \<noteq> []\<close> \<open>c' = c\<close> in auto)
qed simp

text \<open>The human decisions of a journal come from different actors, none of them the requester, each in
  a required role, and every decision names the candidate it was made for.\<close>

definition human :: "approval_decision \<Rightarrow> bool" where
  "human d = (ar_outcome (dc_approval d) \<in> {APPROVED, REJECTED, CHANGES_REQUESTED})"

lemma journal_decisions:
  assumes "journal_ok pol k es" "candidate_in es = Some c"
  shows "distinct (map (\<lambda>d. ar_actor_id (dc_approval d)) (filter human (decisions_in es))) \<and>
    (\<forall>d \<in> set (decisions_in es). bound_to c d \<and> (human d \<longrightarrow> ar_actor_id (dc_approval d) \<noteq> ts_user_id (ac_scope c) \<and>
       dc_actor_role d \<in> rule_required_roles (pol_rules pol (ac_kind c))))"
  using assms
proof (induction rule: journal_ok.induct)
  case (journal_first e c')
  then show ?case using reading_snoc(1) [of "[]" e] by simp
next
  case (journal_next es c' e)
  then have "es \<noteq> []" by auto
  with journal_next have "c' = c" by simp
  from journal_next.hyps(3) show ?case
    by (cases rule: admissible_cases)
      (use journal_next \<open>es \<noteq> []\<close> \<open>c' = c\<close> in \<open>auto simp: human_def human_decision_ok_def split: if_splits\<close>)
qed simp

text \<open>Once a checkpoint has left the pending state, its decisions never change again.\<close>

lemma journal_frozen:
  assumes "journal_ok pol k (es @ fs)" "candidate_in es = Some c" "state_of pol c (decisions_in es) \<noteq> ST_PENDING"
  shows "decisions_in (es @ fs) = decisions_in es \<and> delegations_in (es @ fs) = delegations_in es"
  using assms(1)
proof (induction fs rule: rev_induct)
  case (snoc f fs)
  have ne: "es @ fs \<noteq> []" using assms(2) by auto
  have "candidate_in (es @ fs) = Some c"
    using assms(2) by (cases es) (auto simp: candidate_in_def)
  with snoc.prems ne have prev: "journal_ok pol k (es @ fs)" and adm: "admissible pol c (es @ fs) (ev_type f) (ev_payload f)"
    by (auto simp flip: append_assoc elim!: journal_snocE)
  from snoc.IH [OF prev] adm assms(3) show ?case
    by (cases rule: admissible_cases [OF adm]) (simp_all flip: append_assoc)
qed simp

end
