(* ===== verification/AuditProperties.thy ===== *)
theory AuditProperties
  imports AuditLog
begin

section \<open>Properties of the audit log\<close>

text \<open>
  The repository's invariant \<open>audit_inv\<close>, that every append keeps it, and the properties of the
  log in the states it can reach: each project's chain verifies, the log only grows, an event
  identifier is bound to one content, and changing any stored event changes the last digest or
  exhibits a collision of SHA-256.
\<close>

definition valid_audit_event :: "audit_event \<Rightarrow> bool" where
  "valid_audit_event e = (valid_audit_record e \<and> 1 \<le> au_sequence e \<and> hex_pattern 32 (au_trace_id e) \<and>
     hex_pattern 16 (au_span_id e) \<and> is_sha256 (au_previous_sha256 e) \<and> is_sha256 (au_event_sha256 e))"

definition audit_inv :: "audit_repo \<Rightarrow> bool" where
  "audit_inv s = ((\<forall>k. verify_audit_from 1 zero_sha256 (aud_events s k) = Inr ()) \<and>
     (\<forall>k. \<forall>e \<in> set (aud_events s k). project_key (au_scope e) = k \<and> valid_audit_event e \<and>
        aud_by_id s (au_event_id e) = Some (audit_request_sha256 e (au_trace_id e) (au_span_id e), e)) \<and>
     (\<forall>u h e. aud_by_id s u = Some (h, e) \<longrightarrow>
        au_event_id e = u \<and> e \<in> set (aud_events s (project_key (au_scope e)))))"

lemma audit_inv_chain: "audit_inv s \<Longrightarrow> verify_audit_from 1 zero_sha256 (aud_events s k) = Inr ()"
  unfolding audit_inv_def by blast

lemma audit_inv_event:
  assumes "audit_inv s" "e \<in> set (aud_events s k)"
  shows "project_key (au_scope e) = k" "valid_audit_event e"
    "aud_by_id s (au_event_id e) = Some (audit_request_sha256 e (au_trace_id e) (au_span_id e), e)"
  using assms unfolding audit_inv_def by blast+

lemma audit_inv_id:
  assumes "audit_inv s" "aud_by_id s u = Some (h, e)"
  shows "au_event_id e = u" "e \<in> set (aud_events s (project_key (au_scope e)))"
    "h = audit_request_sha256 e (au_trace_id e) (au_span_id e)"
proof -
  show "au_event_id e = u" "e \<in> set (aud_events s (project_key (au_scope e)))"
    using assms unfolding audit_inv_def by blast+
  then show "h = audit_request_sha256 e (au_trace_id e) (au_span_id e)"
    using assms audit_inv_event(3) by fastforce
qed

lemma audit_extend_simps [simp]:
  "dump_audit_record (audit_extend r n t p q) = dump_audit_record r"
  "valid_audit_record (audit_extend r n t p q) = valid_audit_record r"
  "au_event_id (audit_extend r n t p q) = au_event_id r"
  "au_scope (audit_extend r n t p q) = au_scope r"
  "au_kind (audit_extend r n t p q) = au_kind r"
  "au_action (audit_extend r n t p q) = au_action r"
  "au_decision (audit_extend r n t p q) = au_decision r"
  "au_outcome (audit_extend r n t p q) = au_outcome r"
  "au_target_id (audit_extend r n t p q) = au_target_id r"
  "au_sequence (audit_extend r n t p q) = n"
  "au_trace_id (audit_extend r n t p q) = t"
  "au_span_id (audit_extend r n t p q) = p"
  "au_previous_sha256 (audit_extend r n t p q) = q"
  "au_event_sha256 (audit_extend r n t p q) = canonical_sha256 (audit_payload r n t p q)"
  by (simp_all add: audit_extend_def audit_record.extend_def dump_audit_record_def valid_audit_record_def)

lemma audit_extend_payload [simp]:
  "event_payload (audit_extend r n t p q) = audit_payload r n t p q"
  "audit_request_sha256 (audit_extend r n t p q) = audit_request_sha256 r"
  by (simp_all add: event_payload_def audit_payload_def audit_request_sha256_def audit_request_def fun_eq_iff)

lemma audit_request_wf [simp]: "json_wf (audit_request r t p)"
  using json_wf_dump_audit_record [of r] by (simp add: audit_request_def)

lemma next_audit_event_verifies:
  assumes "verify_audit_from 1 zero_sha256 (aud_events s (project_key (au_scope r))) = Inr ()"
  shows "verify_audit_from 1 zero_sha256 (aud_events s (project_key (au_scope r)) @ [next_audit_event s r t p]) = Inr ()"
  using assms unfolding audit_chain.verify_snoc by (simp add: next_audit_event_def Let_def)

lemma next_audit_event_fields [simp]:
  "au_event_id (next_audit_event s r t p) = au_event_id r" "au_scope (next_audit_event s r t p) = au_scope r"
  "au_trace_id (next_audit_event s r t p) = t" "au_span_id (next_audit_event s r t p) = p"
  "audit_request_sha256 (next_audit_event s r t p) = audit_request_sha256 r"
  "valid_audit_record (next_audit_event s r t p) = valid_audit_record r"
  "au_kind (next_audit_event s r t p) = au_kind r" "au_action (next_audit_event s r t p) = au_action r"
  "au_decision (next_audit_event s r t p) = au_decision r" "au_outcome (next_audit_event s r t p) = au_outcome r"
  "au_target_id (next_audit_event s r t p) = au_target_id r"
  by (simp_all add: next_audit_event_def Let_def)

lemma next_audit_event_valid:
  assumes "audit_inv s" "valid_audit_record r" "hex_pattern 32 t" "hex_pattern 16 p"
  shows "valid_audit_event (next_audit_event s r t p)"
proof -
  let ?c = "aud_events s (project_key (au_scope r))"
  have "is_sha256 (au_event_sha256 (last ?c))" if "?c \<noteq> []"
    by (rule audit_chain.verify_digest_pattern [OF audit_inv_chain [OF assms(1), of "project_key (au_scope r)"]]) (use that in simp)
  with assms(2-) show ?thesis
    by (simp add: valid_audit_event_def next_audit_event_def Let_def)
qed

text \<open>The two ways an append can end well.\<close>

lemma audit_append_cases:
  assumes "audit_append r t p s = (res, s')"
  obtains (replay) e where "res = Inr e" "s' = s" "aud_by_id s (au_event_id r) = Some (audit_request_sha256 r t p, e)"
  | (failed) err where "res = Inl err" "s' = s"
  | (fresh) "aud_by_id s (au_event_id r) = None" "hex_pattern 32 t" "hex_pattern 16 p"
      "res = Inr (next_audit_event s r t p)"
      "aud_events s' = (aud_events s)(project_key (au_scope r) :=
         aud_events s (project_key (au_scope r)) @ [next_audit_event s r t p])"
      "aud_by_id s' = (aud_by_id s)(au_event_id r \<mapsto> (audit_request_sha256 r t p, next_audit_event s r t p))"
  using assms by (auto simp: audit_append_def Let_def split: option.splits if_splits)

lemma audit_append_inv:
  assumes inv: "audit_inv s" and r: "valid_audit_record r" and step: "audit_append r t p s = (res, s')"
  shows "audit_inv s'"
  using step
proof (cases rule: audit_append_cases)
  case fresh
  let ?k = "project_key (au_scope r)"
  let ?e = "next_audit_event s r t p"
  have bound: "au_event_id e \<noteq> au_event_id r" if "e \<in> set (aud_events s k)" for e k
    using audit_inv_event(3) [OF inv that] fresh(1) by auto
  show ?thesis
    unfolding audit_inv_def
  proof (intro conjI allI ballI impI)
    show "verify_audit_from 1 zero_sha256 (aud_events s' k) = Inr ()" for k
      using audit_inv_chain [OF inv, of k] next_audit_event_verifies [OF audit_inv_chain [OF inv]]
      by (simp add: fresh(5))
    fix k e assume e: "e \<in> set (aud_events s' k)"
    then have "(k = ?k \<and> e = ?e) \<or> e \<in> set (aud_events s k)"
      by (auto simp: fresh(5) split: if_splits)
    then show "project_key (au_scope e) = k" "valid_audit_event e"
      "aud_by_id s' (au_event_id e) = Some (audit_request_sha256 e (au_trace_id e) (au_span_id e), e)"
      using audit_inv_event [OF inv, of e k] bound [of e k] next_audit_event_valid [OF inv r fresh(2,3)]
      by (elim disjE; simp add: fresh(6))+
  next
    fix u h e assume u: "aud_by_id s' u = Some (h, e)"
    have "au_event_id e = u \<and> e \<in> set (aud_events s' (project_key (au_scope e)))"
    proof (cases "u = au_event_id r")
      case True
      with u have "e = ?e" by (simp add: fresh(6))
      with True show ?thesis by (simp add: fresh(5))
    next
      case False
      with u have "aud_by_id s u = Some (h, e)" by (simp add: fresh(6))
      from audit_inv_id(1,2) [OF inv this] show ?thesis by (simp add: fresh(5)) metis
    qed
    then show "au_event_id e = u" "e \<in> set (aud_events s' (project_key (au_scope e)))"
      by blast+
  qed
qed (use inv in auto)

definition audit_start :: "audit_repo \<Rightarrow> bool" where
  "audit_start s = (s = empty_audit)"

definition audit_step :: "audit_repo \<Rightarrow> audit_repo \<Rightarrow> bool" where
  "audit_step s s' = (\<exists>r t p. valid_audit_record r \<and> s' = final (audit_append r t p) s)"

lemma audit_inv_empty: "audit_inv empty_audit"
  by (simp add: audit_inv_def empty_audit_def)

interpretation audit_log: invariant_machine audit_start audit_step audit_inv
proof
  show "audit_inv s" if "audit_start s" for s
    using that by (simp add: audit_start_def audit_inv_empty)
  show "audit_inv s'" if "audit_inv s" "audit_step s s'" for s s'
    using that audit_append_inv by (auto simp: audit_step_def final_def) (metis prod.collapse)
qed

lemma audit_step_grows:
  assumes "audit_step s s'"
  shows "s' = s \<or> (\<exists>k e. aud_events s' = (aud_events s)(k := aud_events s k @ [e]) \<and>
    aud_by_id s (au_event_id e) = None \<and> aud_by_id s' = (aud_by_id s)(au_event_id e \<mapsto>
      (audit_request_sha256 e (au_trace_id e) (au_span_id e), e)))"
proof -
  from assms obtain r t p where s': "audit_append r t p s = (outcome (audit_append r t p) s, s')"
    unfolding audit_step_def outcome_def final_def by (metis prod.collapse)
  then show ?thesis
  proof (cases rule: audit_append_cases)
    case fresh
    then show ?thesis
      by (intro disjI2 exI [of _ "project_key (au_scope r)"] exI [of _ "next_audit_event s r t p"]) simp
  qed simp_all
qed

lemma audit_steps_keep_ids: "audit_step\<^sup>*\<^sup>* s s' \<Longrightarrow> aud_by_id s u = Some x \<Longrightarrow> aud_by_id s' u = Some x"
  by (induction rule: rtranclp_induct) (auto dest!: audit_step_grows)

text \<open>
  (C34) Integrity of the audit log: in every state reached by appends, each project's chain passes
  \<^verbatim>\<open>verify\<close>, every listed event satisfies the field constraints of \<^verbatim>\<open>AuditEvent\<close> and carries the
  project of the scope it is listed under, and no event identifier occurs twice in the whole log.
\<close>

theorem audit_log_verifies:
  assumes "reaches audit_start audit_step s"
  shows "audit_verify s scope = Inr () \<and>
    (\<forall>e \<in> set (audit_list s scope). valid_audit_event e \<and> project_key (au_scope e) = project_key scope) \<and>
    (\<forall>scope'. \<forall>e \<in> set (audit_list s scope). \<forall>e' \<in> set (audit_list s scope').
       au_event_id e = au_event_id e' \<longrightarrow> e = e')"
proof -
  have inv: "audit_inv s" by (rule audit_log.reachable_inv [OF assms])
  have "audit_verify s scope = Inr ()"
    unfolding audit_verify_def verify_audit_events_def audit_list_def by (rule audit_inv_chain [OF inv])
  moreover have "valid_audit_event e \<and> project_key (au_scope e) = project_key scope" if "e \<in> set (audit_list s scope)" for e
    using audit_inv_event [OF inv] that by (simp add: audit_list_def)
  moreover have "e = e'"
    if "e \<in> set (audit_list s scope)" "e' \<in> set (audit_list s scope')" "au_event_id e = au_event_id e'" for e e' scope'
    using audit_inv_event(3) [OF inv] that unfolding audit_list_def by (metis option.inject prod.inject)
  ultimately show ?thesis by blast
qed

lemma audit_steps_reach: "audit_step\<^sup>*\<^sup>* empty_audit s \<Longrightarrow> reaches audit_start audit_step s"
  by (rule reaches_rtranclp) (auto intro: reaches_start simp: audit_start_def)

definition sample_scope :: tenant_scope where
  "sample_scope = \<lparr>ts_tenant_id = 1, ts_project_id = 2, ts_user_id = 3, ts_role_codes = [''PLANNER''],
     ts_permission_version = ''p1''\<rparr>"

definition sample_audit_record :: audit_record where
  "sample_audit_record = \<lparr>au_event_id = 7, au_scope = sample_scope, au_kind = AK_TASK, au_action = ''task.start'',
     au_target_type = ''task'', au_target_id = ''t1'', au_task_id = Some 9, au_policy_version = ''v1'',
     au_decision = ''STARTED'', au_outcome = AO_SUCCESS, au_input_sha256 = zero_sha256,
     au_output_sha256 = zero_sha256, au_request_id = ''r1'', au_occurred_at = utc 0\<rparr>"

definition sample_span :: span_context where
  "sample_span = \<lparr>sc_trace_id = 5, sc_span_id = 6, sc_is_valid = True\<rparr>"

abbreviation sample_trace :: string where
  "sample_trace \<equiv> hex_fixed 32 5"

abbreviation sample_span_id :: string where
  "sample_span_id \<equiv> hex_fixed 16 6"

definition sample_audit :: audit_repo where
  "sample_audit = final (audit_append sample_audit_record sample_trace sample_span_id) empty_audit"

lemma sample_record_valid: "valid_audit_record sample_audit_record"
proof -
  have "is_sha256 (au_input_sha256 sample_audit_record)" "is_sha256 (au_output_sha256 sample_audit_record)"
    by (simp_all add: sample_audit_record_def)
  moreover have "valid_scope (au_scope sample_audit_record)" "dotted_name 127 (au_action sample_audit_record)"
    "dotted_name 63 (au_target_type sample_audit_record)" "target_id_ok (au_target_id sample_audit_record)"
    "text_len 1 128 (au_policy_version sample_audit_record)" "decision_ok (au_decision sample_audit_record)"
    "request_id_ok (au_request_id sample_audit_record)" "is_utc (au_occurred_at sample_audit_record)"
    by code_simp+
  ultimately show ?thesis by (simp add: valid_audit_record_def)
qed

lemma sample_patterns: "hex_pattern 32 sample_trace" "hex_pattern 16 sample_span_id"
  by (simp_all add: hex_pattern_def hex_fixed_chars)

lemma sample_append:
  "audit_append sample_audit_record sample_trace sample_span_id empty_audit =
     (Inr (next_audit_event empty_audit sample_audit_record sample_trace sample_span_id), sample_audit)"
  by (simp add: audit_append_def sample_audit_def final_def empty_audit_def sample_patterns Let_def
      del: hex_fixed.simps)

lemma sample_audit_reachable: "reaches audit_start audit_step sample_audit"
  by (rule audit_steps_reach, rule r_into_rtranclp)
    (auto simp: audit_step_def sample_audit_def intro: sample_record_valid)

lemma empty_audit_simps [simp]: "aud_events empty_audit k = []" "aud_by_id empty_audit u = None"
  by (simp_all add: empty_audit_def)

lemma sample_scope_of [simp]: "au_scope sample_audit_record = sample_scope"
  by (simp add: sample_audit_record_def)

lemma sample_audit_list:
  "audit_list sample_audit sample_scope = [next_audit_event empty_audit sample_audit_record sample_trace sample_span_id]"
  using sample_append
  by (cases rule: audit_append_cases) (simp_all add: audit_list_def)

theorem audit_log_verifies_witness:
  "audit_verify sample_audit sample_scope = Inr () \<and> (\<exists>e. e \<in> set (audit_list sample_audit sample_scope) \<and> valid_audit_event e)"
  using audit_log_verifies [OF sample_audit_reachable, of sample_scope] by (simp add: sample_audit_list)

text \<open>
  The log is append-only: whatever calls are made after a state, every project's list
  keeps its events as a prefix, each by-id lookup that succeeded still returns the same event, and a
  single append adds at most one event, to one project.
\<close>

theorem audit_append_only:
  "(audit_step\<^sup>*\<^sup>* s s' \<longrightarrow> take (length (audit_list s scope)) (audit_list s' scope) = audit_list s scope) \<and>
   (audit_step\<^sup>*\<^sup>* s s' \<longrightarrow> audit_get s scope u = Inr e \<longrightarrow> audit_get s' scope u = Inr e) \<and>
   (audit_step s s' \<longrightarrow> s' = s \<or> (\<exists>k e. aud_events s' = (aud_events s)(k := aud_events s k @ [e])))"
proof -
  have "take (length (aud_events s k)) (aud_events s' k) = aud_events s k" if "audit_step\<^sup>*\<^sup>* s s'" for k
    using that
  proof (induction rule: rtranclp_induct)
    case (step y z)
    from audit_step_grows [OF step.hyps(2)] obtain xs where "aud_events z k = aud_events y k @ xs"
      by (metis append_Nil2 fun_upd_apply)
    then show ?case
      using step.IH by (metis append_take_drop_id take_append length_take min.absorb4 append_assoc append_eq_conv_conj)
  qed simp
  moreover have "audit_get s' scope u = Inr e" if "audit_step\<^sup>*\<^sup>* s s'" "audit_get s scope u = Inr e"
    using that(2) audit_steps_keep_ids [OF that(1)] by (auto simp: audit_get_def split: option.splits)
  moreover have "s' = s \<or> (\<exists>k e. aud_events s' = (aud_events s)(k := aud_events s k @ [e]))" if "audit_step s s'"
    using audit_step_grows [OF that] by metis
  ultimately show ?thesis by (auto simp: audit_list_def)
qed

theorem audit_append_only_witness:
  "take (length (audit_list empty_audit sample_scope)) (audit_list sample_audit sample_scope) =
     audit_list empty_audit sample_scope \<and>
   (sample_audit = empty_audit \<or>
     (\<exists>k e. aud_events sample_audit = (aud_events empty_audit)(k := aud_events empty_audit k @ [e])))"
proof -
  have "audit_step empty_audit sample_audit"
    by (auto simp: audit_step_def sample_audit_def intro: sample_record_valid)
  with audit_append_only [of empty_audit sample_audit sample_scope] show ?thesis by blast
qed

text \<open>
  An event identifier is bound to one content for ever: after an append of a record has
  returned an event, repeating it in any later state returns that same event and changes nothing,
  and an append under the same identifier of a request with other content (other fields, or another
  span) is refused with \<^verbatim>\<open>AUDIT_IDEMPOTENCY_CONFLICT\<close>, unless the two request texts collide.
\<close>

theorem audit_identifier_bound:
  assumes "audit_append r t p s = (Inr e, s1)" "audit_step\<^sup>*\<^sup>* s1 s2"
  shows "audit_append r t p s2 = (Inr e, s2) \<and>
    (\<forall>r' t' p'. au_event_id r' = au_event_id r \<longrightarrow>
       audit_append r' t' p' s2 = (Inl (AuditError ''AUDIT_IDEMPOTENCY_CONFLICT''), s2) \<or>
       json_norm (audit_request r' t' p') = json_norm (audit_request r t p) \<or>
       sha_collision (dumps True (audit_request r' t' p')) (dumps True (audit_request r t p)))"
proof -
  from assms(1) have "aud_by_id s1 (au_event_id r) = Some (audit_request_sha256 r t p, e)"
    by (cases rule: audit_append_cases) auto
  from audit_steps_keep_ids [OF assms(2) this]
  have bound: "aud_by_id s2 (au_event_id r) = Some (audit_request_sha256 r t p, e)" .
  have "json_norm (audit_request r' t' p') = json_norm (audit_request r t p) \<or>
       sha_collision (dumps True (audit_request r' t' p')) (dumps True (audit_request r t p))"
    if "audit_request_sha256 r' t' p' = audit_request_sha256 r t p" for r' :: audit_record and t' p'
    using canonical_sha256_norm [of "audit_request r' t' p'" "audit_request r t p"] that
    by (simp add: audit_request_sha256_def)
  with bound show ?thesis by (auto simp: audit_append_def)
qed

theorem audit_identifier_bound_witness:
  "audit_append sample_audit_record sample_trace sample_span_id sample_audit =
     (Inr (next_audit_event empty_audit sample_audit_record sample_trace sample_span_id), sample_audit)"
  using audit_identifier_bound [OF sample_append rtranclp.rtrancl_refl] by blast

text \<open>
  (C35) Tamper evidence: if two non-empty lists of events both pass \<^verbatim>\<open>verify_events\<close> and end in
  the same digest, they have the same length and the same content event by event; otherwise two of
  their serialised events are a collision of SHA-256.
\<close>

theorem audit_tamper_evident:
  assumes "verify_audit_events es = Inr ()" "verify_audit_events es' = Inr ()"
    and "es \<noteq> []" "es' \<noteq> []" "au_event_sha256 (last es) = au_event_sha256 (last es')"
  shows "list_all2 same_audit_content es es' \<or>
    (\<exists>e \<in> set es. \<exists>e' \<in> set es'. sha_collision (dumps True (event_payload e)) (dumps True (event_payload e')))"
proof -
  have "list_all2 same_audit_content es es'"
    if "map (json_norm \<circ> event_payload) es = map (json_norm \<circ> event_payload) es'"
    using that by (auto simp: list_all2_conv_all_nth list_eq_iff_nth_eq intro: event_payload_content)
  then show ?thesis
    using audit_chain.last_digest_determines [of zero_sha256 es es'] assms unfolding verify_audit_events_def by blast
qed

theorem audit_tamper_evident_witness:
  "list_all2 same_audit_content (audit_list sample_audit sample_scope) (audit_list sample_audit sample_scope) \<or>
    (\<exists>e \<in> set (audit_list sample_audit sample_scope). \<exists>e' \<in> set (audit_list sample_audit sample_scope).
       sha_collision (dumps True (event_payload e)) (dumps True (event_payload e')))"
proof -
  have "verify_audit_events (audit_list sample_audit sample_scope) = Inr ()"
    using audit_inv_chain [OF audit_log.reachable_inv [OF sample_audit_reachable], of "project_key sample_scope"]
    by (simp only: verify_audit_events_def audit_list_def)
  then show ?thesis
    using audit_tamper_evident [OF _ _ _ _ refl] by (metis list.distinct(1) sample_audit_list)
qed

end
