(* ===== verification/ApprovalInvariant.thy ===== *)
theory ApprovalInvariant
  imports ApprovalJournal AuditProperties
begin

section \<open>Every service call respects the journal specification\<close>

text \<open>
  The invariant of the world (\<open>approval_inv\<close>) and the relation every call satisfies between the
  world before and after it (\<open>extends\<close>): the audit log only grew, and the journal is unchanged or
  got one event that was legal at that moment and whose audit event is already in the log. The
  \<open>\<dots>_rule\<close> lemmas are weakest-precondition rules for the parts of a call, used in the order the
  calls compose them.
\<close>

subsection \<open>Invariant\<close>

fun audit_action_for :: "approval_event_type \<Rightarrow> string" where
  "audit_action_for EV_CANDIDATE = ''approval.create''"
| "audit_action_for EV_DELEGATION = ''approval.delegate''"
| "audit_action_for EV_DECISION = ''approval.decide''"
| "audit_action_for EV_RESUME = ''approval.resume''"

fun audit_decision_for :: "approval_payload \<Rightarrow> string" where
  "audit_decision_for (PCandidate _) = ''PENDING''"
| "audit_decision_for (PDelegation _) = ''DELEGATED''"
| "audit_decision_for (PDecision d) = approval_outcome_value (ar_outcome (dc_approval d))"
| "audit_decision_for (PGrant _) = ''RESUMED''"

definition logged_for :: "audit_repo \<Rightarrow> journal_key \<Rightarrow> string \<Rightarrow> string \<Rightarrow> bool" where
  "logged_for a k action decision = (\<exists>x \<in> set (aud_events a (fst k)). au_kind x = AK_APPROVAL \<and>
     au_outcome x = AO_SUCCESS \<and> au_target_id x = str_uuid (snd k) \<and> au_action x = action \<and> au_decision x = decision)"

definition event_key :: "approval_event \<Rightarrow> journal_key" where
  "event_key e = (project_key (ev_scope e), ev_approval_id e)"

definition repo_ok :: "approval_policy \<Rightarrow> approval_repo \<Rightarrow> bool" where
  "repo_ok pol r = ((\<forall>k. verify_journal (ap_events r k) = Inr ()) \<and> (\<forall>k. journal_ok pol k (ap_events r k)) \<and>
     (\<forall>k. \<forall>e \<in> set (ap_events r k). event_key e = k \<and> ap_by_id r (ev_event_id e) = Some e) \<and>
     (\<forall>u e. ap_by_id r u = Some e \<longrightarrow> ev_event_id e = u \<and> e \<in> set (ap_events r (event_key e))))"

definition approval_inv :: "approval_policy \<Rightarrow> approval_world \<Rightarrow> bool" where
  "approval_inv pol w = (repo_ok pol (aw_repo w) \<and> audit_inv (aw_audit w) \<and>
     (\<forall>k. \<forall>e \<in> set (ap_events (aw_repo w) k).
        logged_for (aw_audit w) k (audit_action_for (ev_type e)) (audit_decision_for (ev_payload e))))"

lemma repo_okD:
  assumes "repo_ok pol r"
  shows "verify_journal (ap_events r k) = Inr ()" "journal_ok pol k (ap_events r k)"
    "e \<in> set (ap_events r k) \<Longrightarrow> event_key e = k" "e \<in> set (ap_events r k) \<Longrightarrow> ap_by_id r (ev_event_id e) = Some e"
    "ap_by_id r u = Some e \<Longrightarrow> ev_event_id e = u" "ap_by_id r u = Some e \<Longrightarrow> e \<in> set (ap_events r (event_key e))"
  using assms unfolding repo_ok_def by blast+

subsection \<open>The two-state relation\<close>

definition appended :: "approval_repo \<Rightarrow> journal_key \<Rightarrow> approval_event \<Rightarrow> approval_repo" where
  "appended r k e = r\<lparr>ap_events := (ap_events r)(k := ap_events r k @ [e]), ap_by_id := (ap_by_id r)(ev_event_id e \<mapsto> e)\<rparr>"

definition legal :: "approval_policy \<Rightarrow> journal_key \<Rightarrow> approval_event list \<Rightarrow> approval_event_type \<Rightarrow> approval_payload \<Rightarrow> bool" where
  "legal pol k es ty p =
     ((es = [] \<and> ty = EV_CANDIDATE \<and> (\<exists>c. p = PCandidate c \<and> valid_candidate c \<and> json_wf (JObj (ac_preview c)) \<and>
         k = (project_key (ac_scope c), ac_approval_id c) \<and> ac_policy_version c = pol_version pol)) \<or>
      (\<exists>c. candidate_in es = Some c \<and> admissible pol c es ty p))"

definition writes :: "approval_policy \<Rightarrow> approval_world \<Rightarrow> approval_world \<Rightarrow> journal_key \<Rightarrow> approval_event \<Rightarrow> bool" where
  "writes pol w w' k e = (event_key e = k \<and> ap_by_id (aw_repo w) (ev_event_id e) = None \<and>
     aw_repo w' = appended (aw_repo w) k e \<and>
     e = journal_event (ap_events (aw_repo w) k) (ev_event_id e) (snd k) (ev_scope e) (ev_type e) (ev_payload e) (ev_created_at e) \<and>
     legal pol k (ap_events (aw_repo w) k) (ev_type e) (ev_payload e) \<and>
     logged_for (aw_audit w') k (audit_action_for (ev_type e)) (audit_decision_for (ev_payload e)))"

definition quiet :: "approval_world \<Rightarrow> approval_world \<Rightarrow> bool" where
  "quiet w w' = (aw_repo w' = aw_repo w \<and> audit_step\<^sup>*\<^sup>* (aw_audit w) (aw_audit w'))"

definition extends :: "approval_policy \<Rightarrow> approval_world \<Rightarrow> approval_world \<Rightarrow> bool" where
  "extends pol w w' = (audit_step\<^sup>*\<^sup>* (aw_audit w) (aw_audit w') \<and>
     (aw_repo w' = aw_repo w \<or> (\<exists>k e. writes pol w w' k e)))"

lemma quiet_refl [simp]: "quiet w w"
  by (simp add: quiet_def)

lemma quiet_counters [simp]: "quiet w (w'\<lparr>aw_reads := n\<rparr>) = quiet w w'" "quiet w (w'\<lparr>aw_draws := n\<rparr>) = quiet w w'"
  by (simp_all add: quiet_def)

lemma quiet_trans: "quiet w w' \<Longrightarrow> quiet w' w'' \<Longrightarrow> quiet w w''"
  by (auto simp: quiet_def)

lemma quiet_extends [simp]: "quiet w w' \<Longrightarrow> extends pol w w'"
  by (simp add: quiet_def extends_def)

lemma audit_steps_keep_logged:
  assumes "audit_step\<^sup>*\<^sup>* a a'" "logged_for a k x y"
  shows "logged_for a' k x y"
  using assms
proof (induction rule: rtranclp_induct)
  case (step b c)
  then have "set (aud_events b (fst k)) \<subseteq> set (aud_events c (fst k))"
    using audit_step_grows [OF step.hyps(2)] by (metis fun_upd_apply set_append sup_ge1 order_refl)
  with step show ?case unfolding logged_for_def by blast
qed

lemma legal_journal_ok:
  assumes "journal_ok pol k es" "legal pol k es (ev_type e) (ev_payload e)"
  shows "journal_ok pol k (es @ [e])"
  using assms(2) unfolding legal_def
proof (elim disjE exE conjE)
  show ?thesis if "es = []" "ev_type e = EV_CANDIDATE" "ev_payload e = PCandidate c" "valid_candidate c"
      "json_wf (JObj (ac_preview c))" "k = (project_key (ac_scope c), ac_approval_id c)" "ac_policy_version c = pol_version pol" for c
    using that journal_first [of e c] by simp
qed (rule journal_next [OF assms(1)])

lemma writes_repo_ok:
  assumes "repo_ok pol (aw_repo w)" "writes pol w w' k e"
  shows "repo_ok pol (aw_repo w')"
proof -
  note ok = repo_okD [OF assms(1)]
  have e: "event_key e = k" "ap_by_id (aw_repo w) (ev_event_id e) = None" "aw_repo w' = appended (aw_repo w) k e"
    "e = journal_event (ap_events (aw_repo w) k) (ev_event_id e) (snd k) (ev_scope e) (ev_type e) (ev_payload e) (ev_created_at e)"
    "legal pol k (ap_events (aw_repo w) k) (ev_type e) (ev_payload e)"
    using assms(2) unfolding writes_def by blast+
  let ?es = "ap_events (aw_repo w) k"
  have j: "journal_ok pol k (?es @ [e])"
    by (rule legal_journal_ok [OF ok(2) e(5)])
  then have wf: "json_wf (dump_payload (ev_payload e))" and wfs: "list_all (\<lambda>e. json_wf (dump_payload (ev_payload e))) ?es"
    using journal_wf [OF j] by simp_all
  have v: "verify_journal (?es @ [e]) = Inr ()"
    using verify_journal_snoc [OF ok(1) wfs wf] e(4) by metis
  have fresh: "ev_event_id x \<noteq> ev_event_id e" if "x \<in> set (ap_events (aw_repo w) l)" for x l
    using ok(4) [OF that] e(2) by auto
  show ?thesis
    unfolding repo_ok_def e(3) appended_def
  proof (intro conjI allI ballI impI, goal_cases)
    case (1 l)
    then show ?case using ok(1) v by simp
  next
    case (2 l)
    then show ?case using ok(2) j by simp
  next
    case (3 l x)
    then show ?case using ok(3) [of x l] e(1) by (auto split: if_splits)
  next
    case (4 l x)
    then show ?case using ok(4) [of x l] fresh [of x l] by (auto split: if_splits)
  next
    case (5 u x)
    then show ?case using ok(5) [of u x] by (auto split: if_splits)
  next
    case (6 u x)
    then show ?case using ok(6) [of u x] e(1) by (auto split: if_splits)
  qed
qed

lemma audit_steps_inv: "audit_step\<^sup>*\<^sup>* a a' \<Longrightarrow> audit_inv a \<Longrightarrow> audit_inv a'"
  by (rule audit_log.steps_inv)

lemma extends_inv:
  assumes inv: "approval_inv pol w" and ext: "extends pol w w'"
  shows "approval_inv pol w'"
proof -
  have steps: "audit_step\<^sup>*\<^sup>* (aw_audit w) (aw_audit w')" using ext by (simp add: extends_def)
  have old: "logged_for (aw_audit w') k (audit_action_for (ev_type e)) (audit_decision_for (ev_payload e))"
    if "e \<in> set (ap_events (aw_repo w) k)" for k e
    using inv that audit_steps_keep_logged [OF steps] unfolding approval_inv_def by blast
  have audit: "audit_inv (aw_audit w')"
    using inv audit_steps_inv [OF steps] by (simp add: approval_inv_def)
  have repo: "repo_ok pol (aw_repo w)" using inv by (simp add: approval_inv_def)
  from ext show ?thesis
    unfolding extends_def
  proof (elim conjE disjE exE)
    assume "aw_repo w' = aw_repo w"
    then show ?thesis using old audit repo unfolding approval_inv_def by simp
  next
    fix k e assume wr: "writes pol w w' k e"
    then have new: "ap_events (aw_repo w') = (ap_events (aw_repo w))(k := ap_events (aw_repo w) k @ [e])"
      "logged_for (aw_audit w') k (audit_action_for (ev_type e)) (audit_decision_for (ev_payload e))"
      by (simp_all add: writes_def appended_def)
    have "logged_for (aw_audit w') l (audit_action_for (ev_type x)) (audit_decision_for (ev_payload x))"
      if "x \<in> set (ap_events (aw_repo w') l)" for l x
    proof (cases "l = k \<and> x = e")
      case False
      with that have "x \<in> set (ap_events (aw_repo w) l)" by (auto simp: new(1) split: if_splits)
      then show ?thesis by (rule old)
    qed (use new(2) in simp)
    with writes_repo_ok [OF repo wr] audit show ?thesis
      unfolding approval_inv_def by blast
  qed
qed

end
