(* ===== verification/ApprovalRules.thy ===== *)
theory ApprovalRules
  imports ApprovalInvariant
begin

section \<open>Rules for the approval service\<close>

text \<open>
  Weakest-precondition rules for the helpers and the public methods of \<^verbatim>\<open>ApprovalService\<close>. They all
  start from a world \<open>w0\<close> in the invariant and follow the call: as long as only the clock has been
  read the world is \<open>idle\<close>; an audit append makes it \<open>quiet\<close>; the final journal append makes it
  \<open>extends\<close>. The error postcondition is \<open>quiet\<close> throughout. The identifier drawn for an audit event is assumed new in the log (\<open>fresh_draw\<close>, the
  documented purpose of \<^verbatim>\<open>uuid4\<close>).
\<close>

definition idle :: "approval_world \<Rightarrow> approval_world \<Rightarrow> bool" where
  "idle w w' = (aw_repo w' = aw_repo w \<and> aw_audit w' = aw_audit w \<and> aw_draws w' = aw_draws w)"

definition fresh_draw :: "approval_env \<Rightarrow> approval_world \<Rightarrow> bool" where
  "fresh_draw env w = (aud_by_id (aw_audit w) (en_uuid4 env (aw_draws w)) = None)"

lemma idle_simps [simp]: "idle w w" "idle w (w'\<lparr>aw_reads := n\<rparr>) = idle w w'"
  by (simp_all add: idle_def)

lemma idle_quiet [simp]: "idle w w' \<Longrightarrow> quiet w w'"
  by (simp add: idle_def quiet_def)

lemma wp_read_clock [wp_simps]:
  "wp (read_clock env) Q E w = Q (utc (en_clock env (aw_reads w))) (w\<lparr>aw_reads := Suc (aw_reads w)\<rparr>)"
  by (simp add: wp_def read_clock_def)

lemma wp_draw_event_id [wp_simps]:
  "wp (draw_event_id env) Q E w = Q (en_uuid4 env (aw_draws w)) (w\<lparr>aw_draws := Suc (aw_draws w)\<rparr>)"
  by (simp add: wp_def draw_event_id_def)

lemma wp_journal_get [wp_simps]:
  "wp (journal_get scope u) Q E w = (case repo_get (aw_repo w) scope u of Inl e \<Rightarrow> E e w | Inr x \<Rightarrow> Q x w)"
  by (auto simp: wp_def journal_get_def split: sum.split)

lemma wp_journal_list:
  assumes "repo_ok pol (aw_repo w)"
  shows "wp (journal_list scope a) Q E w = Q (ap_events (aw_repo w) (project_key scope, a)) w"
  by (simp add: wp_def journal_list_def repo_list_def Let_def repo_okD(1) [OF assms])

lemma approval_audit_rule:
  assumes idle: "idle w0 w" and fresh: "fresh_draw env w0"
    and ret: "\<And>w'. quiet w0 w' \<Longrightarrow>
      (res = AO_SUCCESS \<Longrightarrow> logged_for (aw_audit w') (project_key (ac_scope c), ac_approval_id c) action decision) \<Longrightarrow> Q () w'"
  shows "wp (approval_audit env c action decision res input) Q (\<lambda>_. quiet w0) w"
proof -
  define r where "r = approval_audit_record c action decision res input (en_uuid4 env (aw_draws w)) (utc (en_clock env (aw_reads w)))"
  define v where "v = w\<lparr>aw_draws := Suc (aw_draws w), aw_reads := Suc (aw_reads w)\<rparr>"
  have r_fields: "au_event_id r = en_uuid4 env (aw_draws w)" "au_scope r = ac_scope c" "au_kind r = AK_APPROVAL"
    "au_action r = action" "au_target_id r = str_uuid (ac_approval_id c)" "au_decision r = decision" "au_outcome r = res"
    by (simp_all add: r_def approval_audit_record_def)
  have none: "aud_by_id (aw_audit w) (au_event_id r) = None"
    using fresh idle by (simp add: fresh_draw_def idle_def r_fields)
  have v: "aw_repo v = aw_repo w0" "aw_audit v = aw_audit w0"
    using idle by (simp_all add: v_def idle_def)
  have "wp (audit_call env r) Q (\<lambda>_. quiet w0) v" if valid: "valid_audit_record r"
  proof (cases "current_link (en_span env)")
    case (Inl e)
    then show ?thesis
      using idle by (simp add: wp_def audit_call_def audit_service_record_def bindP_def v_def quiet_def idle_def)
  next
    case (Inr l)
    let ?t = "tl_trace_id l" and ?p = "tl_span_id l"
    obtain x a where app: "audit_append r ?t ?p (aw_audit w0) = (x, a)" by fastforce
    have "audit_step (aw_audit w0) a"
      unfolding audit_step_def using valid app by (metis final_def snd_conv)
    then have q: "quiet w0 (v\<lparr>aw_audit := a\<rparr>)"
      by (simp add: quiet_def v r_into_rtranclp)
    from app show ?thesis
    proof (cases rule: audit_append_cases)
      case fresh
      have "logged_for a (project_key (ac_scope c), ac_approval_id c) action decision" if "res = AO_SUCCESS"
        unfolding logged_for_def using that
        by (intro bexI [of _ "next_audit_event (aw_audit w0) r ?t ?p"]) (simp_all add: fresh(5) r_fields)
      with ret [OF q] show ?thesis
        using app fresh(4) Inr by (simp add: wp_def audit_call_def audit_service_record_def bindP_def v)
    next
      case replay
      then show ?thesis using none idle by (simp add: idle_def)
    next
      case failed
      with app Inr q show ?thesis
        by (simp add: wp_def audit_call_def audit_service_record_def bindP_def v)
    qed
  qed
  moreover have "quiet w0 v" using idle by (simp add: v_def quiet_def idle_def)
  ultimately show ?thesis
    by (simp add: approval_audit_def wp_simps Let_def r_def v_def)
qed

lemma approval_deny_rule:
  assumes "idle w0 w" "fresh_draw env w0"
  shows "wp (deny env c code) Q (\<lambda>_. quiet w0) w"
  unfolding deny_def wp_bindP by (rule approval_audit_rule [OF assms]) (simp add: wp_raise)

lemma journal_append_rule:
  assumes ok: "repo_ok pol (aw_repo w0)" and q: "quiet w0 w" and leg: "legal pol k (ap_events (aw_repo w0) k) ty p" and k: "k = (project_key scope, a)"
    and log: "logged_for (aw_audit w) k (audit_action_for ty) (audit_decision_for p)"
    and ret: "\<And>w'. extends pol w0 w' \<Longrightarrow> ap_events (aw_repo w') k \<noteq> [] \<Longrightarrow> Q () w'"
  shows "wp (journal_append u a scope ty p t) Q (\<lambda>_. quiet w0) w"
proof (cases "ap_by_id (aw_repo w) u")
  case None
  define e where "e = journal_event (ap_events (aw_repo w0) k) u a scope ty p t"
  have repo: "aw_repo w = aw_repo w0" using q by (simp add: quiet_def)
  have run: "journal_append u a scope ty p t w = (Inr (), w\<lparr>aw_repo := appended (aw_repo w0) k e\<rparr>)"
    using None by (simp add: journal_append_def repo_append_def Let_def appended_def e_def k repo)
  have "writes pol w0 (w\<lparr>aw_repo := appended (aw_repo w0) k e\<rparr>) k e"
    unfolding writes_def using leg log None by (simp add: e_def event_key_def k repo)
  then have "extends pol w0 (w\<lparr>aw_repo := appended (aw_repo w0) k e\<rparr>)"
    using q unfolding extends_def quiet_def by (simp del: split_paired_Ex) blast
  then show ?thesis by (simp add: wp_def run ret appended_def)
next
  case (Some e)
  have "ap_events (aw_repo w) k \<noteq> []" if "ev_approval_id e = a" "project_key (ev_scope e) = project_key scope"
    using repo_okD(6) [OF ok, of u e] q Some that by (auto simp: quiet_def event_key_def k)
  then show ?thesis
    using Some ret [OF quiet_extends [OF q]] q by (simp add: wp_def journal_append_def repo_append_def)
qed

text \<open>\<^verbatim>\<open>status\<close> reads the journal back exactly, or reports that there is none.\<close>

definition status_at :: "approval_policy \<Rightarrow> approval_event list \<Rightarrow> approval_candidate \<Rightarrow> approval_status" where
  "status_at pol es c = \<lparr>st_candidate = c, st_state = state_of pol c (decisions_in es),
    st_decisions = decisions_in es, st_delegations = delegations_in es,
    st_grant = (if grants_in es = [] then None else Some (last (grants_in es)))\<rparr>"

lemma status_at_simps [simp]:
  "st_candidate (status_at pol es c) = c" "st_state (status_at pol es c) = state_of pol c (decisions_in es)"
  "st_decisions (status_at pol es c) = decisions_in es" "st_delegations (status_at pol es c) = delegations_in es"
  "st_grant (status_at pol es c) = None \<longleftrightarrow> grants_in es = []"
  by (simp_all add: status_at_def)

lemma wp_status:
  assumes "repo_ok (en_policy env) (aw_repo w)"
  shows "wp (status env scope a) Q E w =
    (case candidate_in (ap_events (aw_repo w) (project_key scope, a)) of
       None \<Rightarrow> E (ApprovalError ''APPROVAL_NOT_FOUND'') w
     | Some c \<Rightarrow> Q (status_at (en_policy env) (ap_events (aw_repo w) (project_key scope, a)) c) w)"
proof -
  let ?es = "ap_events (aw_repo w) (project_key scope, a)"
  have j: "journal_ok (en_policy env) (project_key scope, a) ?es" by (rule repo_okD(2) [OF assms])
  show ?thesis
  proof (cases "candidate_in ?es")
    case None
    with journal_candidate [OF j] have "?es = []" by force
    then show ?thesis
      by (simp add: status_def wp_simps wp_journal_list [OF assms] status_of_def)
  next
    case (Some c)
    then show ?thesis
      by (simp add: status_def wp_simps wp_journal_list [OF assms] journal_status [OF j] status_at_def)
  qed
qed

subsection \<open>Guards\<close>

lemma require_pending_current_rule:
  assumes "idle w0 w" "fresh_draw env w0"
    and "\<And>w'. idle w0 w' \<Longrightarrow> expected = ac_candidate_sha256 (st_candidate st) \<Longrightarrow> st_state st = ST_PENDING \<Longrightarrow>
      (check \<Longrightarrow> en_clock env (aw_reads w) < dt_us (ac_expires_at (st_candidate st))) \<Longrightarrow> Q () w'"
  shows "wp (require_pending_current env st expected check) Q (\<lambda>_. quiet w0) w"
  using assms by (auto simp: require_pending_current_def wp_simps Let_def utc_def dt_us_def [of "Aware _ _"] intro!: approval_deny_rule)

lemma require_actor_scope_rule:
  assumes "idle w0 w" "fresh_draw env w0" and "actor_scope_ok c a \<Longrightarrow> Q () w"
  shows "wp (require_actor_scope env c a) Q (\<lambda>_. quiet w0) w"
  using assms by (auto simp: require_actor_scope_def wp_simps intro!: approval_deny_rule)

lemma delegated_roles_rule:
  assumes "idle w0 w" "\<And>rs w'. idle w0 w' \<Longrightarrow> Q rs w'"
  shows "wp (delegated_roles env c a used ds) Q E w"
  using assms by (induction ds arbitrary: w Q) (auto simp: wp_simps)

lemma choose_role_rule:
  assumes "idle w0 w" "\<And>r w'. idle w0 w' \<Longrightarrow> Q r w'"
  shows "wp (choose_role env st a) Q E w"
  using assms by (auto simp: choose_role_def wp_simps Let_def intro!: delegated_roles_rule)

text \<open>A delegation of this candidate to this actor that some reading of the clock found unexpired.\<close>

definition active_delegation :: "approval_env \<Rightarrow> approval_candidate \<Rightarrow> approval_actor \<Rightarrow> string \<Rightarrow> approval_delegation \<Rightarrow> bool" where
  "active_delegation env c a role d = (dl_delegate_id d = actor_id a \<and> dl_delegated_role d = role \<and>
     dl_candidate_sha256 d = ac_candidate_sha256 c \<and> (\<exists>n. en_clock env n < dt_us (dl_expires_at d)))"

lemma any_delegation_rule:
  assumes "idle w0 w"
    and "\<And>b w'. idle w0 w' \<Longrightarrow> (b \<Longrightarrow> \<exists>d \<in> set ds. active_delegation env c a role d) \<Longrightarrow> Q b w'"
  shows "wp (any_delegation env c a role ds) Q E w"
  using assms
proof (induction ds arbitrary: w)
  case (Cons d ds)
  have more: "wp (any_delegation env c a role ds) Q E w'" if "idle w0 w'" for w'
    using that by (rule Cons.IH) (auto intro: Cons.prems(2))
  show ?case
  proof (cases "active_delegation env c a role d")
    case True
    then show ?thesis
      using Cons.prems(1) more by (auto simp: wp_simps intro!: Cons.prems(2))
  next
    case False
    then show ?thesis
      using Cons.prems(1) more by (auto simp: wp_simps active_delegation_def utc_def dt_us_def [of "Aware _ _"])
  qed
qed (auto simp: wp_simps)

lemma authorize_role_rule:
  assumes "idle w0 w" "fresh_draw env w0"
    and "\<And>w'. idle w0 w' \<Longrightarrow> role \<in> rule_required_roles (pol_rules (en_policy env) (ac_kind (st_candidate st))) \<Longrightarrow>
      role \<in> actor_roles a \<or> (\<exists>d \<in> set (st_delegations st). active_delegation env (st_candidate st) a role d) \<Longrightarrow> Q () w'"
  shows "wp (authorize_role env st a role) Q (\<lambda>_. quiet w0) w"
  using assms by (auto simp: authorize_role_def wp_simps Let_def intro!: approval_deny_rule any_delegation_rule) blast+

subsection \<open>Operations\<close>

lemma stored_decision_rule:
  "(stored_decision existing = Inr None) = (existing = None)"
  by (auto simp: stored_decision_def split: option.splits sum.splits)

lemma repo_get_Inr: "repo_get r scope u = Inr (Some e) \<Longrightarrow> ap_by_id r u = Some e \<and> project_key (ev_scope e) = project_key scope"
  by (auto simp: repo_get_def split: option.splits if_splits)

lemma record_decision_rule:
  assumes idle: "idle w0 w" and fresh: "fresh_draw env w0" and ok: "repo_ok (en_policy env) (aw_repo w0)"
    and c: "candidate_in (ap_events (aw_repo w0) k) = Some c" and k: "k = (project_key (ac_scope c), ac_approval_id c)"
    and adm: "\<And>d now. d = \<lparr>dc_decision_id = u, dc_approval = approval_record_for (ac_approval_id c) c actor res reason now,
        dc_actor_role = role\<rparr> \<Longrightarrow> valid_decision d \<Longrightarrow>
        admissible (en_policy env) c (ap_events (aw_repo w0) k) EV_DECISION (PDecision d)"
    and ret: "\<And>d now w'. d = \<lparr>dc_decision_id = u, dc_approval = approval_record_for (ac_approval_id c) c actor res reason now,
        dc_actor_role = role\<rparr> \<Longrightarrow> extends (en_policy env) w0 w' \<Longrightarrow> Q d w'"
  shows "wp (record_decision env u (ac_approval_id c) c actor role res reason request) Q (\<lambda>_. quiet w0) w"
proof -
  define now where "now = utc (en_clock env (aw_reads w))"
  define d where "d = \<lparr>dc_decision_id = u, dc_approval = approval_record_for (ac_approval_id c) c actor res reason now, dc_actor_role = role\<rparr>"
  have "wp (approval_audit env c ''approval.decide'' (approval_outcome_value res) AO_SUCCESS (canonical_sha256 request))
      (\<lambda>_. wp (bindP (journal_append u (ac_approval_id c) (ac_scope c) EV_DECISION (PDecision d) now) (\<lambda>_. ret d))
         Q (\<lambda>_. quiet w0)) (\<lambda>_. quiet w0) (w\<lparr>aw_reads := Suc (aw_reads w)\<rparr>)"
    if "valid_decision d"
  proof (rule approval_audit_rule [OF _ fresh])
    fix w' assume "quiet w0 w'"
      and log: "AO_SUCCESS = AO_SUCCESS \<Longrightarrow> logged_for (aw_audit w') (project_key (ac_scope c), ac_approval_id c)
        ''approval.decide'' (approval_outcome_value res)"
    moreover have "legal (en_policy env) k (ap_events (aw_repo w0) k) EV_DECISION (PDecision d)"
      using adm [OF d_def that] c by (auto simp: legal_def)
    moreover have "ar_outcome (dc_approval d) = res" by (simp add: d_def approval_record_for_def)
    ultimately show "wp (bindP (journal_append u (ac_approval_id c) (ac_scope c) EV_DECISION (PDecision d) now) (\<lambda>_. ret d))
         Q (\<lambda>_. quiet w0) w'"
      unfolding wp_bindP by (intro journal_append_rule [OF ok _ _ k]) (simp_all add: k wp_ret ret [OF d_def])
  qed (simp add: idle)
  moreover have "quiet w0 (w\<lparr>aw_reads := Suc (aw_reads w)\<rparr>)" using idle by simp
  ultimately show ?thesis
    by (simp add: record_decision_def wp_simps Let_def d_def now_def)
qed

end
