(* ===== verification/ApprovalCalls.thy ===== *)
theory ApprovalCalls
  imports ApprovalRules
begin

section \<open>The calls of the approval service\<close>

text \<open>
  One rule for each public method: from a world in the invariant it returns a stored value without
  writing, or writes one legal journal event and returns, or raises and leaves the journal as it
  was (only the audit log may have grown). The rule of \<^verbatim>\<open>decide\<close> also lists what a new decision is
  authorised by. The calls are then the steps of a machine that keeps the invariant.
\<close>

lemma pending_no_grant:
  assumes "journal_ok pol k es" "candidate_in es = Some c" "state_of pol c (decisions_in es) = ST_PENDING"
  shows "grants_in es = []"
  using journal_grants [OF assms(1,2)] assms(3) by auto

lemma candidate_key:
  assumes "repo_ok pol r" "candidate_in (ap_events r (project_key scope, a)) = Some c"
  shows "project_key (ac_scope c) = project_key scope" "ac_approval_id c = a" "valid_candidate c"
  using journal_candidate [OF repo_okD(2) [OF assms(1)] candidate_in_nonempty [OF assms(2)]] assms(2) by auto

text \<open>The decision the service builds for a candidate.\<close>

definition decision_for :: "approval_candidate \<Rightarrow> uuid \<Rightarrow> uuid \<Rightarrow> string \<Rightarrow> approval_outcome \<Rightarrow> string \<Rightarrow> datetime \<Rightarrow> approval_decision" where
  "decision_for c u x role res reason now =
     \<lparr>dc_decision_id = u, dc_approval = approval_record_for (ac_approval_id c) c x res reason now, dc_actor_role = role\<rparr>"

lemma decision_for_fields [simp]:
  "bound_to c (decision_for c u x role res reason now)" "dc_actor_role (decision_for c u x role res reason now) = role"
  "ar_outcome (dc_approval (decision_for c u x role res reason now)) = res"
  "ar_actor_id (dc_approval (decision_for c u x role res reason now)) = x"
  "dc_decision_id (decision_for c u x role res reason now) = u"
  by (simp_all add: decision_for_def bound_to_def Let_def approval_record_for_def)

lemmas record_decision_wp = record_decision_rule [folded decision_for_def]

text \<open>What the decision of a human actor rests on at the moment it is written.\<close>

definition decision_authorised :: "approval_env \<Rightarrow> approval_event list \<Rightarrow> string \<Rightarrow> approval_actor \<Rightarrow> approval_outcome \<Rightarrow> approval_decision \<Rightarrow> bool" where
  "decision_authorised env es expected actor res d = (\<exists>c. candidate_in es = Some c \<and>
     expected = ac_candidate_sha256 c \<and> state_of (en_policy env) c (decisions_in es) = ST_PENDING \<and>
     (\<exists>n. en_clock env n < dt_us (ac_expires_at c)) \<and> actor_scope_ok c actor \<and>
     res \<in> {APPROVED, REJECTED, CHANGES_REQUESTED} \<and> ar_outcome (dc_approval d) = res \<and>
     ar_actor_id (dc_approval d) = actor_id actor \<and> bound_to c d \<and> human_decision_ok (en_policy env) c (decisions_in es) d \<and>
     (dc_actor_role d \<in> actor_roles actor \<or>
      (\<exists>l \<in> set (delegations_in es). active_delegation env c actor (dc_actor_role d) l)))"

lemma decide_new_rule:
  assumes ok: "repo_ok (en_policy env) (aw_repo w)" and fresh: "fresh_draw env w" and idle: "idle w w1"
    and es: "es = ap_events (aw_repo w) (project_key scope, a)" and c: "candidate_in es = Some c"
    and res: "res \<in> {APPROVED, REJECTED, CHANGES_REQUESTED}"
    and pending: "expected = ac_candidate_sha256 c" "state_of (en_policy env) c (decisions_in es) = ST_PENDING"
      "en_clock env n < dt_us (ac_expires_at c)" "actor_scope_ok c actor"
    and independent: "actor_id actor \<noteq> ts_user_id (ac_scope c)"
      "\<not> (\<exists>d \<in> set (decisions_in es). ar_actor_id (dc_approval d) = actor_id actor)"
    and ret: "\<And>d w'. extends (en_policy env) w w' \<Longrightarrow> decision_authorised env es expected actor res d \<Longrightarrow> Q d w'"
  shows "wp (bindP (authorize_role env (status_at (en_policy env) es c) actor role) (\<lambda>_.
    record_decision env u a c (actor_id actor) role res reason request)) Q (\<lambda>_. quiet w) w1"
  unfolding wp_bindP
proof (rule authorize_role_rule [OF idle fresh])
  have c': "candidate_in (ap_events (aw_repo w) (project_key scope, a)) = Some c" using c es by simp
  note key = candidate_key [OF ok c']
  fix w2 assume r: "idle w w2"
    "role \<in> rule_required_roles (pol_rules (en_policy env) (ac_kind (st_candidate (status_at (en_policy env) es c))))"
    "role \<in> actor_roles actor \<or> (\<exists>d \<in> set (st_delegations (status_at (en_policy env) es c)).
       active_delegation env (st_candidate (status_at (en_policy env) es c)) actor role d)"
  let ?d = "decision_for c u (actor_id actor) role res reason"
  have human: "human_decision_ok (en_policy env) c (decisions_in es) (?d now)" for now
    using independent r(2) by (auto simp: human_decision_ok_def)
  have "wp (record_decision env u (ac_approval_id c) c (actor_id actor) role res reason request) Q
     (\<lambda>_. quiet w) w2"
  proof (rule record_decision_wp [OF r(1) fresh ok c'], goal_cases)
    case 1
    then show ?case using key by simp
  next
    case (2 d now)
    then show ?case
      using human [of now] res pending(2) pending_no_grant [OF repo_okD(2) [OF ok] c'] es by auto
  next
    case (3 d now w')
    have "decision_authorised env es expected actor res d"
      unfolding decision_authorised_def using human [of now] pending c res r(3) 3(1) by (intro exI [of _ c]) auto
    with 3(2) show ?case by (rule ret)
  qed
  then show "wp (record_decision env u a c (actor_id actor) role res reason request) Q (\<lambda>_. quiet w) w2"
    by (simp only: key(2))
qed

lemma decide_pending_rule:
  assumes ok: "repo_ok (en_policy env) (aw_repo w)" and fresh: "fresh_draw env w" and idle: "idle w w1"
    and es: "es = ap_events (aw_repo w) (project_key scope, a)" and c: "candidate_in es = Some c"
    and res: "res \<in> {APPROVED, REJECTED, CHANGES_REQUESTED}"
    and ret: "\<And>d w'. extends (en_policy env) w w' \<Longrightarrow> decision_authorised env es expected actor res d \<Longrightarrow> Q d w'"
  shows "wp (bindP (require_pending_current env (status_at (en_policy env) es c) expected True) (\<lambda>_.
      bindP (require_actor_scope env c actor) (\<lambda>_.
      if actor_id actor = ts_user_id (ac_scope c) then deny env c ''APPROVAL_SELF_APPROVAL_DENIED''
      else if \<exists>d \<in> set (decisions_in es). ar_actor_id (dc_approval d) = actor_id actor
        then deny env c ''APPROVAL_DUPLICATE_ACTOR''
      else bindP (authorize_role env (status_at (en_policy env) es c) actor role) (\<lambda>_.
        record_decision env u a c (actor_id actor) role res reason request)))) Q (\<lambda>_. quiet w) w1"
  unfolding wp_bindP [of "require_pending_current _ _ _ _"] wp_bindP [of "require_actor_scope _ _ _"]
proof (rule require_pending_current_rule [OF idle fresh], rule require_actor_scope_rule [OF _ fresh])
  fix w2 assume g: "idle w w2" "expected = ac_candidate_sha256 (st_candidate (status_at (en_policy env) es c))"
    "st_state (status_at (en_policy env) es c) = ST_PENDING"
    "True \<Longrightarrow> en_clock env (aw_reads w1) < dt_us (ac_expires_at (st_candidate (status_at (en_policy env) es c)))"
    "actor_scope_ok c actor"
  then show "wp (if actor_id actor = ts_user_id (ac_scope c) then deny env c ''APPROVAL_SELF_APPROVAL_DENIED''
      else if \<exists>d \<in> set (decisions_in es). ar_actor_id (dc_approval d) = actor_id actor
        then deny env c ''APPROVAL_DUPLICATE_ACTOR''
      else bindP (authorize_role env (status_at (en_policy env) es c) actor role) (\<lambda>_.
        record_decision env u a c (actor_id actor) role res reason request)) Q (\<lambda>_. quiet w) w2"
    unfolding wp_if
    using decide_new_rule [OF ok fresh g(1) es c res _ _ _ g(5), of expected "aw_reads w1" Q role u reason request] ret
    by (simp add: approval_deny_rule [OF _ fresh])
qed

lemma decide_rule:
  assumes ok: "repo_ok (en_policy env) (aw_repo w)" and fresh: "fresh_draw env w"
    and replay: "\<And>d e w'. idle w w' \<Longrightarrow> ap_by_id (aw_repo w) u = Some e \<Longrightarrow> as_decision (ev_payload e) = Inr d \<Longrightarrow> Q d w'"
    and ret: "\<And>d w'. extends (en_policy env) w w' \<Longrightarrow>
      decision_authorised env (ap_events (aw_repo w) (project_key scope, a)) expected actor res d \<Longrightarrow> Q d w'"
  shows "wp (decide env u scope a expected actor res reason role_opt) Q (\<lambda>_. quiet w) w"
proof -
  define es where "es = ap_events (aw_repo w) (project_key scope, a)"
  have role: "wp (if role_opt \<noteq> None \<and> role_opt \<noteq> Some [] then ret (the role_opt)
        else case stored of Some d \<Rightarrow> ret (dc_actor_role d) | None \<Rightarrow> choose_role env st actor) R E w"
    if "\<And>r w'. idle w w' \<Longrightarrow> R r w'" for R E st stored
    using that by (auto simp: wp_simps split: option.split intro!: choose_role_rule)
  show ?thesis
  proof (cases "candidate_in es")
    case None
    then show ?thesis
      unfolding decide_def wp_bindP [of "status _ _ _"] by (simp add: wp_status [OF ok] es_def)
  next
    case (Some c)
    note start = decide_def wp_bindP [of "status _ _ _"] wp_status [OF ok] es_def [symmetric] Some option.case
      Let_def status_at_simps wp_if wp_bindP [of "journal_get _ _"] wp_journal_get
    have body: "case repo_get (aw_repo w) scope u of Inl e \<Rightarrow> quiet w w | Inr x \<Rightarrow>
        wp (bindP (lift_pure (stored_decision x)) (\<lambda>stored. bindP (R stored) (\<lambda>role. case stored of
          None \<Rightarrow> N role | Some d \<Rightarrow> if B role d then ret d else deny env c ''APPROVAL_IDEMPOTENCY_CONFLICT'')))
          Q (\<lambda>_. quiet w) w"
      if N: "\<And>r w'. idle w w' \<Longrightarrow> wp (N r) Q (\<lambda>_. quiet w) w'"
        and R: "\<And>stored S. (\<And>r w'. idle w w' \<Longrightarrow> S r w') \<Longrightarrow> wp (R stored) S (\<lambda>_. quiet w) w"
      for R N B
      by (auto simp: wp_simps stored_decision_def split: sum.split option.split
          intro!: R N approval_deny_rule [OF _ fresh] dest!: repo_get_Inr intro: replay)
    show ?thesis
      unfolding start
    proof (intro if_bool_eq_conj [THEN iffD2] conjI impI)
      show "wp (deny env c ''APPROVAL_OUTCOME_INVALID'') Q (\<lambda>_. quiet w) w"
        by (rule approval_deny_rule [OF _ fresh]) simp
    qed (rule body, rule decide_pending_rule [OF ok fresh _ es_def Some], assumption, simp, simp add: ret es_def, rule role, blast)
  qed
qed

lemma terminal_system_decision_rule:
  assumes ok: "repo_ok (en_policy env) (aw_repo w)" and fresh: "fresh_draw env w" and idle: "idle w w1"
    and es: "es = ap_events (aw_repo w) (project_key scope, a)" and c: "candidate_in es = Some c"
    and sys: "res \<in> {EXPIRED, CANCELLED}" "\<And>now. system_decision_ok c (decision_for c u x role res reason now)"
    and replay: "\<And>d w'. idle w w' \<Longrightarrow> Q d w'"
    and ret: "\<And>now w'. extends (en_policy env) w w' \<Longrightarrow> expected = ac_candidate_sha256 c \<Longrightarrow>
      state_of (en_policy env) c (decisions_in es) = ST_PENDING \<Longrightarrow> Q (decision_for c u x role res reason now) w'"
  shows "wp (terminal_system_decision env u (status_at (en_policy env) es c) expected res reason x role) Q
    (\<lambda>_. quiet w) w1"
proof -
  have c': "candidate_in (ap_events (aw_repo w) (project_key scope, a)) = Some c" using c es by simp
  note key = candidate_key [OF ok c']
  have writing: "wp (bindP (require_pending_current env (status_at (en_policy env) es c) expected False) (\<lambda>_.
      record_decision env u (ac_approval_id c) c x role res reason request)) Q (\<lambda>_. quiet w) w1" for request
    unfolding wp_bindP
  proof (rule require_pending_current_rule [OF idle fresh], rule record_decision_wp [OF _ fresh ok c'], goal_cases)
    case (3 w' d now)
    with sys pending_no_grant [OF repo_okD(2) [OF ok] c'] es show ?case by auto
  next
    case (4 w' d now w'')
    then show ?case using ret by auto
  qed (use key in auto)
  show ?thesis
    unfolding terminal_system_decision_def Let_def wp_bindP [of "journal_get _ _"] wp_journal_get status_at_simps
    using writing idle
    by (auto simp: wp_bindP [of "lift_pure _"] wp_lift_pure stored_decision_def wp_if wp_ret split: sum.split option.split
        intro!: approval_deny_rule [OF _ fresh] replay)
qed

lemma expire_rule:
  assumes ok: "repo_ok (en_policy env) (aw_repo w)" and fresh: "fresh_draw env w"
    and replay: "\<And>d w'. idle w w' \<Longrightarrow> Q d w'" and ret: "\<And>d w'. extends (en_policy env) w w' \<Longrightarrow> Q d w'"
  shows "wp (expire env u scope a expected reason) Q (\<lambda>_. quiet w) w"
proof (cases "candidate_in (ap_events (aw_repo w) (project_key scope, a))")
  case (Some c)
  then show ?thesis
    unfolding expire_def wp_bindP wp_status [OF ok]
    by (auto simp: wp_simps system_decision_ok_def intro!: approval_deny_rule [OF _ fresh] replay ret
        terminal_system_decision_rule [OF ok fresh _ refl Some])
qed (simp add: expire_def wp_bindP wp_status [OF ok])

lemma cancel_rule:
  assumes ok: "repo_ok (en_policy env) (aw_repo w)" and fresh: "fresh_draw env w"
    and replay: "\<And>d w'. idle w w' \<Longrightarrow> Q d w'" and ret: "\<And>d w'. extends (en_policy env) w w' \<Longrightarrow> Q d w'"
  shows "wp (cancel env u scope a expected actor reason) Q (\<lambda>_. quiet w) w"
proof (cases "candidate_in (ap_events (aw_repo w) (project_key scope, a))")
  case (Some c)
  then show ?thesis
    unfolding cancel_def wp_bindP wp_status [OF ok]
    by (auto simp: wp_simps Let_def system_decision_ok_def intro!: approval_deny_rule [OF _ fresh] require_actor_scope_rule [OF _ fresh] replay ret
        terminal_system_decision_rule [OF ok fresh _ refl Some])
qed (simp add: cancel_def wp_bindP wp_status [OF ok])

text \<open>The tail shared by the writing calls: audit, append, return.\<close>

lemma audited_append_rule:
  assumes ok: "repo_ok (en_policy env) (aw_repo w)" and idle: "idle w w1" and fresh: "fresh_draw env w" and k: "k = (project_key (ac_scope c), ac_approval_id c)"
    and leg: "legal (en_policy env) k (ap_events (aw_repo w) k) ty p"
    and names: "action = audit_action_for ty" "decision = audit_decision_for p"
    and ret: "\<And>w'. extends (en_policy env) w w' \<Longrightarrow> ap_events (aw_repo w') k \<noteq> [] \<Longrightarrow> wp m Q (\<lambda>_. quiet w) w'"
  shows "wp (bindP (approval_audit env c action decision AO_SUCCESS input) (\<lambda>_.
    bindP (journal_append u (ac_approval_id c) (ac_scope c) ty p t) (\<lambda>_. m))) Q (\<lambda>_. quiet w) w1"
  unfolding wp_bindP
proof (rule approval_audit_rule [OF idle fresh])
  fix w' assume "quiet w w'"
    "AO_SUCCESS = AO_SUCCESS \<Longrightarrow> logged_for (aw_audit w') (project_key (ac_scope c), ac_approval_id c) action decision"
  then show "wp (journal_append u (ac_approval_id c) (ac_scope c) ty p t) (\<lambda>_. wp m Q (\<lambda>_. quiet w))
      (\<lambda>_. quiet w) w'"
    by (intro journal_append_rule [OF ok _ leg k]) (simp_all add: k names ret)
qed

lemma delegate_write_rule:
  assumes ok: "repo_ok (en_policy env) (aw_repo w)" and fresh: "fresh_draw env w" and idle: "idle w w1"
    and c: "candidate_in (ap_events (aw_repo w) (project_key scope, a)) = Some c"
    and d: "d = new_delegation u a (ac_candidate_sha256 c) g x role now expires"
    and adm: "state_of (en_policy env) c (decisions_in (ap_events (aw_repo w) (project_key scope, a))) = ST_PENDING"
      "valid_delegation d" "rule_delegation_allowed (pol_rules (en_policy env) (ac_kind c))"
      "role \<in> rule_required_roles (pol_rules (en_policy env) (ac_kind c))" "g \<noteq> ts_user_id (ac_scope c)"
      "dt_us now < dt_us expires" "dt_us expires \<le> dt_us (ac_expires_at c)"
    and ret: "\<And>w'. extends (en_policy env) w w' \<Longrightarrow> Q d w'"
  shows "wp (bindP (approval_audit env c ''approval.delegate'' ''DELEGATED'' AO_SUCCESS input) (\<lambda>_.
      bindP (journal_append u a (ac_scope c) EV_DELEGATION (PDelegation d) now) (\<lambda>_. ret d)))
      Q (\<lambda>_. quiet w) w1"
proof -
  note key = candidate_key [OF ok c]
  have "legal (en_policy env) (project_key scope, a) (ap_events (aw_repo w) (project_key scope, a)) EV_DELEGATION (PDelegation d)"
    using adm c pending_no_grant [OF repo_okD(2) [OF ok] c] key by (auto simp: legal_def d new_delegation_def)
  then show ?thesis
    using audited_append_rule [OF ok idle fresh, of "(project_key scope, a)" c EV_DELEGATION "PDelegation d"
        "''approval.delegate''" "''DELEGATED''" "Prelude.ret d" Q input u now] key
    by (simp add: wp_ret ret)
qed

lemma delegate_rule:
  assumes ok: "repo_ok (en_policy env) (aw_repo w)" and fresh: "fresh_draw env w"
    and replay: "\<And>d w'. idle w w' \<Longrightarrow> Q d w'" and ret: "\<And>d w'. extends (en_policy env) w w' \<Longrightarrow> Q d w'"
  shows "wp (delegate env u scope a expected grantor x role expires) Q (\<lambda>_. quiet w) w"
proof (cases "candidate_in (ap_events (aw_repo w) (project_key scope, a))")
  case None
  then show ?thesis by (simp add: delegate_def wp_bindP wp_status [OF ok])
next
  case (Some c)
  define es where "es = ap_events (aw_repo w) (project_key scope, a)"
  let ?rule = "pol_rules (en_policy env) (ac_kind c)"
  let ?d = "\<lambda>now. new_delegation u a expected (actor_id grantor) x role now expires"
  have fresh_part: "wp (bindP (require_pending_current env (status_at (en_policy env) es c) expected True) (\<lambda>_.
       bindP (require_actor_scope env c grantor) (\<lambda>_.
       if \<not> rule_delegation_allowed ?rule \<or> role \<notin> rule_required_roles ?rule then deny env c ''APPROVAL_DELEGATION_DENIED''
       else if role \<notin> actor_roles grantor \<or> actor_id grantor = ts_user_id (ac_scope c)
         then deny env c ''APPROVAL_DELEGATION_DENIED''
       else bindP (read_clock env) (\<lambda>now.
         if \<not> is_aware expires \<or> dt_us expires \<le> dt_us now \<or> dt_us (ac_expires_at c) < dt_us expires
         then deny env c ''APPROVAL_DELEGATION_INVALID''
         else if \<not> valid_delegation (?d now) then raise ApprovalValidationError
              else bindP (approval_audit env c ''approval.delegate'' ''DELEGATED'' AO_SUCCESS input) (\<lambda>_.
                bindP (journal_append u a (ac_scope c) EV_DELEGATION (PDelegation (?d now)) now) (\<lambda>_. ret (?d now)))))))
       Q (\<lambda>_. quiet w) w" for input
    unfolding wp_bindP [of "require_pending_current _ _ _ _"] wp_bindP [of "require_actor_scope _ _ _"]
    by (rule require_pending_current_rule [OF idle_simps(1) fresh], rule require_actor_scope_rule [OF _ fresh], assumption)
      (auto simp: wp_bindP [of "read_clock _"] wp_read_clock wp_if wp_raise es_def
        intro!: approval_deny_rule [OF _ fresh] delegate_write_rule [OF ok fresh _ Some refl] ret)
  show ?thesis
    unfolding delegate_def wp_bindP [of "status _ _ _"] wp_status [OF ok] es_def [symmetric] Some [folded es_def]
      option.case Let_def status_at_simps wp_bindP [of "journal_get _ _"] wp_journal_get
    using fresh_part
    by (auto simp: wp_bindP [of "lift_pure _"] wp_lift_pure wp_if wp_ret split: sum.split option.split
        intro!: approval_deny_rule [OF _ fresh] replay)
qed

lemma resume_rule:
  assumes ok: "repo_ok (en_policy env) (aw_repo w)" and fresh: "fresh_draw env w"
    and replay: "\<And>g e w'. idle w w' \<Longrightarrow> ap_by_id (aw_repo w) u = Some e \<Longrightarrow> as_grant (ev_payload e) = Inr g \<Longrightarrow> Q g w'"
    and ret: "\<And>g c now w'. extends (en_policy env) w w' \<Longrightarrow>
      candidate_in (ap_events (aw_repo w) (project_key scope, a)) = Some c \<Longrightarrow> expected = ac_candidate_sha256 c \<Longrightarrow>
      g = new_grant c u a (decisions_in (ap_events (aw_repo w) (project_key scope, a))) now \<Longrightarrow> Q g w'"
  shows "wp (resume env u scope a expected) Q (\<lambda>_. quiet w) w"
proof (cases "candidate_in (ap_events (aw_repo w) (project_key scope, a))")
  case None
  then show ?thesis by (simp add: resume_def wp_bindP wp_status [OF ok])
next
  case (Some c)
  note key = candidate_key [OF ok Some]
  define es where "es = ap_events (aw_repo w) (project_key scope, a)"
  let ?g = "\<lambda>now. new_grant c u a (decisions_in es) now"
  have tail: "wp (bindP (approval_audit env c ''approval.resume'' ''RESUMED'' AO_SUCCESS input) (\<lambda>_.
      bindP (journal_append u a (ac_scope c) EV_RESUME (PGrant (?g now)) now) (\<lambda>_. ret (?g now))))
      Q (\<lambda>_. quiet w) w1"
    if "idle w w1" "state_of (en_policy env) c (decisions_in es) = ST_APPROVED" "grants_in es = []"
      "valid_grant (?g now)" "expected = ac_candidate_sha256 c" for w1 now input
  proof -
    have "legal (en_policy env) (project_key scope, a) (ap_events (aw_repo w) (project_key scope, a)) EV_RESUME (PGrant (?g now))"
      using that(2-4) Some key by (auto simp: legal_def es_def new_grant_def)
    then show ?thesis
      using audited_append_rule [OF ok that(1) fresh, of "(project_key scope, a)" c EV_RESUME "PGrant (?g now)"
          "''approval.resume''" "''RESUMED''" "Prelude.ret (?g now)" Q input u now] key
      by (simp add: wp_ret ret [OF _ Some that(5)] es_def)
  qed
  show ?thesis
    unfolding resume_def wp_bindP [of "status _ _ _"] wp_status [OF ok] es_def [symmetric] Some [folded es_def]
      option.case Let_def status_at_simps wp_bindP [of "journal_get _ _"] wp_journal_get
    by (auto simp: wp_bindP [of "lift_pure _"] wp_lift_pure wp_bindP [of "read_clock _"] wp_read_clock wp_if wp_ret wp_raise
        split: sum.split option.split intro!: approval_deny_rule [OF _ fresh] tail intro: replay dest!: repo_get_Inr)
qed

lemma status_rule:
  assumes "repo_ok (en_policy env) (aw_repo w')" "quiet w w' \<or> ap_events (aw_repo w') (project_key scope, a) \<noteq> []"
    and "\<And>st. Q st w'"
  shows "wp (status env scope a) Q (\<lambda>_. quiet w) w'"
  using assms journal_candidate [OF repo_okD(2) [OF assms(1)], of "(project_key scope, a)"]
  by (auto simp add: wp_status [OF assms(1)] split: option.split)

lemma create_rule:
  assumes inv: "approval_inv (en_policy env) w" and fresh: "fresh_draw env w" and preview: "json_wf (JObj preview)"
    and ret: "\<And>st w'. extends (en_policy env) w w' \<Longrightarrow> Q st w'"
  shows "wp (create env a scope task request kind action ttype tid tversion sha preview) Q (\<lambda>_. quiet w) w"
proof -
  have ok: "repo_ok (en_policy env) (aw_repo w)" using inv by (simp add: approval_inv_def)
  define c where "c = new_candidate env a scope task request kind action ttype tid tversion sha preview (utc (en_clock env (aw_reads w)))"
  have c_fields: "ac_approval_id c = a" "ac_scope c = scope" "ac_preview c = preview" "ac_policy_version c = pol_version (en_policy env)"
    by (simp_all add: c_def new_candidate_def)
  let ?w = "w\<lparr>aw_reads := Suc (aw_reads w)\<rparr>"
  have store: "wp (store_candidate env c) Q (\<lambda>_. quiet w) ?w"
    if "valid_candidate c" "ap_events (aw_repo w) (project_key scope, a) = []"
    unfolding store_candidate_def
  proof (rule audited_append_rule [OF ok _ fresh])
    show "legal (en_policy env) (project_key scope, a) (ap_events (aw_repo w) (project_key scope, a)) EV_CANDIDATE (PCandidate c)"
      using that preview by (auto simp: legal_def c_fields)
    show "wp (status env (ac_scope c) (ac_approval_id c)) Q (\<lambda>_. quiet w) w'"
      if "extends (en_policy env) w w'" "ap_events (aw_repo w') (project_key scope, a) \<noteq> []" for w'
      using extends_inv [OF inv that(1)] that ret by (intro status_rule) (simp_all add: approval_inv_def c_fields)
  qed (simp_all add: c_fields)
  have reread: "wp (status env scope a) Q (\<lambda>_. quiet w) ?w"
    using ok ret by (intro status_rule) simp_all
  show ?thesis
    unfolding create_def wp_bindP [of "read_clock _"] wp_read_clock Let_def c_def [symmetric] wp_if
      wp_bindP [of "journal_list _ _"]
    using store reread ok
    by (auto simp: wp_raise wp_journal_list [of "en_policy env" ?w] wp_bindP [of "lift_pure _"] wp_lift_pure wp_if
        split: sum.split intro!: approval_deny_rule [OF _ fresh])
qed

subsection \<open>The service as a machine\<close>

datatype approval_call =
    CreateCall uuid tenant_scope uuid string approval_kind string string uuid string string "(string \<times> json) list"
  | StatusCall tenant_scope uuid
  | DelegateCall uuid tenant_scope uuid string approval_actor uuid string datetime
  | DecideCall uuid tenant_scope uuid string approval_actor approval_outcome string "string option"
  | ExpireCall uuid tenant_scope uuid string string
  | CancelCall uuid tenant_scope uuid string approval_actor string
  | ResumeCall uuid tenant_scope uuid string

fun call_ok :: "approval_call \<Rightarrow> bool" where
  "call_ok (CreateCall _ _ _ _ _ _ _ _ _ _ preview) = json_wf (JObj preview)"
| "call_ok _ = True"

fun run_call :: "approval_env \<Rightarrow> approval_call \<Rightarrow> unit approving" where
  "run_call env (CreateCall a s t r k x tt tid tv sha p) = voidP (create env a s t r k x tt tid tv sha p)"
| "run_call env (StatusCall s a) = voidP (status env s a)"
| "run_call env (DelegateCall u s a h g x r t) = voidP (delegate env u s a h g x r t)"
| "run_call env (DecideCall u s a h x res reason r) = voidP (decide env u s a h x res reason r)"
| "run_call env (ExpireCall u s a h reason) = voidP (expire env u s a h reason)"
| "run_call env (CancelCall u s a h x reason) = voidP (cancel env u s a h x reason)"
| "run_call env (ResumeCall u s a h) = voidP (resume env u s a h)"

lemma run_call_extends:
  assumes inv: "approval_inv (en_policy env) w" and fresh: "fresh_draw env w" and ok: "call_ok call"
  shows "wp (run_call env call) (\<lambda>_. extends (en_policy env) w) (\<lambda>_. quiet w) w"
proof -
  have repo: "repo_ok (en_policy env) (aw_repo w)" using inv by (simp add: approval_inv_def)
  show ?thesis
    by (cases call)
      (use ok in \<open>auto simp: wp_voidP intro!: create_rule [OF inv fresh] delegate_rule [OF repo fresh] decide_rule [OF repo fresh]
        expire_rule [OF repo fresh] cancel_rule [OF repo fresh] resume_rule [OF repo fresh] status_rule [OF repo]\<close>)
qed

definition approval_start :: "approval_world \<Rightarrow> bool" where
  "approval_start w = (w = new_world)"

text \<open>A step: any call, with any clock, identifiers and span, under the service's policy.\<close>

definition approval_step :: "approval_policy \<Rightarrow> approval_world \<Rightarrow> approval_world \<Rightarrow> bool" where
  "approval_step pol w w' = (\<exists>env call. en_policy env = pol \<and> fresh_draw env w \<and> call_ok call \<and> w' = final (run_call env call) w)"

lemma final_wp: "wp m (\<lambda>_. P) (\<lambda>_. P) w \<Longrightarrow> P (final m w)"
  by (auto simp: wp_def final_def split: prod.splits sum.splits)

lemma approval_step_extends:
  assumes "approval_inv pol w" "approval_step pol w w'"
  shows "extends pol w w'"
proof -
  obtain env call where e: "en_policy env = pol" "fresh_draw env w" "call_ok call" and w': "w' = final (run_call env call) w"
    using assms(2) unfolding approval_step_def by (elim exE conjE)
  have "wp (run_call env call) (\<lambda>_. extends pol w) (\<lambda>_. extends pol w) w"
    using run_call_extends [of env w call] e assms(1) by (auto elim!: wp_mono)
  from final_wp [OF this] show ?thesis by (simp only: w')
qed

lemma approval_inv_start: "approval_inv pol new_world"
proof -
  have w: "ap_events (aw_repo new_world) k = []" "ap_by_id (aw_repo new_world) u = None" "aw_audit new_world = empty_audit" for k u
    by (simp_all add: new_world_def empty_approvals_def)
  have "repo_ok pol (aw_repo new_world)"
    unfolding repo_ok_def w by (simp add: verify_journal_def journal_empty)
  then show ?thesis unfolding approval_inv_def w by (simp add: audit_inv_empty)
qed

interpretation approval: invariant_machine approval_start "approval_step pol" "approval_inv pol" for pol
  using approval_inv_start approval_step_extends extends_inv
  by unfold_locales (auto simp: approval_start_def)

end
