(* ===== verification/ApprovalProgress.thy ===== *)
theory ApprovalProgress
  imports ApprovalCalls
begin

section \<open>Approvals can be completed\<close>

text \<open>
  The positive side of the service: when the arguments are valid, the identifiers are new and a span
  is active, \<^verbatim>\<open>create\<close>, \<^verbatim>\<open>decide\<close> and \<^verbatim>\<open>resume\<close> return a result and write exactly one event. All
  rules here are total: the error postcondition is \<open>False\<close>.
\<close>

definition span_active :: "approval_env \<Rightarrow> bool" where
  "span_active env = (sc_is_valid (en_span env) \<and> sc_trace_id (en_span env) \<noteq> 0 \<and> sc_span_id (en_span env) \<noteq> 0)"

lemma hex_char_alnum: "is_hex_char c \<Longrightarrow> is_alnum c"
  by (auto simp: is_hex_char_def is_alnum_def is_lower_def is_decimal_def)

lemma target_id_str_uuid [simp]: "target_id_ok (str_uuid u)"
proof -
  define h where "h = hex_fixed 32 (unat u)"
  have hex: "list_all is_hex_char h" "length h = 32" by (simp_all add: h_def hex_fixed_chars)
  have all: "x \<in> set (str_uuid u) \<Longrightarrow> is_alnum x \<or> x \<in> set ''._:/-''" for x
    using hex(1) hex_char_alnum
    by (auto simp: str_uuid_def Let_def list_all_iff simp flip: h_def dest!: in_set_takeD in_set_dropD)
  obtain c cs where h: "h = c # cs" using hex(2) by (cases h) auto
  then have "str_uuid u = c # tl (str_uuid u)" by (simp add: str_uuid_def Let_def flip: h_def)
  moreover have "is_alnum c" using hex(1) hex_char_alnum by (simp add: h)
  moreover have "length (str_uuid u) \<le> 256" using hex(2) by (simp add: str_uuid_def Let_def flip: h_def)
  ultimately show ?thesis
    unfolding target_id_ok_def head_tail_def
    using all by (cases "str_uuid u") (auto simp: list_all_iff)
qed

lemma approval_audit_record_valid:
  assumes "valid_candidate c" "dotted_name 127 action" "decision_ok decision" "is_sha256 input"
  shows "valid_audit_record (approval_audit_record c action decision res input u (utc t))"
  using assms by (simp add: valid_audit_record_def approval_audit_record_def valid_candidate_def is_utc_def utc_def
      dotted_name_def head_tail_def is_lower_def)

text \<open>One identifier was drawn, and only that one entered the audit log.\<close>

definition drew :: "approval_env \<Rightarrow> approval_world \<Rightarrow> approval_world \<Rightarrow> bool" where
  "drew env w w' = (aw_draws w' = Suc (aw_draws w) \<and>
     (\<forall>v. v \<noteq> en_uuid4 env (aw_draws w) \<longrightarrow> aud_by_id (aw_audit w') v = aud_by_id (aw_audit w) v))"

lemma drew_simps [simp]: "drew env (w\<lparr>aw_reads := n\<rparr>) w' = drew env w w'" "drew env w (w'\<lparr>aw_repo := r\<rparr>) = drew env w w'"
  by (simp_all add: drew_def)

lemma approval_audit_total:
  assumes span: "span_active env" and fresh: "fresh_draw env w" and c: "valid_candidate c"
    and texts: "dotted_name 127 action" "decision_ok decision" "is_sha256 input"
    and ret: "\<And>w'. aw_repo w' = aw_repo w \<Longrightarrow> drew env w w' \<Longrightarrow> Q () w'"
  shows "wp (approval_audit env c action decision res input) Q E w"
proof -
  define r where "r = approval_audit_record c action decision res input (en_uuid4 env (aw_draws w)) (utc (en_clock env (aw_reads w)))"
  have valid: "valid_audit_record r" unfolding r_def by (rule approval_audit_record_valid [OF c texts])
  have id: "au_event_id r = en_uuid4 env (aw_draws w)" by (simp add: r_def approval_audit_record_def)
  obtain l where l: "current_link (en_span env) = Inr l" "hex_pattern 32 (tl_trace_id l)" "hex_pattern 16 (tl_span_id l)"
    using span by (auto simp: span_active_def current_link_def link_of_def hex_pattern_def hex_fixed_chars)
  obtain x a where app: "audit_append r (tl_trace_id l) (tl_span_id l) (aw_audit w) = (x, a)" by fastforce
  then have x: "\<exists>e. x = Inr e" and a: "v \<noteq> au_event_id r \<Longrightarrow> aud_by_id a v = aud_by_id (aw_audit w) v" for v
    using fresh l(2,3) by (auto simp: audit_append_def fresh_draw_def id Let_def)
  from x have "audit_call env r (w\<lparr>aw_draws := Suc (aw_draws w), aw_reads := Suc (aw_reads w)\<rparr>) =
      (Inr (), w\<lparr>aw_audit := a, aw_draws := Suc (aw_draws w), aw_reads := Suc (aw_reads w)\<rparr>)"
    using app l(1) by (auto simp: audit_call_def audit_service_record_def bindP_def)
  moreover have "Q () (w\<lparr>aw_audit := a, aw_draws := Suc (aw_draws w), aw_reads := Suc (aw_reads w)\<rparr>)"
    by (rule ret) (simp_all add: drew_def a id)
  ultimately show ?thesis
    using valid by (simp add: approval_audit_def wp_simps Let_def flip: r_def) (simp add: wp_def)
qed

lemma journal_append_total:
  assumes "ap_by_id (aw_repo w) u = None"
    and "\<And>e. e = journal_event (ap_events (aw_repo w) (project_key scope, a)) u a scope ty p t \<Longrightarrow>
      Q () (w\<lparr>aw_repo := appended (aw_repo w) (project_key scope, a) e\<rparr>)"
  shows "wp (journal_append u a scope ty p t) Q E w"
  using assms by (simp add: wp_def journal_append_def repo_append_def Let_def appended_def)

text \<open>An audited write of one event from a world in which nothing has been drawn yet.\<close>

lemma audited_append_total:
  assumes span: "span_active env" and fresh: "fresh_draw env w" and c: "valid_candidate c"
    and texts: "dotted_name 127 action" "decision_ok decision" "is_sha256 input"
    and u: "ap_by_id (aw_repo w) u = None"
    and ret: "\<And>e w'. e = journal_event (ap_events (aw_repo w) (project_key (ac_scope c), a)) u a (ac_scope c) ty p t \<Longrightarrow>
      aw_repo w' = appended (aw_repo w) (project_key (ac_scope c), a) e \<Longrightarrow> drew env w w' \<Longrightarrow> wp m Q E w'"
  shows "wp (bindP (approval_audit env c action decision AO_SUCCESS input) (\<lambda>_.
    bindP (journal_append u a (ac_scope c) ty p t) (\<lambda>_. m))) Q E w"
  unfolding wp_bindP using u
  by (intro approval_audit_total [OF span fresh c texts] journal_append_total) (simp_all add: ret)

lemma approval_outcome_decision_ok [simp]: "decision_ok (approval_outcome_value x)"
  by (cases x) (simp_all add: decision_ok_def head_tail_def is_upper_def is_decimal_def)

lemma audit_texts_ok [simp]:
  "dotted_name 127 ''approval.create''" "dotted_name 127 ''approval.decide''" "dotted_name 127 ''approval.resume''"
  "dotted_name 127 ''approval.delegate''" "dotted_name 127 ''approval.deny''"
  "decision_ok ''PENDING''" "decision_ok ''RESUMED''" "decision_ok ''DELEGATED''"
  by (simp_all add: dotted_name_def decision_ok_def head_tail_def is_lower_def is_upper_def is_decimal_def)

lemma candidate_in_single: "ev_payload e = PCandidate c \<Longrightarrow> candidate_in [e] = Some c"
  by (simp add: candidate_in_def)

text \<open>The journal and the reads of a world after one more event.\<close>

lemma appended_events [simp]: "ap_events (appended r k e) k = ap_events r k @ [e]" "ap_by_id (appended r k e) (ev_event_id e) = Some e"
  by (simp_all add: appended_def)

lemma create_total:
  assumes inv: "approval_inv (en_policy env) w" and span: "span_active env" and fresh: "fresh_draw env w"
    and wf: "json_wf (JObj preview)"
    and c: "c = new_candidate env a scope task request kind action ttype tid tversion sha preview (utc (en_clock env (aw_reads w)))"
      "valid_candidate c"
    and new: "ap_events (aw_repo w) (project_key scope, a) = []" "ap_by_id (aw_repo w) a = None"
    and ret: "\<And>e w'. candidate_in [e] = Some c \<Longrightarrow> ap_events (aw_repo w') (project_key scope, a) = [e] \<Longrightarrow>
      decisions_in [e] = [] \<Longrightarrow> ap_by_id (aw_repo w') = (ap_by_id (aw_repo w))(a \<mapsto> e) \<Longrightarrow> drew env w w' \<Longrightarrow> Q (status_at (en_policy env) [e] c) w'"
  shows "wp (create env a scope task request kind action ttype tid tversion sha preview) Q (\<lambda>_ _. False) w"
proof -
  have f: "ac_approval_id c = a" "ac_scope c = scope" "ac_policy_version c = pol_version (en_policy env)" "ac_preview c = preview"
    by (simp_all add: c new_candidate_def)
  have ok: "repo_ok (en_policy env) (aw_repo w)" using inv by (simp add: approval_inv_def)
  have fresh': "fresh_draw env (w\<lparr>aw_reads := n\<rparr>)" for n using fresh by (simp add: fresh_draw_def)
  have store: "wp (store_candidate env c) Q (\<lambda>_ _. False) (w\<lparr>aw_reads := Suc (aw_reads w)\<rparr>)"
    unfolding store_candidate_def
  proof (rule audited_append_total [OF span fresh' c(2)])
    fix e and w' :: approval_world assume e: "e = journal_event (ap_events (aw_repo (w\<lparr>aw_reads := Suc (aw_reads w)\<rparr>)) (project_key (ac_scope c), ac_approval_id c))
        (ac_approval_id c) (ac_approval_id c) (ac_scope c) EV_CANDIDATE (PCandidate c) (ac_created_at c)"
      and w': "aw_repo w' = appended (aw_repo (w\<lparr>aw_reads := Suc (aw_reads w)\<rparr>)) (project_key (ac_scope c), ac_approval_id c) e"
      and drew: "drew env (w\<lparr>aw_reads := Suc (aw_reads w)\<rparr>) w'"
    then have es: "ap_events (aw_repo w') (project_key scope, a) = [e]" and p: "ev_payload e = PCandidate c" "ev_type e = EV_CANDIDATE"
      using new by (simp_all add: f)
    have j: "journal_ok (en_policy env) (project_key scope, a) [e]"
      by (rule journal_first [OF p(2,1) c(2)]) (use f wf in simp_all)
    have "verify_journal ([] @ [journal_event [] a a scope EV_CANDIDATE (PCandidate c) (ac_created_at c)]) = Inr ()"
      by (rule verify_journal_snoc) (simp_all add: verify_journal_def wf f del: dump_payload.simps json_wf.simps)
    then have v: "verify_journal [e] = Inr ()"
      using e new by (simp only: f append_Nil) simp
    have "wp (status env scope a) Q (\<lambda>_ _. False) w' = Q (status_at (en_policy env) [e] c) w'"
      using j v es by (simp add: status_def wp_def bindP_def journal_list_def repo_list_def Let_def
          journal_status [OF j candidate_in_single [OF p(1)]] status_at_def)
    moreover have "decisions_in [e] = []" using reading_snoc(1) [of "[]" e] by (simp add: p)
    ultimately show "wp (status env (ac_scope c) (ac_approval_id c)) Q (\<lambda>_ _. False) w'"
      using ret [OF candidate_in_single [OF p(1)] es] drew e w' by (simp add: f appended_def)
  qed (use c new f in \<open>simp_all add: valid_candidate_def\<close>)
  show ?thesis
    unfolding create_def wp_bindP [of "read_clock _"] wp_read_clock Let_def c(1) [symmetric] wp_if wp_bindP [of "journal_list _ _"]
    using store c(2) new ok by (simp add: wp_journal_list [of "en_policy env"])
qed

lemma decide_total:
  assumes ok: "repo_ok (en_policy env) (aw_repo w)" and span: "span_active env" and fresh: "fresh_draw env w"
    and es: "es = ap_events (aw_repo w) (project_key scope, a)" and c: "candidate_in es = Some c"
    and pending: "state_of (en_policy env) c (decisions_in es) = ST_PENDING"
    and clock: "\<And>n. en_clock env n < dt_us (ac_expires_at c)"
    and actor: "actor_scope_ok c actor" "actor_id actor \<noteq> ts_user_id (ac_scope c)"
      "actor_id actor \<notin> (\<lambda>d. ar_actor_id (dc_approval d)) ` set (decisions_in es)"
    and role: "role \<in> actor_roles actor" "role \<in> rule_required_roles (pol_rules (en_policy env) (ac_kind c))" "text_len 1 128 role"
    and res: "res \<in> {APPROVED, REJECTED, CHANGES_REQUESTED}" and reason: "text_len 1 4000 reason"
    and u: "ap_by_id (aw_repo w) u = None"
    and ret: "\<And>e now w'. ev_payload e = PDecision (decision_for c u (actor_id actor) role res reason now) \<Longrightarrow>
      ap_events (aw_repo w') (project_key scope, a) = es @ [e] \<Longrightarrow>
      ap_by_id (aw_repo w') = (ap_by_id (aw_repo w))(u \<mapsto> e) \<Longrightarrow> drew env w w' \<Longrightarrow>
      Q (decision_for c u (actor_id actor) role res reason now) w'"
  shows "wp (decide env u scope a (ac_candidate_sha256 c) actor res reason (Some role)) Q (\<lambda>_ _. False) w"
proof -
  have key: "project_key (ac_scope c) = project_key scope" "ac_approval_id c = a" "valid_candidate c"
    using candidate_key [OF ok, of scope a c] c es by auto
  have fresh': "fresh_draw env (w\<lparr>aw_reads := n\<rparr>)" for n using fresh by (simp add: fresh_draw_def)
  have valid: "valid_decision (decision_for c u (actor_id actor) role res reason now)" for now
    using key(3) role(3) reason
    by (auto simp: valid_decision_def decision_for_def approval_record_for_def valid_approval_record_def valid_candidate_def
        dotted_name_def head_tail_def text_len_def split: list.splits)
  have recording: "wp (record_decision env u (ac_approval_id c) c (actor_id actor) role res reason request) Q (\<lambda>_ _. False)
      (w\<lparr>aw_reads := n\<rparr>)" for n request
    unfolding record_decision_def wp_bindP [of "read_clock _"] wp_read_clock Let_def decision_for_def [symmetric]
  proof (simp add: valid, rule audited_append_total [OF span fresh' key(3)])
    show "wp (Prelude.ret (decision_for c u (actor_id actor) role res reason now)) Q (\<lambda>_ _. False) w'"
      if "e = journal_event es' u (ac_approval_id c) (ac_scope c) EV_DECISION (PDecision (decision_for c u (actor_id actor) role res reason now)) t"
        "aw_repo w' = appended (aw_repo (w\<lparr>aw_reads := m\<rparr>)) (project_key (ac_scope c), ac_approval_id c) e"
        "drew env (w\<lparr>aw_reads := m\<rparr>) w'" for e es' w' t m now
      unfolding wp_ret using that by (intro ret [of e]) (simp_all add: key es appended_def)
  qed (use u in simp_all)
  have clk: "\<not> dt_us (ac_expires_at c) \<le> en_clock env n" for n
    using clock [of n] by (simp add: not_le)
  have dup: "\<not> (\<exists>d \<in> set (decisions_in es). ar_actor_id (dc_approval d) = actor_id actor)"
    using actor(3) by (metis image_eqI)
  have ne: "role \<noteq> []" using role(3) by (auto simp: text_len_def)
  show ?thesis
    unfolding decide_def wp_bindP [of "status _ _ _"] wp_status [OF ok] es [symmetric]
    using c res u pending actor(1,2) role(1,2) recording
    by (simp add: wp_simps Let_def repo_get_def stored_decision_def require_pending_current_def require_actor_scope_def
        authorize_role_def utc_def dt_us_def [of "Aware _ _"] key clk dup ne del: insert_iff)
qed

lemma resume_total:
  assumes ok: "repo_ok (en_policy env) (aw_repo w)" and span: "span_active env" and fresh: "fresh_draw env w"
    and es: "es = ap_events (aw_repo w) (project_key scope, a)" and c: "candidate_in es = Some c"
    and approved: "state_of (en_policy env) c (decisions_in es) = ST_APPROVED" "decisions_in es \<noteq> []" "grants_in es = []"
    and u: "ap_by_id (aw_repo w) u = None"
    and ret: "\<And>e now w'. ev_payload e = PGrant (new_grant c u a (decisions_in es) now) \<Longrightarrow>
      ap_events (aw_repo w') (project_key scope, a) = es @ [e] \<Longrightarrow> Q (new_grant c u a (decisions_in es) now) w'"
  shows "wp (resume env u scope a (ac_candidate_sha256 c)) Q (\<lambda>_ _. False) w"
proof -
  have key: "project_key (ac_scope c) = project_key scope" "ac_approval_id c = a" "valid_candidate c"
    using candidate_key [OF ok, of scope a c] c es by auto
  have fresh': "fresh_draw env (w\<lparr>aw_reads := n\<rparr>)" for n using fresh by (simp add: fresh_draw_def)
  have valid: "valid_grant (new_grant c u a (decisions_in es) now)" for now
    using key(3) approved(2) by (simp add: valid_grant_def new_grant_def valid_candidate_def)
  have tail: "wp (bindP (approval_audit env c ''approval.resume'' ''RESUMED'' AO_SUCCESS (canonical_sha256 request)) (\<lambda>_.
      bindP (journal_append u a (ac_scope c) EV_RESUME (PGrant (new_grant c u a (decisions_in es) now)) now)
        (\<lambda>_. ret (new_grant c u a (decisions_in es) now)))) Q (\<lambda>_ _. False) (w\<lparr>aw_reads := n\<rparr>)" for n request now
  proof (rule audited_append_total [OF span fresh' key(3)])
    show "wp (Prelude.ret (new_grant c u a (decisions_in es) now)) Q (\<lambda>_ _. False) w'"
      if "e = journal_event es' u a (ac_scope c) EV_RESUME (PGrant (new_grant c u a (decisions_in es) now)) now"
        "aw_repo w' = appended (aw_repo (w\<lparr>aw_reads := n\<rparr>)) (project_key (ac_scope c), a) e" for e es' w'
      unfolding wp_ret using that by (intro ret [of e]) (simp_all add: key es)
  qed (use u in simp_all)
  show ?thesis
    unfolding resume_def wp_bindP [of "status _ _ _"] wp_status [OF ok] wp_bindP [of "journal_get _ _"] wp_journal_get es [symmetric]
    using c approved u valid tail
    by (simp add: Let_def repo_get_def wp_if wp_bindP [of "read_clock _"] wp_read_clock wp_bindP [of "journal_get _ _"] wp_journal_get)
qed

end
