(* ===== verification/ApprovalProperties.thy ===== *)
theory ApprovalProperties
  imports ApprovalProgress
begin

section \<open>Properties of the approval service\<close>

text \<open>
  What the journal specification and the call rules give for the running service: decisions are
  authorised and independent, a grant is backed by a quorum and given once, a checkpoint that has
  left the pending state stays where it is, no event is written without its audit event, and the
  whole service refines a five-phase lifecycle.
\<close>

subsection \<open>The lifecycle\<close>

datatype phase = Absent | Pending | Approved | Resumed | Closed approval_state

definition phase_of :: "approval_policy \<Rightarrow> approval_event list \<Rightarrow> phase" where
  "phase_of pol es = (case candidate_in es of None \<Rightarrow> Absent
     | Some c \<Rightarrow> if grants_in es \<noteq> [] then Resumed else (case state_of pol c (decisions_in es) of
         ST_PENDING \<Rightarrow> Pending | ST_APPROVED \<Rightarrow> Approved | s \<Rightarrow> Closed s))"

inductive phase_step :: "phase \<Rightarrow> phase \<Rightarrow> bool" where
  opened: "phase_step Absent Pending"
| worked: "phase_step Pending Pending"
| approved: "phase_step Pending Approved"
| closed: "s \<in> {ST_REJECTED, ST_CHANGES_REQUESTED, ST_EXPIRED, ST_CANCELLED} \<Longrightarrow> phase_step Pending (Closed s)"
| resumed: "phase_step Approved Resumed"

inductive_simps phase_step_from [simp]: "phase_step Absent p" "phase_step Pending p" "phase_step Approved p"
  "phase_step Resumed p" "phase_step (Closed s) p"

lemma state_initial: "valid_approval_policy pol \<Longrightarrow> state_of pol c [] = ST_PENDING"
  by (auto simp: state_of_def quorum_def approved_roles_def valid_approval_policy_def valid_rule_def)

lemma legal_phase_step:
  assumes pol: "valid_approval_policy pol" and ok: "journal_ok pol k es" and leg: "legal pol k es (ev_type e) (ev_payload e)"
  shows "phase_step (phase_of pol es) (phase_of pol (es @ [e]))"
  using leg unfolding legal_def
proof (elim disjE exE conjE)
  fix c assume "es = []" "ev_payload e = PCandidate c"
  then show ?thesis
    using reading_snoc(1,3) [of "[]" e] by (simp add: phase_of_def candidate_in_def state_initial [OF pol])
next
  fix c assume c: "candidate_in es = Some c" and adm: "admissible pol c es (ev_type e) (ev_payload e)"
  have c': "candidate_in (es @ [e]) = Some c" using c candidate_in_nonempty [OF c] by simp
  from adm show ?thesis
    by (cases rule: admissible_cases)
      (use adm in \<open>auto simp: phase_of_def c c' split: approval_state.split\<close>)
qed

lemma step_phases:
  assumes "valid_approval_policy pol" "approval_inv pol w" "approval_step pol w w'"
  shows "(\<forall>k. phase_of pol (ap_events (aw_repo w') k) = phase_of pol (ap_events (aw_repo w) k)) \<or>
    (\<exists>k. phase_step (phase_of pol (ap_events (aw_repo w) k)) (phase_of pol (ap_events (aw_repo w') k)) \<and>
       (\<forall>l. l \<noteq> k \<longrightarrow> ap_events (aw_repo w') l = ap_events (aw_repo w) l))"
proof -
  have repo: "repo_ok pol (aw_repo w)" using assms(2) by (simp add: approval_inv_def)
  from approval_step_extends [OF assms(2,3)] show ?thesis
    unfolding extends_def
  proof (elim conjE disjE exE)
    fix k e assume wr: "writes pol w w' k e"
    then have "ap_events (aw_repo w') = (ap_events (aw_repo w))(k := ap_events (aw_repo w) k @ [e])"
      by (simp add: writes_def appended_def)
    moreover have "phase_step (phase_of pol (ap_events (aw_repo w) k)) (phase_of pol (ap_events (aw_repo w) k @ [e]))"
      using wr by (intro legal_phase_step [OF assms(1) repo_okD(2) [OF repo]]) (simp add: writes_def)
    ultimately show ?thesis by (intro disjI2 exI [of _ k]) simp
  qed simp
qed

subsection \<open>A sample run\<close>

text \<open>A requester creates a checkpoint for a plan, an approver approves it, and it is resumed.\<close>

definition sample_approver :: approval_actor where
  "sample_approver = \<lparr>act_scope = \<lparr>ts_tenant_id = 1, ts_project_id = 2, ts_user_id = 4,
     ts_role_codes = [''QUALIFIED_APPROVER''], ts_permission_version = ''p1''\<rparr>\<rparr>"

definition sample_approval_env :: approval_env where
  "sample_approval_env = \<lparr>en_policy = default_approval_policy, en_clock = (\<lambda>_. 0), en_uuid4 = (\<lambda>n. 1000 + word_of_nat n),
     en_span = sample_span\<rparr>"

definition sample_candidate :: approval_candidate where
  "sample_candidate = new_candidate sample_approval_env 20 sample_scope 9 ''r1'' KIND_PLAN ''plan.approve'' ''plan'' 8 ''v1''
     zero_sha256 [] (utc 0)"

abbreviation sample_key :: journal_key where
  "sample_key \<equiv> (project_key sample_scope, 20)"

definition sample_pending :: approval_world where
  "sample_pending = final (run_call sample_approval_env
     (CreateCall 20 sample_scope 9 ''r1'' KIND_PLAN ''plan.approve'' ''plan'' 8 ''v1'' zero_sha256 [])) new_world"

definition sample_approved :: approval_world where
  "sample_approved = final (run_call sample_approval_env
     (DecideCall 21 sample_scope 20 zero_sha256 sample_approver APPROVED ''ok'' (Some ''QUALIFIED_APPROVER''))) sample_pending"

definition sample_resumed :: approval_world where
  "sample_resumed = final (run_call sample_approval_env (ResumeCall 22 sample_scope 20 zero_sha256)) sample_approved"

lemma wp_total_final: "wp m Q (\<lambda>_ _. False) w \<Longrightarrow> \<exists>x. Q x (final m w)"
  by (auto simp: wp_def final_def split: prod.splits sum.splits)

lemma default_policy_valid: "valid_approval_policy default_approval_policy"
proof -
  have "valid_rule (default_rule k)" for k
    by (cases k) (simp_all add: valid_rule_def mk_rule_def)
  then show ?thesis by (simp add: valid_approval_policy_def default_approval_policy_def text_len_def)
qed

lemma default_policy_rules [simp]: "pol_rules default_approval_policy = default_rule"
  by (simp add: default_approval_policy_def)

lemma sample_env_simps [simp]: "en_policy sample_approval_env = default_approval_policy" "span_active sample_approval_env"
  "en_clock sample_approval_env n = 0" "en_uuid4 sample_approval_env n = 1000 + word_of_nat n"
  by (simp_all add: sample_approval_env_def span_active_def sample_span_def)

lemma sample_candidate_simps [simp]:
  "ac_candidate_sha256 sample_candidate = zero_sha256" "ac_scope sample_candidate = sample_scope"
  "ac_kind sample_candidate = KIND_PLAN" "ac_approval_id sample_candidate = 20"
  "ac_expires_at sample_candidate = utc 86400000000"
  by (simp_all add: sample_candidate_def new_candidate_def default_approval_policy_def mk_rule_def utc_def)

lemma sample_candidate_valid: "valid_candidate sample_candidate"
proof -
  have "valid_scope sample_scope" "request_id_ok ''r1''" "dotted_name 127 ''plan.approve''" "dotted_name 127 ''plan''"
    "text_len 1 128 ''v1''" "text_len 1 128 ''approval-policy-1''"
    by code_simp+
  moreover have "ac_request_id sample_candidate = ''r1''" "ac_action sample_candidate = ''plan.approve''"
    "ac_target_type sample_candidate = ''plan''" "ac_target_version sample_candidate = ''v1''"
    "ac_policy_version sample_candidate = ''approval-policy-1''"
    by (simp_all add: sample_candidate_def new_candidate_def default_approval_policy_def)
  moreover have "ac_preview_sha256 sample_candidate = canonical_sha256 (JObj (ac_preview sample_candidate))"
    "ac_created_at sample_candidate = utc 0"
    by (simp_all add: sample_candidate_def new_candidate_def)
  ultimately show ?thesis
    by (simp add: valid_candidate_def is_utc_def utc_def dt_us_def)
qed

lemma fresh_new_world [simp]: "fresh_draw env new_world"
  by (simp add: fresh_draw_def new_world_def)

lemma new_world_simps [simp]: "ap_events (aw_repo new_world) k = []" "ap_by_id (aw_repo new_world) u = None"
  "aud_by_id (aw_audit new_world) u = None" "aw_reads new_world = 0" "aw_draws new_world = 0"
  by (simp_all add: new_world_def empty_approvals_def)

lemma sample_pending_facts:
  "\<exists>e. ap_events (aw_repo sample_pending) sample_key = [e] \<and> candidate_in [e] = Some sample_candidate \<and>
     decisions_in [e] = [] \<and> ap_by_id (aw_repo sample_pending) = (ap_by_id (aw_repo new_world))(20 \<mapsto> e) \<and>
     drew sample_approval_env new_world sample_pending"
proof -
  have "wp (run_call sample_approval_env (CreateCall 20 sample_scope 9 ''r1'' KIND_PLAN ''plan.approve'' ''plan'' 8 ''v1'' zero_sha256 []))
    (\<lambda>_ w'. \<exists>e. ap_events (aw_repo w') sample_key = [e] \<and> candidate_in [e] = Some sample_candidate \<and>
     decisions_in [e] = [] \<and> ap_by_id (aw_repo w') = (ap_by_id (aw_repo new_world))(20 \<mapsto> e) \<and>
     drew sample_approval_env new_world w') (\<lambda>_ _. False) new_world"
    unfolding run_call.simps wp_voidP
    by (rule create_total [where c = sample_candidate])
      (auto simp: approval_inv_start sample_candidate_valid, simp add: sample_candidate_def)
  from wp_total_final [OF this] show ?thesis by (simp add: sample_pending_def)
qed

lemma approval_stepI:
  "en_policy env = pol \<Longrightarrow> fresh_draw env w \<Longrightarrow> call_ok call \<Longrightarrow> approval_step pol w (final (run_call env call) w)"
  unfolding approval_step_def by blast

lemma sample_pending_reachable: "reaches approval_start (approval_step default_approval_policy) sample_pending"
  unfolding sample_pending_def
  by (rule reaches_step, rule reaches_start, rule approval_start_def [THEN iffD2], rule refl, rule approval_stepI) simp_all

lemma sample_pending_fresh: "fresh_draw sample_approval_env sample_pending"
  using sample_pending_facts by (auto simp: drew_def fresh_draw_def)

lemma sample_approved_facts:
  "\<exists>e now w'. decide sample_approval_env 21 sample_scope 20 zero_sha256 sample_approver APPROVED ''ok'' (Some ''QUALIFIED_APPROVER'')
       sample_pending = (Inr (decision_for sample_candidate 21 4 ''QUALIFIED_APPROVER'' APPROVED ''ok'' now), w') \<and>
     sample_approved = w' \<and>
     ap_events (aw_repo w') sample_key = ap_events (aw_repo sample_pending) sample_key @ [e] \<and>
     ev_payload e = PDecision (decision_for sample_candidate 21 4 ''QUALIFIED_APPROVER'' APPROVED ''ok'' now) \<and>
     ap_by_id (aw_repo w') 22 = None \<and> drew sample_approval_env sample_pending w'"
proof -
  obtain e where e: "ap_events (aw_repo sample_pending) sample_key = [e]" "candidate_in [e] = Some sample_candidate"
    "decisions_in [e] = []" "ap_by_id (aw_repo sample_pending) = (ap_by_id (aw_repo new_world))(20 \<mapsto> e)"
    using sample_pending_facts by blast
  have "repo_ok (en_policy sample_approval_env) (aw_repo sample_pending)"
    using approval.reachable_inv [OF sample_pending_reachable] by (simp add: approval_inv_def)
  moreover have "actor_scope_ok sample_candidate sample_approver" "actor_id sample_approver = 4"
      "''QUALIFIED_APPROVER'' \<in> actor_roles sample_approver" "ts_user_id sample_scope = 3"
    by (simp_all add: actor_scope_ok_def sample_approver_def actor_id_def actor_roles_def project_key_def sample_scope_def)
  ultimately have "wp (decide sample_approval_env 21 sample_scope 20 (ac_candidate_sha256 sample_candidate) sample_approver
      APPROVED ''ok'' (Some ''QUALIFIED_APPROVER'')) (\<lambda>d w'. \<exists>x now. d = decision_for sample_candidate 21 4 ''QUALIFIED_APPROVER'' APPROVED ''ok'' now \<and>
     ap_events (aw_repo w') sample_key = [e] @ [x] \<and> ev_payload x = PDecision d \<and>
     ap_by_id (aw_repo w') 22 = None \<and> drew sample_approval_env sample_pending w') (\<lambda>_ _. False) sample_pending"
    by (intro decide_total [where es = "[e]"])
      (auto simp: e sample_pending_fresh state_initial default_policy_valid dt_us_def utc_def mk_rule_def text_len_def)
  then show ?thesis
    unfolding sample_approved_def final_def
    by (auto simp: wp_def e voidP_def bindP_def split: prod.splits sum.splits)
qed

lemma sample_approved_reachable: "reaches approval_start (approval_step default_approval_policy) sample_approved"
  unfolding sample_approved_def
  by (rule reaches_step [OF sample_pending_reachable], rule approval_stepI) (simp_all add: sample_pending_fresh)

lemma sample_approved_journal:
  "\<exists>e1 e2 now. ap_events (aw_repo sample_approved) sample_key = [e1, e2] \<and> candidate_in [e1, e2] = Some sample_candidate \<and>
     decisions_in [e1, e2] = [decision_for sample_candidate 21 4 ''QUALIFIED_APPROVER'' APPROVED ''ok'' now] \<and>
     state_of default_approval_policy sample_candidate (decisions_in [e1, e2]) = ST_APPROVED \<and> grants_in [e1, e2] = [] \<and>
     ap_by_id (aw_repo sample_approved) 22 = None \<and> fresh_draw sample_approval_env sample_approved"
proof -
  obtain e1 where e1: "ap_events (aw_repo sample_pending) sample_key = [e1]" "candidate_in [e1] = Some sample_candidate"
    "decisions_in [e1] = []" "drew sample_approval_env new_world sample_pending"
    using sample_pending_facts by blast
  obtain e2 now where e2: "ap_events (aw_repo sample_approved) sample_key = [e1] @ [e2]"
    "ev_payload e2 = PDecision (decision_for sample_candidate 21 4 ''QUALIFIED_APPROVER'' APPROVED ''ok'' now)"
    "ap_by_id (aw_repo sample_approved) 22 = None" "drew sample_approval_env sample_pending sample_approved"
    using sample_approved_facts e1(1) by auto
  let ?d = "decision_for sample_candidate 21 4 ''QUALIFIED_APPROVER'' APPROVED ''ok'' now"
  have j: "journal_ok default_approval_policy sample_key [e1]" 
    using approval.reachable_inv [OF sample_pending_reachable] e1(1) repo_okD(2) [of _ _ sample_key]
    by (metis approval_inv_def)
  have g1: "grants_in [e1] = []"
    using pending_no_grant [OF j e1(2)] by (simp add: e1(3) state_initial default_policy_valid)
  have ds: "decisions_in ([e1] @ [e2]) = [?d]" "grants_in ([e1] @ [e2]) = []" "candidate_in ([e1] @ [e2]) = Some sample_candidate"
    using reading_snoc(4) [of "[e1]" e2] by (simp_all only: reading_snoc(1,3)) (simp_all add: e1 e2(2) g1)
  moreover have "state_of default_approval_policy sample_candidate [?d] = ST_APPROVED"
    by (simp add: state_approved quorum_def mk_rule_def)
  moreover have "fresh_draw sample_approval_env sample_approved"
    using e1(4) e2(4) by (auto simp: drew_def fresh_draw_def)
  ultimately show ?thesis using e2(1,3) by (intro exI [of _ e1] exI [of _ e2] exI [of _ now]) simp
qed

lemma sample_resumed_reachable: "reaches approval_start (approval_step default_approval_policy) sample_resumed"
  unfolding sample_resumed_def
  by (rule reaches_step [OF sample_approved_reachable], rule approval_stepI) (use sample_approved_journal in auto)

lemma sample_resumed_journal: "grants_in (ap_events (aw_repo sample_resumed) sample_key) \<noteq> []"
proof -
  obtain e1 e2 now where e: "ap_events (aw_repo sample_approved) sample_key = [e1, e2]" "candidate_in [e1, e2] = Some sample_candidate"
     "decisions_in [e1, e2] = [decision_for sample_candidate 21 4 ''QUALIFIED_APPROVER'' APPROVED ''ok'' now]"
     "state_of default_approval_policy sample_candidate (decisions_in [e1, e2]) = ST_APPROVED" "grants_in [e1, e2] = []"
     "ap_by_id (aw_repo sample_approved) 22 = None" "fresh_draw sample_approval_env sample_approved"
    using sample_approved_journal by blast
  have "repo_ok (en_policy sample_approval_env) (aw_repo sample_approved)"
    using approval.reachable_inv [OF sample_approved_reachable] by (simp add: approval_inv_def)
  then have "wp (resume sample_approval_env 22 sample_scope 20 (ac_candidate_sha256 sample_candidate))
    (\<lambda>g w'. grants_in (ap_events (aw_repo w') sample_key) \<noteq> []) (\<lambda>_ _. False) sample_approved"
    using reading_snoc(3) [of "[e1, e2]"] e(4) by (intro resume_total [where es = "[e1, e2]"]) (auto simp: e)
  from wp_total_final [OF this] show ?thesis
    by (auto simp: sample_resumed_def final_def voidP_def bindP_def split: prod.splits sum.splits)
qed

subsection \<open>Properties\<close>

text \<open>
  (C2) A resume grant is backed by a real approval: in every reachable state, a checkpoint has at
  most one grant, and if it has one then all its decisions are approvals, made by pairwise different
  actors none of whom is the requester, each in a role the rule requires, the roles satisfy the rule
  (all of them when it says so), and the grant lists exactly the digests of those decisions and
  names the candidate's scope, task and content hash.
\<close>

theorem grant_backed_by_quorum:
  assumes "reaches approval_start (approval_step pol) w" and "candidate_in (ap_events (aw_repo w) k) = Some c"
    and "g \<in> set (grants_in (ap_events (aw_repo w) k))"
  shows "grants_in (ap_events (aw_repo w) k) = [g] \<and>
    (let ds = decisions_in (ap_events (aw_repo w) k); rule = pol_rules pol (ac_kind c) in
     (\<forall>d \<in> set ds. ar_outcome (dc_approval d) = APPROVED \<and> ar_actor_id (dc_approval d) \<noteq> ts_user_id (ac_scope c) \<and>
        dc_actor_role d \<in> rule_required_roles rule \<and> ar_target_sha256 (dc_approval d) = ac_candidate_sha256 c) \<and>
     distinct (map (\<lambda>d. ar_actor_id (dc_approval d)) ds) \<and> quorum rule (set (map dc_actor_role ds)) \<and>
     gr_decision_sha256s g = map (\<lambda>d. canonical_sha256 (dump_decision d)) ds \<and>
     gr_candidate_sha256 g = ac_candidate_sha256 c \<and> gr_scope g = ac_scope c \<and> gr_task_id g = ac_task_id c)"
proof -
  have j: "journal_ok pol k (ap_events (aw_repo w) k)"
    using approval.reachable_inv [OF assms(1)] repo_okD(2) by (auto simp: approval_inv_def)
  let ?ds = "decisions_in (ap_events (aw_repo w) k)"
  from journal_grants [OF j assms(2)] assms(3)
  have g: "grants_in (ap_events (aw_repo w) k) = [g]" "state_of pol c ?ds = ST_APPROVED"
    "g = new_grant c (gr_resume_id g) (ac_approval_id c) ?ds (gr_resumed_at g)"
    by auto
  then have appr: "\<forall>d \<in> set ?ds. ar_outcome (dc_approval d) = APPROVED" "quorum (pol_rules pol (ac_kind c)) (set (map dc_actor_role ?ds))"
    by (simp_all add: state_approved)
  then have "filter human ?ds = ?ds" by (simp add: filter_id_conv human_def)
  moreover have "ar_target_sha256 (dc_approval d) = ac_candidate_sha256 c" if "bound_to c d" for d
    using that unfolding bound_to_def Let_def by (metis approval_record.select_convs(7) approval_record_for_def)
  moreover have "gr_decision_sha256s g = map (\<lambda>d. canonical_sha256 (dump_decision d)) ?ds" "gr_candidate_sha256 g = ac_candidate_sha256 c"
    "gr_scope g = ac_scope c" "gr_task_id g = ac_task_id c"
    by (subst g(3), simp add: new_grant_def)+
  ultimately show ?thesis
    using journal_decisions [OF j assms(2)] appr g(1) by (simp add: Let_def human_def)
qed

lemma sample_resumed_candidate: "\<exists>c. candidate_in (ap_events (aw_repo sample_resumed) sample_key) = Some c"
proof -
  have "journal_ok default_approval_policy sample_key (ap_events (aw_repo sample_resumed) sample_key)"
    using approval.reachable_inv [OF sample_resumed_reachable] repo_okD(2) by (auto simp: approval_inv_def)
  moreover have "ap_events (aw_repo sample_resumed) sample_key \<noteq> []" using sample_resumed_journal by auto
  ultimately show ?thesis using journal_candidate by blast
qed

theorem grant_backed_by_quorum_witness:
  "\<exists>c g. candidate_in (ap_events (aw_repo sample_resumed) sample_key) = Some c \<and>
     grants_in (ap_events (aw_repo sample_resumed) sample_key) = [g] \<and> gr_candidate_sha256 g = ac_candidate_sha256 c"
proof -
  obtain c where c: "candidate_in (ap_events (aw_repo sample_resumed) sample_key) = Some c"
    using sample_resumed_candidate by blast
  obtain g where g: "g \<in> set (grants_in (ap_events (aw_repo sample_resumed) sample_key))"
    using sample_resumed_journal by (cases "grants_in (ap_events (aw_repo sample_resumed) sample_key)") auto
  from grant_backed_by_quorum [OF sample_resumed_reachable c g] c show ?thesis
    by (auto simp: Let_def)
qed



lemma step_appends:
  assumes "approval_inv pol w" "approval_step pol w w'"
  shows "\<exists>fs. ap_events (aw_repo w') k = ap_events (aw_repo w) k @ fs"
  using approval_step_extends [OF assms] unfolding extends_def writes_def appended_def
  by (elim conjE disjE exE) auto

lemma steps_append:
  assumes "(approval_step pol)\<^sup>*\<^sup>* w w'" "approval_inv pol w"
  shows "approval_inv pol w' \<and> (\<exists>fs. ap_events (aw_repo w') k = ap_events (aw_repo w) k @ fs)"
  using assms
proof (induction rule: rtranclp_induct)
  case (step y z)
  then obtain fs where "approval_inv pol y" "ap_events (aw_repo y) k = ap_events (aw_repo w) k @ fs" by blast
  moreover obtain gs where "ap_events (aw_repo z) k = ap_events (aw_repo y) k @ gs"
    using step_appends [OF \<open>approval_inv pol y\<close> step.hyps(2)] by blast
  ultimately show ?case
    using approval.step_inv step.hyps(2) by fastforce
qed simp

text \<open>
  (C8) Terminal means terminal: once a checkpoint is approved, rejected, sent back, expired or
  cancelled, no sequence of later calls changes its decisions, its delegations or its state.
\<close>

theorem approval_terminal_frozen:
  assumes "reaches approval_start (approval_step pol) w" "(approval_step pol)\<^sup>*\<^sup>* w w'"
    and "candidate_in (ap_events (aw_repo w) k) = Some c" "state_of pol c (decisions_in (ap_events (aw_repo w) k)) \<noteq> ST_PENDING"
  shows "decisions_in (ap_events (aw_repo w') k) = decisions_in (ap_events (aw_repo w) k) \<and>
    delegations_in (ap_events (aw_repo w') k) = delegations_in (ap_events (aw_repo w) k) \<and>
    candidate_in (ap_events (aw_repo w') k) = Some c \<and>
    state_of pol c (decisions_in (ap_events (aw_repo w') k)) = state_of pol c (decisions_in (ap_events (aw_repo w) k))"
proof -
  obtain fs where inv: "approval_inv pol w'" and fs: "ap_events (aw_repo w') k = ap_events (aw_repo w) k @ fs"
    using steps_append [OF assms(2) approval.reachable_inv [OF assms(1)]] by blast
  have j: "journal_ok pol k (ap_events (aw_repo w) k @ fs)"
    using inv repo_okD(2) [of pol "aw_repo w'" k] fs by (simp add: approval_inv_def)
  have "candidate_in (ap_events (aw_repo w) k @ fs) = Some c"
    using assms(3) by (cases "ap_events (aw_repo w) k") (auto simp: candidate_in_def)
  with journal_frozen [OF j assms(3,4)] fs show ?thesis by simp
qed

theorem approval_terminal_frozen_witness:
  "decisions_in (ap_events (aw_repo sample_resumed) sample_key) = decisions_in (ap_events (aw_repo sample_approved) sample_key)"
proof -
  have "approval_step default_approval_policy sample_approved sample_resumed"
    unfolding sample_resumed_def by (rule approval_stepI) (use sample_approved_journal in auto)
  moreover obtain e1 e2 where "ap_events (aw_repo sample_approved) sample_key = [e1, e2]"
    "candidate_in [e1, e2] = Some sample_candidate" "state_of default_approval_policy sample_candidate (decisions_in [e1, e2]) = ST_APPROVED"
    using sample_approved_journal by blast
  ultimately show ?thesis
    using approval_terminal_frozen [OF sample_approved_reachable r_into_rtranclp, of sample_resumed sample_key sample_candidate] by simp
qed

text \<open>
  A refused call writes nothing: when any call of the service raises, whatever the reason, the
  journal is exactly as before; only the audit log may have grown.
\<close>

theorem approval_refusal_atomic:
  assumes "reaches approval_start (approval_step (en_policy env)) w" "fresh_draw env w" "call_ok call"
    and "run_call env call w = (Inl err, w')"
  shows "aw_repo w' = aw_repo w \<and> audit_step\<^sup>*\<^sup>* (aw_audit w) (aw_audit w')"
  using wp_outcomeD_Inl [OF run_call_extends [OF approval.reachable_inv [OF assms(1)] assms(2,3)] assms(4)]
  by (simp add: quiet_def)

lemma sample_not_found:
  "run_call sample_approval_env (StatusCall sample_scope 99) new_world = (Inl (ApprovalError ''APPROVAL_NOT_FOUND''), new_world)"
  by (simp add: voidP_def status_def bindP_def journal_list_def repo_list_def Let_def verify_journal_def status_of_def)

theorem approval_refusal_atomic_witness:
  "aw_repo new_world = aw_repo new_world \<and> audit_step\<^sup>*\<^sup>* (aw_audit new_world) (aw_audit new_world) \<and>
   run_call sample_approval_env (StatusCall sample_scope 99) new_world = (Inl (ApprovalError ''APPROVAL_NOT_FOUND''), new_world)"
proof -
  have "reaches approval_start (approval_step (en_policy sample_approval_env)) new_world"
    by (rule reaches_start) (simp add: approval_start_def)
  from approval_refusal_atomic [OF this fresh_new_world _ sample_not_found] sample_not_found show ?thesis by simp
qed

text \<open>
  (C30) No approval event without its audit event, and both logs intact: in every reachable state the
  journal of every checkpoint passes \<^verbatim>\<open>verify\<close>, the audit log of every project passes \<^verbatim>\<open>verify\<close>, and for
  each journal event the audit log of its project holds a successful approval event with the matching
  action and decision that targets the checkpoint.
\<close>

theorem approval_events_audited:
  assumes "reaches approval_start (approval_step pol) w"
  shows "repo_list (aw_repo w) scope a = Inr (ap_events (aw_repo w) (project_key scope, a)) \<and>
    audit_verify (aw_audit w) scope = Inr () \<and>
    (\<forall>e \<in> set (ap_events (aw_repo w) (project_key scope, a)). \<exists>x \<in> set (audit_list (aw_audit w) scope).
       au_kind x = AK_APPROVAL \<and> au_outcome x = AO_SUCCESS \<and> au_target_id x = str_uuid a \<and>
       au_action x = audit_action_for (ev_type e) \<and> au_decision x = audit_decision_for (ev_payload e))"
proof -
  have inv: "approval_inv pol w" by (rule approval.reachable_inv [OF assms])
  then have "repo_list (aw_repo w) scope a = Inr (ap_events (aw_repo w) (project_key scope, a))"
    using repo_okD(1) [of pol "aw_repo w" "(project_key scope, a)"] by (simp add: approval_inv_def repo_list_def Let_def)
  moreover have "audit_verify (aw_audit w) scope = Inr ()"
    using inv audit_inv_chain [of "aw_audit w" "project_key scope"]
    by (simp add: approval_inv_def audit_verify_def audit_list_def verify_audit_events_def del: verify_audit_from.simps)
  moreover have "logged_for (aw_audit w) (project_key scope, a) (audit_action_for (ev_type e)) (audit_decision_for (ev_payload e))"
    if "e \<in> set (ap_events (aw_repo w) (project_key scope, a))" for e
    using inv that unfolding approval_inv_def by blast
  ultimately show ?thesis by (simp add: logged_for_def audit_list_def)
qed

theorem approval_events_audited_witness:
  "\<exists>e x. e \<in> set (ap_events (aw_repo sample_pending) sample_key) \<and> x \<in> set (audit_list (aw_audit sample_pending) sample_scope) \<and>
     au_kind x = AK_APPROVAL \<and> au_action x = audit_action_for (ev_type e)"
proof -
  obtain e where "e \<in> set (ap_events (aw_repo sample_pending) sample_key)" using sample_pending_facts by auto
  with approval_events_audited [OF sample_pending_reachable, of sample_scope 20] show ?thesis by blast
qed

text \<open>
  (C7) The service refines the checkpoint lifecycle: with \<open>phase_of\<close> as the abstraction of a journal,
  every call leaves all checkpoints in their phase, or moves exactly one of them along a transition
  of the lifecycle (absent to pending, pending to pending, approved or closed, approved to resumed)
  and leaves the journals of all others untouched.
\<close>

theorem approval_refines_lifecycle:
  assumes "valid_approval_policy pol" "reaches approval_start (approval_step pol) w" "approval_step pol w w'"
  shows "(\<forall>k. phase_of pol (ap_events (aw_repo w') k) = phase_of pol (ap_events (aw_repo w) k)) \<or>
    (\<exists>k. phase_step (phase_of pol (ap_events (aw_repo w) k)) (phase_of pol (ap_events (aw_repo w') k)) \<and>
       (\<forall>l. l \<noteq> k \<longrightarrow> ap_events (aw_repo w') l = ap_events (aw_repo w) l))"
  by (rule step_phases [OF assms(1) approval.reachable_inv [OF assms(2)] assms(3)])

theorem approval_refines_lifecycle_witness:
  "(\<forall>k. phase_of default_approval_policy (ap_events (aw_repo sample_approved) k) =
        phase_of default_approval_policy (ap_events (aw_repo sample_pending) k)) \<or>
   (\<exists>k. phase_step (phase_of default_approval_policy (ap_events (aw_repo sample_pending) k))
          (phase_of default_approval_policy (ap_events (aw_repo sample_approved) k)))"
proof -
  have "approval_step default_approval_policy sample_pending sample_approved"
    unfolding sample_approved_def by (rule approval_stepI) (simp_all add: sample_pending_fresh)
  from approval_refines_lifecycle [OF default_policy_valid sample_pending_reachable this] show ?thesis
    by blast
qed

text \<open>
  A pending checkpoint can be approved: whenever a checkpoint is pending in a reachable state,
  an independent actor of its project who has not decided before and holds a required role gets a
  decision back from \<^verbatim>\<open>decide\<close> with the outcome asked for, under a new identifier, with an active span,
  before expiry and with a reason of legal length; and if the rule does not require all roles and the
  outcome is an approval, a following \<^verbatim>\<open>resume\<close> under another new identifier returns the grant.
\<close>

theorem approval_completes:
  assumes "reaches approval_start (approval_step (en_policy env)) w" "span_active env" "fresh_draw env w"
    and "candidate_in (ap_events (aw_repo w) (project_key scope, a)) = Some c"
    and "state_of (en_policy env) c (decisions_in (ap_events (aw_repo w) (project_key scope, a))) = ST_PENDING"
    and "\<forall>n. en_clock env n < dt_us (ac_expires_at c)"
    and "actor_scope_ok c actor" "actor_id actor \<noteq> ts_user_id (ac_scope c)"
    and "\<forall>d \<in> set (decisions_in (ap_events (aw_repo w) (project_key scope, a))). ar_actor_id (dc_approval d) \<noteq> actor_id actor"
    and "role \<in> actor_roles actor" "role \<in> rule_required_roles (pol_rules (en_policy env) (ac_kind c))" "text_len 1 128 role"
    and "res \<in> {APPROVED, REJECTED, CHANGES_REQUESTED}" "text_len 1 4000 reason" "ap_by_id (aw_repo w) u = None"
  shows "\<exists>d w1. decide env u scope a (ac_candidate_sha256 c) actor res reason (Some role) w = (Inr d, w1) \<and>
    ar_outcome (dc_approval d) = res \<and>
    (res = APPROVED \<longrightarrow> \<not> rule_require_all_roles (pol_rules (en_policy env) (ac_kind c)) \<longrightarrow>
      (\<forall>env' u'. en_policy env' = en_policy env \<longrightarrow> span_active env' \<longrightarrow> fresh_draw env' w1 \<longrightarrow> ap_by_id (aw_repo w1) u' = None \<longrightarrow>
        (\<exists>g w2. resume env' u' scope a (ac_candidate_sha256 c) w1 = (Inr g, w2) \<and> gr_candidate_sha256 g = ac_candidate_sha256 c)))"
proof -
  define es where "es = ap_events (aw_repo w) (project_key scope, a)"
  have inv: "approval_inv (en_policy env) w" by (rule approval.reachable_inv [OF assms(1)])
  then have ok: "repo_ok (en_policy env) (aw_repo w)" by (simp add: approval_inv_def)
  have c: "candidate_in es = Some c" using assms(4) by (simp add: es_def)
  have "wp (decide env u scope a (ac_candidate_sha256 c) actor res reason (Some role))
    (\<lambda>d w1. \<exists>e now. d = decision_for c u (actor_id actor) role res reason now \<and> ev_payload e = PDecision d \<and>
       ap_events (aw_repo w1) (project_key scope, a) = es @ [e]) (\<lambda>_ _. False) w"
    by (rule decide_total [OF ok assms(2,3) es_def c]) (use assms in \<open>auto simp: es_def\<close>)
  then obtain e now w1 where run: "decide env u scope a (ac_candidate_sha256 c) actor res reason (Some role) w =
      (Inr (decision_for c u (actor_id actor) role res reason now), w1)"
    and e: "ev_payload e = PDecision (decision_for c u (actor_id actor) role res reason now)"
    and w1: "ap_events (aw_repo w1) (project_key scope, a) = es @ [e]"
    by (auto simp: wp_def split: prod.splits sum.splits)
  have "approval_step (en_policy env) w w1"
    using approval_stepI [OF refl assms(3), of "DecideCall u scope a (ac_candidate_sha256 c) actor res reason (Some role)"] run
    by (simp add: final_def voidP_def bindP_def)
  then have ok1: "repo_ok (en_policy env) (aw_repo w1)"
    using approval.step_inv [OF inv] by (simp add: approval_inv_def)
  have pend: "state_of (en_policy env) c (decisions_in es) = ST_PENDING" using assms(5) by (simp add: es_def)
  have c1: "candidate_in (es @ [e]) = Some c" using c candidate_in_nonempty [OF c] by simp
  have "\<exists>g w2. resume env' u' scope a (ac_candidate_sha256 c) w1 = (Inr g, w2) \<and> gr_candidate_sha256 g = ac_candidate_sha256 c"
    if "res = APPROVED" "\<not> rule_require_all_roles (pol_rules (en_policy env) (ac_kind c))" "en_policy env' = en_policy env"
      "span_active env'" "fresh_draw env' w1" "ap_by_id (aw_repo w1) u' = None" for env' u'
  proof -
    have none: "first_terminal (decisions_in es) = None"
      by (rule pending_first_terminal [OF pend])
    have st: "state_of (en_policy env) c (decisions_in (es @ [e])) = ST_APPROVED"
      using none that(1,2) assms(11) by (auto simp: state_approved e first_terminal_None quorum_def)
    have "grants_in (es @ [e]) = []"
      using pending_no_grant [OF repo_okD(2) [OF ok], of "(project_key scope, a)" c] c pend by (simp add: e es_def)
    then have "wp (resume env' u' scope a (ac_candidate_sha256 c)) (\<lambda>g _. gr_candidate_sha256 g = ac_candidate_sha256 c) (\<lambda>_ _. False) w1"
      by (intro resume_total [where es = "es @ [e]" and c = c]) (use that ok1 w1 c1 st in \<open>auto simp: e new_grant_def\<close>)
    then show ?thesis by (auto simp: wp_def split: prod.splits sum.splits)
  qed
  with run show ?thesis by auto
qed

theorem approval_completes_witness:
  "\<exists>d w1. decide sample_approval_env 21 sample_scope 20 zero_sha256 sample_approver APPROVED ''ok'' (Some ''QUALIFIED_APPROVER'')
     sample_pending = (Inr d, w1) \<and> ar_outcome (dc_approval d) = APPROVED"
proof -
  obtain e where e: "ap_events (aw_repo sample_pending) sample_key = [e]" "candidate_in [e] = Some sample_candidate"
    "decisions_in [e] = []" "ap_by_id (aw_repo sample_pending) = (ap_by_id (aw_repo new_world))(20 \<mapsto> e)"
    using sample_pending_facts by blast
  have r: "reaches approval_start (approval_step (en_policy sample_approval_env)) sample_pending"
    by (simp add: sample_pending_reachable)
  have a: "actor_scope_ok sample_candidate sample_approver" "actor_id sample_approver = 4"
      "''QUALIFIED_APPROVER'' \<in> actor_roles sample_approver" "ts_user_id sample_scope = 3"
    by (simp_all add: actor_scope_ok_def sample_approver_def actor_id_def actor_roles_def project_key_def sample_scope_def)
  show ?thesis
    using approval_completes [OF r sample_env_simps(2) sample_pending_fresh, of sample_scope 20 sample_candidate sample_approver
        "''QUALIFIED_APPROVER''" APPROVED "''ok''" 21]
    by (auto simp: e a state_initial default_policy_valid dt_us_def utc_def mk_rule_def text_len_def)
qed

text \<open>
  Retrying a recorded decision is harmless: calling \<^verbatim>\<open>decide\<close> again, at any later moment and even
  after the checkpoint became terminal, with the identifier, actor, outcome, reason and content hash
  of a human decision already in the journal, and with its role or none, returns that decision and
  changes nothing at all.
\<close>

theorem approval_decision_replay:
  assumes "reaches approval_start (approval_step (en_policy env)) w"
    and "e \<in> set (ap_events (aw_repo w) (project_key scope, a))" "ev_type e = EV_DECISION" "ev_payload e = PDecision d" "human d"
    and "ar_actor_id (dc_approval d) = actor_id actor" "role \<in> {None, Some (dc_actor_role d)}"
  shows "decide env (ev_event_id e) scope a (ar_target_sha256 (dc_approval d)) actor (ar_outcome (dc_approval d))
    (ar_reason (dc_approval d)) role w = (Inr d, w)"
proof -
  have ok: "repo_ok (en_policy env) (aw_repo w)"
    using approval.reachable_inv [OF assms(1)] by (simp add: approval_inv_def)
  let ?es = "ap_events (aw_repo w) (project_key scope, a)"
  have j: "journal_ok (en_policy env) (project_key scope, a) ?es" by (rule repo_okD(2) [OF ok])
  have "?es \<noteq> []" using assms(2) by auto
  then obtain c where c: "candidate_in ?es = Some c" "ac_approval_id c = a" using journal_candidate [OF j] by auto
  have mem: "d \<in> set (decisions_in ?es)"
    using assms(2,4) by (auto simp: decisions_in_def map_filter_def intro!: image_eqI [of _ _ e])
  with journal_decisions [OF j c(1)] have "bound_to c d" by blast
  then have id: "ar_approval_id (dc_approval d) = a"
    unfolding bound_to_def Let_def by (metis approval_record.select_convs(1) approval_record_for_def c(2))
  have "PDecision d \<in> set (payloads_of EV_DECISION ?es)"
    using assms(2-4) by (force simp: payloads_of_def)
  moreover have "map_sum_list as_decision ps = Inr ds \<Longrightarrow> PDecision d \<in> set ps \<Longrightarrow> valid_decision d" for ps ds
    by (induction ps arbitrary: ds) (auto split: sum.splits if_splits)
  ultimately have valid: "valid_decision d" using journal_reads [OF j] by blast
  have get: "repo_get (aw_repo w) scope (ev_event_id e) = Inr (Some e)"
    using repo_okD(3,4) [OF ok assms(2)] by (simp add: repo_get_def event_key_def)
  have res: "ar_outcome (dc_approval d) = APPROVED \<or> ar_outcome (dc_approval d) = REJECTED \<or> ar_outcome (dc_approval d) = CHANGES_REQUESTED"
    using assms(5) by (simp add: human_def)
  have "wp (decide env (ev_event_id e) scope a (ar_target_sha256 (dc_approval d)) actor (ar_outcome (dc_approval d))
      (ar_reason (dc_approval d)) role) (\<lambda>x w'. x = d \<and> w' = w) (\<lambda>_ _. False) w"
    unfolding decide_def wp_bindP wp_status [OF ok] wp_journal_get
    using c(1) res assms(7) valid
    by (auto simp: wp_simps get Let_def stored_decision_def assms(4) decision_request_def id assms(6))
  then show ?thesis by (auto simp: wp_def split: prod.splits sum.splits)
qed

theorem approval_decision_replay_witness:
  "\<exists>(e :: approval_event) now. decide sample_approval_env (ev_event_id e) sample_scope 20 zero_sha256 sample_approver APPROVED ''ok'' None sample_approved =
     (Inr (decision_for sample_candidate 21 4 ''QUALIFIED_APPROVER'' APPROVED ''ok'' now), sample_approved)"
proof -
  obtain e now where e: "ap_events (aw_repo sample_approved) sample_key = ap_events (aw_repo sample_pending) sample_key @ [e]"
    "ev_payload e = PDecision (decision_for sample_candidate 21 4 ''QUALIFIED_APPROVER'' APPROVED ''ok'' now)"
    using sample_approved_facts by blast
  let ?d = "decision_for sample_candidate 21 4 ''QUALIFIED_APPROVER'' APPROVED ''ok'' now"
  have r: "reaches approval_start (approval_step (en_policy sample_approval_env)) sample_approved"
    by (simp add: sample_approved_reachable)
  have j: "journal_ok default_approval_policy sample_key (ap_events (aw_repo sample_pending) sample_key @ [e])"
    using approval.reachable_inv [OF sample_approved_reachable] repo_okD(2) [of default_approval_policy "aw_repo sample_approved" sample_key] e(1)
    by (simp add: approval_inv_def)
  then have ty: "ev_type e = EV_DECISION"
    by (cases rule: journal_snocE) (use e(2) in \<open>auto elim!: admissible_cases\<close>)
  have m: "e \<in> set (ap_events (aw_repo sample_approved) sample_key)" by (simp add: e)
  have "ar_target_sha256 (dc_approval ?d) = zero_sha256" "ar_reason (dc_approval ?d) = ''ok''" "actor_id sample_approver = 4"
    by (simp_all add: decision_for_def approval_record_for_def actor_id_def sample_approver_def)
  then have "decide sample_approval_env (ev_event_id e) sample_scope 20 zero_sha256 sample_approver APPROVED ''ok'' None sample_approved =
      (Inr ?d, sample_approved)"
    using approval_decision_replay [OF r m ty e(2), of sample_approver None] by (simp add: human_def)
  then show ?thesis by blast
qed

end
