(* ===== verification/Routing.thy ===== *)
theory Routing
  imports Contracts
begin

section \<open>Rules-first routing\<close>

text \<open>
  The route, dispatch and transition contracts of \<^verbatim>\<open>orchestration/models.py\<close> and the router of
  \<^verbatim>\<open>orchestration/routing.py\<close>. \<^verbatim>\<open>_validate_acyclic\<close> removes, round by round, the assignments that
  wait for nothing that remains; it is a terminating recursion on the remaining dict, and
  \<open>validate_acyclic_iff\<close> shows that it accepts exactly the assignments whose dependency
  relation is acyclic.
\<close>

subsection \<open>Contracts\<close>

datatype route_kind =
    GENERAL_SYNC
  | ONE_PROFESSIONAL_SYNC_REVIEW
  | ONE_PROFESSIONAL_ASYNC_REVIEW
  | MULTIPLE_INDEPENDENT_ASYNC_REVIEW
  | MULTIPLE_DEPENDENT_ASYNC_REVIEW
  | HUMAN_REQUIRED

record professional_assignment =
  pa_assignment_id :: string
  pa_agent_type :: string
  pa_depends_on :: "string list"

text \<open>The pattern \<^verbatim>\<open>^[a-z][a-z0-9_-]*$\<close>, at most 128 characters.\<close>

definition agent_name :: "string \<Rightarrow> bool" where
  "agent_name s = (text_len 1 128 s \<and>
     head_tail is_lower (\<lambda>c. is_lower c \<or> is_decimal c \<or> c \<in> set ''_-'') (length s) s)"

definition valid_assignment :: "professional_assignment \<Rightarrow> bool" where
  "valid_assignment a = (agent_name (pa_assignment_id a) \<and> agent_name (pa_agent_type a) \<and>
     length (pa_depends_on a) \<le> 4)"

record route_signals =
  rs_task_id :: uuid
  rs_general_eligible :: bool
  rs_professional_assignments :: "professional_assignment list"
  rs_human_required :: bool
  rs_asynchronous_required :: bool

definition validate_shape :: "route_signals \<Rightarrow> bool" where
  "validate_shape s = (let as = rs_professional_assignments s; ids = map pa_assignment_id as in
     distinct ids \<and>
     \<not> (rs_general_eligible s \<and> (as \<noteq> [] \<or> rs_human_required s)) \<and>
     \<not> (rs_general_eligible s \<and> rs_asynchronous_required s) \<and>
     \<not> (\<not> rs_general_eligible s \<and> as = []) \<and>
     \<not> (rs_human_required s \<and> as = []) \<and>
     \<not> (rs_human_required s \<and> rs_asynchronous_required s) \<and>
     list_all (\<lambda>a. pa_assignment_id a \<notin> set (pa_depends_on a) \<and> set (pa_depends_on a) \<subseteq> set ids) as)"

definition valid_signals :: "route_signals \<Rightarrow> bool" where
  "valid_signals s = (list_all valid_assignment (rs_professional_assignments s) \<and>
     length (rs_professional_assignments s) \<le> 4 \<and> validate_shape s)"

record route_decision =
  rd_task_id :: uuid
  rd_route :: route_kind
  rd_rule_id :: string
  rd_target_agents :: "string list"
  rd_asynchronous :: bool
  rd_review_required :: bool
  rd_human_required :: bool

definition valid_route_decision :: "route_decision \<Rightarrow> bool" where
  "valid_route_decision d = text_len 1 128 (rd_rule_id d)"

record routing_error =
  re_code :: string
  re_message :: string
  re_next_action :: string

subsection \<open>The router\<close>

text \<open>A dict from identifiers to sets of identifiers, in insertion order: writing a key that is
  already there keeps its place.\<close>

type_synonym dependencies = "(string \<times> string list) list"

definition dependencies_of :: "professional_assignment list \<Rightarrow> dependencies" where
  "dependencies_of as = foldl (\<lambda>d a. AList.update (pa_assignment_id a) (pa_depends_on a) d) [] as"

definition ready_names :: "dependencies \<Rightarrow> string list" where
  "ready_names remaining =
     map fst (filter (\<lambda>(name, needs). set needs \<inter> set (map fst remaining) = {}) remaining)"

definition cycle_error :: routing_error where
  "cycle_error =
     \<lparr>re_code = ''ROUTE_DEPENDENCY_CYCLE'',
      re_message = ''Professional assignment dependencies contain a cycle.'',
      re_next_action = ''Remove the cycle and submit explicit task dependencies again.''\<rparr>"

function remove_ready :: "dependencies \<Rightarrow> routing_error + unit" where
  "remove_ready remaining =
     (if remaining = [] then Inr ()
      else let ready = ready_names remaining in
        if ready = [] then Inl cycle_error
        else remove_ready (filter (\<lambda>(name, needs). name \<notin> set ready) remaining))"
  by pat_completeness auto

lemma ready_names_keys: "set (ready_names rem) \<subseteq> set (map fst rem)"
  by (auto simp: ready_names_def)

text \<open>Every round deletes at least one key.\<close>

lemma remaining_decreases:
  "ready_names rem \<noteq> [] \<Longrightarrow>
   length (filter (\<lambda>(name, needs). name \<notin> set (ready_names rem)) rem) < length rem"
proof -
  assume "ready_names rem \<noteq> []"
  then obtain n where n: "n \<in> set (ready_names rem)"
    by (cases "ready_names rem") auto
  with ready_names_keys obtain needs where "(n, needs) \<in> set rem"
    by fastforce
  with n show ?thesis
    by (intro length_filter_less) auto
qed

termination remove_ready
  by (relation "measure length") (auto simp: remaining_decreases)

declare remove_ready.simps [simp del]

definition validate_acyclic :: "professional_assignment list \<Rightarrow> routing_error + unit" where
  "validate_acyclic as = remove_ready (dependencies_of as)"

definition route :: "route_signals \<Rightarrow> routing_error + route_decision" where
  "route s = (let as = rs_professional_assignments s; targets = map pa_agent_type as in
     case validate_acyclic as of Inl e \<Rightarrow> Inl e | Inr _ \<Rightarrow> Inr (
       if rs_general_eligible s then
         \<lparr>rd_task_id = rs_task_id s, rd_route = GENERAL_SYNC, rd_rule_id = ''route.general.explicit.v1'',
          rd_target_agents = [''general''], rd_asynchronous = False, rd_review_required = False,
          rd_human_required = False\<rparr>
       else if rs_human_required s then
         \<lparr>rd_task_id = rs_task_id s, rd_route = HUMAN_REQUIRED, rd_rule_id = ''route.human.explicit.v1'',
          rd_target_agents = targets, rd_asynchronous = False, rd_review_required = True,
          rd_human_required = True\<rparr>
       else if length as = 1 then
         \<lparr>rd_task_id = rs_task_id s,
          rd_route = (if rs_asynchronous_required s then ONE_PROFESSIONAL_ASYNC_REVIEW
                      else ONE_PROFESSIONAL_SYNC_REVIEW),
          rd_rule_id = (if rs_asynchronous_required s then ''route.professional.single-async.v1''
                        else ''route.professional.single.v1''),
          rd_target_agents = targets, rd_asynchronous = rs_asynchronous_required s,
          rd_review_required = True, rd_human_required = False\<rparr>
       else let dependent = list_ex (\<lambda>a. pa_depends_on a \<noteq> []) as in
         \<lparr>rd_task_id = rs_task_id s,
          rd_route = (if dependent then MULTIPLE_DEPENDENT_ASYNC_REVIEW
                      else MULTIPLE_INDEPENDENT_ASYNC_REVIEW),
          rd_rule_id = (if dependent then ''route.professional.multiple-dependent.v1''
                        else ''route.professional.multiple-independent.v1''),
          rd_target_agents = targets, rd_asynchronous = True, rd_review_required = True,
          rd_human_required = False\<rparr>))"

subsection \<open>The loop decides acyclicity\<close>

text \<open>The dependency relation among what remains: \<open>(m, n)\<close> when \<open>n\<close> waits for \<open>m\<close>.\<close>

definition waits :: "dependencies \<Rightarrow> (string \<times> string) set" where
  "waits rem = {(m, n). m \<in> fst ` set rem \<and> (\<exists>needs. (n, needs) \<in> set rem \<and> m \<in> set needs)}"

lemma finite_waits [simp]: "finite (waits rem)"
proof (rule finite_subset)
  show "waits rem \<subseteq> fst ` set rem \<times> fst ` set rem"
    by (force simp: waits_def)
qed simp

lemma ready_has_no_predecessor:
  assumes "distinct (map fst rem)" "n \<in> set (ready_names rem)"
  shows "(m, n) \<notin> waits rem"
proof
  assume "(m, n) \<in> waits rem"
  then obtain needs where needs: "m \<in> fst ` set rem" "(n, needs) \<in> set rem" "m \<in> set needs"
    by (auto simp: waits_def)
  obtain needs' where ready: "(n, needs') \<in> set rem" "set needs' \<inter> set (map fst rem) = {}"
    using assms(2) by (auto simp: ready_names_def)
  have "needs = needs'"
    using assms(1) needs(2) ready(1) by (rule eq_key_imp_eq_value)
  with needs ready show False
    by auto
qed

lemma waits_filter:
  "waits (filter (\<lambda>(name, needs). name \<notin> S) rem) = {(m, n). (m, n) \<in> waits rem \<and> m \<notin> S \<and> n \<notin> S}"
  by (force simp: waits_def)

text \<open>Deleting nodes without predecessors neither makes nor breaks a cycle.\<close>

lemma trancl_avoiding_sources:
  assumes "(x, y) \<in> R\<^sup>+" "\<And>m n. n \<in> S \<Longrightarrow> (m, n) \<notin> R" "x \<notin> S"
  shows "(x, y) \<in> {(m, n). (m, n) \<in> R \<and> m \<notin> S \<and> n \<notin> S}\<^sup>+ \<and> y \<notin> S"
  using assms(1)
proof (induction rule: trancl_induct)
  case (base y)
  then show ?case
    using assms(2,3) by blast
next
  case (step y z)
  then have "(y, z) \<in> {(m, n). (m, n) \<in> R \<and> m \<notin> S \<and> n \<notin> S}"
    using assms(2) by blast
  with step.IH show ?case
    by (auto intro: trancl_into_trancl)
qed

lemma acyclic_without_sources:
  assumes "\<And>m n. n \<in> S \<Longrightarrow> (m, n) \<notin> R"
  shows "acyclic {(m, n). (m, n) \<in> R \<and> m \<notin> S \<and> n \<notin> S} \<longleftrightarrow> acyclic R"
proof
  assume ac: "acyclic {(m, n). (m, n) \<in> R \<and> m \<notin> S \<and> n \<notin> S}"
  show "acyclic R"
  proof (rule acyclicI, intro allI notI)
    fix x assume cycle: "(x, x) \<in> R\<^sup>+"
    then have "x \<notin> S"
      using assms by (metis tranclD2)
    from trancl_avoiding_sources [OF cycle assms this] ac show False
      by (auto simp: acyclic_def)
  qed
qed (blast intro: acyclic_subset)

text \<open>When nothing is ready every remaining assignment waits for another one.\<close>

lemma stuck_is_cyclic:
  assumes "rem \<noteq> []" "ready_names rem = []"
  shows "\<not> acyclic (waits rem)"
proof
  assume "acyclic (waits rem)"
  then have "wf (waits rem)"
    by (rule finite_acyclic_wf [OF finite_waits])
  moreover have "fst (hd rem) \<in> fst ` set rem"
    using assms(1) by simp
  ultimately obtain z where z: "z \<in> fst ` set rem" "\<And>y. (y, z) \<in> waits rem \<Longrightarrow> y \<notin> fst ` set rem"
    by (rule wfE_min) blast
  then obtain needs where needs: "(z, needs) \<in> set rem"
    by auto
  have "set needs \<inter> set (map fst rem) \<noteq> {}"
    using assms(2) needs by (force simp: ready_names_def filter_empty_conv)
  then obtain y where "y \<in> set needs" "y \<in> fst ` set rem"
    by auto
  then have "(y, z) \<in> waits rem"
    using needs by (auto simp: waits_def)
  with z \<open>y \<in> fst ` set rem\<close> show False
    by blast
qed

lemma remove_ready_iff:
  "distinct (map fst rem) \<Longrightarrow> remove_ready rem = (if acyclic (waits rem) then Inr () else Inl cycle_error)"
proof (induction rem rule: remove_ready.induct)
  case (1 rem)
  let ?rest = "filter (\<lambda>(name, needs). name \<notin> set (ready_names rem)) rem"
  consider (empty) "rem = []" | (stuck) "rem \<noteq> []" "ready_names rem = []"
    | (round) "rem \<noteq> []" "ready_names rem \<noteq> []"
    by blast
  then show ?case
  proof cases
    case empty
    then show ?thesis
      by (simp add: remove_ready.simps waits_def acyclic_def)
  next
    case stuck
    then show ?thesis
      by (simp add: remove_ready.simps stuck_is_cyclic)
  next
    case round
    have "remove_ready rem = remove_ready ?rest"
      using round by (subst remove_ready.simps) (simp add: Let_def)
    also have "\<dots> = (if acyclic (waits ?rest) then Inr () else Inl cycle_error)"
      using "1.prems" by (intro "1.IH") (simp_all add: round distinct_map_filter)
    also have "acyclic (waits ?rest) \<longleftrightarrow> acyclic (waits rem)"
      unfolding waits_filter
      by (rule acyclic_without_sources) (rule ready_has_no_predecessor [OF "1.prems"])
    finally show ?thesis .
  qed
qed

text \<open>For assignments with distinct identifiers, the dict is the list of assignments.\<close>

lemma dependencies_of_snoc:
  "dependencies_of (as @ [a]) = AList.update (pa_assignment_id a) (pa_depends_on a) (dependencies_of as)"
  by (simp add: dependencies_of_def)

lemma distinct_dependencies_of [simp]: "distinct (map fst (dependencies_of as))"
  by (induction as rule: rev_induct)
    (simp_all add: dependencies_of_snoc distinct_update, simp add: dependencies_of_def)

lemma update_fresh: "k \<notin> fst ` set al \<Longrightarrow> AList.update k v al = al @ [(k, v)]"
  by (induction al) auto

lemma dependencies_of_distinct:
  "distinct (map pa_assignment_id as) \<Longrightarrow>
   dependencies_of as = map (\<lambda>a. (pa_assignment_id a, pa_depends_on a)) as"
proof (induction as rule: rev_induct)
  case Nil
  then show ?case by (simp add: dependencies_of_def)
next
  case (snoc a as)
  then show ?case
    by (subst dependencies_of_snoc, subst snoc.IH) (auto simp: image_image intro!: update_fresh)
qed

text \<open>The dependency relation of a list of assignments: \<open>(m, n)\<close> when assignment \<open>n\<close> depends on
  assignment \<open>m\<close>.\<close>

definition depends :: "professional_assignment list \<Rightarrow> (string \<times> string) set" where
  "depends as = {(m, n). m \<in> pa_assignment_id ` set as \<and>
     (\<exists>a \<in> set as. pa_assignment_id a = n \<and> m \<in> set (pa_depends_on a))}"

lemma waits_dependencies_of:
  "distinct (map pa_assignment_id as) \<Longrightarrow> waits (dependencies_of as) = depends as"
  by (auto simp: dependencies_of_distinct waits_def depends_def image_image)

lemma validate_acyclic_iff:
  "distinct (map pa_assignment_id as) \<Longrightarrow>
   validate_acyclic as = (if acyclic (depends as) then Inr () else Inl cycle_error)"
  by (simp add: validate_acyclic_def remove_ready_iff waits_dependencies_of)

text \<open>An acyclic dependency relation is one that the assignments can be run by: some order of them
  puts every assignment after all it depends on.\<close>

definition runs_in_order :: "professional_assignment list \<Rightarrow> bool" where
  "runs_in_order as = (\<forall>i < length as. \<forall>j < length as.
     pa_assignment_id (as ! j) \<in> set (pa_depends_on (as ! i)) \<longrightarrow> j < i)"

lemma runs_in_order_Cons:
  "runs_in_order (a # as) \<longleftrightarrow> runs_in_order as \<and>
     (\<forall>b \<in> set (a # as). pa_assignment_id b \<notin> set (pa_depends_on a))"
  by (simp add: runs_in_order_def All_less_Suc2 all_set_conv_all_nth conj_ac)

lemma depends_mono: "set as \<subseteq> set bs \<Longrightarrow> depends as \<subseteq> depends bs"
  unfolding depends_def by blast

lemma finite_depends [simp]: "finite (depends as)"
proof (rule finite_subset)
  show "depends as \<subseteq> pa_assignment_id ` set as \<times> pa_assignment_id ` set as"
    by (force simp: depends_def)
qed simp

lemma acyclic_gives_order: "acyclic (depends as) \<Longrightarrow> \<exists>bs. mset bs = mset as \<and> runs_in_order bs"
proof (induction "length as" arbitrary: as)
  case 0
  then show ?case by (simp add: runs_in_order_def)
next
  case (Suc n)
  have "pa_assignment_id (hd as) \<in> pa_assignment_id ` set as"
    using Suc.hyps(2) by (cases as) auto
  then obtain z where z: "z \<in> pa_assignment_id ` set as" "\<And>y. (y, z) \<in> depends as \<Longrightarrow> y \<notin> pa_assignment_id ` set as"
    by (rule wfE_min [OF finite_acyclic_wf [OF finite_depends Suc.prems]]) blast
  then obtain a where a: "a \<in> set as" "\<forall>b \<in> set as. pa_assignment_id b \<notin> set (pa_depends_on a)"
    unfolding depends_def by force
  have rest: "set (remove1 a as) \<subseteq> set as"
    by (rule set_remove1_subset)
  have "n = length (remove1 a as)"
    using a Suc.hyps(2) by (simp add: length_remove1)
  then obtain bs where bs: "mset bs = mset (remove1 a as)" "runs_in_order bs"
    using Suc.hyps(1) Suc.prems depends_mono [OF rest] by (metis acyclic_subset)
  have same: "mset (a # bs) = mset as"
    using a(1) bs(1) by simp
  moreover have "set (a # bs) = set as"
    using same by (rule mset_eq_setD)
  ultimately show ?case
    using bs(2) a(2) runs_in_order_Cons [of a bs] by metis
qed

lemma order_gives_acyclic:
  assumes "runs_in_order as" "distinct (map pa_assignment_id as)"
  shows "acyclic (depends as)"
proof -
  obtain pos where pos: "\<And>i. i < length as \<Longrightarrow> pos (pa_assignment_id (as ! i)) = i"
  proof
    fix i assume "i < length as"
    then show "the_inv_into {..<length as} (\<lambda>i. pa_assignment_id (as ! i)) (pa_assignment_id (as ! i)) = i"
      using assms(2) by (intro the_inv_into_f_f [where f = "\<lambda>i. pa_assignment_id (as ! i)"])
        (auto simp: inj_on_def distinct_conv_nth)
  qed
  have "depends as \<subseteq> inv_image less_than pos"
    using assms(1) pos unfolding depends_def runs_in_order_def by (fastforce simp: in_set_conv_nth)
  then show ?thesis
    by (rule acyclic_subset [OF wf_acyclic [OF wf_inv_image [OF wf_less_than]]])
qed

lemma acyclic_iff_order:
  assumes "distinct (map pa_assignment_id as)"
  shows "acyclic (depends as) \<longleftrightarrow> (\<exists>bs. mset bs = mset as \<and> runs_in_order bs)"
proof
  assume "\<exists>bs. mset bs = mset as \<and> runs_in_order bs"
  then obtain bs where bs: "mset bs = mset as" "runs_in_order bs"
    by blast
  then have "distinct (map pa_assignment_id bs)" "set bs = set as"
    using assms by (metis mset_map mset_eq_imp_distinct_iff, metis mset_eq_setD)
  then show "acyclic (depends as)"
    using order_gives_acyclic [OF bs(2)] by (simp add: depends_def)
qed (rule acyclic_gives_order)

lemma valid_signals_distinct:
  "valid_signals s \<Longrightarrow> distinct (map pa_assignment_id (rs_professional_assignments s))"
  by (simp add: valid_signals_def validate_shape_def Let_def)

lemma route_cases:
  "route s = (case validate_acyclic (rs_professional_assignments s) of Inl e \<Rightarrow> Inl e
     | Inr _ \<Rightarrow> Inr (projr (route s)))"
  by (simp add: route_def Let_def split: sum.split)

lemma route_error_iff:
  assumes "valid_signals s"
  shows "(\<exists>e. route s = Inl e) \<longleftrightarrow> \<not> acyclic (depends (rs_professional_assignments s))"
    and "route s = Inl e \<Longrightarrow> e = cycle_error"
  using validate_acyclic_iff [OF valid_signals_distinct [OF assms]]
  by (auto simp: route_def Let_def split: if_splits)

end
