(* ===== verification/MainGraph.thy ===== *)
theory MainGraph
  imports Routing
begin

section \<open>The Main Graph\<close>

text \<open>
  \<^verbatim>\<open>orchestration/main_graph.py\<close>: Observe, Plan, Act, Verify, ending in a dispatch plan or a typed
  failure. The router is a constructor argument of \<^verbatim>\<open>MainGraph\<close>, so it is an argument of
  \<open>run\<close>; locale \<open>graph_router\<close> is what the graph relies on, interpreted on the rules-first
  router. Every returned model is validated on construction: \<open>mk_result\<close> returns \<open>None\<close> where
  pydantic raises, and \<open>main_graph_total\<close> shows that this never happens. The fields of
  \<^verbatim>\<open>TaskContext\<close> other than \<^verbatim>\<open>task_id\<close> are not read by the graph; pydantic's reading of the
  untrusted payload into fields (\<^verbatim>\<open>RouteSignals.model_validate\<close> before the validators run) is the
  parameter \<open>read_fields\<close>.
\<close>

subsection \<open>Data\<close>

datatype main_graph_phase =
    PHASE_RECEIVED | PHASE_OBSERVE | PHASE_PLAN | PHASE_ACT | PHASE_VERIFY
  | PHASE_DISPATCH_READY | PHASE_BLOCKED | PHASE_FAILED

record dispatch_plan =
  dp_task_id :: uuid
  dp_route :: route_kind
  dp_general_agent :: bool
  dp_professional_assignments :: "professional_assignment list"
  dp_asynchronous :: bool
  dp_review_required :: bool
  dp_human_required :: bool

record graph_transition =
  gt_sequence :: int
  gt_source :: main_graph_phase
  gt_target :: main_graph_phase
  gt_event :: string

definition valid_transition :: "graph_transition \<Rightarrow> bool" where
  "valid_transition t = (1 \<le> gt_sequence t \<and> text_len 1 128 (gt_event t))"

datatype graph_status = STATUS_DISPATCH_READY | STATUS_BLOCKED | STATUS_FAILED

record main_graph_result =
  mg_task_id :: uuid
  mg_status :: graph_status
  mg_phase :: main_graph_phase
  mg_decision :: "route_decision option"
  mg_dispatch :: "dispatch_plan option"
  mg_transitions :: "graph_transition list"
  mg_error_code :: "string option"
  mg_next_action :: "string option"

definition validate_terminal_shape :: "main_graph_result \<Rightarrow> bool" where
  "validate_terminal_shape r =
     (if mg_status r = STATUS_DISPATCH_READY
      then mg_decision r \<noteq> None \<and> mg_dispatch r \<noteq> None \<and> mg_error_code r = None
      else mg_error_code r \<noteq> None \<and> mg_next_action r \<noteq> None)"

definition valid_result :: "main_graph_result \<Rightarrow> bool" where
  "valid_result r = (opt_all valid_route_decision (mg_decision r) \<and>
     mg_transitions r \<noteq> [] \<and> list_all valid_transition (mg_transitions r) \<and>
     opt_all (\<lambda>c. length c \<le> 128) (mg_error_code r) \<and>
     opt_all (\<lambda>a. length a \<le> 1000) (mg_next_action r) \<and> validate_terminal_shape r)"

definition mk_result :: "main_graph_result \<Rightarrow> main_graph_result option" where
  "mk_result r = (if valid_result r then Some r else None)"

subsection \<open>The graph\<close>

definition move :: "graph_transition list \<Rightarrow> main_graph_phase \<Rightarrow> main_graph_phase \<Rightarrow> string \<Rightarrow> graph_transition list" where
  "move ts source target event =
     ts @ [\<lparr>gt_sequence = int (length ts) + 1, gt_source = source, gt_target = target, gt_event = event\<rparr>]"

type_synonym router = "route_signals \<Rightarrow> routing_error + route_decision"

definition dispatch_of :: "uuid \<Rightarrow> route_signals \<Rightarrow> route_decision \<Rightarrow> dispatch_plan" where
  "dispatch_of task s d =
     \<lparr>dp_task_id = task, dp_route = rd_route d, dp_general_agent = (rd_route d = GENERAL_SYNC),
      dp_professional_assignments = rs_professional_assignments s, dp_asynchronous = rd_asynchronous d,
      dp_review_required = rd_review_required d, dp_human_required = rd_human_required d\<rparr>"

definition run_graph :: "router \<Rightarrow> uuid \<Rightarrow> route_signals \<Rightarrow> main_graph_result option" where
  "run_graph router task s = (
     let t1 = move [] PHASE_RECEIVED PHASE_OBSERVE ''task_observed'' in
     if task \<noteq> rs_task_id s then
       mk_result \<lparr>mg_task_id = task, mg_status = STATUS_FAILED, mg_phase = PHASE_FAILED,
         mg_decision = None, mg_dispatch = None,
         mg_transitions = move t1 PHASE_OBSERVE PHASE_FAILED ''task_identity_mismatch'',
         mg_error_code = Some ''ROUTE_TASK_MISMATCH'',
         mg_next_action = Some ''Rebuild route signals for the active task ID.''\<rparr>
     else let t2 = move t1 PHASE_OBSERVE PHASE_PLAN ''rules_route_started'' in
     case router s of
       Inl e \<Rightarrow>
         mk_result \<lparr>mg_task_id = task, mg_status = STATUS_BLOCKED, mg_phase = PHASE_BLOCKED,
           mg_decision = None, mg_dispatch = None,
           mg_transitions = move t2 PHASE_PLAN PHASE_BLOCKED ''rules_route_blocked'',
           mg_error_code = Some (re_code e), mg_next_action = Some (re_next_action e)\<rparr>
     | Inr d \<Rightarrow>
         let t3 = move t2 PHASE_PLAN PHASE_ACT ''dispatch_plan_created'';
             dispatch = dispatch_of task s d;
             t4 = move t3 PHASE_ACT PHASE_VERIFY ''topology_verification_started''
         in if dp_professional_assignments dispatch \<noteq> [] \<and> \<not> dp_review_required dispatch then
           mk_result \<lparr>mg_task_id = task, mg_status = STATUS_FAILED, mg_phase = PHASE_FAILED,
             mg_decision = Some d, mg_dispatch = None,
             mg_transitions = move t4 PHASE_VERIFY PHASE_FAILED ''review_invariant_failed'',
             mg_error_code = Some ''TOPOLOGY_REVIEW_REQUIRED'',
             mg_next_action = Some ''Require review for every professional dispatch.''\<rparr>
         else
           mk_result \<lparr>mg_task_id = task, mg_status = STATUS_DISPATCH_READY, mg_phase = PHASE_DISPATCH_READY,
             mg_decision = Some d, mg_dispatch = Some dispatch,
             mg_transitions = move t4 PHASE_VERIFY PHASE_DISPATCH_READY ''dispatch_verified'',
             mg_error_code = None, mg_next_action = None\<rparr>)"

definition signals_invalid :: "uuid \<Rightarrow> main_graph_result" where
  "signals_invalid task =
     \<lparr>mg_task_id = task, mg_status = STATUS_BLOCKED, mg_phase = PHASE_BLOCKED,
      mg_decision = None, mg_dispatch = None,
      mg_transitions = move (move [] PHASE_RECEIVED PHASE_OBSERVE ''task_observed'')
        PHASE_OBSERVE PHASE_BLOCKED ''route_signals_invalid'',
      mg_error_code = Some ''ROUTE_SIGNALS_INVALID'',
      mg_next_action = Some ''Provide valid explicit route signals for the active task.''\<rparr>"

definition run_payload :: "router \<Rightarrow> ('p \<Rightarrow> route_signals option) \<Rightarrow> uuid \<Rightarrow> 'p \<Rightarrow> main_graph_result option" where
  "run_payload router read_fields task payload =
     (case read_fields payload of
        Some s \<Rightarrow> if valid_signals s then run_graph router task s else mk_result (signals_invalid task)
      | None \<Rightarrow> mk_result (signals_invalid task))"

subsection \<open>The phases as a state machine\<close>

text \<open>The moves the graph may make, and a run of them from \<^verbatim>\<open>RECEIVED\<close>: consecutive, numbered from 1.\<close>

inductive graph_step :: "main_graph_phase \<Rightarrow> main_graph_phase \<Rightarrow> bool" where
  observe: "graph_step PHASE_RECEIVED PHASE_OBSERVE"
| plan: "graph_step PHASE_OBSERVE PHASE_PLAN"
| act: "graph_step PHASE_PLAN PHASE_ACT"
| verify: "graph_step PHASE_ACT PHASE_VERIFY"
| ready: "graph_step PHASE_VERIFY PHASE_DISPATCH_READY"
| mismatch: "graph_step PHASE_OBSERVE PHASE_FAILED"
| invalid: "graph_step PHASE_OBSERVE PHASE_BLOCKED"
| route_blocked: "graph_step PHASE_PLAN PHASE_BLOCKED"
| review_failed: "graph_step PHASE_VERIFY PHASE_FAILED"

inductive_cases graph_step_from_readyE: "graph_step PHASE_DISPATCH_READY p"
inductive_cases graph_step_from_blockedE: "graph_step PHASE_BLOCKED p"
inductive_cases graph_step_from_failedE: "graph_step PHASE_FAILED p"

inductive graph_run :: "graph_transition list \<Rightarrow> main_graph_phase \<Rightarrow> bool" where
  start: "graph_run [] PHASE_RECEIVED"
| step: "graph_run ts p \<Longrightarrow> graph_step p q \<Longrightarrow> graph_run (move ts p q event) q"

lemma graph_run_reaches: "graph_run ts p \<Longrightarrow> graph_step\<^sup>*\<^sup>* PHASE_RECEIVED p"
  by (induction rule: graph_run.induct) auto

lemma graph_run_sequence: "graph_run ts p \<Longrightarrow> map gt_sequence ts = map int [1..<Suc (length ts)]"
  by (induction rule: graph_run.induct) (simp_all add: move_def)

lemmas graph_runs = graph_run.step graph_run.start graph_step.intros

lemma mk_result_Some_iff [simp]: "mk_result r = Some r' \<longleftrightarrow> r' = r \<and> valid_result r"
  by (auto simp: mk_result_def)

lemma run_graph_follows_steps:
  "run_graph router task s = Some r \<Longrightarrow> graph_run (mg_transitions r) (mg_phase r)"
  by (auto simp: run_graph_def Let_def intro!: graph_runs split: if_splits sum.splits)

lemma run_payload_follows_steps:
  "run_payload router read_fields task p = Some r \<Longrightarrow> graph_run (mg_transitions r) (mg_phase r)"
  by (auto simp: run_payload_def signals_invalid_def intro!: graph_runs dest: run_graph_follows_steps split: if_splits option.splits)

subsection \<open>What the graph relies on\<close>

text \<open>A router answers with decisions and errors that fit the contracts, and asks for a review of
  every professional assignment.\<close>

locale graph_router =
  fixes router :: router
  assumes decision_valid: "valid_signals s \<Longrightarrow> router s = Inr d \<Longrightarrow> valid_route_decision d"
    and decision_reviewed:
      "valid_signals s \<Longrightarrow> router s = Inr d \<Longrightarrow> rs_professional_assignments s \<noteq> [] \<Longrightarrow> rd_review_required d"
    and error_fits: "valid_signals s \<Longrightarrow> router s = Inl e \<Longrightarrow> length (re_code e) \<le> 128 \<and> length (re_next_action e) \<le> 1000"
begin

lemma run_total: "valid_signals s \<Longrightarrow> \<exists>r. run_graph router task s = Some r"
  by (auto simp: run_graph_def Let_def mk_result_def valid_result_def validate_terminal_shape_def
      valid_transition_def move_def text_len_def dispatch_of_def
      dest: decision_valid error_fits decision_reviewed split: sum.split)

lemma run_ready_iff:
  assumes "valid_signals s"
  shows "(\<exists>r. run_graph router task s = Some r \<and> mg_status r = STATUS_DISPATCH_READY) \<longleftrightarrow>
    task = rs_task_id s \<and> (\<exists>d. router s = Inr d)"
  using run_total [OF assms, of task] decision_reviewed [OF assms]
  by (auto simp: run_graph_def Let_def dispatch_of_def split: sum.splits if_splits)

lemma run_payload_total: "\<exists>r. run_payload router read_fields task p = Some r"
  using run_total
  by (auto simp: run_payload_def signals_invalid_def mk_result_def valid_result_def validate_terminal_shape_def
      valid_transition_def move_def text_len_def split: option.split)

end

interpretation rules_router: graph_router route
proof
  show "valid_route_decision d" if "valid_signals s" "route s = Inr d" for s d
    using that by (auto simp: route_def Let_def valid_route_decision_def text_len_def split: sum.splits if_splits)
  show "rd_review_required d" if "valid_signals s" "route s = Inr d" "rs_professional_assignments s \<noteq> []" for s d
    using that by (auto simp: route_def Let_def valid_signals_def validate_shape_def split: sum.splits if_splits)
  show "length (re_code e) \<le> 128 \<and> length (re_next_action e) \<le> 1000" if "valid_signals s" "route s = Inl e" for s e
    using route_error_iff(2) [OF that] by (simp add: cycle_error_def)
qed

subsection \<open>The minimum topology\<close>

text \<open>The route a valid request calls for, in terms of the work it declares.\<close>

definition required_topology :: "route_signals \<Rightarrow> route_kind" where
  "required_topology s =
     (case rs_professional_assignments s of
        [] \<Rightarrow> GENERAL_SYNC
      | [a] \<Rightarrow> if rs_human_required s then HUMAN_REQUIRED
               else if rs_asynchronous_required s then ONE_PROFESSIONAL_ASYNC_REVIEW
               else ONE_PROFESSIONAL_SYNC_REVIEW
      | as \<Rightarrow> if rs_human_required s then HUMAN_REQUIRED
              else if \<forall>a \<in> set as. pa_depends_on a = [] then MULTIPLE_INDEPENDENT_ASYNC_REVIEW
              else MULTIPLE_DEPENDENT_ASYNC_REVIEW)"

lemma route_topology: "valid_signals s \<Longrightarrow> route s = Inr d \<Longrightarrow> rd_route d = required_topology s"
  by (auto simp: route_def Let_def required_topology_def valid_signals_def validate_shape_def list_ex_iff
      split: sum.splits if_splits list.splits)

subsection \<open>Sample requests\<close>

definition sample_assignment :: "string \<Rightarrow> string list \<Rightarrow> professional_assignment" where
  "sample_assignment n ds = \<lparr>pa_assignment_id = n, pa_agent_type = ''ultrasonic'', pa_depends_on = ds\<rparr>"

definition sample_signals :: "professional_assignment list \<Rightarrow> route_signals" where
  "sample_signals as = \<lparr>rs_task_id = 7, rs_general_eligible = False, rs_professional_assignments = as,
     rs_human_required = False, rs_asynchronous_required = False\<rparr>"

lemma sample_signals_valid:
  "valid_signals (sample_signals [sample_assignment ''scan'' [], sample_assignment ''report'' [''scan'']])"
  by (simp add: sample_signals_def sample_assignment_def valid_signals_def validate_shape_def
      valid_assignment_def agent_name_def text_len_def head_tail_def is_lower_def is_decimal_def Let_def)

subsection \<open>Properties\<close>

text \<open>(C10) The router decides schedulability: on valid signals it refuses exactly when no order
  of the assignments puts each of them after everything it depends on, and then with
  \<^verbatim>\<open>ROUTE_DEPENDENCY_CYCLE\<close>.\<close>

theorem route_refuses_iff_unschedulable:
  assumes "valid_signals s"
  shows "route s = Inl cycle_error \<longleftrightarrow>
    (\<nexists>order. mset order = mset (rs_professional_assignments s) \<and> runs_in_order order)"
  using route_error_iff [OF assms] acyclic_iff_order [OF valid_signals_distinct [OF assms]] by metis

theorem route_refuses_iff_unschedulable_witness:
  "route (sample_signals [sample_assignment ''scan'' [], sample_assignment ''report'' [''scan'']]) \<noteq> Inl cycle_error"
proof -
  have "runs_in_order [sample_assignment ''scan'' [], sample_assignment ''report'' [''scan'']]"
    by (simp add: runs_in_order_Cons sample_assignment_def) (simp add: runs_in_order_def)
  then show ?thesis
    using route_refuses_iff_unschedulable [OF sample_signals_valid] by (auto simp: sample_signals_def)
qed

text \<open>(C32) The Main Graph always answers, whatever the payload and however its fields are read, and
  the transitions of its answer are a run of the phase machine: numbered from 1, each leaving the
  phase the one before reached, from \<^verbatim>\<open>RECEIVED\<close> to the phase the answer reports.\<close>

theorem main_graph_total:
  "\<exists>r. run_payload route read_fields task payload = Some r \<and> valid_result r \<and>
     graph_run (mg_transitions r) (mg_phase r) \<and>
     map gt_sequence (mg_transitions r) = map int [1..<Suc (length (mg_transitions r))]"
proof -
  obtain r where r: "run_payload route read_fields task payload = Some r"
    using rules_router.run_payload_total [of read_fields task payload] by auto
  then have "valid_result r"
    by (auto simp: run_payload_def run_graph_def Let_def split: option.splits if_splits sum.splits)
  with r show ?thesis
    using run_payload_follows_steps graph_run_sequence by metis
qed

text \<open>(C31) A dispatch plan leaves the graph only for the active task, with exactly the declared
  assignments, for the minimum topology they call for, and never without a review when there is
  professional work; this happens for every valid request of the task that can be scheduled.\<close>

theorem dispatch_minimal_and_reviewed:
  assumes "valid_signals s" "task = rs_task_id s" "acyclic (depends (rs_professional_assignments s))"
  shows "\<exists>r p. run_graph route task s = Some r \<and> mg_dispatch r = Some p \<and> mg_status r = STATUS_DISPATCH_READY \<and>
     dp_task_id p = task \<and> dp_professional_assignments p = rs_professional_assignments s \<and>
     dp_route p = required_topology s \<and>
     dp_review_required p = (rs_professional_assignments s \<noteq> []) \<and>
     dp_human_required p = rs_human_required s"
proof -
  obtain d where d: "route s = Inr d"
    using route_error_iff(1) [OF assms(1)] assms(3) by (cases "route s") auto
  then obtain r where r: "run_graph route task s = Some r" "mg_status r = STATUS_DISPATCH_READY"
    using rules_router.run_ready_iff [OF assms(1)] assms(2) by blast
  then have "mg_dispatch r = Some (dispatch_of task s d)"
    using d by (auto simp: run_graph_def Let_def split: if_splits)
  moreover have "rd_review_required d = (rs_professional_assignments s \<noteq> []) \<and> rd_human_required d = rs_human_required s"
    using d assms(1)
    by (auto simp: route_def Let_def valid_signals_def validate_shape_def split: sum.splits if_splits)
  ultimately show ?thesis
    using r route_topology [OF assms(1) d] by (simp add: dispatch_of_def)
qed

theorem dispatch_minimal_and_reviewed_witness:
  "\<exists>r p. run_graph route 7 (sample_signals [sample_assignment ''scan'' [], sample_assignment ''report'' [''scan'']]) = Some r \<and>
     mg_dispatch r = Some p \<and> dp_route p = MULTIPLE_DEPENDENT_ASYNC_REVIEW \<and> dp_review_required p"
proof -
  let ?s = "sample_signals [sample_assignment ''scan'' [], sample_assignment ''report'' [''scan'']]"
  have "runs_in_order (rs_professional_assignments ?s)"
    by (simp add: sample_signals_def runs_in_order_Cons sample_assignment_def) (simp add: runs_in_order_def)
  then have "acyclic (depends (rs_professional_assignments ?s))"
    by (rule order_gives_acyclic) (rule valid_signals_distinct [OF sample_signals_valid])
  moreover have "required_topology ?s = MULTIPLE_DEPENDENT_ASYNC_REVIEW"
    by (simp add: required_topology_def sample_signals_def sample_assignment_def)
  moreover have "rs_task_id ?s = 7" "rs_professional_assignments ?s \<noteq> []"
    by (simp_all add: sample_signals_def)
  ultimately show ?thesis
    using dispatch_minimal_and_reviewed [OF sample_signals_valid, of 7] by metis
qed

end
