(* ===== verification/Cache.thy ===== *)
theory Cache
  imports HashChain Complex_Main
begin

section \<open>The shared cache\<close>

text \<open>
  \<^verbatim>\<open>cache/models.py\<close> and \<^verbatim>\<open>cache/service.py\<close>: the policy, the requests and records with their
  validators, the in-memory backend and every method of the service. The backend dict and the five
  counters are one state record; \<open>cache_put\<close>, \<open>cache_get\<close> and \<open>cache_invalidate\<close> are state
  transformers that may raise. A request is an instance of a validated model, so the operations are
  called with requests that satisfy \<open>valid_put_request\<close> and \<open>valid_get_request\<close>; the
  \<^verbatim>\<open>CacheRecord\<close> built from one is validated again and may raise in the model. Similarities are the
  exact rational values of Python floats.
\<close>

subsection \<open>Models\<close>

datatype cache_class = EXACT | RETRIEVAL | TOOL | PARSE | SEMANTIC

fun cache_class_value :: "cache_class \<Rightarrow> string" where
  "cache_class_value EXACT = ''EXACT''"
| "cache_class_value RETRIEVAL = ''RETRIEVAL''"
| "cache_class_value TOOL = ''TOOL''"
| "cache_class_value PARSE = ''PARSE''"
| "cache_class_value SEMANTIC = ''SEMANTIC''"

datatype cache_validation_state = CACHE_VALID | CACHE_STALE | CACHE_REJECTED

datatype cache_side_effect = PURE | READ | WRITE

record cache_policy =
  cp_policy_version :: string
  cp_exact_ttl_seconds :: int
  cp_retrieval_ttl_seconds :: int
  cp_tool_ttl_seconds :: int
  cp_parse_ttl_seconds :: int
  cp_semantic_ttl_seconds :: int
  cp_semantic_minimum_similarity :: rat

text \<open>The double nearest to 0.95.\<close>

definition similarity_floor :: rat where
  "similarity_floor = 4278419646001971 / 4503599627370496"

definition valid_cache_policy :: "cache_policy \<Rightarrow> bool" where
  "valid_cache_policy p = (text_len 1 128 (cp_policy_version p) \<and>
     1 \<le> cp_exact_ttl_seconds p \<and> cp_exact_ttl_seconds p \<le> 86400 \<and>
     1 \<le> cp_retrieval_ttl_seconds p \<and> cp_retrieval_ttl_seconds p \<le> 21600 \<and>
     1 \<le> cp_tool_ttl_seconds p \<and> cp_tool_ttl_seconds p \<le> 2592000 \<and>
     1 \<le> cp_parse_ttl_seconds p \<and> cp_parse_ttl_seconds p \<le> 7776000 \<and>
     1 \<le> cp_semantic_ttl_seconds p \<and> cp_semantic_ttl_seconds p \<le> 3600 \<and>
     similarity_floor \<le> cp_semantic_minimum_similarity p \<and> cp_semantic_minimum_similarity p \<le> 1)"

definition default_cache_policy :: "string \<Rightarrow> cache_policy" where
  "default_cache_policy version =
     \<lparr>cp_policy_version = version, cp_exact_ttl_seconds = 86400, cp_retrieval_ttl_seconds = 21600,
      cp_tool_ttl_seconds = 2592000, cp_parse_ttl_seconds = 7776000, cp_semantic_ttl_seconds = 3600,
      cp_semantic_minimum_similarity = similarity_floor\<rparr>"

definition cache_value_sha256 :: "(string \<times> json) list \<Rightarrow> string" where
  "cache_value_sha256 value = sha256_hex (canonical_json_bytes (JObj value))"

text \<open>A \<^verbatim>\<open>dict[str, str]\<close> field with \<^verbatim>\<open>min_length=1, max_length=64\<close>.\<close>

definition manifest_ok :: "(string \<times> string) list \<Rightarrow> bool" where
  "manifest_ok m = (distinct_keys m \<and> 1 \<le> length m \<and> length m \<le> 64)"

record cache_put_request =
  pr_cache_entry_id :: uuid
  pr_scope :: tenant_scope
  pr_cache_class :: cache_class
  pr_cache_key_sha256 :: string
  pr_value :: "(string \<times> json) list"
  pr_value_sha256 :: string
  pr_version_manifest :: "(string \<times> string) list"
  pr_provenance :: "(string \<times> string) list"
  pr_contains_secret :: bool
  pr_contains_authorization_decision :: bool
  pr_stable :: bool
  pr_side_effect :: cache_side_effect
  pr_task_class :: task_class
  pr_semantic_similarity :: "rat option"
  pr_saved_tokens :: int
  pr_refresh :: bool
  pr_created_at :: datetime

definition valid_put_request :: "cache_put_request \<Rightarrow> bool" where
  "valid_put_request r = (valid_scope (pr_scope r) \<and> is_sha256 (pr_cache_key_sha256 r) \<and>
     json_wf (JObj (pr_value r)) \<and> distinct_keys (pr_value r) \<and> is_sha256 (pr_value_sha256 r) \<and>
     manifest_ok (pr_version_manifest r) \<and> manifest_ok (pr_provenance r) \<and>
     opt_all (\<lambda>x. 0 \<le> x \<and> x \<le> 1) (pr_semantic_similarity r) \<and> 0 \<le> pr_saved_tokens r \<and>
     cache_value_sha256 (pr_value r) = pr_value_sha256 r \<and> is_aware (pr_created_at r))"

record cache_get_request =
  gq_scope :: tenant_scope
  gq_cache_class :: cache_class
  gq_cache_key_sha256 :: string
  gq_current_version_manifest :: "(string \<times> string) list"
  gq_current_information_required :: bool
  gq_now :: datetime

definition valid_get_request :: "cache_get_request \<Rightarrow> bool" where
  "valid_get_request r = (valid_scope (gq_scope r) \<and> is_sha256 (gq_cache_key_sha256 r) \<and>
     manifest_ok (gq_current_version_manifest r) \<and> is_aware (gq_now r))"

record cache_record =
  cr_cache_entry_id :: uuid
  cr_scope :: tenant_scope
  cr_cache_class :: cache_class
  cr_cache_key_sha256 :: string
  cr_value :: "(string \<times> json) list"
  cr_value_sha256 :: string
  cr_version_manifest :: "(string \<times> string) list"
  cr_provenance :: "(string \<times> string) list"
  cr_validation_state :: cache_validation_state
  cr_saved_tokens :: int
  cr_created_at :: datetime
  cr_expires_at :: datetime

definition valid_cache_record :: "cache_record \<Rightarrow> bool" where
  "valid_cache_record r = (valid_scope (cr_scope r) \<and> is_sha256 (cr_cache_key_sha256 r) \<and>
     is_sha256 (cr_value_sha256 r) \<and> 0 \<le> cr_saved_tokens r \<and>
     cache_value_sha256 (cr_value r) = cr_value_sha256 r \<and>
     \<not> dt_us (cr_expires_at r) \<le> dt_us (cr_created_at r))"

record cache_metrics =
  cm_hits :: int
  cm_misses :: int
  cm_stale_rejections :: int
  cm_bypasses :: int
  cm_saved_tokens :: int

subsection \<open>The backend\<close>

type_synonym cache_backend = "(string list \<times> cache_record) list"

definition backend_key :: "tenant_scope \<Rightarrow> cache_class \<Rightarrow> string \<Rightarrow> string list" where
  "backend_key scope cache_class key =
     [str_uuid (ts_tenant_id scope), str_uuid (ts_project_id scope), str_uuid (ts_user_id scope),
      ts_permission_version scope, cache_class_value cache_class, key]"

definition record_key :: "cache_record \<Rightarrow> string list" where
  "record_key r = backend_key (cr_scope r) (cr_cache_class r) (cr_cache_key_sha256 r)"

definition key_collision :: fault where
  "key_collision = Fault ''CACHE_KEY_COLLISION''
     ''The cache key already holds a different immutable value.''
     ''Reject the candidate and rebuild the complete versioned cache key.''"

definition backend_get :: "tenant_scope \<Rightarrow> cache_class \<Rightarrow> string \<Rightarrow> cache_backend \<Rightarrow> cache_record option" where
  "backend_get scope cache_class key b = map_of b (backend_key scope cache_class key)"

definition backend_put :: "cache_record \<Rightarrow> bool \<Rightarrow> (cache_backend, fault, unit) prog" where
  "backend_put record refresh = (let key = record_key record in
     bindP (gets (\<lambda>b. map_of b key)) (\<lambda>existing.
       case existing of
         Some old \<Rightarrow>
           if \<not> refresh then
             (if cr_value_sha256 old = cr_value_sha256 record then ret () else raise key_collision)
           else modify (AList.update key record)
       | None \<Rightarrow> modify (AList.update key record)))"

definition backend_delete :: "tenant_scope \<Rightarrow> cache_class \<Rightarrow> string \<Rightarrow> cache_backend \<Rightarrow> cache_backend" where
  "backend_delete scope cache_class key = AList.delete (backend_key scope cache_class key)"

definition backend_invalidate :: "(cache_record \<Rightarrow> bool) \<Rightarrow> (cache_backend, fault, nat) prog" where
  "backend_invalidate predicate =
     bindP (gets (\<lambda>b. map fst (filter (\<lambda>kv. predicate (snd kv)) b))) (\<lambda>targets.
       thenP (modify (filter (\<lambda>kv. fst kv \<notin> set targets))) (ret (length targets)))"

subsection \<open>The service\<close>

record cache_state =
  cs_backend :: cache_backend
  cs_hits :: int
  cs_misses :: int
  cs_stale :: int
  cs_bypasses :: int
  cs_saved_tokens :: int

definition empty_cache :: cache_state where
  "empty_cache = \<lparr>cs_backend = [], cs_hits = 0, cs_misses = 0, cs_stale = 0, cs_bypasses = 0, cs_saved_tokens = 0\<rparr>"

type_synonym 'a caching = "(cache_state, fault, 'a) prog"

text \<open>Running a backend operation on the service's backend.\<close>

definition on_backend :: "(cache_backend, fault, 'a) prog \<Rightarrow> 'a caching" where
  "on_backend m = (\<lambda>s. case m (cs_backend s) of (r, b) \<Rightarrow> (r, s\<lparr>cs_backend := b\<rparr>))"

definition unsafe :: "string \<Rightarrow> string \<Rightarrow> fault" where
  "unsafe code message = Fault code message ''Bypass the cache and execute the authorized source operation.''"

definition validate_put :: "cache_policy \<Rightarrow> cache_put_request \<Rightarrow> fault + unit" where
  "validate_put policy r =
     (if pr_contains_secret r then Inl (unsafe ''CACHE_SECRET_DENIED'' ''Secrets cannot be cached.'')
      else if pr_contains_authorization_decision r then
        Inl (unsafe ''CACHE_AUTHORIZATION_DENIED'' ''Authorization decisions cannot be cached.'')
      else if \<not> pr_stable r then Inl (unsafe ''CACHE_UNSTABLE_DENIED'' ''Unstable values cannot be cached.'')
      else if pr_side_effect r = WRITE then
        Inl (unsafe ''CACHE_SIDE_EFFECT_DENIED'' ''Write side effects cannot be cached.'')
      else if pr_cache_class r = TOOL \<and> pr_side_effect r \<noteq> PURE then
        Inl (unsafe ''CACHE_TOOL_NOT_PURE'' ''Only pure tool results can be cached.'')
      else if pr_cache_class r = SEMANTIC then
        (if pr_task_class r \<notin> {G0, P1} then
           Inl (unsafe ''CACHE_SEMANTIC_TASK_DENIED'' ''Semantic caching is restricted to G0 and P1 tasks.'')
         else if (case pr_semantic_similarity r of None \<Rightarrow> True
                  | Some x \<Rightarrow> x < cp_semantic_minimum_similarity policy) then
           Inl (unsafe ''CACHE_SEMANTIC_SIMILARITY_DENIED'' ''Semantic similarity is below the active threshold.'')
         else Inr ())
      else Inr ())"

fun ttl :: "cache_policy \<Rightarrow> cache_class \<Rightarrow> int" where
  "ttl p EXACT = cp_exact_ttl_seconds p"
| "ttl p RETRIEVAL = cp_retrieval_ttl_seconds p"
| "ttl p TOOL = cp_tool_ttl_seconds p"
| "ttl p PARSE = cp_parse_ttl_seconds p"
| "ttl p SEMANTIC = cp_semantic_ttl_seconds p"

definition record_of :: "cache_policy \<Rightarrow> cache_put_request \<Rightarrow> cache_record" where
  "record_of policy r =
     \<lparr>cr_cache_entry_id = pr_cache_entry_id r, cr_scope = pr_scope r, cr_cache_class = pr_cache_class r,
      cr_cache_key_sha256 = pr_cache_key_sha256 r, cr_value = pr_value r,
      cr_value_sha256 = pr_value_sha256 r, cr_version_manifest = pr_version_manifest r,
      cr_provenance = pr_provenance r, cr_validation_state = CACHE_VALID,
      cr_saved_tokens = pr_saved_tokens r, cr_created_at = pr_created_at r,
      cr_expires_at = add_seconds (pr_created_at r) (ttl policy (pr_cache_class r))\<rparr>"

definition cache_put :: "cache_policy \<Rightarrow> cache_put_request \<Rightarrow> cache_record caching" where
  "cache_put policy r =
     thenP (lift_pure (validate_put policy r))
       (let record = record_of policy r in
        if \<not> valid_cache_record record then raise ValidationError
        else thenP (on_backend (backend_put record (pr_refresh r))) (ret record))"

definition cache_get :: "cache_get_request \<Rightarrow> cache_record option caching" where
  "cache_get r =
     (if gq_current_information_required r then
        thenP (modify (\<lambda>s. s\<lparr>cs_bypasses := cs_bypasses s + 1, cs_misses := cs_misses s + 1\<rparr>)) (ret None)
      else bindP (gets (\<lambda>s. backend_get (gq_scope r) (gq_cache_class r) (gq_cache_key_sha256 r) (cs_backend s)))
        (\<lambda>found. case found of
           None \<Rightarrow> thenP (modify (\<lambda>s. s\<lparr>cs_misses := cs_misses s + 1\<rparr>)) (ret None)
         | Some record \<Rightarrow>
             if dt_us (cr_expires_at record) \<le> dt_us (gq_now r) \<or> cr_validation_state record \<noteq> CACHE_VALID \<or>
                \<not> dict_eq (cr_version_manifest record) (gq_current_version_manifest r)
             then thenP (modify (\<lambda>s. s\<lparr>cs_backend := backend_delete (gq_scope r) (gq_cache_class r)
                           (gq_cache_key_sha256 r) (cs_backend s),
                         cs_stale := cs_stale s + 1, cs_misses := cs_misses s + 1\<rparr>)) (ret None)
             else thenP (modify (\<lambda>s. s\<lparr>cs_hits := cs_hits s + 1,
                           cs_saved_tokens := cs_saved_tokens s + cr_saved_tokens record\<rparr>))
                    (ret (Some record))))"

definition matches_version :: "string \<Rightarrow> string option \<Rightarrow> cache_record \<Rightarrow> bool" where
  "matches_version name value record =
     (case map_of (cr_version_manifest record) name of
        None \<Rightarrow> False
      | Some v \<Rightarrow> value = None \<or> value = Some v)"

definition cache_invalidate :: "string \<Rightarrow> string option \<Rightarrow> nat caching" where
  "cache_invalidate name value =
     on_backend (backend_invalidate (matches_version name value))"

definition metrics :: "cache_state \<Rightarrow> cache_metrics" where
  "metrics s = \<lparr>cm_hits = cs_hits s, cm_misses = cs_misses s, cm_stale_rejections = cs_stale s,
     cm_bypasses = cs_bypasses s, cm_saved_tokens = cs_saved_tokens s\<rparr>"

definition valid_metrics :: "cache_metrics \<Rightarrow> bool" where
  "valid_metrics m = (0 \<le> cm_hits m \<and> 0 \<le> cm_misses m \<and> 0 \<le> cm_stale_rejections m \<and>
     0 \<le> cm_bypasses m \<and> 0 \<le> cm_saved_tokens m)"

end
