(* ===== verification/CacheProperties.thy ===== *)
theory CacheProperties
  imports Cache
begin

section \<open>What the cache guarantees\<close>

text \<open>
  The service as a machine over any sequence of put, get and invalidate calls from the empty
  cache. The invariant \<open>cache_inv\<close> ties every entry to its key and to an admitted put of the history;
  from it follow that a hit is sound, that the counters account for every lookup, and what an
  invalidation leaves. The backend without refresh is a write-once store.
\<close>

subsection \<open>Operations, rule by rule\<close>

lemma backend_key_inject:
  "backend_key s c k = backend_key s' c' k' \<longleftrightarrow>
     ts_tenant_id s = ts_tenant_id s' \<and> ts_project_id s = ts_project_id s' \<and> ts_user_id s = ts_user_id s' \<and>
     ts_permission_version s = ts_permission_version s' \<and> c = c' \<and> k = k'"
  by (cases c; cases c') (auto simp: backend_key_def)

lemma backend_put_cases:
  "backend_put r refresh b =
     (case map_of b (record_key r) of
        Some old \<Rightarrow> if refresh then (Inr (), AList.update (record_key r) r b)
          else if cr_value_sha256 old = cr_value_sha256 r then (Inr (), b) else (Inl key_collision, b)
      | None \<Rightarrow> (Inr (), AList.update (record_key r) r b))"
  by (simp add: backend_put_def Let_def bindP_def split: option.split)

lemma backend_invalidate_cases:
  "distinct_keys b \<Longrightarrow> backend_invalidate P b =
     (Inr (length (filter (\<lambda>kv. P (snd kv)) b)), filter (\<lambda>kv. \<not> P (snd kv)) b)"
proof -
  assume d: "distinct_keys b"
  have "fst kv \<in> set (map fst (filter (\<lambda>kv. P (snd kv)) b)) \<longleftrightarrow> P (snd kv)" if "kv \<in> set b" for kv
  proof
    assume "fst kv \<in> set (map fst (filter (\<lambda>kv. P (snd kv)) b))"
    then obtain v where v: "(fst kv, v) \<in> set b" "P v"
      by auto
    then have "v = snd kv"
      using d that unfolding distinct_keys_def by (metis eq_key_imp_eq_value surjective_pairing)
    with v show "P (snd kv)" by simp
  qed (use that in auto)
  then have "filter (\<lambda>kv. fst kv \<notin> set (map fst (filter (\<lambda>kv. P (snd kv)) b))) b = filter (\<lambda>kv. \<not> P (snd kv)) b"
    by (intro filter_cong) auto
  then show ?thesis
    by (simp add: backend_invalidate_def bindP_def thenP_def)
qed

interpretation cache_backend: write_once_store record_key map_of "\<lambda>r. backend_put r False"
  "\<lambda>old r. cr_value_sha256 old = cr_value_sha256 r"
  by unfold_locales (auto simp: backend_put_cases)

text \<open>The admitted puts: accepted by \<open>validate_put\<close> and with a valid record.\<close>

definition admitted :: "cache_policy \<Rightarrow> cache_put_request \<Rightarrow> bool" where
  "admitted policy r = (validate_put policy r = Inr () \<and> valid_cache_record (record_of policy r))"

lemma cache_put_cases:
  "cache_put policy r s =
     (case validate_put policy r of Inl e \<Rightarrow> (Inl e, s) | Inr _ \<Rightarrow>
       if \<not> valid_cache_record (record_of policy r) then (Inl ValidationError, s)
       else case backend_put (record_of policy r) (pr_refresh r) (cs_backend s) of
         (Inl e, b) \<Rightarrow> (Inl e, s\<lparr>cs_backend := b\<rparr>)
       | (Inr _, b) \<Rightarrow> (Inr (record_of policy r), s\<lparr>cs_backend := b\<rparr>))"
  by (simp add: cache_put_def Let_def thenP_def bindP_def on_backend_def split: sum.split prod.split)

text \<open>A record that \<open>cache_get\<close> would serve to a request.\<close>

definition fresh_for :: "cache_get_request \<Rightarrow> cache_record \<Rightarrow> bool" where
  "fresh_for q r = (dt_us (gq_now q) < dt_us (cr_expires_at r) \<and> cr_validation_state r = CACHE_VALID \<and>
     dict_eq (cr_version_manifest r) (gq_current_version_manifest q))"

abbreviation request_key :: "cache_get_request \<Rightarrow> string list" where
  "request_key q \<equiv> backend_key (gq_scope q) (gq_cache_class q) (gq_cache_key_sha256 q)"

lemma cache_get_cases:
  "cache_get q s =
     (if gq_current_information_required q then
        (Inr None, s\<lparr>cs_bypasses := cs_bypasses s + 1, cs_misses := cs_misses s + 1\<rparr>)
      else case map_of (cs_backend s) (request_key q) of
        None \<Rightarrow> (Inr None, s\<lparr>cs_misses := cs_misses s + 1\<rparr>)
      | Some r \<Rightarrow>
          if fresh_for q r
          then (Inr (Some r), s\<lparr>cs_hits := cs_hits s + 1, cs_saved_tokens := cs_saved_tokens s + cr_saved_tokens r\<rparr>)
          else (Inr None, s\<lparr>cs_backend := AList.delete (request_key q) (cs_backend s),
                  cs_stale := cs_stale s + 1, cs_misses := cs_misses s + 1\<rparr>))"
  by (auto simp: cache_get_def thenP_def bindP_def backend_get_def backend_delete_def fresh_for_def not_le
      split: option.split)

lemma cache_invalidate_cases:
  "distinct_keys (cs_backend s) \<Longrightarrow> cache_invalidate n v s =
     (Inr (length (filter (\<lambda>kv. matches_version n v (snd kv)) (cs_backend s))),
      s\<lparr>cs_backend := filter (\<lambda>kv. \<not> matches_version n v (snd kv)) (cs_backend s)\<rparr>)"
  by (simp add: cache_invalidate_def on_backend_def backend_invalidate_cases)

subsection \<open>Sequences of calls\<close>

datatype cache_call =
    PutCall cache_put_request
  | GetCall cache_get_request
  | InvalidateCall string "string option"

text \<open>The state a call leaves, and the record it serves when it is a lookup that hits.\<close>

fun call_state :: "cache_policy \<Rightarrow> cache_call \<Rightarrow> cache_state \<Rightarrow> cache_state" where
  "call_state policy (PutCall r) s = final (cache_put policy r) s"
| "call_state policy (GetCall q) s = final (cache_get q) s"
| "call_state policy (InvalidateCall n v) s = final (cache_invalidate n v) s"

fun served :: "cache_call \<Rightarrow> cache_state \<Rightarrow> cache_record list" where
  "served (GetCall q) s = (case outcome (cache_get q) s of Inr (Some r) \<Rightarrow> [r] | _ \<Rightarrow> [])"
| "served _ s = []"

fun run_cache :: "cache_policy \<Rightarrow> cache_call list \<Rightarrow> cache_state \<Rightarrow> cache_state" where
  "run_cache policy [] s = s"
| "run_cache policy (c # cs) s = run_cache policy cs (call_state policy c s)"

fun all_served :: "cache_policy \<Rightarrow> cache_call list \<Rightarrow> cache_state \<Rightarrow> cache_record list" where
  "all_served policy [] s = []"
| "all_served policy (c # cs) s = served c s @ all_served policy cs (call_state policy c s)"

lemma run_cache_append: "run_cache policy (cs @ ds) s = run_cache policy ds (run_cache policy cs s)"
  by (induction cs arbitrary: s) auto

text \<open>Every entry sits under its own key and comes from an admitted put of the history.\<close>

definition entry_from :: "cache_policy \<Rightarrow> cache_put_request set \<Rightarrow> cache_backend \<Rightarrow> bool" where
  "entry_from policy puts b = (distinct_keys b \<and>
     (\<forall>k r. map_of b k = Some r \<longrightarrow> k = record_key r \<and>
        (\<exists>p \<in> puts. admitted policy p \<and> r = record_of policy p)))"

lemma entry_fromD:
  "entry_from policy puts b \<Longrightarrow> map_of b k = Some r \<Longrightarrow>
     k = record_key r \<and> (\<exists>p \<in> puts. admitted policy p \<and> r = record_of policy p)"
  by (simp add: entry_from_def)

lemma entry_from_mono: "entry_from policy puts b \<Longrightarrow> puts \<subseteq> puts' \<Longrightarrow> entry_from policy puts' b"
  unfolding entry_from_def by blast

lemma entry_from_filter:
  assumes "entry_from policy puts b"
  shows "entry_from policy puts (filter P b)"
proof -
  have "distinct (map fst b)"
    using assms by (simp add: entry_from_def distinct_keys_def)
  then have "map_of b k = Some r" if "map_of (filter P b) k = Some r" for k r
    using that by (auto dest!: map_of_SomeD)
  then show ?thesis
    using assms by (auto simp: entry_from_def distinct_keys_def distinct_map_filter)
qed

lemma entry_from_delete: "entry_from policy puts b \<Longrightarrow> entry_from policy puts (AList.delete k b)"
  by (auto simp: entry_from_def split: if_splits)

lemma entry_from_update:
  "entry_from policy puts b \<Longrightarrow> p \<in> puts \<Longrightarrow> admitted policy p \<Longrightarrow> r = record_of policy p \<Longrightarrow>
   entry_from policy puts (AList.update (record_key r) r b)"
  by (auto simp: entry_from_def split: if_splits)

definition puts_of :: "cache_call list \<Rightarrow> cache_put_request set" where
  "puts_of cs = {p. PutCall p \<in> set cs}"

lemma puts_of_Cons: "puts_of (c # cs) = puts_of [c] \<union> puts_of cs"
  by (auto simp: puts_of_def)

lemma call_state_entries:
  assumes "entry_from policy puts (cs_backend s)" "puts_of [c] \<subseteq> puts"
  shows "entry_from policy puts (cs_backend (call_state policy c s))"
proof (cases c)
  case (PutCall p)
  then have "admitted policy p \<Longrightarrow>
      entry_from policy puts (AList.update (record_key (record_of policy p)) (record_of policy p) (cs_backend s))"
    using assms by (intro entry_from_update [where p = p]) (auto simp: puts_of_def)
  then show ?thesis
    using PutCall assms(1)
    by (auto simp: final_def cache_put_cases backend_put_cases admitted_def
        split: sum.split option.split prod.split)
next
  case (GetCall q)
  then show ?thesis
    using assms(1) by (auto simp: final_def cache_get_cases entry_from_delete split: option.split)
next
  case (InvalidateCall n v)
  moreover have "distinct_keys (cs_backend s)"
    using assms(1) by (simp add: entry_from_def)
  ultimately show ?thesis
    using assms(1) by (simp add: final_def cache_invalidate_cases entry_from_filter)
qed

lemma run_cache_entries:
  "entry_from policy puts (cs_backend s) \<Longrightarrow> puts_of cs \<subseteq> puts \<Longrightarrow>
   entry_from policy puts (cs_backend (run_cache policy cs s))"
proof (induction cs arbitrary: s)
  case (Cons c cs)
  then show ?case
    using call_state_entries [of policy puts s c] by (simp add: puts_of_Cons [of c cs])
qed simp

lemma empty_entries: "entry_from policy puts (cs_backend empty_cache)"
  by (simp add: entry_from_def empty_cache_def)

lemmas cache_entries = run_cache_entries [OF empty_entries order_refl]

subsection \<open>Accounting\<close>

definition lookups :: "cache_call list \<Rightarrow> nat" where
  "lookups cs = length (filter (\<lambda>c. case c of GetCall _ \<Rightarrow> True | _ \<Rightarrow> False) cs)"

lemma call_state_counters:
  "let t = call_state policy c s in
     cs_hits t = cs_hits s + int (length (served c s)) \<and>
     cs_hits t + cs_misses t = cs_hits s + cs_misses s + int (lookups [c]) \<and>
     cs_stale t + cs_bypasses t - cs_misses t \<le> cs_stale s + cs_bypasses s - cs_misses s \<and>
     cs_stale s \<le> cs_stale t \<and> cs_bypasses s \<le> cs_bypasses t \<and> cs_misses s \<le> cs_misses t \<and>
     cs_saved_tokens t = cs_saved_tokens s + sum_list (map cr_saved_tokens (served c s))"
  by (cases c)
    (auto simp: Let_def lookups_def final_def outcome_def cache_put_cases cache_get_cases backend_put_cases
      cache_invalidate_def on_backend_def split: sum.split option.split prod.split)

lemma call_state_hits: "cs_hits (call_state policy c s) = cs_hits s + int (length (served c s))"
  using call_state_counters [of policy c s] by (simp add: Let_def)

lemma run_cache_counters:
  "let t = run_cache policy cs s in
     cs_hits t = cs_hits s + int (length (all_served policy cs s)) \<and>
     cs_hits t + cs_misses t = cs_hits s + cs_misses s + int (lookups cs) \<and>
     cs_stale t + cs_bypasses t - cs_misses t \<le> cs_stale s + cs_bypasses s - cs_misses s \<and>
     cs_stale s \<le> cs_stale t \<and> cs_bypasses s \<le> cs_bypasses t \<and> cs_misses s \<le> cs_misses t \<and>
     cs_saved_tokens t = cs_saved_tokens s + sum_list (map cr_saved_tokens (all_served policy cs s))"
proof (induction cs arbitrary: s)
  case Nil
  then show ?case by (simp add: lookups_def)
next
  case (Cons c cs)
  have "lookups (c # cs) = lookups [c] + lookups cs"
    by (simp add: lookups_def)
  then show ?case
    using Cons.IH [of "call_state policy c s"] call_state_counters [of policy c s]
    unfolding run_cache.simps all_served.simps Let_def by simp
qed

lemma served_from_backend:
  "r \<in> set (served c s) \<Longrightarrow> \<exists>q. c = GetCall q \<and> \<not> gq_current_information_required q \<and>
     map_of (cs_backend s) (request_key q) = Some r \<and> fresh_for q r"
  by (cases c) (auto simp: outcome_def cache_get_cases split: sum.splits option.splits if_splits)

lemma all_served_from:
  assumes "entry_from policy puts (cs_backend s)" "puts_of cs \<subseteq> puts" "r \<in> set (all_served policy cs s)"
  shows "\<exists>p \<in> puts. admitted policy p \<and> r = record_of policy p"
  using assms
proof (induction cs arbitrary: s)
  case (Cons c cs)
  have "entry_from policy puts (cs_backend (call_state policy c s))"
    using Cons.prems by (intro call_state_entries) (auto simp: puts_of_def)
  moreover have "puts_of cs \<subseteq> puts"
    using Cons.prems(2) by (auto simp: puts_of_def)
  ultimately show ?case
    using Cons.IH Cons.prems served_from_backend [of r c s] entry_fromD [OF Cons.prems(1)] by auto
qed simp

lemma admitted_saved_tokens: "admitted policy p \<Longrightarrow> 0 \<le> cr_saved_tokens (record_of policy p)"
  by (simp add: admitted_def valid_cache_record_def)

subsection \<open>Sample calls\<close>

text \<open>A valid request of every class is admitted when nothing about it is unsafe.\<close>

lemma add_seconds_us [simp]: "dt_us (add_seconds t n) = dt_us t + n * 1000000"
  by (cases t) (simp_all add: dt_us_def)

lemma ttl_positive: "valid_cache_policy p \<Longrightarrow> 0 < ttl p c"
  by (cases c) (simp_all add: valid_cache_policy_def)

lemma record_of_valid: "valid_cache_policy policy \<Longrightarrow> valid_put_request r \<Longrightarrow> valid_cache_record (record_of policy r)"
  using ttl_positive [of policy "pr_cache_class r"]
  by (simp add: valid_cache_record_def valid_put_request_def record_of_def)

definition sample_value :: "(string \<times> json) list" where
  "sample_value = [(''answer'', JInt 42)]"

definition cache_scope :: tenant_scope where
  "cache_scope = \<lparr>ts_tenant_id = 1, ts_project_id = 2, ts_user_id = 3, ts_role_codes = [''engineer''],
     ts_permission_version = ''v1''\<rparr>"

definition sample_put :: cache_put_request where
  "sample_put = \<lparr>pr_cache_entry_id = 9, pr_scope = cache_scope, pr_cache_class = EXACT,
     pr_cache_key_sha256 = zero_sha256, pr_value = sample_value,
     pr_value_sha256 = cache_value_sha256 sample_value, pr_version_manifest = [(''graph'', ''g1'')],
     pr_provenance = [(''source'', ''unit'')], pr_contains_secret = False,
     pr_contains_authorization_decision = False, pr_stable = True, pr_side_effect = PURE,
     pr_task_class = G0, pr_semantic_similarity = None, pr_saved_tokens = 10, pr_refresh = False,
     pr_created_at = utc 0\<rparr>"

definition sample_get :: "int \<Rightarrow> cache_get_request" where
  "sample_get now = \<lparr>gq_scope = cache_scope, gq_cache_class = EXACT, gq_cache_key_sha256 = zero_sha256,
     gq_current_version_manifest = [(''graph'', ''g1'')], gq_current_information_required = False,
     gq_now = utc now\<rparr>"

lemma cache_policy_valid: "valid_cache_policy (default_cache_policy ''p1'')"
  by (simp add: valid_cache_policy_def default_cache_policy_def text_len_def similarity_floor_def)

lemma sample_put_valid: "valid_put_request sample_put"
  by (simp add: valid_put_request_def sample_put_def cache_scope_def valid_scope_def text_len_def
      sample_value_def manifest_ok_def distinct_keys_def is_aware_def utc_def cache_value_sha256_def)

lemma sample_put_safe: "validate_put policy sample_put = Inr ()"
  by (simp add: validate_put_def sample_put_def)

lemma sample_get_valid: "valid_get_request (sample_get t)"
  by (simp add: valid_get_request_def sample_get_def cache_scope_def valid_scope_def text_len_def
      manifest_ok_def distinct_keys_def is_aware_def utc_def)

subsection \<open>Properties\<close>

text \<open>(C6) A cache hit is sound: whatever calls came before, a record that a lookup returns is
  the record of an earlier put of the very same tenant, project, user, permission version, cache
  class and key; it is unexpired, its version manifest is the requested one, its value matches its
  digest; the put held no secret, no authorization decision, nothing unstable and no write, only pure
  results in the tool class and only sufficiently similar G0 or P1 results in the semantic class;
  and the lookup did not ask for current information.\<close>

theorem cache_hit_sound:
  assumes "outcome (cache_get q) (run_cache policy cs empty_cache) = Inr (Some r)"
    and "valid_get_request q" "list_all (\<lambda>c. case c of PutCall p \<Rightarrow> valid_put_request p | _ \<Rightarrow> True) cs"
  shows "\<exists>p. PutCall p \<in> set cs \<and> r = record_of policy p \<and>
    ts_tenant_id (pr_scope p) = ts_tenant_id (gq_scope q) \<and>
    ts_project_id (pr_scope p) = ts_project_id (gq_scope q) \<and>
    ts_user_id (pr_scope p) = ts_user_id (gq_scope q) \<and>
    ts_permission_version (pr_scope p) = ts_permission_version (gq_scope q) \<and>
    pr_cache_class p = gq_cache_class q \<and> pr_cache_key_sha256 p = gq_cache_key_sha256 q \<and>
    dt_us (gq_now q) < dt_us (pr_created_at p) + ttl policy (pr_cache_class p) * 1000000 \<and>
    map_of (pr_version_manifest p) = map_of (gq_current_version_manifest q) \<and>
    cache_value_sha256 (cr_value r) = cr_value_sha256 r \<and>
    \<not> pr_contains_secret p \<and> \<not> pr_contains_authorization_decision p \<and> pr_stable p \<and>
    pr_side_effect p \<noteq> WRITE \<and> (pr_cache_class p \<noteq> TOOL \<or> pr_side_effect p = PURE) \<and>
    (pr_cache_class p \<noteq> SEMANTIC \<or> pr_task_class p \<in> {G0, P1} \<and>
       (\<exists>x. pr_semantic_similarity p = Some x \<and> cp_semantic_minimum_similarity policy \<le> x)) \<and>
    \<not> gq_current_information_required q"
proof -
  let ?s = "run_cache policy cs empty_cache"
  have hit: "\<not> gq_current_information_required q" "map_of (cs_backend ?s) (request_key q) = Some r" "fresh_for q r"
    using served_from_backend [of r "GetCall q" ?s] assms(1) by auto
  obtain p where p: "PutCall p \<in> set cs" "admitted policy p" "r = record_of policy p"
    and key: "request_key q = record_key r"
    using entry_fromD [OF cache_entries hit(2)] by (auto simp: puts_of_def)
  have "valid_put_request p"
    using assms(3) p(1) by (auto simp: list_all_iff)
  then have "map_of (pr_version_manifest p) = map_of (gq_current_version_manifest q)"
    using hit(3) assms(2) p(3)
    by (simp add: fresh_for_def dict_eq_iff valid_put_request_def valid_get_request_def manifest_ok_def record_of_def)
  moreover have "valid_cache_record r" and safe: "validate_put policy p = Inr ()"
    using p by (simp_all add: admitted_def)
  moreover have "dt_us (gq_now q) < dt_us (pr_created_at p) + ttl policy (pr_cache_class p) * 1000000"
    using hit(3) p(3) by (simp add: fresh_for_def record_of_def)
  moreover have "pr_cache_class p \<noteq> SEMANTIC \<or> pr_task_class p \<in> {G0, P1} \<and>
       (\<exists>x. pr_semantic_similarity p = Some x \<and> cp_semantic_minimum_similarity policy \<le> x)"
    using safe by (auto simp: validate_put_def split: if_splits option.splits)
  moreover have "\<not> pr_contains_secret p" "\<not> pr_contains_authorization_decision p" "pr_stable p"
    "pr_side_effect p \<noteq> WRITE" "pr_cache_class p \<noteq> TOOL \<or> pr_side_effect p = PURE"
    using safe by (auto simp: validate_put_def split: if_splits)
  ultimately show ?thesis
    using p(1,3) hit(1) key
    by (intro exI [of _ p]) (simp add: record_key_def backend_key_inject valid_cache_record_def record_of_def)
qed

lemma sample_hit:
  "outcome (cache_get (sample_get 5)) (run_cache (default_cache_policy ''p1'') [PutCall sample_put] empty_cache) =
     Inr (Some (record_of (default_cache_policy ''p1'') sample_put))"
proof -
  have "request_key (sample_get 5) = record_key (record_of (default_cache_policy ''p1'') sample_put)"
    by (simp add: record_key_def record_of_def sample_put_def sample_get_def)
  moreover have "fresh_for (sample_get 5) (record_of (default_cache_policy ''p1'') sample_put)"
    by (simp add: fresh_for_def record_of_def sample_put_def sample_get_def default_cache_policy_def utc_def
        dt_us_def dict_eq_def)
  ultimately show ?thesis
    using record_of_valid [OF cache_policy_valid sample_put_valid]
    by (simp add: outcome_def final_def cache_get_cases cache_put_cases sample_put_safe backend_put_cases
        empty_cache_def) (simp add: sample_get_def)
qed

theorem cache_hit_sound_witness:
  "\<exists>p r. outcome (cache_get (sample_get 5))
       (run_cache (default_cache_policy ''p1'') [PutCall sample_put] empty_cache) = Inr (Some r) \<and>
     r = record_of (default_cache_policy ''p1'') p \<and> \<not> pr_contains_secret p"
proof -
  have "list_all (\<lambda>c. case c of PutCall p \<Rightarrow> valid_put_request p | _ \<Rightarrow> True) [PutCall sample_put]"
    by (simp add: sample_put_valid)
  from cache_hit_sound [OF sample_hit sample_get_valid this] show ?thesis
    using sample_hit by blast
qed

text \<open>The metrics account for every lookup: over any sequence of calls, hits and misses add up
  to the number of lookups, the hits are the records served, stale rejections and bypasses are among
  the misses, the saved tokens are those of the records served, and no counter is ever negative.\<close>

theorem cache_metrics_account:
  "let m = metrics (run_cache policy cs empty_cache); rs = all_served policy cs empty_cache in
     cm_hits m = int (length rs) \<and> cm_hits m + cm_misses m = int (lookups cs) \<and>
     cm_stale_rejections m + cm_bypasses m \<le> cm_misses m \<and>
     cm_saved_tokens m = sum_list (map cr_saved_tokens rs) \<and> valid_metrics m"
proof -
  have "0 \<le> cr_saved_tokens r" if "r \<in> set (all_served policy cs empty_cache)" for r
    using all_served_from [OF empty_entries order_refl that] admitted_saved_tokens by blast
  then have "0 \<le> sum_list (map cr_saved_tokens (all_served policy cs empty_cache))"
    by (intro sum_list_nonneg) auto
  then show ?thesis
    using run_cache_counters [of policy cs empty_cache]
    by (simp add: Let_def metrics_def valid_metrics_def empty_cache_def)
qed

text \<open>Poisoning is refused: writes without refresh never replace an entry. After any sequence
  of admitted ones each key holds what it held before, or else the first record written under it.\<close>

theorem cache_first_write_wins:
  assumes "list_all (\<lambda>p. admitted policy p \<and> \<not> pr_refresh p) ps"
  shows "map_of (cs_backend (run_cache policy (map PutCall ps) s)) k =
    (case map_of (cs_backend s) k of Some r \<Rightarrow> Some r
     | None \<Rightarrow> find (\<lambda>r. record_key r = k) (map (record_of policy) ps))"
proof -
  have "cs_backend (run_cache policy (map PutCall ps) s) =
      fold (\<lambda>r b. final (backend_put r False) b) (map (record_of policy) ps) (cs_backend s)"
    using assms
  proof (induction ps arbitrary: s)
    case (Cons p ps)
    have "cs_backend (call_state policy (PutCall p) s) = final (backend_put (record_of policy p) False) (cs_backend s)"
      using Cons.prems by (simp add: final_def cache_put_cases admitted_def split: prod.split sum.split)
    then show ?case
      using Cons by simp
  qed simp
  then show ?thesis
    by (simp only: cache_backend.first_write_wins)
qed

theorem cache_first_write_wins_witness:
  "map_of (cs_backend (run_cache (default_cache_policy ''p1'') (map PutCall [sample_put]) empty_cache))
     (record_key (record_of (default_cache_policy ''p1'') sample_put)) =
   Some (record_of (default_cache_policy ''p1'') sample_put)"
proof -
  have "list_all (\<lambda>p. admitted (default_cache_policy ''p1'') p \<and> \<not> pr_refresh p) [sample_put]"
    using record_of_valid [OF cache_policy_valid sample_put_valid]
    by (simp add: admitted_def sample_put_safe) (simp add: sample_put_def)
  from cache_first_write_wins [OF this, of empty_cache] show ?thesis
    by (simp add: empty_cache_def)
qed

text \<open>A conflicting write is refused with \<^verbatim>\<open>CACHE_KEY_COLLISION\<close> and changes nothing, even
  when the entry in its way has expired: only a lookup, an invalidation or a refresh removes it.\<close>

theorem cache_collision_refused:
  assumes "admitted policy p" "\<not> pr_refresh p"
    and "map_of (cs_backend s) (record_key (record_of policy p)) = Some old"
    and "cr_value_sha256 old \<noteq> pr_value_sha256 p"
  shows "cache_put policy p s = (Inl key_collision, s)"
  using assms by (simp add: cache_put_cases admitted_def backend_put_cases) (simp add: record_of_def)

theorem cache_collision_refused_witness:
  "\<exists>p s. cache_put (default_cache_policy ''p1'') p s = (Inl key_collision, s)"
proof -
  let ?old = "(record_of (default_cache_policy ''p1'') sample_put)\<lparr>cr_value_sha256 := []\<rparr>"
  let ?s = "empty_cache\<lparr>cs_backend := [(record_key (record_of (default_cache_policy ''p1'') sample_put), ?old)]\<rparr>"
  have valid: "valid_cache_record (record_of (default_cache_policy ''p1'') sample_put)"
    by (rule record_of_valid [OF cache_policy_valid sample_put_valid])
  then have "admitted (default_cache_policy ''p1'') sample_put"
    by (simp add: admitted_def sample_put_safe)
  moreover have "\<not> pr_refresh sample_put"
    by (simp add: sample_put_def)
  moreover have "map_of (cs_backend ?s) (record_key (record_of (default_cache_policy ''p1'') sample_put)) = Some ?old"
    by simp
  moreover have "cr_value_sha256 ?old \<noteq> pr_value_sha256 sample_put"
    using sample_put_valid by (auto simp: valid_put_request_def is_sha256_def)
  ultimately have "cache_put (default_cache_policy ''p1'') sample_put ?s = (Inl key_collision, ?s)"
    by (rule cache_collision_refused)
  then show ?thesis by blast
qed

text \<open>What is put can be got: after an accepted put on a free key (or with refresh), a lookup
  for the same scope, class, key and versions before the class's time to live returns it.\<close>

theorem cache_put_get:
  assumes "valid_cache_policy policy" "valid_put_request p" "validate_put policy p = Inr ()"
    and "pr_refresh p \<or> map_of (cs_backend s) (record_key (record_of policy p)) = None"
    and "gq_scope q = pr_scope p" "gq_cache_class q = pr_cache_class p" "gq_cache_key_sha256 q = pr_cache_key_sha256 p"
    and "gq_current_version_manifest q = pr_version_manifest p" "\<not> gq_current_information_required q"
    and "dt_us (gq_now q) < dt_us (pr_created_at p) + ttl policy (pr_cache_class p) * 1000000"
  shows "outcome (cache_get q) (final (cache_put policy p) s) = Inr (Some (record_of policy p))"
proof -
  have key: "request_key q = record_key (record_of policy p)"
    using assms by (simp add: record_key_def record_of_def)
  have fresh: "fresh_for q (record_of policy p)"
    using assms by (simp add: fresh_for_def record_of_def valid_put_request_def manifest_ok_def)
  have put: "cs_backend (final (cache_put policy p) s) =
      AList.update (record_key (record_of policy p)) (record_of policy p) (cs_backend s)"
    using assms(3,4) record_of_valid [OF assms(1,2)]
    by (auto simp: final_def cache_put_cases backend_put_cases split: option.split)
  show ?thesis
    using assms(9) fresh by (simp add: outcome_def cache_get_cases key put)
qed

theorem cache_put_get_witness:
  "outcome (cache_get (sample_get 7)) (final (cache_put (default_cache_policy ''p1'') sample_put) empty_cache) =
     Inr (Some (record_of (default_cache_policy ''p1'') sample_put))"
  by (rule cache_put_get [OF cache_policy_valid sample_put_valid sample_put_safe])
    (simp_all add: empty_cache_def sample_put_def sample_get_def default_cache_policy_def utc_def dt_us_def)

text \<open>Invalidation is exact: in every reachable state, invalidating a version removes precisely the
  entries whose manifest has it, reports how many they were, and leaves the counters alone.\<close>

theorem cache_invalidate_exact:
  "let s = run_cache policy cs empty_cache; t = final (cache_invalidate n v) s in
     outcome (cache_invalidate n v) s = Inr (length (cs_backend s) - length (cs_backend t)) \<and>
     (\<forall>k r. map_of (cs_backend t) k = Some r \<longleftrightarrow> map_of (cs_backend s) k = Some r \<and> \<not> matches_version n v r) \<and>
     metrics t = metrics s"
proof -
  let ?s = "run_cache policy cs empty_cache"
  have d: "distinct (map fst (cs_backend ?s))"
    using cache_entries [of policy cs] by (simp add: entry_from_def distinct_keys_def)
  have "map_of (filter (\<lambda>kv. \<not> matches_version n v (snd kv)) (cs_backend ?s)) k = Some r \<longleftrightarrow>
      map_of (cs_backend ?s) k = Some r \<and> \<not> matches_version n v r" for k r
    using d by (simp add: map_of_eq_Some_iff distinct_map_filter)
  then show ?thesis
    using d sum_length_filter_compl [of "\<lambda>kv. matches_version n v (snd kv)" "cs_backend ?s"]
    by (simp add: Let_def outcome_def final_def cache_invalidate_cases distinct_keys_def metrics_def)
qed

end
