(* ===== verification/CacheKeys.thy ===== *)
theory CacheKeys
  imports Cache
begin

section \<open>Canonical cache keys\<close>

text \<open>
  \<^verbatim>\<open>cache/keys.py\<close>: the versions a key covers, the normalisation of the request text and the digests.
  Unicode NFKC is table data outside the sources, so it is the argument \<open>nfkc\<close> of the definitions; the
  other character tests are written out for the code points a \<^typ>\<open>char\<close> has. A raised
  \<^verbatim>\<open>ValueError\<close> is \<open>None\<close>.
\<close>

subsection \<open>Request text\<close>

text \<open>\<^verbatim>\<open>str.isspace\<close> and the categories \<^verbatim>\<open>C*\<close> below code point 256.\<close>

definition is_space :: "char \<Rightarrow> bool" where
  "is_space c = (let n = of_char c :: nat in
     9 \<le> n \<and> n \<le> 13 \<or> 28 \<le> n \<and> n \<le> 32 \<or> n = 133 \<or> n = 160)"

definition is_control :: "char \<Rightarrow> bool" where
  "is_control c = (let n = of_char c :: nat in n < 32 \<or> 127 \<le> n \<and> n \<le> 159 \<or> n = 173)"

lemma length_dropWhile_less_Suc [termination_simp]: "length (dropWhile P xs) < Suc (length xs)"
  by (simp add: length_dropWhile_le less_Suc_eq_le)

fun split_ws :: "string \<Rightarrow> string list" where
  "split_ws [] = []"
| "split_ws (c # cs) =
     (if is_space c then split_ws cs
      else (c # takeWhile (\<lambda>d. \<not> is_space d) cs) # split_ws (dropWhile (\<lambda>d. \<not> is_space d) cs))"

fun join_space :: "string list \<Rightarrow> string" where
  "join_space [] = []"
| "join_space [w] = w"
| "join_space (w # v # vs) = w @ CHR '' '' # join_space (v # vs)"

definition normalize_cache_request :: "(string \<Rightarrow> string) \<Rightarrow> string \<Rightarrow> string option" where
  "normalize_cache_request nfkc value = (let normalized = nfkc value in
     if list_ex (\<lambda>c. is_control c \<and> \<not> is_space c) normalized then None
     else let collapsed = join_space (split_ws normalized) in
       if collapsed = [] then None else Some collapsed)"

subsection \<open>Versions and inputs\<close>

record cache_key_versions =
  kv_rbac_policy_version :: string
  kv_route_policy_version :: string
  kv_graph_version :: string
  kv_model_version :: string
  kv_prompt_versions :: "(string \<times> string) list"
  kv_skill_versions :: "(string \<times> string) list"
  kv_tool_name :: string
  kv_tool_version :: string
  kv_adapter_version :: string
  kv_knowledge_corpus_version :: string
  kv_knowledge_document_versions :: "(string \<times> string) list"
  kv_public_schema_version :: string
  kv_parser_version :: string
  kv_context_policy_version :: string

definition version_map_ok :: "(string \<times> string) list \<Rightarrow> bool" where
  "version_map_ok m = (distinct_keys m \<and> 1 \<le> length m \<and> length m \<le> 32 \<and>
     \<not> list_ex (\<lambda>kv. fst kv = [] \<or> snd kv = []) m)"

definition valid_versions :: "cache_key_versions \<Rightarrow> bool" where
  "valid_versions v = (text_len 1 128 (kv_rbac_policy_version v) \<and> text_len 1 128 (kv_route_policy_version v) \<and>
     text_len 1 128 (kv_graph_version v) \<and> text_len 1 128 (kv_model_version v) \<and>
     version_map_ok (kv_prompt_versions v) \<and> version_map_ok (kv_skill_versions v) \<and>
     text_len 1 128 (kv_tool_name v) \<and> text_len 1 128 (kv_tool_version v) \<and>
     text_len 1 128 (kv_adapter_version v) \<and> text_len 1 128 (kv_knowledge_corpus_version v) \<and>
     version_map_ok (kv_knowledge_document_versions v) \<and> text_len 1 128 (kv_public_schema_version v) \<and>
     text_len 1 128 (kv_parser_version v) \<and> text_len 1 128 (kv_context_policy_version v))"

definition json_map :: "(string \<times> string) list \<Rightarrow> json" where
  "json_map m = JObj (map (\<lambda>kv. (fst kv, JStr (snd kv))) m)"

definition dump_versions :: "cache_key_versions \<Rightarrow> json" where
  "dump_versions v = JObj
    [(''schema_version'', JStr ''1.0.0''),
     (''rbac_policy_version'', JStr (kv_rbac_policy_version v)),
     (''route_policy_version'', JStr (kv_route_policy_version v)),
     (''graph_version'', JStr (kv_graph_version v)),
     (''model_version'', JStr (kv_model_version v)),
     (''prompt_versions'', json_map (kv_prompt_versions v)),
     (''skill_versions'', json_map (kv_skill_versions v)),
     (''tool_name'', JStr (kv_tool_name v)),
     (''tool_version'', JStr (kv_tool_version v)),
     (''adapter_version'', JStr (kv_adapter_version v)),
     (''knowledge_corpus_version'', JStr (kv_knowledge_corpus_version v)),
     (''knowledge_document_versions'', json_map (kv_knowledge_document_versions v)),
     (''public_schema_version'', JStr (kv_public_schema_version v)),
     (''parser_version'', JStr (kv_parser_version v)),
     (''context_policy_version'', JStr (kv_context_policy_version v))]"

record cache_key_input =
  ki_scope :: tenant_scope
  ki_cache_class :: cache_class
  ki_request_text :: string
  ki_task_type :: string
  ki_request_parameters :: "(string \<times> json) list"
  ki_versions :: cache_key_versions
  ki_extra_dimensions :: "(string \<times> string) list"

definition valid_key_input :: "(string \<Rightarrow> string) \<Rightarrow> cache_key_input \<Rightarrow> bool" where
  "valid_key_input nfkc x = (valid_scope (ki_scope x) \<and> text_len 1 32000 (ki_request_text x) \<and>
     text_len 1 128 (ki_task_type x) \<and> json_wf (JObj (ki_request_parameters x)) \<and>
     distinct_keys (ki_request_parameters x) \<and> valid_versions (ki_versions x) \<and>
     distinct_keys (ki_extra_dimensions x) \<and> length (ki_extra_dimensions x) \<le> 16 \<and>
     distinct (ts_role_codes (ki_scope x)) \<and>
     \<not> list_ex (\<lambda>kv. fst kv = [] \<or> snd kv = []) (ki_extra_dimensions x) \<and>
     normalize_cache_request nfkc (ki_request_text x) \<noteq> None)"

record cache_key_result =
  kr_cache_key_sha256 :: string
  kr_authorization_sha256 :: string
  kr_normalized_request_sha256 :: string
  kr_version_manifest :: "(string \<times> string) list"

definition valid_key_result :: "cache_key_result \<Rightarrow> bool" where
  "valid_key_result r = (is_sha256 (kr_cache_key_sha256 r) \<and> is_sha256 (kr_authorization_sha256 r) \<and>
     is_sha256 (kr_normalized_request_sha256 r) \<and> manifest_ok (kr_version_manifest r))"

subsection \<open>Building a key\<close>

definition mapping_hash :: "(string \<times> string) list \<Rightarrow> string" where
  "mapping_hash m = sha256_hex (canonical_json_bytes (json_map m))"

definition authorization_payload :: "tenant_scope \<Rightarrow> string \<Rightarrow> json" where
  "authorization_payload scope rbac = JObj
    [(''tenant_id'', JStr (str_uuid (ts_tenant_id scope))),
     (''project_id'', JStr (str_uuid (ts_project_id scope))),
     (''user_id'', JStr (str_uuid (ts_user_id scope))),
     (''role_codes'', JArr (map JStr (sort (ts_role_codes scope)))),
     (''permission_version'', JStr (ts_permission_version scope)),
     (''rbac_policy_version'', JStr rbac)]"

definition cache_authorization_sha256 :: "tenant_scope \<Rightarrow> string \<Rightarrow> string" where
  "cache_authorization_sha256 scope rbac = sha256_hex (canonical_json_bytes (authorization_payload scope rbac))"

definition cache_version_manifest :: "cache_key_versions \<Rightarrow> (string \<times> string) list" where
  "cache_version_manifest v =
    [(''rbac_policy'', kv_rbac_policy_version v),
     (''route_policy'', kv_route_policy_version v),
     (''graph'', kv_graph_version v),
     (''model'', kv_model_version v),
     (''prompts'', mapping_hash (kv_prompt_versions v)),
     (''skills'', mapping_hash (kv_skill_versions v)),
     (''tool'', kv_tool_name v @ ''@'' @ kv_tool_version v),
     (''adapter'', kv_adapter_version v),
     (''knowledge_corpus'', kv_knowledge_corpus_version v),
     (''knowledge_documents'', mapping_hash (kv_knowledge_document_versions v)),
     (''schema'', kv_public_schema_version v),
     (''parser'', kv_parser_version v),
     (''context_policy'', kv_context_policy_version v)]"

definition key_payload :: "cache_key_input \<Rightarrow> string \<Rightarrow> json" where
  "key_payload x normalized = JObj
    [(''schema_version'', JStr ''1.0.0''),
     (''authorization_sha256'',
        JStr (cache_authorization_sha256 (ki_scope x) (kv_rbac_policy_version (ki_versions x)))),
     (''cache_class'', JStr (cache_class_value (ki_cache_class x))),
     (''normalized_request'', JStr normalized),
     (''task_type'', JStr (ki_task_type x)),
     (''request_parameters'', JObj (ki_request_parameters x)),
     (''versions'', dump_versions (ki_versions x)),
     (''extra_dimensions'', json_map (ki_extra_dimensions x))]"

definition build_cache_key :: "(string \<Rightarrow> string) \<Rightarrow> cache_key_input \<Rightarrow> cache_key_result option" where
  "build_cache_key nfkc x =
     (case normalize_cache_request nfkc (ki_request_text x) of
        None \<Rightarrow> None
      | Some normalized \<Rightarrow>
          (let r = \<lparr>kr_cache_key_sha256 = sha256_hex (canonical_json_bytes (key_payload x normalized)),
                    kr_authorization_sha256 =
                      cache_authorization_sha256 (ki_scope x) (kv_rbac_policy_version (ki_versions x)),
                    kr_normalized_request_sha256 = sha256_hex (concat (map utf8 normalized)),
                    kr_version_manifest = cache_version_manifest (ki_versions x)\<rparr>
           in if valid_key_result r then Some r else None))"

subsection \<open>Normalised request text\<close>

text \<open>The collapsed text has no leading, trailing or double space and only plain spaces: collapsing it
  again changes nothing.\<close>

definition word_ok :: "string \<Rightarrow> bool" where
  "word_ok w = (w \<noteq> [] \<and> list_all (\<lambda>c. \<not> is_space c) w)"

lemma word_ok_Cons: "word_ok (c # w) \<longleftrightarrow> \<not> is_space c \<and> (\<forall>d \<in> set w. \<not> is_space d)"
  by (auto simp: word_ok_def list_all_iff)

lemma split_ws_words: "list_all word_ok (split_ws s)"
proof (induction s rule: split_ws.induct)
  case (2 c cs)
  have "word_ok (c # takeWhile (\<lambda>d. \<not> is_space d) cs)" if "\<not> is_space c"
    using that unfolding word_ok_Cons by (metis set_takeWhileD)
  with 2 show ?case by simp
qed simp

lemma space_is_space [simp]: "is_space (CHR '' '')"
  by (simp add: is_space_def)

lemma split_ws_word: "word_ok w \<Longrightarrow> split_ws (w @ CHR '' '' # s) = w # split_ws s"
  by (cases w) (simp_all add: word_ok_Cons takeWhile_append2 dropWhile_append2, simp add: word_ok_def)

lemma split_ws_single: "word_ok w \<Longrightarrow> split_ws w = [w]"
proof (cases w)
  case (Cons c v)
  moreover assume "word_ok w"
  ultimately have "takeWhile (\<lambda>d. \<not> is_space d) v = v" "dropWhile (\<lambda>d. \<not> is_space d) v = []" "\<not> is_space c"
    by (simp_all add: word_ok_Cons)
  then show ?thesis
    unfolding Cons split_ws.simps(2) by (simp only: split_ws.simps(1) if_False)
qed (simp add: word_ok_def)

lemma split_join: "list_all word_ok ws \<Longrightarrow> split_ws (join_space ws) = ws"
  by (induction ws rule: join_space.induct) (auto simp: split_ws_word split_ws_single)

lemma join_split_idempotent: "join_space (split_ws (join_space (split_ws s))) = join_space (split_ws s)"
  by (simp add: split_join [OF split_ws_words])

subsection \<open>Canonical texts do not depend on the order of keys\<close>

lemma dumps_norm: "dumps a (json_norm j) = dumps a j"
proof (induction j)
  case (JArr xs)
  then have "map (dumps a \<circ> json_norm) xs = map (dumps a) xs"
    by simp
  then show ?case by (simp del: map_eq_conv)
next
  case (JObj kvs)
  define g where "g = (\<lambda>kv :: string \<times> json. (fst kv, dumps a (json_norm (snd kv))))"
  have sorted_g: "sort_key fst (map g xs) = map g (sort_key fst xs)" for xs
    unfolding g_def by (rule sort_key_fst_map)
  have "map (\<lambda>kv. (fst kv, dumps a (snd kv))) (sort_key fst (map (\<lambda>kv. (fst kv, json_norm (snd kv))) kvs)) =
      map g (sort_key fst kvs)"
    unfolding sort_key_fst_map g_def by simp
  moreover have "map g kvs = map (\<lambda>kv. (fst kv, dumps a (snd kv))) kvs"
    unfolding g_def using JObj by (intro map_cong) (auto simp: snds.simps)
  moreover have "sort_key fst (map g (sort_key fst kvs)) = sort_key fst (map g kvs)"
    unfolding sorted_g by (simp add: sort_key_id_if_sorted)
  ultimately show ?case
    by (simp only: json_norm.simps dumps.simps)
qed simp_all

lemma dumps_eq_iff:
  "json_wf j \<Longrightarrow> json_wf j' \<Longrightarrow> dumps a j = dumps a j' \<longleftrightarrow> json_norm j = json_norm j'"
  by (metis dumps_inject dumps_norm)

text \<open>The digest of canonical bytes identifies the value up to key order, or the two texts collide.\<close>

lemma canonical_bytes_digest:
  assumes "json_wf j" "json_wf j'" "sha256_hex (canonical_json_bytes j) = sha256_hex (canonical_json_bytes j')"
  shows "json_norm j = json_norm j' \<or> sha_collision (canonical_json_bytes j) (canonical_json_bytes j')"
  using assms dumps_inject [of j j' False] by (auto simp: canonical_json_bytes_def sha_collision_def)

lemma json_wf_json_map [simp]: "json_wf (json_map m)"
  by (simp add: json_map_def list_all_iff)

lemma map_option_JStr_inject [simp]: "map_option JStr x = map_option JStr y \<longleftrightarrow> x = y"
  by (cases x; cases y) auto

lemma map_of_map_JStr: "map_of (map (\<lambda>kv. (fst kv, JStr (snd kv))) m) k = map_option JStr (map_of m k)"
  by (induction m) auto

lemma sort_key_fst_eq_iff:
  assumes "distinct (map fst (a :: (string \<times> 'v) list))" "distinct (map fst b)"
  shows "sort_key fst a = sort_key fst b \<longleftrightarrow> map_of a = map_of b"
proof
  have m: "map_of (sort_key fst xs) = map_of xs" if "distinct (map fst xs)" for xs :: "(string \<times> 'v) list"
    using that by (intro map_of_inject_set [THEN iffD2]) auto
  show "map_of a = map_of b" if "sort_key fst a = sort_key fst b"
    using m [OF assms(1)] m [OF assms(2)] that by simp
  show "sort_key fst a = sort_key fst b" if "map_of a = map_of b"
  proof (rule map_sorted_distinct_set_unique [where f = fst])
    have "set a = set b"
      using that map_of_inject_set [OF assms] by simp
    then show "set (sort_key fst a) = set (sort_key fst b)"
      by simp
    show "inj_on fst (set (sort_key fst a) \<union> set (sort_key fst b))"
      using assms \<open>set a = set b\<close> by (simp add: distinct_map)
  qed (use assms in \<open>simp_all add: distinct_map\<close>)
qed

lemma json_norm_json_map:
  assumes "distinct_keys m" "distinct_keys m'"
  shows "json_norm (json_map m) = json_norm (json_map m') \<longleftrightarrow> map_of m = map_of m'"
proof -
  have "json_norm (json_map x) = JObj (sort_key fst (map (\<lambda>kv. (fst kv, JStr (snd kv))) x))" for x
    by (simp add: json_map_def comp_def)
  moreover have d: "distinct (map fst (map (\<lambda>kv. (fst kv, JStr (snd kv))) x))" if "distinct_keys x" for x
    using that by (simp add: distinct_keys_def comp_def)
  moreover have "map_of (map (\<lambda>kv. (fst kv, JStr (snd kv))) m) = map_of (map (\<lambda>kv. (fst kv, JStr (snd kv))) m') \<longleftrightarrow>
      map_of m = map_of m'"
    by (simp add: fun_eq_iff map_of_map_JStr)
  ultimately show ?thesis
    using sort_key_fst_eq_iff [OF d [OF assms(1)] d [OF assms(2)]] by (simp only: json.inject)
qed

subsection \<open>What a key covers\<close>

text \<open>Two inputs ask the same question, in the same versions and dimensions, up to the order of mappings.\<close>

definition same_versions :: "cache_key_versions \<Rightarrow> cache_key_versions \<Rightarrow> bool" where
  "same_versions v w = (kv_rbac_policy_version v = kv_rbac_policy_version w \<and>
     kv_route_policy_version v = kv_route_policy_version w \<and> kv_graph_version v = kv_graph_version w \<and>
     kv_model_version v = kv_model_version w \<and> map_of (kv_prompt_versions v) = map_of (kv_prompt_versions w) \<and>
     map_of (kv_skill_versions v) = map_of (kv_skill_versions w) \<and> kv_tool_name v = kv_tool_name w \<and>
     kv_tool_version v = kv_tool_version w \<and> kv_adapter_version v = kv_adapter_version w \<and>
     kv_knowledge_corpus_version v = kv_knowledge_corpus_version w \<and>
     map_of (kv_knowledge_document_versions v) = map_of (kv_knowledge_document_versions w) \<and>
     kv_public_schema_version v = kv_public_schema_version w \<and> kv_parser_version v = kv_parser_version w \<and>
     kv_context_policy_version v = kv_context_policy_version w)"

definition same_request :: "(string \<Rightarrow> string) \<Rightarrow> cache_key_input \<Rightarrow> cache_key_input \<Rightarrow> bool" where
  "same_request nfkc x y = (ki_cache_class x = ki_cache_class y \<and>
     normalize_cache_request nfkc (ki_request_text x) = normalize_cache_request nfkc (ki_request_text y) \<and>
     ki_task_type x = ki_task_type y \<and>
     json_norm (JObj (ki_request_parameters x)) = json_norm (JObj (ki_request_parameters y)) \<and>
     same_versions (ki_versions x) (ki_versions y) \<and>
     map_of (ki_extra_dimensions x) = map_of (ki_extra_dimensions y))"

text \<open>The same caller: ids, permission version and set of roles, under the same RBAC policy.\<close>

definition same_authorization :: "cache_key_input \<Rightarrow> cache_key_input \<Rightarrow> bool" where
  "same_authorization x y = (let s = ki_scope x; t = ki_scope y in
     ts_tenant_id s = ts_tenant_id t \<and> ts_project_id s = ts_project_id t \<and> ts_user_id s = ts_user_id t \<and>
     set (ts_role_codes s) = set (ts_role_codes t) \<and> ts_permission_version s = ts_permission_version t \<and>
     kv_rbac_policy_version (ki_versions x) = kv_rbac_policy_version (ki_versions y))"

abbreviation authorization_text :: "cache_key_input \<Rightarrow> string" where
  "authorization_text x \<equiv>
     canonical_json_bytes (authorization_payload (ki_scope x) (kv_rbac_policy_version (ki_versions x)))"

definition key_text :: "(string \<Rightarrow> string) \<Rightarrow> cache_key_input \<Rightarrow> string" where
  "key_text nfkc x = canonical_json_bytes (key_payload x (the (normalize_cache_request nfkc (ki_request_text x))))"

lemma dump_versions_norm:
  assumes "valid_versions v" "valid_versions w"
  shows "json_norm (dump_versions v) = json_norm (dump_versions w) \<longleftrightarrow> same_versions v w"
proof -
  have maps: "distinct_keys (kv_prompt_versions u)" "distinct_keys (kv_skill_versions u)"
    "distinct_keys (kv_knowledge_document_versions u)" if "valid_versions u" for u
    using that by (simp_all add: valid_versions_def version_map_ok_def)
  show ?thesis
    unfolding dump_versions_def
    by (subst json_norm_same_keys)
      (simp_all add: same_versions_def json_norm_json_map maps assms conj_ac)
qed

lemma authorization_payload_norm:
  assumes "distinct (ts_role_codes s)" "distinct (ts_role_codes t)"
  shows "json_norm (authorization_payload s v) = json_norm (authorization_payload t w) \<longleftrightarrow>
    ts_tenant_id s = ts_tenant_id t \<and> ts_project_id s = ts_project_id t \<and> ts_user_id s = ts_user_id t \<and>
    set (ts_role_codes s) = set (ts_role_codes t) \<and> ts_permission_version s = ts_permission_version t \<and> v = w"
proof -
  have "sort (ts_role_codes s) = sort (ts_role_codes t) \<longleftrightarrow> set (ts_role_codes s) = set (ts_role_codes t)"
    using assms by (auto dest: arg_cong [where f = set] intro!: sorted_distinct_set_unique)
  moreover have "map (json_norm \<circ> JStr) xs = map JStr xs" for xs
    by simp
  ultimately show ?thesis
    unfolding authorization_payload_def by (subst json_norm_same_keys) (simp_all add: comp_def)
qed

lemma json_wf_payloads [simp]:
  "json_wf (authorization_payload s v)" "json_wf (dump_versions w)"
  "json_wf (JObj (ki_request_parameters x)) \<Longrightarrow> json_wf (key_payload x n)"
  by (simp_all add: authorization_payload_def dump_versions_def key_payload_def list_all_iff)

lemma cache_class_value_inject [simp]: "cache_class_value c = cache_class_value d \<longleftrightarrow> c = d"
  by (cases c; cases d) simp_all

lemma authorization_sha_iff:
  assumes "valid_key_input nfkc x" "valid_key_input nfkc y"
  shows "cache_authorization_sha256 (ki_scope x) (kv_rbac_policy_version (ki_versions x)) =
      cache_authorization_sha256 (ki_scope y) (kv_rbac_policy_version (ki_versions y)) \<longleftrightarrow>
    same_authorization x y \<or> sha_collision (authorization_text x) (authorization_text y)"
proof -
  have "authorization_text x = authorization_text y \<longleftrightarrow> same_authorization x y"
    using assms by (simp add: canonical_json_bytes_def dumps_eq_iff authorization_payload_norm
        same_authorization_def valid_key_input_def Let_def)
  then show ?thesis
    unfolding cache_authorization_sha256_def sha_collision_def by metis
qed

lemma key_text_iff:
  assumes x: "valid_key_input nfkc x" and y: "valid_key_input nfkc y"
  shows "key_text nfkc x = key_text nfkc y \<longleftrightarrow>
    same_request nfkc x y \<and> (same_authorization x y \<or> sha_collision (authorization_text x) (authorization_text y))"
proof -
  obtain n m where n: "normalize_cache_request nfkc (ki_request_text x) = Some n"
      "normalize_cache_request nfkc (ki_request_text y) = Some m"
    using x y by (auto simp: valid_key_input_def)
  have wf: "json_wf (key_payload x n)" "json_wf (key_payload y m)"
    using x y by (simp_all add: valid_key_input_def)
  have fields: "distinct_keys (ki_extra_dimensions x)" "distinct_keys (ki_extra_dimensions y)"
      "valid_versions (ki_versions x)" "valid_versions (ki_versions y)"
    using x y by (simp_all add: valid_key_input_def)
  have "key_text nfkc x = key_text nfkc y \<longleftrightarrow> json_norm (key_payload x n) = json_norm (key_payload y m)"
    using dumps_eq_iff [OF wf] by (simp add: key_text_def n canonical_json_bytes_def)
  also have "\<dots> \<longleftrightarrow> same_request nfkc x y \<and>
      cache_authorization_sha256 (ki_scope x) (kv_rbac_policy_version (ki_versions x)) =
      cache_authorization_sha256 (ki_scope y) (kv_rbac_policy_version (ki_versions y))"
    unfolding key_payload_def
    by (subst json_norm_same_keys, simp, simp)
      (auto simp: same_request_def n json_norm_json_map dump_versions_norm fields simp del: json_norm.simps(2))
  finally show ?thesis
    unfolding authorization_sha_iff [OF x y] .
qed

lemma build_cache_key_total:
  assumes "valid_key_input nfkc x"
  shows "\<exists>r. build_cache_key nfkc x = Some r \<and> kr_cache_key_sha256 r = sha256_hex (key_text nfkc x)"
proof -
  obtain n where n: "normalize_cache_request nfkc (ki_request_text x) = Some n"
    using assms by (auto simp: valid_key_input_def)
  have "manifest_ok (cache_version_manifest (ki_versions x))"
    by (simp add: manifest_ok_def distinct_keys_def cache_version_manifest_def)
  then show ?thesis
    by (simp add: build_cache_key_def n Let_def valid_key_result_def cache_authorization_sha256_def key_text_def)
qed

text \<open>A normalised request is left alone when it is normalised again, as far as NFKC leaves it alone.\<close>

lemma set_join_space: "set (join_space ws) \<subseteq> insert (CHR '' '') (\<Union> (set ` set ws))"
  by (induction ws rule: join_space.induct) auto

lemma set_split_ws: "w \<in> set (split_ws s) \<Longrightarrow> set w \<subseteq> set s"
proof (induction s rule: split_ws.induct)
  case (2 c cs)
  have "set (takeWhile (\<lambda>d. \<not> is_space d) cs) \<subseteq> set cs" "set (dropWhile (\<lambda>d. \<not> is_space d) cs) \<subseteq> set cs"
    by (auto dest: set_takeWhileD set_dropWhileD)
  with 2 show ?case
    by (cases "is_space c") (simp_all, blast, elim disjE, simp add: subset_insertI2, blast)
qed simp

lemma normalize_idempotent:
  assumes "normalize_cache_request nfkc s = Some t" "nfkc t = t"
  shows "normalize_cache_request nfkc t = Some t"
proof -
  from assms(1) have t: "t = join_space (split_ws (nfkc s))" "t \<noteq> []"
    "\<not> list_ex (\<lambda>c. is_control c \<and> \<not> is_space c) (nfkc s)"
    by (auto simp: normalize_cache_request_def Let_def split: if_splits)
  have "c = CHR '' '' \<or> c \<in> set (nfkc s)" if "c \<in> set t" for c
    using that set_join_space [of "split_ws (nfkc s)"] set_split_ws unfolding t(1) by blast
  then have "\<not> list_ex (\<lambda>c. is_control c \<and> \<not> is_space c) t"
    using t(3) space_is_space unfolding list_ex_iff by blast
  then show ?thesis
    using assms(2) t by (simp add: normalize_cache_request_def Let_def join_split_idempotent)
qed

subsection \<open>Properties\<close>

definition key_versions :: "string \<Rightarrow> cache_key_versions" where
  "key_versions graph = \<lparr>kv_rbac_policy_version = ''r1'', kv_route_policy_version = ''p1'', kv_graph_version = graph,
     kv_model_version = ''m1'', kv_prompt_versions = [(''main'', ''1'')], kv_skill_versions = [(''ut'', ''2'')],
     kv_tool_name = ''none'', kv_tool_version = ''0'', kv_adapter_version = ''a1'', kv_knowledge_corpus_version = ''c1'',
     kv_knowledge_document_versions = [(''doc'', ''3'')], kv_public_schema_version = ''1.0.0'',
     kv_parser_version = ''x1'', kv_context_policy_version = ''t1''\<rparr>"

definition key_scope :: "string list \<Rightarrow> tenant_scope" where
  "key_scope roles = \<lparr>ts_tenant_id = 1, ts_project_id = 2, ts_user_id = 3, ts_role_codes = roles,
     ts_permission_version = ''v1''\<rparr>"

definition key_input :: "string list \<Rightarrow> string \<Rightarrow> string \<Rightarrow> cache_key_input" where
  "key_input roles request graph = \<lparr>ki_scope = key_scope roles, ki_cache_class = EXACT, ki_request_text = request,
     ki_task_type = ''qa'', ki_request_parameters = [], ki_versions = key_versions graph, ki_extra_dimensions = []\<rparr>"

lemma key_input_valid:
  assumes "text_len 1 128 graph" "roles \<noteq> []" "distinct roles" "text_len 1 32000 request"
    "normalize_cache_request nfkc request \<noteq> None"
  shows "valid_key_input nfkc (key_input roles request graph)"
  using assms by (simp add: valid_key_input_def key_input_def key_scope_def key_versions_def valid_scope_def
      valid_versions_def version_map_ok_def distinct_keys_def text_len_def)

text \<open>(C36) A cache key covers exactly the question and the caller: a valid input always has a key, and two valid
  inputs have the same key exactly when they have the same class, normalised request, task type,
  parameters, versions and dimensions (in any order) and the same tenant, project, user, set of roles,
  permission version and RBAC policy, except where the serialised texts themselves are a collision of SHA-256.\<close>

theorem cache_key_covers:
  assumes "valid_key_input nfkc x" "valid_key_input nfkc y"
  shows "\<exists>r t. build_cache_key nfkc x = Some r \<and> build_cache_key nfkc y = Some t \<and>
    (kr_cache_key_sha256 r = kr_cache_key_sha256 t \<longleftrightarrow>
       same_request nfkc x y \<and> (same_authorization x y \<or> sha_collision (authorization_text x) (authorization_text y)) \<or>
       sha_collision (key_text nfkc x) (key_text nfkc y))"
proof -
  obtain r t where rt: "build_cache_key nfkc x = Some r" "kr_cache_key_sha256 r = sha256_hex (key_text nfkc x)"
      "build_cache_key nfkc y = Some t" "kr_cache_key_sha256 t = sha256_hex (key_text nfkc y)"
    using build_cache_key_total [OF assms(1)] build_cache_key_total [OF assms(2)] by blast
  then have "kr_cache_key_sha256 r = kr_cache_key_sha256 t \<longleftrightarrow>
      key_text nfkc x = key_text nfkc y \<or> sha_collision (key_text nfkc x) (key_text nfkc y)"
    unfolding sha_collision_def by metis
  with rt show ?thesis
    unfolding key_text_iff [OF assms] by metis
qed

lemma sample_request_normal:
  "normalize_cache_request (\<lambda>s. s) ''wall thickness'' = Some ''wall thickness''"
  "normalize_cache_request (\<lambda>s. s) ''  wall   thickness '' = Some ''wall thickness''"
  by (simp_all add: normalize_cache_request_def is_space_def is_control_def Let_def)

theorem cache_key_covers_witness:
  "\<exists>r t. build_cache_key (\<lambda>s. s) (key_input [''a'', ''b''] ''wall thickness'' ''g1'') = Some r \<and>
     build_cache_key (\<lambda>s. s) (key_input [''b'', ''a''] ''  wall   thickness '' ''g1'') = Some t \<and>
     kr_cache_key_sha256 r = kr_cache_key_sha256 t"
proof -
  have valid: "valid_key_input (\<lambda>s. s) (key_input [''a'', ''b''] ''wall thickness'' ''g1'')"
    "valid_key_input (\<lambda>s. s) (key_input [''b'', ''a''] ''  wall   thickness '' ''g1'')"
    by (rule key_input_valid; simp add: text_len_def sample_request_normal)+
  have "same_request (\<lambda>s. s) (key_input [''a'', ''b''] ''wall thickness'' ''g1'')
      (key_input [''b'', ''a''] ''  wall   thickness '' ''g1'')"
    by (simp add: same_request_def same_versions_def key_input_def sample_request_normal)
  moreover have "same_authorization (key_input [''a'', ''b''] ''wall thickness'' ''g1'')
      (key_input [''b'', ''a''] ''  wall   thickness '' ''g1'')"
    by (auto simp: same_authorization_def key_input_def key_scope_def)
  ultimately show ?thesis
    using cache_key_covers [OF valid] by blast
qed

end
