(* ===== verification/Memory.thy ===== *)
theory Memory
  imports HashChain Complex_Main "HOL-Library.Product_Lexorder"
begin

section \<open>The scoped memory store\<close>

text \<open>
  \<^verbatim>\<open>memory/models.py\<close> and \<^verbatim>\<open>memory/store.py\<close>: records, access and queries with their validators,
  the in-memory repository and the three operations of \<^verbatim>\<open>MemoryStore\<close>. The repository dict is the state;
  each operation awaits the repository once, under its lock, so it acts on the state in one step and a concurrent
  run is a sequence of operations. Confidence is the exact rational value of a Python float.
\<close>

subsection \<open>Models\<close>

datatype memory_approval_state = MEM_CANDIDATE | MEM_APPROVED | MEM_REJECTED | MEM_EXPIRED

definition namespace_ok :: "string \<Rightarrow> bool" where
  "namespace_ok s = (text_len 1 128 s \<and> list_all (\<lambda>c. is_alnum c \<or> c \<in> set ''._:-'') s)"

record scoped_memory_record =
  mr_memory_id :: uuid
  mr_scope :: tenant_scope
  mr_memory_scope :: memory_scope
  mr_namespace_id :: string
  mr_content :: "(string \<times> json) list"
  mr_content_sha256 :: string
  mr_provenance_ids :: "uuid list"
  mr_confidence :: rat
  mr_classification :: data_classification
  mr_approval_state :: memory_approval_state
  mr_protected :: bool
  mr_source_version :: string
  mr_expires_at :: "datetime option"
  mr_created_at :: datetime

definition memory_content_sha256 :: "(string \<times> json) list \<Rightarrow> string" where
  "memory_content_sha256 content = sha256_hex (canonical_json_bytes (JObj content))"

definition valid_memory_record :: "scoped_memory_record \<Rightarrow> bool" where
  "valid_memory_record r = (valid_scope (mr_scope r) \<and> namespace_ok (mr_namespace_id r) \<and>
     json_wf (JObj (mr_content r)) \<and> distinct_keys (mr_content r) \<and> is_sha256 (mr_content_sha256 r) \<and>
     1 \<le> length (mr_provenance_ids r) \<and> length (mr_provenance_ids r) \<le> 100 \<and>
     0 \<le> mr_confidence r \<and> mr_confidence r \<le> 1 \<and> text_len 1 128 (mr_source_version r) \<and>
     memory_content_sha256 (mr_content r) = mr_content_sha256 r \<and> distinct (mr_provenance_ids r) \<and>
     is_aware (mr_created_at r) \<and>
     opt_all (\<lambda>e. is_aware e \<and> \<not> dt_us e \<le> dt_us (mr_created_at r)) (mr_expires_at r) \<and>
     \<not> (mr_memory_scope r = AUDIT \<and> mr_approval_state r \<noteq> MEM_APPROVED))"

record memory_access =
  ma_scope :: tenant_scope
  ma_permissions :: "string list"
  ma_clearance :: data_classification

definition valid_access :: "memory_access \<Rightarrow> bool" where
  "valid_access a = (valid_scope (ma_scope a) \<and> length (ma_permissions a) \<le> 64 \<and> distinct (ma_permissions a))"

record memory_query =
  mq_access :: memory_access
  mq_memory_scope :: memory_scope
  mq_namespace_id :: string
  mq_include_candidates :: bool
  mq_limit :: int
  mq_now :: datetime

definition valid_query :: "memory_query \<Rightarrow> bool" where
  "valid_query q = (valid_access (mq_access q) \<and> namespace_ok (mq_namespace_id q) \<and>
     1 \<le> mq_limit q \<and> mq_limit q \<le> 500 \<and> is_aware (mq_now q))"

subsection \<open>Authorization and visibility\<close>

fun classification_rank :: "data_classification \<Rightarrow> nat" where
  "classification_rank PUBLIC = 0"
| "classification_rank INTERNAL = 1"
| "classification_rank CONFIDENTIAL = 2"
| "classification_rank RESTRICTED = 3"

text \<open>\<^verbatim>\<open>memory_scope.value.lower()\<close>.\<close>

fun memory_scope_lower :: "memory_scope \<Rightarrow> string" where
  "memory_scope_lower RUNTIME = ''runtime''"
| "memory_scope_lower SESSION = ''session''"
| "memory_scope_lower USER = ''user''"
| "memory_scope_lower PROJECT = ''project''"
| "memory_scope_lower AUDIT = ''audit''"

definition memory_permission :: "memory_scope \<Rightarrow> string \<Rightarrow> string" where
  "memory_permission memory_scope action = ''memory:'' @ memory_scope_lower memory_scope @ '':'' @ action"

definition authorize_memory :: "memory_access \<Rightarrow> memory_scope \<Rightarrow> string \<Rightarrow> fault + unit" where
  "authorize_memory access memory_scope action = (let permission = memory_permission memory_scope action in
     if permission \<notin> set (ma_permissions access) then
       Inl (Fault ''MEMORY_PERMISSION_DENIED'' ''The requested memory operation is not authorized.''
         (''Request the '' @ permission @ '' permission for the active scope.''))
     else Inr ())"

definition record_visible :: "tenant_scope \<Rightarrow> tenant_scope \<Rightarrow> memory_scope \<Rightarrow> bool" where
  "record_visible active stored memory_scope =
     (if \<not> (ts_tenant_id active = ts_tenant_id stored \<and> ts_project_id active = ts_project_id stored \<and>
            ts_permission_version active = ts_permission_version stored) then False
      else if memory_scope \<in> {PROJECT, AUDIT} then True
      else ts_user_id active = ts_user_id stored)"

definition included :: "scoped_memory_record \<Rightarrow> memory_query \<Rightarrow> bool" where
  "included r q =
     (if (case mr_expires_at r of None \<Rightarrow> False | Some e \<Rightarrow> dt_us e \<le> dt_us (mq_now q)) then False
      else if mr_approval_state r \<in> {MEM_REJECTED, MEM_EXPIRED} then False
      else if mr_approval_state r = MEM_CANDIDATE \<and> \<not> mq_include_candidates q then False
      else True)"

definition memory_scope_denied :: fault where
  "memory_scope_denied = Fault ''MEMORY_SCOPE_DENIED'' ''The memory record is outside the active scope.''
     ''Use memory authorized for the exact tenant, project, user, and permission version.''"

subsection \<open>The repository\<close>

type_synonym memory_repo = "(uuid \<times> scoped_memory_record) list"
type_synonym 'a remembering = "(memory_repo, fault, 'a) prog"

definition immutable_conflict :: fault where
  "immutable_conflict = Fault ''MEMORY_IMMUTABLE_CONFLICT'' ''The immutable memory ID already exists.''
     ''Use the existing record or create a new memory version.''"

definition memory_insert :: "scoped_memory_record \<Rightarrow> unit remembering" where
  "memory_insert r = bindP (gets (\<lambda>d. mr_memory_id r \<in> fst ` set d)) (\<lambda>exists.
     if exists then raise immutable_conflict else modify (AList.update (mr_memory_id r) r))"

definition memory_lookup :: "uuid \<Rightarrow> scoped_memory_record option remembering" where
  "memory_lookup i = gets (\<lambda>d. map_of d i)"

definition memory_scan :: "scoped_memory_record list remembering" where
  "memory_scan = gets (map snd)"

subsection \<open>The store\<close>

definition memory_put :: "memory_access \<Rightarrow> scoped_memory_record \<Rightarrow> unit remembering" where
  "memory_put access r =
     thenP (lift_pure (authorize_memory access (mr_memory_scope r) ''write''))
       (if \<not> record_visible (ma_scope access) (mr_scope r) (mr_memory_scope r) then raise memory_scope_denied
        else if classification_rank (ma_clearance access) < classification_rank (mr_classification r) then
          raise (Fault ''MEMORY_CLASSIFICATION_DENIED'' ''The memory classification exceeds the active clearance.''
            ''Use an authorized actor with sufficient clearance.'')
        else memory_insert r)"

definition memory_get :: "memory_access \<Rightarrow> uuid \<Rightarrow> datetime \<Rightarrow> scoped_memory_record option remembering" where
  "memory_get access i now = bindP (memory_lookup i) (\<lambda>found. case found of
     None \<Rightarrow> ret None
   | Some r \<Rightarrow>
       thenP (lift_pure (authorize_memory access (mr_memory_scope r) ''read''))
         (if \<not> record_visible (ma_scope access) (mr_scope r) (mr_memory_scope r) then raise memory_scope_denied
          else let q = \<lparr>mq_access = access, mq_memory_scope = mr_memory_scope r,
                        mq_namespace_id = mr_namespace_id r, mq_include_candidates = True,
                        mq_limit = 1, mq_now = now\<rparr>
            in if \<not> valid_query q then raise ValidationError
               else ret (if included r q then Some r else None)))"

definition selected :: "memory_query \<Rightarrow> scoped_memory_record \<Rightarrow> bool" where
  "selected q r = (mr_memory_scope r = mq_memory_scope q \<and> mr_namespace_id r = mq_namespace_id q \<and>
     record_visible (ma_scope (mq_access q)) (mr_scope r) (mr_memory_scope r) \<and>
     classification_rank (mr_classification r) \<le> classification_rank (ma_clearance (mq_access q)) \<and>
     included r q)"

definition memory_order :: "scoped_memory_record \<Rightarrow> int \<times> string" where
  "memory_order r = (dt_us (mr_created_at r), str_uuid (mr_memory_id r))"

definition query_memory :: "memory_query \<Rightarrow> scoped_memory_record list remembering" where
  "query_memory q =
     thenP (lift_pure (authorize_memory (mq_access q) (mq_memory_scope q) ''read''))
       (if mq_include_candidates q \<and> ''memory:candidate:read'' \<notin> set (ma_permissions (mq_access q)) then
          raise (Fault ''MEMORY_CANDIDATE_DENIED'' ''Candidate memory access is not authorized.''
            ''Request the memory:candidate:read permission.'')
        else bindP memory_scan (\<lambda>records.
          ret (take (nat (mq_limit q)) (sort_key memory_order (filter (selected q) records)))))"

subsection \<open>Operations, rule by rule\<close>

lemma memory_insert_cases:
  "memory_insert r d = (case map_of d (mr_memory_id r) of
     None \<Rightarrow> (Inr (), AList.update (mr_memory_id r) r d) | Some _ \<Rightarrow> (Inl immutable_conflict, d))"
  by (simp add: memory_insert_def bindP_def dom_map_of_conv_image_fst [symmetric] dom_def split: option.split)

interpretation memory_repo: write_once_store mr_memory_id map_of memory_insert "\<lambda>_ _. False"
  by unfold_locales (auto simp: memory_insert_cases)

lemma authorize_memory_iff:
  "authorize_memory access ms action = Inr () \<longleftrightarrow> memory_permission ms action \<in> set (ma_permissions access)"
  by (simp add: authorize_memory_def Let_def)

text \<open>The writes the store lets through to the repository.\<close>

definition may_put :: "memory_access \<Rightarrow> scoped_memory_record \<Rightarrow> bool" where
  "may_put access r = (memory_permission (mr_memory_scope r) ''write'' \<in> set (ma_permissions access) \<and>
     record_visible (ma_scope access) (mr_scope r) (mr_memory_scope r) \<and>
     classification_rank (mr_classification r) \<le> classification_rank (ma_clearance access))"

lemma memory_put_allowed: "may_put access r \<Longrightarrow> memory_put access r = memory_insert r"
  by (simp add: memory_put_def may_put_def authorize_memory_def Let_def thenP_def bindP_def fun_eq_iff)

lemma memory_put_refused: "\<not> may_put access r \<Longrightarrow> \<exists>e. memory_put access r d = (Inl e, d)"
  by (auto simp: memory_put_def may_put_def authorize_memory_def Let_def thenP_def bindP_def)

lemma memory_get_cases:
  "memory_get access i now d =
     (case map_of d i of None \<Rightarrow> (Inr None, d) | Some r \<Rightarrow>
       (case authorize_memory access (mr_memory_scope r) ''read'' of Inl e \<Rightarrow> (Inl e, d) | Inr _ \<Rightarrow>
         if \<not> record_visible (ma_scope access) (mr_scope r) (mr_memory_scope r) then (Inl memory_scope_denied, d)
         else let q = \<lparr>mq_access = access, mq_memory_scope = mr_memory_scope r,
                       mq_namespace_id = mr_namespace_id r, mq_include_candidates = True,
                       mq_limit = 1, mq_now = now\<rparr>
           in if \<not> valid_query q then (Inl ValidationError, d)
              else (Inr (if included r q then Some r else None), d)))"
  by (auto simp: memory_get_def memory_lookup_def bindP_def thenP_def Let_def split: option.split sum.split)

lemma query_memory_cases:
  "query_memory q d =
     (case authorize_memory (mq_access q) (mq_memory_scope q) ''read'' of Inl e \<Rightarrow> (Inl e, d) | Inr _ \<Rightarrow>
       if mq_include_candidates q \<and> ''memory:candidate:read'' \<notin> set (ma_permissions (mq_access q)) then
         (Inl (Fault ''MEMORY_CANDIDATE_DENIED'' ''Candidate memory access is not authorized.''
            ''Request the memory:candidate:read permission.''), d)
       else (Inr (take (nat (mq_limit q)) (sort_key memory_order (filter (selected q) (map snd d)))), d))"
  by (auto simp: query_memory_def memory_scan_def bindP_def thenP_def split: sum.split)

end
