(* ===== verification/MemoryProperties.thy ===== *)
theory MemoryProperties
  imports Memory
begin

section \<open>What the memory store guarantees\<close>

text \<open>
  Any sequence of puts, gets and queries from the empty repository: what is stored comes from an authorised
  put and is never replaced; a read stays inside the reader's scope; a query returns the first records,
  by creation time and identifier, of exactly those the reader may see. The last property states what
  \<^verbatim>\<open>get\<close> does not check.
\<close>

datatype memory_call =
    MemPut memory_access scoped_memory_record
  | MemGet memory_access uuid datetime
  | MemQuery memory_query

fun memory_call_state :: "memory_call \<Rightarrow> memory_repo \<Rightarrow> memory_repo" where
  "memory_call_state (MemPut a r) d = final (memory_put a r) d"
| "memory_call_state (MemGet a i t) d = final (memory_get a i t) d"
| "memory_call_state (MemQuery q) d = final (query_memory q) d"

definition run_memory :: "memory_call list \<Rightarrow> memory_repo \<Rightarrow> memory_repo" where
  "run_memory cs d = fold memory_call_state cs d"

lemma reads_change_nothing [simp]:
  "final (memory_get a i t) d = d" "final (query_memory q) d = d"
  by (auto simp: final_def memory_get_cases query_memory_cases Let_def split: option.split sum.split)

lemma put_state: "final (memory_put a r) d = (if may_put a r then final (memory_insert r) d else d)"
  using memory_put_allowed memory_put_refused [of a r d] by (auto simp: final_def)

text \<open>Every record sits under its identifier and was put by a caller allowed to.\<close>

definition memory_inv :: "memory_call set \<Rightarrow> memory_repo \<Rightarrow> bool" where
  "memory_inv calls d = (distinct_keys d \<and>
     (\<forall>i r. map_of d i = Some r \<longrightarrow> i = mr_memory_id r \<and> (\<exists>a. MemPut a r \<in> calls \<and> may_put a r)))"

lemma memory_invD:
  "memory_inv calls d \<Longrightarrow> map_of d i = Some r \<Longrightarrow> i = mr_memory_id r \<and> (\<exists>a. MemPut a r \<in> calls \<and> may_put a r)"
  by (simp add: memory_inv_def)

lemma memory_inv_step:
  assumes "memory_inv calls d" "c \<in> calls"
  shows "memory_inv calls (memory_call_state c d)"
proof (cases c)
  case (MemPut a r)
  show ?thesis
  proof (cases "may_put a r \<and> map_of d (mr_memory_id r) = None")
    case True
    then have state: "memory_call_state c d = AList.update (mr_memory_id r) r d"
      using MemPut put_state [of a r d] by (simp add: final_def [of "memory_insert _"] memory_insert_cases)
    then show ?thesis
      using assms True MemPut unfolding memory_inv_def by (metis distinct_keys_update map_of_update option.inject)
  next
    case False
    then have "memory_call_state c d = d"
      using MemPut put_state [of a r d]
      by (auto simp: final_def [of "memory_insert _"] memory_insert_cases split: option.split)
    with assms show ?thesis by simp
  qed
qed (use assms in simp_all)

lemma memory_inv_run: "memory_inv calls d \<Longrightarrow> set cs \<subseteq> calls \<Longrightarrow> memory_inv calls (run_memory cs d)"
  unfolding run_memory_def by (induction cs arbitrary: d) (auto intro: memory_inv_step)

lemma memory_inv_empty [simp]: "memory_inv calls []"
  by (simp add: memory_inv_def)

lemmas memory_run_inv = memory_inv_run [OF memory_inv_empty order_refl]

lemma get_returns:
  "outcome (memory_get a i t) d = Inr (Some r) \<Longrightarrow>
     map_of d i = Some r \<and> memory_permission (mr_memory_scope r) ''read'' \<in> set (ma_permissions a) \<and>
     record_visible (ma_scope a) (mr_scope r) (mr_memory_scope r)"
  by (auto simp: outcome_def memory_get_cases Let_def authorize_memory_def split: option.splits sum.splits if_splits)

lemma query_returns:
  "outcome (query_memory q) d = Inr rs \<longleftrightarrow>
     memory_permission (mq_memory_scope q) ''read'' \<in> set (ma_permissions (mq_access q)) \<and>
     (mq_include_candidates q \<longrightarrow> ''memory:candidate:read'' \<in> set (ma_permissions (mq_access q))) \<and>
     rs = take (nat (mq_limit q)) (sort_key memory_order (filter (selected q) (map snd d)))"
  by (auto simp: outcome_def query_memory_cases authorize_memory_def Let_def split: sum.splits if_splits)

lemma query_members:
  assumes "distinct_keys d" "outcome (query_memory q) d = Inr rs" "r \<in> set rs"
  shows "\<exists>i. map_of d i = Some r \<and> selected q r"
proof -
  have "r \<in> set (filter (selected q) (map snd d))"
    using assms(2,3) set_take_subset by (fastforce simp: query_returns)
  then obtain i where "(i, r) \<in> set d" "selected q r"
    by auto
  then show ?thesis
    using assms(1) by (auto simp: distinct_keys_def)
qed

text \<open>The first elements of a sorted list: what is left out is not smaller, and only when the list is full.\<close>

lemma take_sort_key_rest:
  assumes "x \<in> set xs" "x \<notin> set (take n (sort_key f xs))"
  shows "length (take n (sort_key f xs)) = n \<and> (\<forall>y \<in> set (take n (sort_key f xs)). f y \<le> f x)"
proof -
  let ?ys = "sort_key f xs"
  have x: "x \<in> set (drop n ?ys)"
    using assms by (metis append_take_drop_id set_append set_sort Un_iff)
  have "sorted (map f (take n ?ys) @ map f (drop n ?ys))"
    by (simp flip: map_append)
  then have "\<forall>y \<in> set (take n ?ys). f y \<le> f x"
    using x by (simp add: sorted_append)
  moreover have "n < length ?ys"
    using x by (metis drop_eq_Nil empty_iff list.set(1) not_le)
  ultimately show ?thesis by simp
qed

subsection \<open>Sample records\<close>

definition memory_sample_scope :: tenant_scope where
  "memory_sample_scope = \<lparr>ts_tenant_id = 1, ts_project_id = 2, ts_user_id = 3, ts_role_codes = [''engineer''],
     ts_permission_version = ''v1''\<rparr>"

definition sample_memory :: "data_classification \<Rightarrow> memory_approval_state \<Rightarrow> scoped_memory_record" where
  "sample_memory c st = \<lparr>mr_memory_id = 7, mr_scope = memory_sample_scope, mr_memory_scope = PROJECT,
     mr_namespace_id = ''weld'', mr_content = [], mr_content_sha256 = memory_content_sha256 [],
     mr_provenance_ids = [1], mr_confidence = 1, mr_classification = c, mr_approval_state = st,
     mr_protected = False, mr_source_version = ''1'', mr_expires_at = None, mr_created_at = utc 0\<rparr>"

definition sample_access :: "data_classification \<Rightarrow> string list \<Rightarrow> memory_access" where
  "sample_access c ps = \<lparr>ma_scope = memory_sample_scope, ma_permissions = ps, ma_clearance = c\<rparr>"

definition sample_query :: "memory_access \<Rightarrow> memory_query" where
  "sample_query a = \<lparr>mq_access = a, mq_memory_scope = PROJECT, mq_namespace_id = ''weld'',
     mq_include_candidates = False, mq_limit = 10, mq_now = utc 5\<rparr>"

lemma sample_memory_valid: "valid_memory_record (sample_memory c st)"
  by (simp add: valid_memory_record_def sample_memory_def memory_sample_scope_def valid_scope_def text_len_def
      namespace_ok_def is_alnum_def is_lower_def distinct_keys_def is_aware_def utc_def memory_content_sha256_def)

lemma sample_may_put:
  "may_put (sample_access RESTRICTED [''memory:project:write'', ''memory:project:read'']) (sample_memory c st)"
  by (cases c) (simp_all add: may_put_def sample_access_def sample_memory_def memory_permission_def record_visible_def)

lemma sample_run:
  "run_memory [MemPut (sample_access RESTRICTED [''memory:project:write'', ''memory:project:read'']) (sample_memory c st)] [] =
     [(7, sample_memory c st)]"
  by (simp add: run_memory_def put_state sample_may_put) (simp add: final_def memory_insert_cases sample_memory_def)

subsection \<open>Properties\<close>

text \<open>(C9) Reads stay in scope: a record that a get or a query returns, after any calls, was put by a caller with
  write permission and sufficient clearance for its very tenant, project and permission version, and the
  reader has read permission for its memory scope and that same tenant, project and permission version; records
  that are not project or audit memory are only returned to the user they belong to.\<close>

theorem memory_reads_in_scope:
  assumes "outcome (memory_get a i now) (run_memory cs []) = Inr (Some r) \<or>
    (\<exists>q rs. mq_access q = a \<and> outcome (query_memory q) (run_memory cs []) = Inr rs \<and> r \<in> set rs)"
  shows "ts_tenant_id (ma_scope a) = ts_tenant_id (mr_scope r) \<and>
    ts_project_id (ma_scope a) = ts_project_id (mr_scope r) \<and>
    ts_permission_version (ma_scope a) = ts_permission_version (mr_scope r) \<and>
    (mr_memory_scope r \<in> {PROJECT, AUDIT} \<or> ts_user_id (ma_scope a) = ts_user_id (mr_scope r)) \<and>
    memory_permission (mr_memory_scope r) ''read'' \<in> set (ma_permissions a) \<and>
    (\<exists>w. MemPut w r \<in> set cs \<and> may_put w r)"
proof -
  let ?d = "run_memory cs []"
  have inv: "memory_inv (set cs) ?d"
    by (rule memory_run_inv)
  then have d: "distinct_keys ?d"
    by (simp add: memory_inv_def)
  have queried: "\<exists>j. map_of ?d j = Some r \<and> memory_permission (mr_memory_scope r) ''read'' \<in> set (ma_permissions a) \<and>
      record_visible (ma_scope a) (mr_scope r) (mr_memory_scope r)"
    if query: "mq_access q = a" "outcome (query_memory q) ?d = Inr rs" "r \<in> set rs" for q rs
  proof -
    obtain j where "map_of ?d j = Some r" and s: "selected q r"
      using query_members [OF d query(2,3)] by blast
    then show ?thesis
      using query(1,2) by (simp add: query_returns selected_def) metis
  qed
  from assms obtain j where r: "map_of ?d j = Some r"
      "memory_permission (mr_memory_scope r) ''read'' \<in> set (ma_permissions a)"
      "record_visible (ma_scope a) (mr_scope r) (mr_memory_scope r)"
    using get_returns queried by metis
  then show ?thesis
    using memory_invD [OF inv r(1)] by (auto simp: record_visible_def split: if_splits)
qed

theorem memory_reads_in_scope_witness:
  "\<exists>r a cs. outcome (memory_get a 7 (utc 5)) (run_memory cs []) = Inr (Some r) \<and>
     ts_tenant_id (ma_scope a) = ts_tenant_id (mr_scope r)"
proof -
  let ?a = "sample_access RESTRICTED [''memory:project:write'', ''memory:project:read'']"
  let ?r = "sample_memory INTERNAL MEM_APPROVED"
  have "outcome (memory_get ?a 7 (utc 5)) (run_memory [MemPut ?a ?r] []) = Inr (Some ?r)"
    by (simp add: sample_run outcome_def memory_get_cases authorize_memory_def memory_permission_def Let_def)
      (simp add: sample_access_def sample_memory_def memory_permission_def record_visible_def valid_query_def
        valid_access_def memory_sample_scope_def valid_scope_def text_len_def namespace_ok_def is_alnum_def
        is_lower_def is_aware_def utc_def included_def)
  then show ?thesis
    using memory_reads_in_scope [of ?a 7 "utc 5" "[MemPut ?a ?r]" ?r] by blast
qed

text \<open>A query returns the earliest of what the caller may see: after any calls, its answer is sorted by
  creation time and identifier and within the limit, holds no record twice, every record in it is stored and selected
  (scope, namespace, visibility, clearance, unexpired, approved or an allowed candidate), and a selected
  record is only left out when the answer is full of records that do not come after it.\<close>

theorem memory_query_exact:
  assumes "outcome (query_memory q) (run_memory cs []) = Inr rs" "valid_query q"
  shows "sorted (map memory_order rs) \<and> int (length rs) \<le> mq_limit q \<and> distinct (map mr_memory_id rs) \<and>
    (\<forall>r \<in> set rs. selected q r \<and> map_of (run_memory cs []) (mr_memory_id r) = Some r) \<and>
    (\<forall>i r. map_of (run_memory cs []) i = Some r \<and> selected q r \<and> r \<notin> set rs \<longrightarrow>
       int (length rs) = mq_limit q \<and> (\<forall>x \<in> set rs. memory_order x \<le> memory_order r))"
proof (intro conjI)
  let ?d = "run_memory cs []"
  have inv: "memory_inv (set cs) ?d"
    by (rule memory_run_inv)
  then have d: "distinct_keys ?d"
    by (simp add: memory_inv_def)
  have rs: "rs = take (nat (mq_limit q)) (sort_key memory_order (filter (selected q) (map snd ?d)))"
    using assms(1) by (simp add: query_returns)
  show "sorted (map memory_order rs)"
    unfolding rs take_map [symmetric] by (intro sorted_wrt_take) simp
  show "int (length rs) \<le> mq_limit q"
  proof -
    have "length rs \<le> nat (mq_limit q)" "1 \<le> mq_limit q"
      using assms(2) by (simp_all add: rs valid_query_def)
    then show ?thesis by linarith
  qed
  have "map mr_memory_id (map snd ?d) = map fst ?d"
    using memory_invD [OF inv] d by (auto simp: distinct_keys_def intro!: map_cong)
  then have "distinct (map mr_memory_id (filter (selected q) (map snd ?d)))"
    using d by (metis distinct_keys_def distinct_map_filter)
  moreover have "mset (map mr_memory_id (sort_key memory_order xs)) = mset (map mr_memory_id xs)" for xs
    by simp
  ultimately have "distinct (map mr_memory_id (sort_key memory_order (filter (selected q) (map snd ?d))))"
    using mset_eq_imp_distinct_iff by metis
  then show "distinct (map mr_memory_id rs)"
    unfolding rs take_map [symmetric] by (rule distinct_take)
  show "\<forall>r \<in> set rs. selected q r \<and> map_of ?d (mr_memory_id r) = Some r"
    using query_members [OF d assms(1)] memory_invD [OF inv] by metis
  show "\<forall>i r. map_of ?d i = Some r \<and> selected q r \<and> r \<notin> set rs \<longrightarrow>
      int (length rs) = mq_limit q \<and> (\<forall>x \<in> set rs. memory_order x \<le> memory_order r)"
  proof (intro allI impI)
    fix i r assume r: "map_of ?d i = Some r \<and> selected q r \<and> r \<notin> set rs"
    then have "r \<in> set (filter (selected q) (map snd ?d))"
      by (force dest: map_of_SomeD)
    from take_sort_key_rest [OF this, of "nat (mq_limit q)" memory_order] r assms(2)
    show "int (length rs) = mq_limit q \<and> (\<forall>x \<in> set rs. memory_order x \<le> memory_order r)"
      by (auto simp: rs valid_query_def)
  qed
qed

lemma sample_query_valid: "valid_query (sample_query (sample_access c [''memory:project:read'']))"
  by (simp add: sample_query_def sample_access_def valid_query_def valid_access_def memory_sample_scope_def
      valid_scope_def text_len_def namespace_ok_def is_alnum_def is_lower_def is_aware_def utc_def)

lemma sample_query_result:
  "outcome (query_memory (sample_query (sample_access RESTRICTED [''memory:project:read''])))
     [(7, sample_memory INTERNAL MEM_APPROVED)] = Inr [sample_memory INTERNAL MEM_APPROVED]"
  by (simp add: query_returns sample_query_def sample_access_def memory_permission_def selected_def)
    (simp add: sample_memory_def record_visible_def included_def)

theorem memory_query_exact_witness:
  "\<exists>cs rs. outcome (query_memory (sample_query (sample_access RESTRICTED [''memory:project:read''])))
      (run_memory cs []) = Inr rs \<and> rs \<noteq> [] \<and> sorted (map memory_order rs)"
proof -
  let ?cs = "[MemPut (sample_access RESTRICTED [''memory:project:write'', ''memory:project:read''])
      (sample_memory INTERNAL MEM_APPROVED)]"
  have "outcome (query_memory (sample_query (sample_access RESTRICTED [''memory:project:read''])))
      (run_memory ?cs []) = Inr [sample_memory INTERNAL MEM_APPROVED]"
    unfolding sample_run by (rule sample_query_result)
  from memory_query_exact [OF this sample_query_valid] this show ?thesis
    by blast
qed

text \<open>Memory is immutable: after any sequence of puts, allowed or not, each identifier holds the first record that an
  allowed caller put under it.\<close>

theorem memory_first_write_wins:
  "map_of (run_memory (map (\<lambda>(a, r). MemPut a r) ps) []) i =
     find (\<lambda>r. mr_memory_id r = i) (map snd (filter (\<lambda>(a, r). may_put a r) ps))"
proof -
  have "run_memory (map (\<lambda>(a, r). MemPut a r) ps) d =
      fold (\<lambda>r d. final (memory_insert r) d) (map snd (filter (\<lambda>(a, r). may_put a r) ps)) d" for d
    unfolding run_memory_def by (induction ps arbitrary: d) (auto simp: put_state)
  then show ?thesis
    by (simp add: memory_repo.first_write_wins)
qed

text \<open>(C40) \<^verbatim>\<open>get\<close> checks neither clearance nor the candidate permission: any caller with read
  permission in a visible scope gets an unexpired approved or candidate record by its identifier, whatever its
  classification, although no query of that caller returns a record above its clearance.\<close>

theorem memory_get_skips_clearance:
  assumes "map_of d i = Some r" "valid_memory_record r" "valid_access a" "is_aware now" "distinct_keys d"
    and "memory_permission (mr_memory_scope r) ''read'' \<in> set (ma_permissions a)"
    and "record_visible (ma_scope a) (mr_scope r) (mr_memory_scope r)"
    and "mr_approval_state r \<in> {MEM_APPROVED, MEM_CANDIDATE}" "\<forall>e. mr_expires_at r = Some e \<longrightarrow> dt_us now < dt_us e"
    and "classification_rank (ma_clearance a) < classification_rank (mr_classification r)"
  shows "outcome (memory_get a i now) d = Inr (Some r) \<and>
    (\<forall>q rs. mq_access q = a \<and> outcome (query_memory q) d = Inr rs \<longrightarrow> r \<notin> set rs)"
proof
  show "outcome (memory_get a i now) d = Inr (Some r)"
    using assms by (auto simp: outcome_def memory_get_cases authorize_memory_def Let_def valid_query_def
        valid_memory_record_def included_def split: option.split)
  show "\<forall>q rs. mq_access q = a \<and> outcome (query_memory q) d = Inr rs \<longrightarrow> r \<notin> set rs"
    using query_members [OF assms(5)] assms(10) by (fastforce simp: selected_def)
qed

theorem memory_get_skips_clearance_witness:
  "outcome (memory_get (sample_access PUBLIC [''memory:project:read'']) 7 (utc 5))
     [(7, sample_memory RESTRICTED MEM_CANDIDATE)] = Inr (Some (sample_memory RESTRICTED MEM_CANDIDATE))"
proof -
  let ?a = "sample_access PUBLIC [''memory:project:read'']" and ?r = "sample_memory RESTRICTED MEM_CANDIDATE"
  have "outcome (memory_get ?a 7 (utc 5)) [(7, ?r)] = Inr (Some ?r) \<and>
      (\<forall>q rs. mq_access q = ?a \<and> outcome (query_memory q) [(7, ?r)] = Inr rs \<longrightarrow> ?r \<notin> set rs)"
  proof (rule memory_get_skips_clearance)
    show "valid_memory_record ?r"
      by (rule sample_memory_valid)
    show "valid_access ?a"
      by (simp add: valid_access_def sample_access_def memory_sample_scope_def valid_scope_def text_len_def)
  qed (simp_all add: sample_access_def sample_memory_def memory_permission_def record_visible_def is_aware_def
      utc_def distinct_keys_def)
  then show ?thesis ..
qed

end
