(* ===== verification/Uuid5.thy ===== *)
theory Uuid5
  imports PyValues
begin

section \<open>Name-based identifiers\<close>

text \<open>
  \<^verbatim>\<open>uuid.uuid5(namespace, name)\<close>: the first 16 bytes of the SHA-1 digest (FIPS 180-4) of the namespace
  bytes and the name's UTF-8 bytes, with the version and variant bits set.
\<close>

definition sha1_init :: "u32 list" where
  "sha1_init = [0x67452301, 0xEFCDAB89, 0x98BADCFE, 0x10325476, 0xC3D2E1F0]"

text \<open>The round constants are the square roots of 2, 3, 5 and 10, scaled by \<open>2 ^ 30\<close>.\<close>

definition sha1_k :: "nat \<Rightarrow> u32" where
  "sha1_k t = word_of_nat (root_bits 2 ([2, 3, 5, 10] ! (t div 20) * 2 ^ 60) 33 0)"

definition sha1_f :: "nat \<Rightarrow> u32 \<Rightarrow> u32 \<Rightarrow> u32 \<Rightarrow> u32" where
  "sha1_f t b c d =
     (if t < 20 then (b AND c) XOR (NOT b AND d)
      else if 40 \<le> t \<and> t < 60 then (b AND c) XOR (b AND d) XOR (c AND d)
      else b XOR c XOR d)"

text \<open>The message schedule is kept newest word first.\<close>

fun sha1_extend :: "nat \<Rightarrow> u32 list \<Rightarrow> u32 list" where
  "sha1_extend 0 ws = ws"
| "sha1_extend (Suc n) ws =
     sha1_extend n (word_rotl 1 (ws ! 2 XOR ws ! 7 XOR ws ! 13 XOR ws ! 15) # ws)"

fun sha1_rounds :: "nat \<Rightarrow> u32 list \<Rightarrow> u32 list \<Rightarrow> u32 list" where
  "sha1_rounds t (w # ws) [a, b, c, d, e] =
     sha1_rounds (Suc t) ws [word_rotl 5 a + sha1_f t b c d + e + sha1_k t + w, a, word_rotl 30 b, c, d]"
| "sha1_rounds t _ st = st"

definition sha1_block :: "u32 list \<Rightarrow> byte list \<Rightarrow> u32 list" where
  "sha1_block st block = (let ws = rev (sha1_extend 64 (rev (map be_word (chunks 16 4 block))))
     in map2 (+) st (sha1_rounds 0 ws st))"

definition sha1_words :: "byte list \<Rightarrow> u32 list" where
  "sha1_words m = foldl sha1_block sha1_init (chunks ((length m + 72) div 64) 64 (sha_pad m))"

definition uuid5 :: "uuid \<Rightarrow> string \<Rightarrow> uuid" where
  "uuid5 namespace name = (let
     h = sha1_words (be_bytes 16 (unat namespace) @ bytes_of_string (concat (map utf8 name)));
     n = foldl (\<lambda>acc w. push_bit 32 acc OR ucast w) 0 (take 4 h) :: uuid;
     variant = (n AND NOT (push_bit 48 0xc000)) OR push_bit 48 0x8000
   in (variant AND NOT (push_bit 64 0xf000)) OR push_bit 76 5)"

end
