(* ===== verification/Lifecycle.thy ===== *)
theory Lifecycle
  imports Memory Uuid5
begin

section \<open>Governed data lifecycle\<close>

text \<open>
  \<^verbatim>\<open>lifecycle/service.py\<close>: registration, export, deletion preview and deletion, legal holds and
  cryptographic erasure. The repository's four fields are the state record; each method is a state
  transformer over it. The key provider is a protocol without an implementation here: \<open>revoker\<close> says
  whether it confirms the revocation of a key (it raises otherwise), and \<open>lc_revoked\<close> lists the keys it
  has confirmed. \<^verbatim>\<open>model_copy(update=...)\<close> does not validate, so it is a record update.
\<close>

subsection \<open>Models\<close>

datatype lifecycle_state = LC_ACTIVE | LC_DELETED | LC_CRYPTO_ERASED

fun lifecycle_state_value :: "lifecycle_state \<Rightarrow> string" where
  "lifecycle_state_value LC_ACTIVE = ''ACTIVE''"
| "lifecycle_state_value LC_DELETED = ''DELETED''"
| "lifecycle_state_value LC_CRYPTO_ERASED = ''CRYPTO_ERASED''"

datatype legal_hold_state = HOLD_ACTIVE | HOLD_RELEASED

fun legal_hold_state_value :: "legal_hold_state \<Rightarrow> string" where
  "legal_hold_state_value HOLD_ACTIVE = ''ACTIVE''"
| "legal_hold_state_value HOLD_RELEASED = ''RELEASED''"

datatype lifecycle_action =
  ACT_REGISTER | ACT_EXPORT | ACT_DELETE | ACT_HOLD_APPLY | ACT_HOLD_RELEASE | ACT_CRYPTO_ERASE

fun lifecycle_action_value :: "lifecycle_action \<Rightarrow> string" where
  "lifecycle_action_value ACT_REGISTER = ''REGISTER''"
| "lifecycle_action_value ACT_EXPORT = ''EXPORT''"
| "lifecycle_action_value ACT_DELETE = ''DELETE''"
| "lifecycle_action_value ACT_HOLD_APPLY = ''HOLD_APPLY''"
| "lifecycle_action_value ACT_HOLD_RELEASE = ''HOLD_RELEASE''"
| "lifecycle_action_value ACT_CRYPTO_ERASE = ''CRYPTO_ERASE''"

record lifecycle_policy =
  lp_policy_version :: string
  lp_default_retention_days :: int
  lp_audit_retention_days :: int

definition valid_lifecycle_policy :: "lifecycle_policy \<Rightarrow> bool" where
  "valid_lifecycle_policy p = (text_len 1 128 (lp_policy_version p) \<and>
     1 \<le> lp_default_retention_days p \<and> lp_default_retention_days p \<le> 3650 \<and>
     365 \<le> lp_audit_retention_days p \<and> lp_audit_retention_days p \<le> 3650)"

text \<open>\<^verbatim>\<open>KeyRef\<close> of \<^verbatim>\<open>security/models.py\<close>; the environment is carried by its text.\<close>

record key_ref =
  kf_key_id :: string
  kf_environment :: string
  kf_tenant_id :: uuid
  kf_project_id :: uuid
  kf_purpose :: string
  kf_version :: string

record governed_object =
  go_object_id :: uuid
  go_scope :: tenant_scope
  go_object_type :: string
  go_object_version :: string
  go_classification :: data_classification
  go_content :: "(string \<times> json) list option"
  go_content_sha256 :: string
  go_retention_until :: datetime
  go_encryption_key_ref :: "key_ref option"
  go_state :: lifecycle_state
  go_deleted_at :: "datetime option"
  go_crypto_erased_at :: "datetime option"
  go_created_at :: datetime

definition content_sha256 :: "(string \<times> json) list \<Rightarrow> string" where
  "content_sha256 content = sha256_hex (canonical_json_bytes (JObj content))"

definition validate_object :: "governed_object \<Rightarrow> bool" where
  "validate_object g = (is_aware (go_created_at g) \<and> is_aware (go_retention_until g) \<and>
     \<not> dt_us (go_retention_until g) \<le> dt_us (go_created_at g) \<and>
     (if go_state g = LC_ACTIVE
      then (case go_content g of None \<Rightarrow> False | Some c \<Rightarrow> content_sha256 c = go_content_sha256 g)
      else go_content g = None) \<and>
     (case go_encryption_key_ref g of None \<Rightarrow> True
      | Some k \<Rightarrow> kf_tenant_id k = ts_tenant_id (go_scope g) \<and> kf_project_id k = ts_project_id (go_scope g)))"

definition valid_object :: "governed_object \<Rightarrow> bool" where
  "valid_object g = (valid_scope (go_scope g) \<and> text_len 1 128 (go_object_type g) \<and>
     text_len 1 128 (go_object_version g) \<and> is_sha256 (go_content_sha256 g) \<and> validate_object g)"

record legal_hold =
  lh_hold_id :: uuid
  lh_scope :: tenant_scope
  lh_object_id :: uuid
  lh_reason :: string
  lh_state :: legal_hold_state
  lh_approval_id :: uuid
  lh_applied_at :: datetime
  lh_released_at :: "datetime option"

definition valid_hold :: "legal_hold \<Rightarrow> bool" where
  "valid_hold h = (valid_scope (lh_scope h) \<and> text_len 1 2000 (lh_reason h))"

definition dump_hold :: "legal_hold \<Rightarrow> json" where
  "dump_hold h = JObj
    [(''hold_id'', JStr (str_uuid (lh_hold_id h))),
     (''scope'', dump_scope (lh_scope h)),
     (''object_id'', JStr (str_uuid (lh_object_id h))),
     (''reason'', JStr (lh_reason h)),
     (''state'', JStr (legal_hold_state_value (lh_state h))),
     (''approval_id'', JStr (str_uuid (lh_approval_id h))),
     (''applied_at'', JStr (json_datetime (lh_applied_at h))),
     (''released_at'', json_opt (\<lambda>t. JStr (json_datetime t)) (lh_released_at h))]"

record deletion_preview =
  dv_preview_id :: uuid
  dv_preview_sha256 :: string
  dv_scope :: tenant_scope
  dv_object_ids :: "uuid list"
  dv_object_hashes :: "string list"
  dv_force_before_retention :: bool
  dv_created_at :: datetime

definition valid_preview :: "deletion_preview \<Rightarrow> bool" where
  "valid_preview p = (is_sha256 (dv_preview_sha256 p) \<and> valid_scope (dv_scope p) \<and>
     1 \<le> length (dv_object_ids p) \<and> length (dv_object_ids p) \<le> 100 \<and>
     1 \<le> length (dv_object_hashes p) \<and> length (dv_object_hashes p) \<le> 100)"

record export_record =
  er_object_id :: uuid
  er_object_type :: string
  er_object_version :: string
  er_classification :: data_classification
  er_content :: "(string \<times> json) list"
  er_content_sha256 :: string

definition dump_export_record :: "export_record \<Rightarrow> json" where
  "dump_export_record r = JObj
    [(''object_id'', JStr (str_uuid (er_object_id r))),
     (''object_type'', JStr (er_object_type r)),
     (''object_version'', JStr (er_object_version r)),
     (''classification'', JStr (classification_value (er_classification r))),
     (''content'', JObj (er_content r)),
     (''content_sha256'', JStr (er_content_sha256 r))]"

record export_bundle =
  eb_scope :: tenant_scope
  eb_records :: "export_record list"
  eb_manifest_sha256 :: string
  eb_exported_at :: datetime

record lifecycle_event =
  le_event_id :: uuid
  le_scope :: tenant_scope
  le_action :: lifecycle_action
  le_object_ids :: "uuid list"
  le_input_sha256 :: string
  le_outcome_sha256 :: string
  le_approval_id :: "uuid option"
  le_occurred_at :: datetime

record lifecycle_repo =
  lc_objects :: "(uuid \<times> governed_object) list"
  lc_holds :: "(uuid \<times> legal_hold) list"
  lc_events :: "lifecycle_event list"
  lc_completed_previews :: "(string \<times> uuid list) list"
  lc_revoked :: "key_ref list"

definition empty_lifecycle :: lifecycle_repo where
  "empty_lifecycle = \<lparr>lc_objects = [], lc_holds = [], lc_events = [], lc_completed_previews = [], lc_revoked = []\<rparr>"

type_synonym 'a governing = "(lifecycle_repo, fault, 'a) prog"

definition lifecycle_namespace :: uuid where
  "lifecycle_namespace = 0xe3c985c926f64ea981f8b63024927518"

subsection \<open>Checks\<close>

definition same_scope :: "tenant_scope \<Rightarrow> tenant_scope \<Rightarrow> bool" where
  "same_scope left right = (dump_scope left = dump_scope right)"

definition lifecycle_scope_denied :: fault where
  "lifecycle_scope_denied = Fault ''LIFECYCLE_SCOPE_DENIED'' ''The governed object is outside the active scope.''
     ''Use an object for the exact tenant, project, user, and permission version.''"

definition authorize_lifecycle :: "memory_access \<Rightarrow> string \<Rightarrow> unit governing" where
  "authorize_lifecycle access action = (let permission = ''lifecycle:'' @ action in
     if permission \<notin> set (ma_permissions access) then
       raise (Fault ''LIFECYCLE_PERMISSION_DENIED'' ''The governed lifecycle operation is not authorized.''
         (''Request the '' @ permission @ '' permission for the active scope.''))
     else ret ())"

definition approval_invalid :: fault where
  "approval_invalid = Fault ''LIFECYCLE_APPROVAL_INVALID''
     ''The lifecycle approval is missing, stale, rejected, or target-mismatched.''
     ''Obtain a current approval for the exact scoped object or preview hash.''"

text \<open>The conjunction is evaluated from left to right, so the two time comparisons only happen when
  everything before them holds.\<close>

definition approval_window :: "approval_record \<Rightarrow> datetime \<Rightarrow> fault + bool" where
  "approval_window a now =
     (case dt_le (ar_decided_at a) now of
        Inl e \<Rightarrow> Inl e
      | Inr False \<Rightarrow> Inr False
      | Inr True \<Rightarrow> (case ar_expires_at a of None \<Rightarrow> Inr True | Some e \<Rightarrow> dt_lt now e))"

definition validate_approval ::
    "approval_record \<Rightarrow> tenant_scope \<Rightarrow> string \<Rightarrow> string \<Rightarrow> uuid \<Rightarrow> string \<Rightarrow> string \<Rightarrow> datetime \<Rightarrow> unit governing" where
  "validate_approval a scope action target_type target_id target_version target_sha256 now =
     (if same_scope (ar_scope a) scope \<and> ar_action a = action \<and> ar_target_type a = target_type \<and>
         ar_target_id a = target_id \<and> ar_target_version a = target_version \<and>
         ar_target_sha256 a = target_sha256 \<and> ar_outcome a = APPROVED
      then bindP (lift_pure (approval_window a now)) (\<lambda>ok. if ok then ret () else raise approval_invalid)
      else raise approval_invalid)"

subsection \<open>Loading, holds and events\<close>

fun load_each :: "memory_access \<Rightarrow> (uuid \<times> governed_object) list \<Rightarrow> uuid list \<Rightarrow> fault + governed_object list" where
  "load_each access objects [] = Inr []"
| "load_each access objects (i # ids) =
     (case map_of objects i of
        None \<Rightarrow> Inl lifecycle_scope_denied
      | Some item \<Rightarrow>
          if \<not> same_scope (ma_scope access) (go_scope item) then Inl lifecycle_scope_denied
          else if classification_rank (ma_clearance access) < classification_rank (go_classification item) then
            Inl (Fault ''LIFECYCLE_CLASSIFICATION_DENIED'' ''The object classification exceeds the active clearance.''
              ''Use an authorized actor with sufficient clearance.'')
          else if go_state item \<noteq> LC_ACTIVE then
            Inl (Fault ''LIFECYCLE_OBJECT_NOT_ACTIVE'' ''The governed object is already deleted or erased.''
              ''Use its tombstone evidence instead of repeating the operation.'')
          else (case load_each access objects ids of Inl e \<Rightarrow> Inl e | Inr items \<Rightarrow> Inr (item # items)))"

definition load_active :: "memory_access \<Rightarrow> uuid list \<Rightarrow> governed_object list governing" where
  "load_active access ids =
     (if ids = [] \<or> \<not> distinct ids then
        raise (Fault ''LIFECYCLE_TARGET_INVALID'' ''Lifecycle targets must be a non-empty unique object set.''
          ''Provide each exact governed object ID once.'')
      else bindP (gets lc_objects) (\<lambda>objects. lift_pure (load_each access objects ids)))"

definition held_ids :: "(uuid \<times> legal_hold) list \<Rightarrow> uuid set" where
  "held_ids holds = lh_object_id ` set (filter (\<lambda>h. lh_state h = HOLD_ACTIVE) (map snd holds))"

definition deny_holds :: "governed_object list \<Rightarrow> unit governing" where
  "deny_holds items = bindP (gets lc_holds) (\<lambda>holds.
     if list_ex (\<lambda>g. go_object_id g \<in> held_ids holds) items then
       raise (Fault ''LIFECYCLE_LEGAL_HOLD_ACTIVE''
         ''An active legal hold blocks deletion or cryptographic erasure.''
         ''Preserve the data until an authorized hold release is recorded.'')
     else ret ())"

definition pairs_sha256 :: "(governed_object \<Rightarrow> string) \<Rightarrow> governed_object list \<Rightarrow> string" where
  "pairs_sha256 f items = sha256_hex (canonical_json_bytes
     (JArr (map (\<lambda>g. JArr [JStr (str_uuid (go_object_id g)), JStr (f g)]) items)))"

definition event_for :: "tenant_scope \<Rightarrow> lifecycle_action \<Rightarrow> governed_object list \<Rightarrow> uuid option \<Rightarrow> datetime \<Rightarrow> lifecycle_event" where
  "event_for scope action items approval_id now = (let
     input_hash = pairs_sha256 go_content_sha256 items;
     outcome_hash = pairs_sha256 (\<lambda>g. lifecycle_state_value (go_state g)) items
   in \<lparr>le_event_id = uuid5 lifecycle_namespace
         (''event:'' @ lifecycle_action_value action @ '':'' @ input_hash @ '':'' @
          (case approval_id of None \<Rightarrow> ''None'' | Some a \<Rightarrow> str_uuid a) @ '':'' @ isoformat now),
       le_scope = scope, le_action = action, le_object_ids = map go_object_id items,
       le_input_sha256 = input_hash, le_outcome_sha256 = outcome_hash,
       le_approval_id = approval_id, le_occurred_at = now\<rparr>)"

definition log_event :: "tenant_scope \<Rightarrow> lifecycle_action \<Rightarrow> governed_object list \<Rightarrow> uuid option \<Rightarrow> datetime \<Rightarrow> unit governing" where
  "log_event scope action items approval_id now =
     modify (\<lambda>s. s\<lparr>lc_events := lc_events s @ [event_for scope action items approval_id now]\<rparr>)"

definition store_object :: "governed_object \<Rightarrow> unit governing" where
  "store_object g = modify (\<lambda>s. s\<lparr>lc_objects := AList.update (go_object_id g) g (lc_objects s)\<rparr>)"

subsection \<open>The service\<close>

record registration =
  rg_object_id :: uuid
  rg_object_type :: string
  rg_object_version :: string
  rg_classification :: data_classification
  rg_content :: "(string \<times> json) list"
  rg_created_at :: datetime
  rg_retention_days :: "int option"
  rg_encryption_key_ref :: "key_ref option"

definition retention_days_for :: "lifecycle_policy \<Rightarrow> registration \<Rightarrow> int" where
  "retention_days_for policy r =
     (case rg_retention_days r of Some d \<Rightarrow> d
      | None \<Rightarrow> if rg_object_type r = ''audit'' then lp_audit_retention_days policy
                else lp_default_retention_days policy)"

definition object_for :: "lifecycle_policy \<Rightarrow> memory_access \<Rightarrow> registration \<Rightarrow> governed_object" where
  "object_for policy access r =
     \<lparr>go_object_id = rg_object_id r, go_scope = ma_scope access, go_object_type = rg_object_type r,
      go_object_version = rg_object_version r, go_classification = rg_classification r,
      go_content = Some (rg_content r), go_content_sha256 = content_sha256 (rg_content r),
      go_retention_until = add_days (rg_created_at r) (retention_days_for policy r),
      go_encryption_key_ref = rg_encryption_key_ref r, go_state = LC_ACTIVE, go_deleted_at = None,
      go_crypto_erased_at = None, go_created_at = rg_created_at r\<rparr>"

definition register :: "lifecycle_policy \<Rightarrow> memory_access \<Rightarrow> registration \<Rightarrow> governed_object governing" where
  "register policy access r =
     thenP (authorize_lifecycle access ''register'')
      (bindP (gets (\<lambda>s. map_of (lc_objects s) (rg_object_id r))) (\<lambda>existing.
        if existing \<noteq> None then
          raise (Fault ''LIFECYCLE_OBJECT_CONFLICT'' ''The governed object ID already exists.''
            ''Use the existing object or create a new immutable version.'')
        else let days = retention_days_for policy r in
          if \<not> (1 \<le> days \<and> days \<le> 3650) then
            raise (Fault ''LIFECYCLE_RETENTION_INVALID'' ''Retention must be between 1 and 3650 days.''
              ''Select a retention period permitted by the active policy.'')
          else let record = object_for policy access r in
            if \<not> valid_object record then raise ValidationError
            else thenP (store_object record)
              (thenP (log_event (ma_scope access) ACT_REGISTER [record] None (rg_created_at r)) (ret record))))"

definition export_record_of :: "governed_object \<Rightarrow> export_record" where
  "export_record_of g =
     \<lparr>er_object_id = go_object_id g, er_object_type = go_object_type g, er_object_version = go_object_version g,
      er_classification = go_classification g,
      er_content = (case go_content g of None \<Rightarrow> [] | Some c \<Rightarrow> c), er_content_sha256 = go_content_sha256 g\<rparr>"

definition export_objects :: "memory_access \<Rightarrow> uuid list \<Rightarrow> datetime \<Rightarrow> export_bundle governing" where
  "export_objects access ids now =
     thenP (authorize_lifecycle access ''export'')
      (bindP (load_active access ids) (\<lambda>items.
        let records = map export_record_of items;
            manifest = sha256_hex (canonical_json_bytes (JArr (map dump_export_record records)))
        in thenP (log_event (ma_scope access) ACT_EXPORT items None now)
             (ret \<lparr>eb_scope = ma_scope access, eb_records = records, eb_manifest_sha256 = manifest,
                   eb_exported_at = now\<rparr>)))"

text \<open>\<^verbatim>\<open>any(now < item.retention_until for item in objects)\<close>.\<close>

fun any_retained :: "datetime \<Rightarrow> governed_object list \<Rightarrow> fault + bool" where
  "any_retained now [] = Inr False"
| "any_retained now (g # gs) =
     (case dt_lt now (go_retention_until g) of
        Inl e \<Rightarrow> Inl e | Inr True \<Rightarrow> Inr True | Inr False \<Rightarrow> any_retained now gs)"

definition preview_payload :: "lifecycle_policy \<Rightarrow> tenant_scope \<Rightarrow> uuid list \<Rightarrow> string list \<Rightarrow> bool \<Rightarrow> datetime \<Rightarrow> json" where
  "preview_payload policy scope ids hashes force now = JObj
    [(''scope'', dump_scope scope),
     (''object_ids'', JArr (map (\<lambda>i. JStr (str_uuid i)) ids)),
     (''object_hashes'', JArr (map JStr hashes)),
     (''force_before_retention'', JBool force),
     (''created_at'', JStr (isoformat now)),
     (''policy_version'', JStr (lp_policy_version policy))]"

definition preview_for :: "lifecycle_policy \<Rightarrow> tenant_scope \<Rightarrow> governed_object list \<Rightarrow> bool \<Rightarrow> datetime \<Rightarrow> deletion_preview" where
  "preview_for policy scope items force now = (let
     ids = map go_object_id items;
     hashes = map go_content_sha256 items;
     digest = sha256_hex (canonical_json_bytes (preview_payload policy scope ids hashes force now))
   in \<lparr>dv_preview_id = uuid5 lifecycle_namespace (''delete:'' @ digest), dv_preview_sha256 = digest,
       dv_scope = scope, dv_object_ids = ids, dv_object_hashes = hashes,
       dv_force_before_retention = force, dv_created_at = now\<rparr>)"

definition retention_active :: "string \<Rightarrow> string \<Rightarrow> fault" where
  "retention_active message next = Fault ''LIFECYCLE_RETENTION_ACTIVE'' message next"

definition preview_delete :: "lifecycle_policy \<Rightarrow> memory_access \<Rightarrow> uuid list \<Rightarrow> datetime \<Rightarrow> bool \<Rightarrow> deletion_preview governing" where
  "preview_delete policy access ids now force =
     thenP (authorize_lifecycle access ''delete'')
      (bindP (load_active access ids) (\<lambda>items.
        thenP (deny_holds items)
         (bindP (if force then ret False else lift_pure (any_retained now items)) (\<lambda>retained.
           if retained then
             raise (retention_active ''At least one object is still inside its retention period.''
               ''Wait for retention expiry or request an approved forced deletion.'')
           else let preview = preview_for policy (ma_scope access) items force now in
             if valid_preview preview then ret preview else raise ValidationError))))"

fun objects_at :: "(uuid \<times> governed_object) list \<Rightarrow> uuid list \<Rightarrow> fault + governed_object list" where
  "objects_at objects [] = Inr []"
| "objects_at objects (i # ids) =
     (case map_of objects i of None \<Rightarrow> Inl KeyError
      | Some g \<Rightarrow> (case objects_at objects ids of Inl e \<Rightarrow> Inl e | Inr gs \<Rightarrow> Inr (g # gs)))"

definition tombstone :: "datetime \<Rightarrow> governed_object \<Rightarrow> governed_object" where
  "tombstone now g = g\<lparr>go_content := None, go_state := LC_DELETED, go_deleted_at := Some now\<rparr>"

definition delete_objects ::
    "lifecycle_policy \<Rightarrow> memory_access \<Rightarrow> deletion_preview \<Rightarrow> approval_record \<Rightarrow> datetime \<Rightarrow> governed_object list governing" where
  "delete_objects policy access preview approval now =
     thenP (authorize_lifecycle access ''delete'')
      (if \<not> same_scope (ma_scope access) (dv_scope preview) then raise lifecycle_scope_denied
       else let action = (if dv_force_before_retention preview then ''data.delete.force'' else ''data.delete'') in
         thenP (validate_approval approval (ma_scope access) action ''lifecycle.preview'' (dv_preview_id preview)
                  (lp_policy_version policy) (dv_preview_sha256 preview) now)
          (bindP (gets (\<lambda>s. map_of (lc_completed_previews s) (dv_preview_sha256 preview))) (\<lambda>completed.
            case completed of
              Some ids \<Rightarrow> bindP (gets lc_objects) (\<lambda>objects. lift_pure (objects_at objects ids))
            | None \<Rightarrow>
                bindP (load_active access (dv_object_ids preview)) (\<lambda>items.
                  thenP (deny_holds items)
                   (if map go_content_sha256 items \<noteq> dv_object_hashes preview then
                      raise (Fault ''LIFECYCLE_PREVIEW_STALE''
                        ''The deletion preview no longer matches the governed objects.''
                        ''Create and approve a new deletion preview.'')
                    else let tombstones = map (tombstone now) items in
                      thenP (seqP (map store_object tombstones))
                       (thenP (modify (\<lambda>s. s\<lparr>lc_completed_previews :=
                                AList.update (dv_preview_sha256 preview) (dv_object_ids preview)
                                  (lc_completed_previews s)\<rparr>))
                         (thenP (log_event (ma_scope access) ACT_DELETE tombstones
                                   (Some (ar_approval_id approval)) now)
                            (ret tombstones))))))))"

definition hold_id_for :: "uuid \<Rightarrow> uuid \<Rightarrow> uuid" where
  "hold_id_for object_id approval_id =
     uuid5 lifecycle_namespace (''hold:'' @ str_uuid object_id @ '':'' @ str_uuid approval_id)"

definition store_hold :: "uuid \<Rightarrow> legal_hold \<Rightarrow> unit governing" where
  "store_hold i h = modify (\<lambda>s. s\<lparr>lc_holds := AList.update i h (lc_holds s)\<rparr>)"

definition apply_hold :: "memory_access \<Rightarrow> uuid \<Rightarrow> string \<Rightarrow> approval_record \<Rightarrow> datetime \<Rightarrow> legal_hold governing" where
  "apply_hold access object_id reason approval now =
     thenP (authorize_lifecycle access ''hold'')
      (bindP (load_active access [object_id]) (\<lambda>items. let item = hd items in
        thenP (validate_approval approval (ma_scope access) ''data.hold.apply'' (go_object_type item)
                 (go_object_id item) (go_object_version item) (go_content_sha256 item) now)
         (let hold_id = hold_id_for (go_object_id item) (ar_approval_id approval) in
          bindP (gets (\<lambda>s. map_of (lc_holds s) hold_id)) (\<lambda>existing.
            case existing of
              Some h \<Rightarrow> ret h
            | None \<Rightarrow>
                let hold = \<lparr>lh_hold_id = hold_id, lh_scope = ma_scope access, lh_object_id = object_id,
                            lh_reason = reason, lh_state = HOLD_ACTIVE, lh_approval_id = ar_approval_id approval,
                            lh_applied_at = now, lh_released_at = None\<rparr>
                in if \<not> valid_hold hold then raise ValidationError
                   else thenP (store_hold hold_id hold)
                     (thenP (log_event (ma_scope access) ACT_HOLD_APPLY [item] (Some (ar_approval_id approval)) now)
                       (ret hold))))))"

definition hold_sha256 :: "legal_hold \<Rightarrow> string" where
  "hold_sha256 h = sha256_hex (canonical_json_bytes (dump_hold h))"

definition release_hold :: "lifecycle_policy \<Rightarrow> memory_access \<Rightarrow> uuid \<Rightarrow> approval_record \<Rightarrow> datetime \<Rightarrow> legal_hold governing" where
  "release_hold policy access hold_id approval now =
     thenP (authorize_lifecycle access ''hold'')
      (bindP (gets (\<lambda>s. map_of (lc_holds s) hold_id)) (\<lambda>found.
        case found of
          None \<Rightarrow> raise lifecycle_scope_denied
        | Some hold \<Rightarrow>
            if \<not> same_scope (ma_scope access) (lh_scope hold) then raise lifecycle_scope_denied
            else if lh_state hold = HOLD_RELEASED then ret hold
            else
              thenP (validate_approval approval (ma_scope access) ''data.hold.release'' ''legal_hold''
                       (lh_hold_id hold) (lp_policy_version policy) (hold_sha256 hold) now)
               (let released = hold\<lparr>lh_state := HOLD_RELEASED, lh_released_at := Some now\<rparr> in
                thenP (store_hold hold_id released)
                 (bindP (gets (\<lambda>s. map_of (lc_objects s) (lh_object_id hold))) (\<lambda>item.
                   case item of
                     None \<Rightarrow> raise KeyError
                   | Some g \<Rightarrow>
                       thenP (log_event (ma_scope access) ACT_HOLD_RELEASE [g] (Some (ar_approval_id approval)) now)
                         (ret released))))))"

definition revoke :: "(key_ref \<Rightarrow> bool) \<Rightarrow> key_ref \<Rightarrow> unit governing" where
  "revoke revoker key =
     (if revoker key then modify (\<lambda>s. s\<lparr>lc_revoked := lc_revoked s @ [key]\<rparr>)
      else raise (Fault ''LIFECYCLE_KEY_REVOCATION_FAILED'' ''The encryption key could not be revoked.''
        ''Restore the key provider and retry without deleting ciphertext.''))"

definition erased_object :: "datetime \<Rightarrow> governed_object \<Rightarrow> governed_object" where
  "erased_object now g = g\<lparr>go_content := None, go_state := LC_CRYPTO_ERASED, go_crypto_erased_at := Some now\<rparr>"

definition cryptographic_erase ::
    "(key_ref \<Rightarrow> bool) \<Rightarrow> memory_access \<Rightarrow> uuid \<Rightarrow> approval_record \<Rightarrow> datetime \<Rightarrow> governed_object governing" where
  "cryptographic_erase revoker access object_id approval now =
     thenP (authorize_lifecycle access ''erase'')
      (bindP (load_active access [object_id]) (\<lambda>items. let item = hd items in
        thenP (deny_holds [item])
         (bindP (lift_pure (dt_lt now (go_retention_until item))) (\<lambda>retained.
           if retained then
             raise (retention_active ''The object is still inside its retention period.''
               ''Wait for retention expiry or use approved governed deletion.'')
           else
             thenP (validate_approval approval (ma_scope access) ''data.erase'' (go_object_type item)
                      (go_object_id item) (go_object_version item) (go_content_sha256 item) now)
              (case go_encryption_key_ref item of
                 Some key \<Rightarrow>
                   if kf_purpose key = ''object-'' @ uuid_hex (go_object_id item) then
                     thenP (revoke revoker key)
                      (let erased = erased_object now item in
                       thenP (store_object erased)
                        (thenP (log_event (ma_scope access) ACT_CRYPTO_ERASE [erased]
                                  (Some (ar_approval_id approval)) now)
                           (ret erased)))
                   else raise (Fault ''LIFECYCLE_OBJECT_KEY_REQUIRED''
                     ''Cryptographic erasure requires an object-unique encryption key.''
                     ''Use governed deletion or provision an object-unique key before write.'')
               | None \<Rightarrow> raise (Fault ''LIFECYCLE_OBJECT_KEY_REQUIRED''
                   ''Cryptographic erasure requires an object-unique encryption key.''
                   ''Use governed deletion or provision an object-unique key before write.'')))))) "

end
