(* ===== verification/LifecycleSteps.thy ===== *)
theory LifecycleSteps
  imports Lifecycle
begin

section \<open>Lifecycle operations as transitions\<close>

text \<open>
  An abstract transition relation for the lifecycle service: which calls may change the repository, under
  which guards, and to what. \<open>lifecycle_call_refines\<close> shows that the modelled methods do nothing else: a call either
  leaves the repository as it is or makes the one transition the relation allows, and a call that raises changes
  nothing. The invariant \<open>lifecycle_inv\<close> and the properties are then proved over the relation.
\<close>

subsection \<open>Runs of an operation\<close>

lemma bindP_cases:
  assumes "bindP m k s = (r, t)"
  obtains e where "m s = (Inl e, t)" "r = Inl e" | x s' where "m s = (Inr x, s')" "k x s' = (r, t)"
  using assms by (auto simp: bindP_def split: prod.splits sum.splits)

lemma thenP_cases:
  assumes "thenP m n s = (r, t)"
  obtains e where "m s = (Inl e, t)" "r = Inl e" | s' where "m s = (Inr (), s')" "n s' = (r, t)"
  using assms by (auto simp: thenP_def elim: bindP_cases)

lemma seqP_Cons: "seqP (m # ms) = thenP m (seqP ms)"
proof (cases ms)
  case Nil
  have "thenP m (ret ()) = m"
    unfolding thenP_def by (auto simp: bindP_def fun_eq_iff split: prod.split sum.split)
  with Nil show ?thesis by simp
qed simp

definition may :: "memory_access \<Rightarrow> string \<Rightarrow> bool" where
  "may access action = (''lifecycle:'' @ action \<in> set (ma_permissions access))"

lemma authorize_run [simp]:
  "may access action \<Longrightarrow> authorize_lifecycle access action s = (Inr (), s)"
  "authorize_lifecycle access action s = (Inr u, t) \<longleftrightarrow> may access action \<and> t = s"
  "authorize_lifecycle access action s = (Inl e, t) \<Longrightarrow> t = s"
  by (auto simp: authorize_lifecycle_def may_def Let_def split: if_splits)

text \<open>An approval that is current for a target.\<close>

definition approval_ok :: "approval_record \<Rightarrow> tenant_scope \<Rightarrow> string \<Rightarrow> string \<Rightarrow> uuid \<Rightarrow> string \<Rightarrow> string \<Rightarrow> datetime \<Rightarrow> bool" where
  "approval_ok a scope action ty i v sha now = (ar_scope a = scope \<and> ar_action a = action \<and> ar_target_type a = ty \<and>
     ar_target_id a = i \<and> ar_target_version a = v \<and> ar_target_sha256 a = sha \<and> ar_outcome a = APPROVED \<and>
     approval_window a now = Inr True)"

lemma same_scope_iff [simp]: "same_scope s t \<longleftrightarrow> s = t"
  by (simp add: same_scope_def)

lemma validate_approval_run [simp]:
  "approval_ok a scope action ty i v sha now \<Longrightarrow> validate_approval a scope action ty i v sha now s = (Inr (), s)"
  "validate_approval a scope action ty i v sha now s = (Inr u, t) \<longleftrightarrow>
     approval_ok a scope action ty i v sha now \<and> t = s"
  "validate_approval a scope action ty i v sha now s = (Inl e, t) \<Longrightarrow> t = s"
  by (auto simp: validate_approval_def approval_ok_def bindP_def split: sum.splits if_splits)

text \<open>The objects a call acts on: loaded, in scope, cleared and active.\<close>

definition loaded :: "memory_access \<Rightarrow> (uuid \<times> governed_object) list \<Rightarrow> uuid list \<Rightarrow> governed_object list \<Rightarrow> bool" where
  "loaded access objects ids items = (ids \<noteq> [] \<and> distinct ids \<and> map (map_of objects) ids = map Some items \<and>
     list_all (\<lambda>g. go_scope g = ma_scope access \<and>
       classification_rank (go_classification g) \<le> classification_rank (ma_clearance access) \<and>
       go_state g = LC_ACTIVE) items)"

lemma load_each_run:
  "load_each access objects ids = Inr items \<longleftrightarrow>
     map (map_of objects) ids = map Some items \<and>
     list_all (\<lambda>g. go_scope g = ma_scope access \<and>
       classification_rank (go_classification g) \<le> classification_rank (ma_clearance access) \<and>
       go_state g = LC_ACTIVE) items"
  by (induction ids arbitrary: items) (auto simp: Cons_eq_map_conv split: option.split sum.split)

lemma load_active_run [simp]:
  "load_active access ids s = (Inr items, t) \<longleftrightarrow> loaded access (lc_objects s) ids items \<and> t = s"
  "load_active access ids s = (Inl e, t) \<Longrightarrow> t = s"
  by (auto simp: load_active_def loaded_def bindP_def load_each_run split: if_splits)

lemma deny_holds_run [simp]:
  "deny_holds items s = (Inr u, t) \<longleftrightarrow> (\<forall>g \<in> set items. go_object_id g \<notin> held_ids (lc_holds s)) \<and> t = s"
  "deny_holds items s = (Inl e, t) \<Longrightarrow> t = s"
  by (auto simp: deny_holds_def bindP_def list_ex_iff split: if_splits)

lemma log_event_run [simp]:
  "log_event scope action items approval now s =
     (Inr (), s\<lparr>lc_events := lc_events s @ [event_for scope action items approval now]\<rparr>)"
  by (simp add: log_event_def)

definition stored :: "governed_object list \<Rightarrow> (uuid \<times> governed_object) list \<Rightarrow> (uuid \<times> governed_object) list" where
  "stored gs objects = fold (\<lambda>g. AList.update (go_object_id g) g) gs objects"

lemma store_object_run [simp]: "store_object g s = (Inr (), s\<lparr>lc_objects := stored [g] (lc_objects s)\<rparr>)"
  by (simp add: store_object_def stored_def)

lemma store_all_run [simp]: "seqP (map store_object gs) s = (Inr (), s\<lparr>lc_objects := stored gs (lc_objects s)\<rparr>)"
  by (induction gs arbitrary: s) (simp_all add: seqP_Cons thenP_def bindP_def stored_def del: seqP.simps(2,3))

lemma store_map_run [simp]:
  "seqP (map (store_object \<circ> f) gs) s = (Inr (), s\<lparr>lc_objects := stored (map f gs) (lc_objects s)\<rparr>)"
  using store_all_run [of "map f gs" s] by (simp only: map_map)

lemma stored_Cons: "stored (g # gs) objects = stored gs (AList.update (go_object_id g) g objects)"
  by (simp add: stored_def)

lemma map_of_stored_other: "i \<notin> go_object_id ` set gs \<Longrightarrow> map_of (stored gs objects) i = map_of objects i"
  by (induction gs arbitrary: objects) (simp add: stored_def, simp add: stored_Cons)

lemma map_of_stored_member:
  "g \<in> set gs \<Longrightarrow> distinct (map go_object_id gs) \<Longrightarrow> map_of (stored gs objects) (go_object_id g) = Some g"
  by (induction gs arbitrary: objects) (auto simp: stored_Cons map_of_stored_other)

lemma map_of_stored_cases:
  assumes "map_of (stored gs objects) i = Some g"
  shows "(g \<in> set gs \<and> go_object_id g = i) \<or> (map_of objects i = Some g \<and> i \<notin> go_object_id ` set gs)"
  using assms
proof (induction gs arbitrary: objects)
  case Nil
  then show ?case by (simp add: stored_def)
next
  case (Cons h gs)
  then have "map_of (stored gs (AList.update (go_object_id h) h objects)) i = Some g"
    by (simp add: stored_Cons)
  from Cons.IH [OF this] show ?case
    by (auto split: if_splits)
qed

lemma store_hold_run [simp]: "store_hold i h s = (Inr (), s\<lparr>lc_holds := AList.update i h (lc_holds s)\<rparr>)"
  by (simp add: store_hold_def)

subsection \<open>Calls and transitions\<close>

datatype lifecycle_call =
    RegisterCall memory_access registration
  | ExportCall memory_access "uuid list" datetime
  | PreviewCall memory_access "uuid list" datetime bool
  | DeleteCall memory_access deletion_preview approval_record datetime
  | ApplyHoldCall memory_access uuid string approval_record datetime
  | ReleaseHoldCall memory_access uuid approval_record datetime
  | EraseCall "key_ref \<Rightarrow> bool" memory_access uuid approval_record datetime

fun lifecycle_run :: "lifecycle_policy \<Rightarrow> lifecycle_call \<Rightarrow> unit governing" where
  "lifecycle_run policy (RegisterCall a r) = voidP (register policy a r)"
| "lifecycle_run policy (ExportCall a ids now) = voidP (export_objects a ids now)"
| "lifecycle_run policy (PreviewCall a ids now force) = voidP (preview_delete policy a ids now force)"
| "lifecycle_run policy (DeleteCall a p ap now) = voidP (delete_objects policy a p ap now)"
| "lifecycle_run policy (ApplyHoldCall a i reason ap now) = voidP (apply_hold a i reason ap now)"
| "lifecycle_run policy (ReleaseHoldCall a i ap now) = voidP (release_hold policy a i ap now)"
| "lifecycle_run policy (EraseCall rv a i ap now) = voidP (cryptographic_erase rv a i ap now)"

definition delete_action :: "deletion_preview \<Rightarrow> string" where
  "delete_action p = (if dv_force_before_retention p then ''data.delete.force'' else ''data.delete'')"

definition new_hold :: "memory_access \<Rightarrow> uuid \<Rightarrow> string \<Rightarrow> approval_record \<Rightarrow> datetime \<Rightarrow> legal_hold" where
  "new_hold a i reason ap now =
     \<lparr>lh_hold_id = hold_id_for i (ar_approval_id ap), lh_scope = ma_scope a, lh_object_id = i, lh_reason = reason,
      lh_state = HOLD_ACTIVE, lh_approval_id = ar_approval_id ap, lh_applied_at = now, lh_released_at = None\<rparr>"

definition logging :: "lifecycle_repo \<Rightarrow> tenant_scope \<Rightarrow> lifecycle_action \<Rightarrow> governed_object list \<Rightarrow> uuid option \<Rightarrow> datetime \<Rightarrow> lifecycle_repo" where
  "logging s scope action items approval now = s\<lparr>lc_events := lc_events s @ [event_for scope action items approval now]\<rparr>"

inductive change :: "lifecycle_policy \<Rightarrow> lifecycle_call \<Rightarrow> lifecycle_repo \<Rightarrow> lifecycle_repo \<Rightarrow> bool" for policy where
  registers: "may a ''register'' \<Longrightarrow> map_of (lc_objects s) (rg_object_id r) = None \<Longrightarrow>
    1 \<le> retention_days_for policy r \<Longrightarrow> retention_days_for policy r \<le> 3650 \<Longrightarrow> valid_object (object_for policy a r) \<Longrightarrow>
    change policy (RegisterCall a r) s
      (logging (s\<lparr>lc_objects := stored [object_for policy a r] (lc_objects s)\<rparr>)
        (ma_scope a) ACT_REGISTER [object_for policy a r] None (rg_created_at r))"
| exports: "may a ''export'' \<Longrightarrow> loaded a (lc_objects s) ids items \<Longrightarrow>
    change policy (ExportCall a ids now) s (logging s (ma_scope a) ACT_EXPORT items None now)"
| deletes: "may a ''delete'' \<Longrightarrow> ma_scope a = dv_scope p \<Longrightarrow>
    approval_ok ap (dv_scope p) (delete_action p) ''lifecycle.preview'' (dv_preview_id p)
      (lp_policy_version policy) (dv_preview_sha256 p) now \<Longrightarrow>
    map_of (lc_completed_previews s) (dv_preview_sha256 p) = None \<Longrightarrow>
    loaded a (lc_objects s) (dv_object_ids p) items \<Longrightarrow>
    (\<forall>g \<in> set items. go_object_id g \<notin> held_ids (lc_holds s)) \<Longrightarrow>
    map go_content_sha256 items = dv_object_hashes p \<Longrightarrow>
    change policy (DeleteCall a p ap now) s
      (logging (s\<lparr>lc_objects := stored (map (tombstone now) items) (lc_objects s),
                 lc_completed_previews := AList.update (dv_preview_sha256 p) (dv_object_ids p) (lc_completed_previews s)\<rparr>)
        (dv_scope p) ACT_DELETE (map (tombstone now) items) (Some (ar_approval_id ap)) now)"
| holds: "may a ''hold'' \<Longrightarrow> loaded a (lc_objects s) [i] [g] \<Longrightarrow>
    approval_ok ap (ma_scope a) ''data.hold.apply'' (go_object_type g) (go_object_id g) (go_object_version g)
      (go_content_sha256 g) now \<Longrightarrow>
    go_object_id g = i \<Longrightarrow> map_of (lc_holds s) (hold_id_for i (ar_approval_id ap)) = None \<Longrightarrow>
    valid_hold (new_hold a i reason ap now) \<Longrightarrow>
    change policy (ApplyHoldCall a i reason ap now) s
      (logging (s\<lparr>lc_holds := AList.update (hold_id_for i (ar_approval_id ap)) (new_hold a i reason ap now) (lc_holds s)\<rparr>)
        (ma_scope a) ACT_HOLD_APPLY [g] (Some (ar_approval_id ap)) now)"
| releases: "may a ''hold'' \<Longrightarrow> map_of (lc_holds s) i = Some h \<Longrightarrow> ma_scope a = lh_scope h \<Longrightarrow> lh_state h = HOLD_ACTIVE \<Longrightarrow>
    approval_ok ap (lh_scope h) ''data.hold.release'' ''legal_hold'' (lh_hold_id h) (lp_policy_version policy)
      (hold_sha256 h) now \<Longrightarrow>
    map_of (lc_objects s) (lh_object_id h) = Some g \<Longrightarrow>
    change policy (ReleaseHoldCall a i ap now) s
      (logging (s\<lparr>lc_holds := AList.update i (h\<lparr>lh_state := HOLD_RELEASED, lh_released_at := Some now\<rparr>) (lc_holds s)\<rparr>)
        (lh_scope h) ACT_HOLD_RELEASE [g] (Some (ar_approval_id ap)) now)"
| erases: "may a ''erase'' \<Longrightarrow> loaded a (lc_objects s) [i] [g] \<Longrightarrow> go_object_id g \<notin> held_ids (lc_holds s) \<Longrightarrow>
    dt_lt now (go_retention_until g) = Inr False \<Longrightarrow>
    approval_ok ap (ma_scope a) ''data.erase'' (go_object_type g) (go_object_id g) (go_object_version g)
      (go_content_sha256 g) now \<Longrightarrow>
    go_encryption_key_ref g = Some key \<Longrightarrow> kf_purpose key = ''object-'' @ uuid_hex (go_object_id g) \<Longrightarrow> rv key \<Longrightarrow>
    change policy (EraseCall rv a i ap now) s
      (logging (s\<lparr>lc_revoked := lc_revoked s @ [key], lc_objects := stored [erased_object now g] (lc_objects s)\<rparr>)
        (ma_scope a) ACT_CRYPTO_ERASE [erased_object now g] (Some (ar_approval_id ap)) now)"

subsection \<open>The invariant\<close>

text \<open>Objects are valid and sit under their identifiers; a hold names an existing object of its scope, an
  active hold an active object; the objects of a completed preview are tombstones.\<close>

definition objects_ok :: "(uuid \<times> governed_object) list \<Rightarrow> bool" where
  "objects_ok objects = (\<forall>i g. map_of objects i = Some g \<longrightarrow> go_object_id g = i \<and> valid_object g)"

definition holds_ok :: "(uuid \<times> governed_object) list \<Rightarrow> (uuid \<times> legal_hold) list \<Rightarrow> bool" where
  "holds_ok objects holds = (distinct_keys holds \<and> (\<forall>i h. map_of holds i = Some h \<longrightarrow> lh_hold_id h = i \<and>
     (\<exists>g. map_of objects (lh_object_id h) = Some g \<and> go_scope g = lh_scope h \<and>
        (lh_state h = HOLD_ACTIVE \<longrightarrow> go_state g = LC_ACTIVE))))"

definition previews_ok :: "(uuid \<times> governed_object) list \<Rightarrow> (string \<times> uuid list) list \<Rightarrow> bool" where
  "previews_ok objects previews = (\<forall>p ids. map_of previews p = Some ids \<longrightarrow>
     (\<forall>i \<in> set ids. \<exists>g. map_of objects i = Some g \<and> go_state g \<noteq> LC_ACTIVE))"

definition lifecycle_inv :: "lifecycle_repo \<Rightarrow> bool" where
  "lifecycle_inv s = (objects_ok (lc_objects s) \<and> holds_ok (lc_objects s) (lc_holds s) \<and>
     previews_ok (lc_objects s) (lc_completed_previews s))"

lemma objects_okD: "objects_ok objects \<Longrightarrow> map_of objects i = Some g \<Longrightarrow> go_object_id g = i \<and> valid_object g"
  by (simp add: objects_ok_def)

lemma holds_okD:
  "holds_ok objects holds \<Longrightarrow> map_of holds i = Some h \<Longrightarrow> lh_hold_id h = i \<and>
     (\<exists>g. map_of objects (lh_object_id h) = Some g \<and> go_scope g = lh_scope h \<and>
        (lh_state h = HOLD_ACTIVE \<longrightarrow> go_state g = LC_ACTIVE))"
  by (simp add: holds_ok_def)

lemma held_ids_iff:
  "distinct_keys holds \<Longrightarrow>
   i \<in> held_ids holds \<longleftrightarrow> (\<exists>k h. map_of holds k = Some h \<and> lh_object_id h = i \<and> lh_state h = HOLD_ACTIVE)"
  unfolding held_ids_def distinct_keys_def by (force simp: map_of_eq_Some_iff)

lemma loaded_member:
  assumes "loaded a objects ids items" "g \<in> set items"
  shows "\<exists>i \<in> set ids. map_of objects i = Some g"
proof -
  have "Some g \<in> set (map (map_of objects) ids)"
    using assms by (simp add: loaded_def)
  then show ?thesis by auto
qed

lemma loaded_active:
  "loaded a objects ids items \<Longrightarrow> g \<in> set items \<Longrightarrow> go_state g = LC_ACTIVE \<and> go_scope g = ma_scope a \<and>
     classification_rank (go_classification g) \<le> classification_rank (ma_clearance a)"
  by (simp add: loaded_def list_all_iff)

lemma loaded_ids:
  assumes "objects_ok objects" "loaded a objects ids items"
  shows "map go_object_id items = ids"
proof (rule nth_equalityI)
  have eq: "map (map_of objects) ids = map Some items"
    using assms(2) by (simp add: loaded_def)
  then show len: "length (map go_object_id items) = length ids"
    by (metis length_map)
  fix k assume "k < length (map go_object_id items)"
  then have "map_of objects (ids ! k) = Some (items ! k)"
    using eq len by (metis length_map nth_map)
  then show "map go_object_id items ! k = ids ! k"
    using objects_okD [OF assms(1)] \<open>k < length (map go_object_id items)\<close> by simp
qed

lemma load_single_run:
  "load_active a [i] s = (Inr items, t) \<longleftrightarrow> (\<exists>g. items = [g] \<and> loaded a (lc_objects s) [i] [g]) \<and> t = s"
  unfolding load_active_run by (auto simp: loaded_def)

subsection \<open>The methods refine the transitions\<close>

text \<open>A run of a method: it raised and changed nothing, returned and changed nothing, or made its transition.\<close>

definition refines_change :: "lifecycle_policy \<Rightarrow> lifecycle_call \<Rightarrow> lifecycle_repo \<Rightarrow> fault + 'a \<Rightarrow> lifecycle_repo \<Rightarrow> bool" where
  "refines_change policy c s r t = (t = s \<or> ((\<exists>x. r = Inr x) \<and> change policy c s t))"

lemma register_refines: "register policy a r s = (q, t) \<Longrightarrow> refines_change policy (RegisterCall a r) s q t"
  unfolding refines_change_def register_def Let_def
  by (elim thenP_cases bindP_cases)
    (auto split: if_splits simp: thenP_def bindP_def logging_def dest: authorize_run(3)
      intro!: change.registers [unfolded logging_def, where s = s, simplified])

lemma export_refines: "export_objects a ids now s = (q, t) \<Longrightarrow> refines_change policy (ExportCall a ids now) s q t"
  unfolding refines_change_def export_objects_def Let_def
  by (elim thenP_cases bindP_cases)
    (auto dest: authorize_run(3) load_active_run(2) intro!: change.exports [unfolded logging_def])

lemma preview_refines:
  "preview_delete policy a ids now force s = (q, t) \<Longrightarrow> refines_change policy (PreviewCall a ids now force) s q t"
  unfolding refines_change_def preview_delete_def Let_def
  by (elim thenP_cases bindP_cases)
    (auto split: if_splits dest: authorize_run(3) load_active_run(2) deny_holds_run(2))

lemma delete_refines:
  "delete_objects policy a p ap now s = (q, t) \<Longrightarrow> refines_change policy (DeleteCall a p ap now) s q t"
  unfolding refines_change_def delete_objects_def Let_def delete_action_def [symmetric]
  by (elim thenP_cases bindP_cases)
    (auto split: if_splits option.splits elim!: thenP_cases bindP_cases
      dest: authorize_run(3) load_active_run(2) deny_holds_run(2) validate_approval_run(3)
      intro!: change.deletes [unfolded logging_def, where s = s, simplified])

lemma apply_hold_refines:
  assumes "lifecycle_inv s" "apply_hold a i reason ap now s = (q, t)"
  shows "refines_change policy (ApplyHoldCall a i reason ap now) s q t"
proof -
  have ids: "go_object_id g = i" if "loaded a (lc_objects s) [i] [g]" for g
    using assms(1) loaded_ids [OF _ that] by (simp add: lifecycle_inv_def)
  show ?thesis
    using assms(2) ids
    unfolding refines_change_def apply_hold_def Let_def
    by (elim thenP_cases bindP_cases)
      (auto split: if_splits option.splits simp: new_hold_def [symmetric] load_single_run
        simp del: load_active_run(1) elim!: thenP_cases bindP_cases
        dest: authorize_run(3) load_active_run(2) validate_approval_run(3)
        intro!: change.holds [unfolded logging_def, where s = s, simplified])
qed

lemma release_hold_refines:
  assumes "lifecycle_inv s" "release_hold policy a i ap now s = (q, t)"
  shows "refines_change policy (ReleaseHoldCall a i ap now) s q t"
proof -
  have item: "map_of (lc_objects s) (lh_object_id h) \<noteq> None" if "map_of (lc_holds s) i = Some h" for h
    using assms(1) that holds_okD by (fastforce simp: lifecycle_inv_def)
  have state: "lh_state h \<noteq> HOLD_RELEASED \<Longrightarrow> lh_state h = HOLD_ACTIVE" for h
    by (cases "lh_state h") simp_all
  show ?thesis
    using assms(2) item state
    unfolding refines_change_def release_hold_def Let_def
    by (elim thenP_cases bindP_cases)
      (auto split: if_splits option.splits elim!: thenP_cases bindP_cases
        dest: authorize_run(3) validate_approval_run(3)
        intro!: change.releases [unfolded logging_def, where s = s, simplified])
qed

lemma revoke_run [simp]:
  "revoke rv key s = (Inr u, t) \<longleftrightarrow> rv key \<and> t = s\<lparr>lc_revoked := lc_revoked s @ [key]\<rparr>"
  "revoke rv key s = (Inl e, t) \<Longrightarrow> t = s"
  by (auto simp: revoke_def split: if_splits)

lemma erase_refines:
  "cryptographic_erase rv a i ap now s = (q, t) \<Longrightarrow> refines_change policy (EraseCall rv a i ap now) s q t"
  unfolding refines_change_def cryptographic_erase_def Let_def
  by (elim thenP_cases bindP_cases)
    (auto split: if_splits option.splits simp: load_single_run simp del: load_active_run(1)
      elim!: thenP_cases bindP_cases dest: authorize_run(3) load_active_run(2) deny_holds_run(2) validate_approval_run(3) revoke_run(2)
      intro!: change.erases [unfolded logging_def, where s = s, simplified])

lemma voidP_cases:
  assumes "voidP m s = (r, t)"
  obtains e where "m s = (Inl e, t)" "r = Inl e" | x where "m s = (Inr x, t)" "r = Inr ()"
  using assms by (auto simp: voidP_def elim!: bindP_cases)

lemma voidP_refines:
  "(\<And>q. m s = (q, t) \<Longrightarrow> refines_change policy c s q t) \<Longrightarrow> voidP m s = (r, t) \<Longrightarrow> refines_change policy c s r t"
  by (auto simp: refines_change_def elim!: voidP_cases)

lemma lifecycle_call_refines:
  assumes "lifecycle_inv s" "lifecycle_run policy c s = (r, t)"
  shows "refines_change policy c s r t"
  using assms
  by (cases c) (auto intro: voidP_refines register_refines export_refines preview_refines delete_refines
      apply_hold_refines release_hold_refines erase_refines)

end
