(* ===== verification/LifecycleInvariant.thy ===== *)
theory LifecycleInvariant
  imports LifecycleSteps
begin

section \<open>The lifecycle invariant\<close>

text \<open>
  Every transition keeps \<open>lifecycle_inv\<close>, so it holds in every repository reachable from the empty one
  (interpretation \<open>lifecycle\<close>). Then, over the transitions: the only ways an object may change
  (\<open>change_object\<close>) and a hold may end (\<open>change_hold\<close>).
\<close>

subsection \<open>The invariant is kept\<close>

lemma objects_ok_stored:
  "objects_ok objects \<Longrightarrow> \<forall>g \<in> set gs. valid_object g \<Longrightarrow> objects_ok (stored gs objects)"
  unfolding objects_ok_def by (metis map_of_stored_cases)

text \<open>A new version of an object: the object is new, or it has the scope of the one it replaces and is not
  under an active hold.\<close>

definition replaces :: "lifecycle_repo \<Rightarrow> governed_object list \<Rightarrow> bool" where
  "replaces s gs = (distinct (map go_object_id gs) \<and> (\<forall>g \<in> set gs. valid_object g \<and>
     (map_of (lc_objects s) (go_object_id g) = None \<or>
      go_state g \<noteq> LC_ACTIVE \<and> go_object_id g \<notin> held_ids (lc_holds s) \<and>
      (\<exists>old. map_of (lc_objects s) (go_object_id g) = Some old \<and> go_scope g = go_scope old))))"

lemma holds_ok_stored:
  assumes "holds_ok (lc_objects s) (lc_holds s)" "replaces s gs"
  shows "holds_ok (stored gs (lc_objects s)) (lc_holds s)"
  unfolding holds_ok_def
proof (intro conjI allI impI)
  show d: "distinct_keys (lc_holds s)"
    using assms(1) by (simp add: holds_ok_def)
  fix k h assume h: "map_of (lc_holds s) k = Some h"
  from holds_okD [OF assms(1) h] obtain old where old: "lh_hold_id h = k"
      "map_of (lc_objects s) (lh_object_id h) = Some old" "go_scope old = lh_scope h"
      "lh_state h = HOLD_ACTIVE \<longrightarrow> go_state old = LC_ACTIVE"
    by blast
  then show "lh_hold_id h = k"
    by simp
  show "\<exists>g. map_of (stored gs (lc_objects s)) (lh_object_id h) = Some g \<and> go_scope g = lh_scope h \<and>
      (lh_state h = HOLD_ACTIVE \<longrightarrow> go_state g = LC_ACTIVE)"
  proof (cases "lh_object_id h \<in> go_object_id ` set gs")
    case True
    then obtain g where g: "g \<in> set gs" "go_object_id g = lh_object_id h"
      by auto
    then have "lh_object_id h \<notin> held_ids (lc_holds s)" "go_scope g = go_scope old"
      using assms(2) old(2) unfolding replaces_def by force+
    then have "lh_state h \<noteq> HOLD_ACTIVE"
      using h unfolding held_ids_iff [OF d] by blast
    moreover have "map_of (stored gs (lc_objects s)) (lh_object_id h) = Some g"
      using map_of_stored_member [OF g(1)] assms(2) g(2) by (simp add: replaces_def)
    ultimately show ?thesis
      using \<open>go_scope g = go_scope old\<close> old(3) by simp
  next
    case False
    then show ?thesis
      using old by (simp add: map_of_stored_other)
  qed
qed

lemma previews_ok_stored:
  assumes "previews_ok (lc_objects s) previews" "replaces s gs"
  shows "previews_ok (stored gs (lc_objects s)) previews"
  unfolding previews_ok_def
proof (intro allI impI ballI)
  fix p ids i assume "map_of previews p = Some ids" "i \<in> set ids"
  then obtain old where old: "map_of (lc_objects s) i = Some old" "go_state old \<noteq> LC_ACTIVE"
    using assms(1) unfolding previews_ok_def by blast
  show "\<exists>g. map_of (stored gs (lc_objects s)) i = Some g \<and> go_state g \<noteq> LC_ACTIVE"
  proof (cases "i \<in> go_object_id ` set gs")
    case True
    then obtain g where g: "g \<in> set gs" "go_object_id g = i"
      by auto
    then have "map_of (stored gs (lc_objects s)) i = Some g"
      using map_of_stored_member [OF g(1)] assms(2) by (simp add: replaces_def)
    moreover have "go_state g \<noteq> LC_ACTIVE"
      using g old(1) assms(2) unfolding replaces_def by force
    ultimately show ?thesis by blast
  next
    case False
    then show ?thesis
      using old by (simp add: map_of_stored_other)
  qed
qed

lemma stored_inv:
  assumes "lifecycle_inv s" "replaces s gs"
  shows "lifecycle_inv (s\<lparr>lc_objects := stored gs (lc_objects s)\<rparr>)"
  using assms objects_ok_stored holds_ok_stored previews_ok_stored
  by (auto simp: lifecycle_inv_def replaces_def)

lemma logging_fields [simp]:
  "lc_objects (logging s scope action items approval now) = lc_objects s"
  "lc_holds (logging s scope action items approval now) = lc_holds s"
  "lc_completed_previews (logging s scope action items approval now) = lc_completed_previews s"
  "lc_revoked (logging s scope action items approval now) = lc_revoked s"
  "lc_events (logging s scope action items approval now) = lc_events s @ [event_for scope action items approval now]"
  by (simp_all add: logging_def)

lemma logging_inv [simp]: "lifecycle_inv (logging s scope action items approval now) \<longleftrightarrow> lifecycle_inv s"
  by (simp add: lifecycle_inv_def)

lemma revoked_inv [simp]: "lifecycle_inv (s\<lparr>lc_revoked := ks, lc_objects := os\<rparr>) \<longleftrightarrow> lifecycle_inv (s\<lparr>lc_objects := os\<rparr>)"
  by (simp add: lifecycle_inv_def)

lemma tombstone_fields [simp]:
  "go_object_id (tombstone now g) = go_object_id g" "go_scope (tombstone now g) = go_scope g"
  "go_state (tombstone now g) = LC_DELETED" "go_content (tombstone now g) = None"
  "go_content_sha256 (tombstone now g) = go_content_sha256 g"
  "go_object_id (erased_object now g) = go_object_id g" "go_scope (erased_object now g) = go_scope g"
  "go_state (erased_object now g) = LC_CRYPTO_ERASED" "go_content (erased_object now g) = None"
  by (simp_all add: tombstone_def erased_object_def)

lemma tombstone_valid: "valid_object g \<Longrightarrow> valid_object (tombstone now g) \<and> valid_object (erased_object now g)"
  by (auto simp: valid_object_def validate_object_def tombstone_def erased_object_def split: option.splits)

lemma loaded_replaces:
  assumes inv: "lifecycle_inv s" and l: "loaded a (lc_objects s) ids items"
    and free: "\<forall>g \<in> set items. go_object_id g \<notin> held_ids (lc_holds s)"
    and f: "\<And>g. go_object_id (f g) = go_object_id g" "\<And>g. go_scope (f g) = go_scope g"
      "\<And>g. go_state (f g) \<noteq> LC_ACTIVE" "\<And>g. valid_object g \<Longrightarrow> valid_object (f g)"
  shows "replaces s (map f items)"
  unfolding replaces_def
proof
  have ok: "objects_ok (lc_objects s)"
    using inv by (simp add: lifecycle_inv_def)
  have "map (go_object_id \<circ> f) items = ids"
    using loaded_ids [OF ok l] f(1) by (simp add: comp_def)
  then show "distinct (map go_object_id (map f items))"
    using l by (simp add: loaded_def)
  show "\<forall>g \<in> set (map f items). valid_object g \<and>
      (map_of (lc_objects s) (go_object_id g) = None \<or>
       go_state g \<noteq> LC_ACTIVE \<and> go_object_id g \<notin> held_ids (lc_holds s) \<and>
       (\<exists>old. map_of (lc_objects s) (go_object_id g) = Some old \<and> go_scope g = go_scope old))"
  proof
    fix g' assume "g' \<in> set (map f items)"
    then obtain g where g: "g \<in> set items" "g' = f g"
      by auto
    moreover obtain i where "map_of (lc_objects s) i = Some g"
      using loaded_member [OF l g(1)] by blast
    moreover from this have "go_object_id g = i" "valid_object g"
      using objects_okD [OF ok] by auto
    ultimately show "valid_object g' \<and>
      (map_of (lc_objects s) (go_object_id g') = None \<or>
       go_state g' \<noteq> LC_ACTIVE \<and> go_object_id g' \<notin> held_ids (lc_holds s) \<and>
       (\<exists>old. map_of (lc_objects s) (go_object_id g') = Some old \<and> go_scope g' = go_scope old))"
      using free f by auto
  qed
qed

lemmas loaded_tombstones = loaded_replaces [where f = "tombstone now" for now]
lemmas loaded_erased = loaded_replaces [where items = "[g]" and f = "erased_object now" for g now]

lemma change_inv: "change policy c s t \<Longrightarrow> lifecycle_inv s \<Longrightarrow> lifecycle_inv t"
proof (induction rule: change.induct)
  case (registers a s r)
  then have "replaces s [object_for policy a r]"
    by (simp add: replaces_def object_for_def)
  then show ?case
    using stored_inv registers.prems by simp
next
  case (deletes a p ap now s items)
  have "lifecycle_inv (s\<lparr>lc_objects := stored (map (tombstone now) items) (lc_objects s)\<rparr>)"
    using deletes tombstone_valid by (intro stored_inv loaded_tombstones) auto
  moreover have "previews_ok (stored (map (tombstone now) items) (lc_objects s))
      (AList.update (dv_preview_sha256 p) (dv_object_ids p) (lc_completed_previews s))"
  proof -
    have ids: "dv_object_ids p = map go_object_id (map (tombstone now) items)"
      using loaded_ids deletes by (fastforce simp: lifecycle_inv_def comp_def)
    have "distinct (map go_object_id (map (tombstone now) items))"
      using deletes(5) unfolding ids [symmetric] by (simp add: loaded_def)
    then have "map_of (stored (map (tombstone now) items) (lc_objects s)) (go_object_id g) = Some (tombstone now g)"
      if "g \<in> set items" for g
      using that map_of_stored_member [of "tombstone now g" "map (tombstone now) items"] by simp
    then have "\<exists>g. map_of (stored (map (tombstone now) items) (lc_objects s)) i = Some g \<and> go_state g \<noteq> LC_ACTIVE"
      if "i \<in> set (dv_object_ids p)" for i
      using that unfolding ids by (auto simp: tombstone_fields)
    then show ?thesis
      using calculation by (auto simp: lifecycle_inv_def previews_ok_def split: if_splits)
  qed
  ultimately show ?case
    by (simp add: lifecycle_inv_def)
next
  case (holds a s i g ap now reason)
  have "map_of (lc_objects s) i = Some g" "go_scope g = ma_scope a" "go_state g = LC_ACTIVE"
    using holds(2) by (auto simp: loaded_def)
  then show ?case
    using holds.prems by (auto simp: lifecycle_inv_def holds_ok_def new_hold_def split: if_splits)
next
  case (releases a s i h ap now g)
  then have "lh_hold_id h = i" "\<exists>g. map_of (lc_objects s) (lh_object_id h) = Some g \<and> go_scope g = lh_scope h"
    using holds_okD by (fastforce simp: lifecycle_inv_def)+
  then show ?case
    using releases.prems by (auto simp: lifecycle_inv_def holds_ok_def split: if_splits)
next
  case (erases a s i g now ap key rv)
  then have "replaces s (map (erased_object now) [g])"
    using tombstone_valid by (intro loaded_erased) auto
  then show ?case
    using stored_inv erases.prems by simp
qed simp

definition lifecycle_step :: "lifecycle_policy \<Rightarrow> lifecycle_repo \<Rightarrow> lifecycle_repo \<Rightarrow> bool" where
  "lifecycle_step policy s t = (\<exists>c r. lifecycle_run policy c s = (r, t))"

lemma run_inv: "lifecycle_inv s \<Longrightarrow> lifecycle_run policy c s = (r, t) \<Longrightarrow> lifecycle_inv t"
  using lifecycle_call_refines change_inv by (fastforce simp: refines_change_def)

interpretation lifecycle: invariant_machine "\<lambda>s. s = empty_lifecycle" "lifecycle_step policy" lifecycle_inv for policy
proof
  show "lifecycle_inv s" if "s = empty_lifecycle" for s
    using that by (simp add: lifecycle_inv_def empty_lifecycle_def objects_ok_def holds_ok_def previews_ok_def)
  show "lifecycle_inv t" if "lifecycle_inv s" "lifecycle_step policy s t" for s t
    using that run_inv by (auto simp: lifecycle_step_def)
qed

abbreviation lifecycle_reachable :: "lifecycle_policy \<Rightarrow> lifecycle_repo \<Rightarrow> bool" where
  "lifecycle_reachable policy \<equiv> reaches (\<lambda>s. s = empty_lifecycle) (lifecycle_step policy)"

subsection \<open>How an object may change\<close>

text \<open>The two ways content may go: an approved deletion whose preview lists the object and its digest, or an
  approved erasure of exactly this object after its retention, with its own key revoked.\<close>

definition deleted_by :: "lifecycle_policy \<Rightarrow> lifecycle_call \<Rightarrow> governed_object \<Rightarrow> governed_object \<Rightarrow> bool" where
  "deleted_by policy c g g' = (\<exists>a p ap now. c = DeleteCall a p ap now \<and> go_object_id g \<in> set (dv_object_ids p) \<and>
     go_content_sha256 g \<in> set (dv_object_hashes p) \<and> may a ''delete'' \<and> go_scope g = ma_scope a \<and>
     dv_scope p = ma_scope a \<and>
     classification_rank (go_classification g) \<le> classification_rank (ma_clearance a) \<and>
     approval_ok ap (ma_scope a) (delete_action p) ''lifecycle.preview'' (dv_preview_id p)
       (lp_policy_version policy) (dv_preview_sha256 p) now \<and> g' = tombstone now g)"

definition erased_by :: "lifecycle_call \<Rightarrow> governed_object \<Rightarrow> governed_object \<Rightarrow> key_ref list \<Rightarrow> bool" where
  "erased_by c g g' revoked = (\<exists>rv a ap now key. c = EraseCall rv a (go_object_id g) ap now \<and> may a ''erase'' \<and>
     go_scope g = ma_scope a \<and>
     classification_rank (go_classification g) \<le> classification_rank (ma_clearance a) \<and>
     dt_us (go_retention_until g) \<le> dt_us now \<and>
     approval_ok ap (ma_scope a) ''data.erase'' (go_object_type g) (go_object_id g) (go_object_version g)
       (go_content_sha256 g) now \<and>
     go_encryption_key_ref g = Some key \<and> kf_purpose key = ''object-'' @ uuid_hex (go_object_id g) \<and> rv key \<and>
     key \<in> set revoked \<and> g' = erased_object now g)"

lemma dt_lt_False: "dt_lt a b = Inr False \<Longrightarrow> dt_us b \<le> dt_us a"
  by (auto simp: dt_lt_def split: if_splits)

lemma change_object:
  assumes "change policy c s t" "lifecycle_inv s" "map_of (lc_objects s) i = Some g"
  shows "map_of (lc_objects t) i = Some g \<or>
    (\<exists>g'. map_of (lc_objects t) i = Some g' \<and> go_state g = LC_ACTIVE \<and> i \<notin> held_ids (lc_holds s) \<and>
       (deleted_by policy c g g' \<or> erased_by c g g' (lc_revoked t)))"
  using assms
proof (induction rule: change.induct)
  case (registers a s r)
  then show ?case
    by (cases "rg_object_id r = i") (auto simp: stored_def object_for_def)
next
  case (deletes a p ap now s items)
  have ok: "objects_ok (lc_objects s)"
    using deletes.prems(1) by (simp add: lifecycle_inv_def)
  have ids: "map go_object_id items = dv_object_ids p"
    using loaded_ids [OF ok deletes(5)] .
  have id: "go_object_id g = i"
    using objects_okD [OF ok deletes.prems(2)] by simp
  show ?case
  proof (cases "i \<in> go_object_id ` set items")
    case True
    then obtain x where x: "x \<in> set items" "go_object_id x = i"
      by auto
    then have "x = g"
      using loaded_member [OF deletes(5) x(1)] objects_okD [OF ok] deletes.prems(2) by fastforce
    with x have g: "g \<in> set items"
      by simp
    have "distinct (map go_object_id (map (tombstone now) items))"
      using deletes(5) ids by (simp add: loaded_def comp_def)
    then have "map_of (stored (map (tombstone now) items) (lc_objects s)) i = Some (tombstone now g)"
      using map_of_stored_member [of "tombstone now g" "map (tombstone now) items"] g id by simp
    moreover have "deleted_by policy (DeleteCall a p ap now) g (tombstone now g)"
    proof -
      have "go_object_id g \<in> set (dv_object_ids p)" "go_content_sha256 g \<in> set (dv_object_hashes p)"
        using g unfolding ids [symmetric] deletes(7) [symmetric] by auto
      then show ?thesis
        using deletes(1-3) loaded_active [OF deletes(5) g] unfolding deleted_by_def by auto
    qed
    ultimately show ?thesis
      using deletes(6) g id loaded_active [OF deletes(5) g] by auto
  next
    case False
    then show ?thesis
      using deletes.prems(2) by (simp add: map_of_stored_other image_image)
  qed
next
  case (erases a s j g' now ap key rv)
  have "objects_ok (lc_objects s)"
    using erases.prems(1) by (simp add: lifecycle_inv_def)
  then have j: "go_object_id g' = j"
    using loaded_ids [OF _ erases(2)] by simp
  show ?case
  proof (cases "i = j")
    case True
    then have "g' = g"
      using erases(2) erases.prems(2) by (simp add: loaded_def)
    moreover have "map_of (stored [erased_object now g'] (lc_objects s)) i = Some (erased_object now g')"
      using True j by (simp add: stored_def)
    moreover have "erased_by (EraseCall rv a j ap now) g' (erased_object now g') (lc_revoked s @ [key])"
      using erases loaded_active [OF erases(2), of g'] j dt_lt_False unfolding erased_by_def by auto
    ultimately show ?thesis
      using erases(3) True j loaded_active [OF erases(2), of g'] by auto
  next
    case False
    then show ?thesis
      using erases.prems(2) j by (simp add: map_of_stored_other)
  qed
qed simp_all

lemma run_object:
  assumes "lifecycle_inv s" "lifecycle_run policy c s = (r, t)" "map_of (lc_objects s) i = Some g"
  shows "map_of (lc_objects t) i = Some g \<or>
    (\<exists>g'. map_of (lc_objects t) i = Some g' \<and> go_state g = LC_ACTIVE \<and> i \<notin> held_ids (lc_holds s) \<and>
       (deleted_by policy c g g' \<or> erased_by c g g' (lc_revoked t)))"
  using lifecycle_call_refines [OF assms(1,2)] change_object [OF _ assms(1,3)] assms(3)
  by (auto simp: refines_change_def)

text \<open>A hold only goes from active to released, by a release of its identifier.\<close>

lemma change_hold:
  assumes "change policy c s t" "lifecycle_inv s" "map_of (lc_holds s) k = Some h"
    "\<forall>a ap now. c \<noteq> ReleaseHoldCall a k ap now"
  shows "map_of (lc_holds t) k = Some h"
  using assms by (induction rule: change.induct) auto

lemma run_hold:
  assumes "lifecycle_inv s" "lifecycle_run policy c s = (r, t)" "map_of (lc_holds s) k = Some h"
    "\<forall>a ap now. c \<noteq> ReleaseHoldCall a k ap now"
  shows "map_of (lc_holds t) k = Some h"
  using lifecycle_call_refines [OF assms(1,2)] change_hold [OF _ assms(1,3,4)] assms(3)
  by (auto simp: refines_change_def)

lemmas reachable_inv = lifecycle.reachable_inv

lemma inv_content:
  assumes "lifecycle_inv s" "map_of (lc_objects s) i = Some g"
  shows "(go_state g = LC_ACTIVE \<longrightarrow> (\<exists>c. go_content g = Some c \<and> content_sha256 c = go_content_sha256 g)) \<and>
    (go_state g \<noteq> LC_ACTIVE \<longrightarrow> go_content g = None)"
  using assms objects_okD by (fastforce simp: lifecycle_inv_def valid_object_def validate_object_def split: option.splits)

end
