(* ===== verification/LifecycleProperties.thy ===== *)
theory LifecycleProperties
  imports LifecycleInvariant CacheKeys
begin

section \<open>What the lifecycle service guarantees\<close>

text \<open>
  A legal hold protects its object, content only disappears with an approval for it, tombstones are final, a
  repeated deletion returns what the first one returned, every change is logged and a refused call changes nothing,
  exports hold exactly the active objects asked for, and a preview digest covers what a preview lists. The last
  property states what a deletion does not check of its preview.
\<close>

subsection \<open>When the methods succeed\<close>

lemma load_active_eq: "loaded a (lc_objects s) ids items \<Longrightarrow> load_active a ids s = (Inr items, s)"
  by simp

lemma deny_holds_eq: "\<forall>g \<in> set items. go_object_id g \<notin> held_ids (lc_holds s) \<Longrightarrow> deny_holds items s = (Inr (), s)"
  by simp

lemma register_succeeds:
  assumes "may a ''register''" "map_of (lc_objects s) (rg_object_id r) = None"
    "1 \<le> retention_days_for policy r" "retention_days_for policy r \<le> 3650" "valid_object (object_for policy a r)"
  shows "register policy a r s = (Inr (object_for policy a r),
    logging (s\<lparr>lc_objects := stored [object_for policy a r] (lc_objects s)\<rparr>)
      (ma_scope a) ACT_REGISTER [object_for policy a r] None (rg_created_at r))"
  using assms by (simp add: register_def thenP_def bindP_def Let_def logging_def)

lemma apply_hold_succeeds:
  assumes "may a ''hold''" "loaded a (lc_objects s) [i] [g]" "go_object_id g = i"
    "approval_ok ap (ma_scope a) ''data.hold.apply'' (go_object_type g) i (go_object_version g) (go_content_sha256 g) now"
    "map_of (lc_holds s) (hold_id_for i (ar_approval_id ap)) = None" "valid_hold (new_hold a i reason ap now)"
  shows "apply_hold a i reason ap now s = (Inr (new_hold a i reason ap now),
    logging (s\<lparr>lc_holds := AList.update (hold_id_for i (ar_approval_id ap)) (new_hold a i reason ap now) (lc_holds s)\<rparr>)
      (ma_scope a) ACT_HOLD_APPLY [g] (Some (ar_approval_id ap)) now)"
  using assms
  by (simp add: apply_hold_def thenP_def bindP_def Let_def load_active_eq [OF assms(2)] logging_def
      new_hold_def [symmetric])

lemma delete_succeeds:
  assumes "may a ''delete''" "ma_scope a = dv_scope p"
    "approval_ok ap (dv_scope p) (delete_action p) ''lifecycle.preview'' (dv_preview_id p)
       (lp_policy_version policy) (dv_preview_sha256 p) now"
    "map_of (lc_completed_previews s) (dv_preview_sha256 p) = None"
    "loaded a (lc_objects s) (dv_object_ids p) items"
    "\<forall>g \<in> set items. go_object_id g \<notin> held_ids (lc_holds s)"
    "map go_content_sha256 items = dv_object_hashes p"
  shows "delete_objects policy a p ap now s = (Inr (map (tombstone now) items),
    logging (s\<lparr>lc_objects := stored (map (tombstone now) items) (lc_objects s),
               lc_completed_previews := AList.update (dv_preview_sha256 p) (dv_object_ids p) (lc_completed_previews s)\<rparr>)
      (dv_scope p) ACT_DELETE (map (tombstone now) items) (Some (ar_approval_id ap)) now)"
  using assms
  by (simp add: delete_objects_def thenP_def bindP_def Let_def delete_action_def [symmetric] logging_def
      load_active_eq [OF assms(5)] deny_holds_eq [OF assms(6)])

lemma delete_replays:
  assumes "may a ''delete''" "ma_scope a = dv_scope p"
    "approval_ok ap (dv_scope p) (delete_action p) ''lifecycle.preview'' (dv_preview_id p)
       (lp_policy_version policy) (dv_preview_sha256 p) now"
    "map_of (lc_completed_previews s) (dv_preview_sha256 p) = Some ids"
  shows "delete_objects policy a p ap now s = (objects_at (lc_objects s) ids, s)"
  using assms
  by (simp add: delete_objects_def thenP_def bindP_def Let_def delete_action_def [symmetric])

lemma delete_returns:
  assumes "delete_objects policy a p ap now s = (Inr gs, t)"
  shows "may a ''delete'' \<and> ma_scope a = dv_scope p \<and>
    approval_ok ap (dv_scope p) (delete_action p) ''lifecycle.preview'' (dv_preview_id p)
      (lp_policy_version policy) (dv_preview_sha256 p) now \<and>
    (map_of (lc_completed_previews s) (dv_preview_sha256 p) = None \<longrightarrow>
       (\<exists>items. loaded a (lc_objects s) (dv_object_ids p) items \<and>
          (\<forall>g \<in> set items. go_object_id g \<notin> held_ids (lc_holds s)) \<and>
          map go_content_sha256 items = dv_object_hashes p))"
  using assms unfolding delete_objects_def Let_def delete_action_def [symmetric]
  by (elim thenP_cases bindP_cases; (auto split: if_splits option.splits elim!: thenP_cases bindP_cases
      dest: authorize_run(3) load_active_run(2) deny_holds_run(2) validate_approval_run(3); blast)?)

lemma objects_at_Some: "map (map_of objects) ids = map Some gs \<Longrightarrow> objects_at objects ids = Inr gs"
  by (induction ids arbitrary: gs) (auto simp: Cons_eq_map_conv)

subsection \<open>A sample repository\<close>

definition lc_scope :: tenant_scope where
  "lc_scope = \<lparr>ts_tenant_id = 1, ts_project_id = 2, ts_user_id = 3, ts_role_codes = [''engineer''],
     ts_permission_version = ''v1''\<rparr>"

definition lc_access :: memory_access where
  "lc_access = \<lparr>ma_scope = lc_scope, ma_permissions = [''lifecycle:register'', ''lifecycle:delete'', ''lifecycle:hold'',
     ''lifecycle:export''], ma_clearance = RESTRICTED\<rparr>"

definition lc_policy :: lifecycle_policy where
  "lc_policy = \<lparr>lp_policy_version = ''p1'', lp_default_retention_days = 365, lp_audit_retention_days = 2555\<rparr>"

definition lc_registration :: "uuid \<Rightarrow> registration" where
  "lc_registration i = \<lparr>rg_object_id = i, rg_object_type = ''scan'', rg_object_version = ''1'',
     rg_classification = INTERNAL, rg_content = [], rg_created_at = utc 0, rg_retention_days = None,
     rg_encryption_key_ref = None\<rparr>"

definition lc_object :: "uuid \<Rightarrow> governed_object" where
  "lc_object i = object_for lc_policy lc_access (lc_registration i)"

definition lc_approval :: "string \<Rightarrow> string \<Rightarrow> uuid \<Rightarrow> string \<Rightarrow> string \<Rightarrow> approval_record" where
  "lc_approval action ty i v sha = \<lparr>ar_approval_id = 77, ar_scope = lc_scope, ar_action = action, ar_target_type = ty,
     ar_target_id = i, ar_target_version = v, ar_target_sha256 = sha, ar_policy_version = ''p1'', ar_actor_id = 8,
     ar_outcome = APPROVED, ar_reason = ''ok'', ar_decided_at = utc 0, ar_expires_at = None\<rparr>"

lemma lc_approval_ok: "0 \<le> n \<Longrightarrow> approval_ok (lc_approval action ty i v sha) lc_scope action ty i v sha (utc n)"
  by (simp add: approval_ok_def lc_approval_def approval_window_def dt_le_def utc_def is_aware_def dt_us_def)

lemma lc_may: "may lc_access ''register''" "may lc_access ''delete''" "may lc_access ''hold''" "may lc_access ''export''"
  by (simp_all add: may_def lc_access_def)

lemma lc_access_scope [simp]: "ma_scope lc_access = lc_scope"
  by (simp add: lc_access_def)

lemma lc_object_fields [simp]:
  "go_object_id (lc_object i) = i" "go_scope (lc_object i) = lc_scope" "go_state (lc_object i) = LC_ACTIVE"
  "go_object_type (lc_object i) = ''scan''" "go_object_version (lc_object i) = ''1''"
  "go_classification (lc_object i) = INTERNAL" "go_content (lc_object i) = Some []"
  "go_content_sha256 (lc_object i) = content_sha256 []"
  "dt_us (go_retention_until (lc_object i)) = 31536000000000"
  by (simp_all add: lc_object_def object_for_def lc_registration_def lc_policy_def retention_days_for_def
      add_days_def utc_def dt_us_def)

lemma lc_object_valid: "valid_object (lc_object i)"
  by (simp add: valid_object_def validate_object_def lc_object_def object_for_def lc_registration_def lc_policy_def
      retention_days_for_def add_days_def utc_def dt_us_def is_aware_def lc_scope_def valid_scope_def text_len_def
      content_sha256_def)

text \<open>Two objects, registered one after the other.\<close>

definition lc_one :: lifecycle_repo where
  "lc_one = final (lifecycle_run lc_policy (RegisterCall lc_access (lc_registration 5))) empty_lifecycle"

definition lc_two :: lifecycle_repo where
  "lc_two = final (lifecycle_run lc_policy (RegisterCall lc_access (lc_registration 6))) lc_one"

lemma lc_register:
  assumes "map_of (lc_objects s) i = None"
  shows "lifecycle_run lc_policy (RegisterCall lc_access (lc_registration i)) s = (Inr (),
    logging (s\<lparr>lc_objects := stored [lc_object i] (lc_objects s)\<rparr>) lc_scope ACT_REGISTER [lc_object i] None (utc 0))"
proof -
  have "retention_days_for lc_policy (lc_registration i) = 365"
    by (simp add: retention_days_for_def lc_registration_def lc_policy_def)
  moreover have "rg_object_id (lc_registration i) = i" "rg_created_at (lc_registration i) = utc 0"
    by (simp_all add: lc_registration_def)
  ultimately have "register lc_policy lc_access (lc_registration i) s = (Inr (lc_object i),
      logging (s\<lparr>lc_objects := stored [lc_object i] (lc_objects s)\<rparr>) lc_scope ACT_REGISTER [lc_object i] None (utc 0))"
    using register_succeeds [OF lc_may(1), of s "lc_registration i" lc_policy] lc_object_valid [of i] assms
    by (simp add: lc_object_def [symmetric])
  then show ?thesis
    by (simp add: voidP_def bindP_def)
qed

lemma lc_one_fields: "lc_objects lc_one = [(5, lc_object 5)]" "lc_holds lc_one = []" "lc_completed_previews lc_one = []"
  by (simp_all add: lc_one_def final_def lc_register empty_lifecycle_def stored_def del: lifecycle_run.simps)

lemma lc_two_fields:
  "lc_objects lc_two = [(5, lc_object 5), (6, lc_object 6)]" "lc_holds lc_two = []" "lc_completed_previews lc_two = []"
  by (simp_all add: lc_two_def final_def lc_register lc_one_fields stored_def del: lifecycle_run.simps)

lemma lc_step: "lifecycle_step policy s (final (lifecycle_run policy c) s)"
  unfolding lifecycle_step_def final_def by (metis surjective_pairing)

lemma lc_one_reachable: "lifecycle_reachable lc_policy lc_one"
  unfolding lc_one_def by (rule reaches_step, rule reaches_start, rule refl, rule lc_step)

lemma lc_two_reachable: "lifecycle_reachable lc_policy lc_two"
  unfolding lc_two_def by (rule reaches_step [OF lc_one_reachable lc_step])

lemma lc_loaded:
  "loaded lc_access (lc_objects lc_two) [5] [lc_object 5]" "loaded lc_access (lc_objects lc_two) [6] [lc_object 6]"
  by (simp_all add: loaded_def lc_two_fields) (simp_all add: lc_access_def)

subsection \<open>Properties\<close>

text \<open>(C4) A legal hold protects its object: in every reachable repository an object under an active hold is active and
  has its content, and no call other than a release of that very hold changes the object or ends the hold.\<close>

theorem lifecycle_hold_protects:
  assumes "lifecycle_reachable policy s" "map_of (lc_holds s) k = Some h" "lh_state h = HOLD_ACTIVE"
    and "lifecycle_run policy c s = (r, t)" "\<forall>a ap now. c \<noteq> ReleaseHoldCall a k ap now"
  shows "map_of (lc_holds t) k = Some h \<and>
    (\<exists>g content. map_of (lc_objects s) (lh_object_id h) = Some g \<and> map_of (lc_objects t) (lh_object_id h) = Some g \<and>
       go_state g = LC_ACTIVE \<and> go_content g = Some content \<and> content_sha256 content = go_content_sha256 g)"
proof -
  have inv: "lifecycle_inv s"
    using assms(1) by (rule reachable_inv)
  then have hs: "holds_ok (lc_objects s) (lc_holds s)" "distinct_keys (lc_holds s)"
    by (simp_all add: lifecycle_inv_def holds_ok_def)
  obtain g where g: "map_of (lc_objects s) (lh_object_id h) = Some g" "go_state g = LC_ACTIVE"
    using holds_okD [OF hs(1) assms(2)] assms(3) by blast
  moreover have "lh_object_id h \<in> held_ids (lc_holds s)"
    using assms(2,3) held_ids_iff [OF hs(2)] by blast
  then have "map_of (lc_objects t) (lh_object_id h) = Some g"
    using run_object [OF inv assms(4) g(1)] by blast
  ultimately show ?thesis
    using inv_content [OF inv g(1)] run_hold [OF inv assms(4,2,5)] by blast
qed

definition lc_hold_approval :: approval_record where
  "lc_hold_approval = lc_approval ''data.hold.apply'' ''scan'' 5 ''1'' (content_sha256 [])"

definition lc_held :: lifecycle_repo where
  "lc_held = final (lifecycle_run lc_policy (ApplyHoldCall lc_access 5 ''court'' lc_hold_approval (utc 9))) lc_two"

lemma lc_held_fields:
  "lc_holds lc_held = [(hold_id_for 5 77, new_hold lc_access 5 ''court'' lc_hold_approval (utc 9))]"
proof -
  have "ar_approval_id lc_hold_approval = 77"
    by (simp add: lc_hold_approval_def lc_approval_def)
  moreover have "valid_hold (new_hold lc_access 5 ''court'' lc_hold_approval (utc 9))"
    by (simp add: valid_hold_def new_hold_def text_len_def) (simp add: lc_scope_def valid_scope_def text_len_def)
  moreover have "approval_ok lc_hold_approval lc_scope ''data.hold.apply'' ''scan'' 5 ''1'' (content_sha256 []) (utc 9)"
    unfolding lc_hold_approval_def by (rule lc_approval_ok) simp
  ultimately show ?thesis
    using apply_hold_succeeds [OF lc_may(3) lc_loaded(1), of lc_hold_approval "utc 9" "''court''"]
    by (simp add: lc_held_def final_def voidP_def bindP_def lc_two_fields)
qed

theorem lifecycle_hold_protects_witness:
  "\<exists>s k h g. map_of (lc_holds s) k = Some h \<and> lh_state h = HOLD_ACTIVE \<and>
     map_of (lc_objects (final (lifecycle_run lc_policy (PreviewCall lc_access [5] (utc 9) True)) s)) (lh_object_id h) = Some g"
proof -
  let ?k = "hold_id_for 5 77" and ?h = "new_hold lc_access 5 ''court'' lc_hold_approval (utc 9)"
  let ?c = "PreviewCall lc_access [5] (utc 9) True"
  obtain r t where run: "lifecycle_run lc_policy ?c lc_held = (r, t)"
    by (cases "lifecycle_run lc_policy ?c lc_held")
  have h: "map_of (lc_holds lc_held) ?k = Some ?h" "lh_state ?h = HOLD_ACTIVE"
    by (simp_all add: lc_held_fields new_hold_def)
  have "lifecycle_reachable lc_policy lc_held"
    unfolding lc_held_def by (rule reaches_step [OF lc_two_reachable lc_step])
  moreover have "\<forall>a ap now. ?c \<noteq> ReleaseHoldCall a ?k ap now"
    by simp
  ultimately obtain g where "map_of (lc_objects t) (lh_object_id ?h) = Some g"
    using lifecycle_hold_protects [OF _ h run] by blast
  then have "map_of (lc_objects (final (lifecycle_run lc_policy ?c) lc_held)) (lh_object_id ?h) = Some g"
    by (simp only: final_def run snd_conv)
  with h show ?thesis by blast
qed

text \<open>(C5) Content only goes with an approval for it: when a call makes an active object inactive, no active hold was on
  it, the caller had the permission, scope and clearance, and either it was a deletion with a current approval of
  a preview that lists the object and its digest, or an erasure with a current approval of exactly that
  object, after its retention and with its own key revoked.\<close>

theorem lifecycle_removal_authorised:
  assumes "lifecycle_reachable policy s" "lifecycle_run policy c s = (r, t)"
    and "map_of (lc_objects s) i = Some g" "go_state g = LC_ACTIVE"
    and "map_of (lc_objects t) i = Some g'" "go_state g' \<noteq> LC_ACTIVE"
  shows "i \<notin> held_ids (lc_holds s) \<and> (deleted_by policy c g g' \<or> erased_by c g g' (lc_revoked t))"
  using run_object [OF reachable_inv [OF assms(1)] assms(2,3)] assms(4-6) by auto

definition lc_preview :: deletion_preview where
  "lc_preview = preview_for lc_policy lc_scope [lc_object 5] True (utc 9)"

definition lc_delete_approval :: approval_record where
  "lc_delete_approval = lc_approval ''data.delete.force'' ''lifecycle.preview'' (dv_preview_id lc_preview) ''p1''
     (dv_preview_sha256 lc_preview)"

definition lc_delete_call :: lifecycle_call where
  "lc_delete_call = DeleteCall lc_access lc_preview lc_delete_approval (utc 10)"

lemma lc_preview_fields [simp]:
  "dv_scope lc_preview = lc_scope" "dv_object_ids lc_preview = [5]" "dv_object_hashes lc_preview = [content_sha256 []]"
  "delete_action lc_preview = ''data.delete.force''"
  by (simp_all add: lc_preview_def preview_for_def Let_def delete_action_def)

lemma lc_delete_ok:
  "approval_ok lc_delete_approval lc_scope ''data.delete.force'' ''lifecycle.preview'' (dv_preview_id lc_preview)
     (lp_policy_version lc_policy) (dv_preview_sha256 lc_preview) (utc 10)"
  unfolding lc_delete_approval_def using lc_approval_ok [of 10] by (simp add: lc_policy_def)

lemma lc_delete_run:
  "delete_objects lc_policy lc_access lc_preview lc_delete_approval (utc 10) lc_two = (Inr [tombstone (utc 10) (lc_object 5)],
    logging (lc_two\<lparr>lc_objects := stored [tombstone (utc 10) (lc_object 5)] (lc_objects lc_two),
               lc_completed_previews := [(dv_preview_sha256 lc_preview, [5])]\<rparr>)
      lc_scope ACT_DELETE [tombstone (utc 10) (lc_object 5)] (Some (ar_approval_id lc_delete_approval)) (utc 10))"
  using delete_succeeds [OF lc_may(2), of lc_preview lc_delete_approval lc_policy "utc 10" lc_two "[lc_object 5]"]
    lc_delete_ok lc_loaded(1)
  by (simp add: lc_two_fields held_ids_def)

theorem lifecycle_removal_authorised_witness:
  "\<exists>g'. deleted_by lc_policy lc_delete_call (lc_object 5) g' \<or>
     erased_by lc_delete_call (lc_object 5) g' (lc_revoked (final (lifecycle_run lc_policy lc_delete_call) lc_two))"
proof -
  let ?t = "snd (lifecycle_run lc_policy lc_delete_call lc_two)"
  have run: "lifecycle_run lc_policy lc_delete_call lc_two = (Inr (), ?t)"
    "map_of (lc_objects ?t) 5 = Some (tombstone (utc 10) (lc_object 5))"
    by (simp_all add: lc_delete_call_def voidP_def bindP_def lc_delete_run stored_def)
  have "map_of (lc_objects lc_two) 5 = Some (lc_object 5)"
    by (simp add: lc_two_fields)
  from lifecycle_removal_authorised [OF lc_two_reachable run(1) this _ run(2)] show ?thesis
    by (auto simp: final_def)
qed

text \<open>Tombstones are final: an object that is deleted or erased has no content, keeps the digest it had, and no
  sequence of calls ever changes it again.\<close>

theorem lifecycle_tombstones_final:
  assumes "lifecycle_reachable policy s" "(lifecycle_step policy)\<^sup>*\<^sup>* s t"
    and "map_of (lc_objects s) i = Some g" "go_state g \<noteq> LC_ACTIVE"
  shows "go_content g = None \<and> map_of (lc_objects t) i = Some g"
proof
  have inv: "lifecycle_inv s"
    using assms(1) by (rule reachable_inv)
  show "go_content g = None"
    using inv_content [OF inv assms(3)] assms(4) by simp
  from assms(2) show "map_of (lc_objects t) i = Some g"
  proof (induction rule: rtranclp_induct)
    case (step u v)
    have "lifecycle_inv u"
      using lifecycle.steps_inv [OF step.hyps(1) inv] .
    then show ?case
      using step run_object assms(4) by (fastforce simp: lifecycle_step_def)
  qed (rule assms(3))
qed

theorem lifecycle_tombstones_final_witness:
  "\<exists>s g. map_of (lc_objects s) 5 = Some g \<and> go_content g = None \<and>
     map_of (lc_objects (final (lifecycle_run lc_policy (PreviewCall lc_access [6] (utc 11) True)) s)) 5 = Some g"
proof -
  let ?s = "final (lifecycle_run lc_policy lc_delete_call) lc_two"
  have "map_of (lc_objects ?s) 5 = Some (tombstone (utc 10) (lc_object 5))"
    by (simp add: final_def lc_delete_call_def voidP_def bindP_def lc_delete_run stored_def)
  moreover have "lifecycle_reachable lc_policy ?s"
    by (rule reaches_step [OF lc_two_reachable lc_step])
  moreover have "go_state (tombstone (utc 10) (lc_object 5)) \<noteq> LC_ACTIVE"
    by simp
  ultimately show ?thesis
    using lifecycle_tombstones_final [OF _ r_into_rtranclp [of "lifecycle_step lc_policy", OF lc_step]] by blast
qed

lemma tombstones_at:
  assumes ok: "objects_ok objects" and l: "loaded a objects ids items"
  shows "objects_at (stored (map (tombstone now) items) objects) ids = Inr (map (tombstone now) items)"
proof (rule objects_at_Some)
  have ids: "ids = map go_object_id items"
    using loaded_ids [OF ok l] by simp
  then have "distinct (map go_object_id (map (tombstone now) items))"
    using l by (simp add: loaded_def comp_def)
  then have "map_of (stored (map (tombstone now) items) objects) (go_object_id g) = Some (tombstone now g)" if "g \<in> set items" for g
    using map_of_stored_member [of "tombstone now g" "map (tombstone now) items"] that by simp
  then show "map (map_of (stored (map (tombstone now) items) objects)) ids = map Some (map (tombstone now) items)"
    by (simp add: ids)
qed

text \<open>Deletion is idempotent for a preview: repeating a deletion that returned, with the same preview, approval and time,
  returns the same tombstones and changes nothing.\<close>

theorem lifecycle_delete_replay:
  assumes "lifecycle_reachable policy s" "delete_objects policy a p ap now s = (Inr gs, t)"
  shows "delete_objects policy a p ap now t = (Inr gs, t)"
proof -
  have ok: "objects_ok (lc_objects s)"
    using reachable_inv [OF assms(1)] by (simp add: lifecycle_inv_def)
  note guards = delete_returns [OF assms(2)]
  show ?thesis
  proof (cases "map_of (lc_completed_previews s) (dv_preview_sha256 p)")
    case (Some ids)
    then have "t = s"
      using delete_replays [of a p ap policy now s ids] guards assms(2) by auto
    with assms(2) show ?thesis by simp
  next
    case None
    with guards obtain items where items: "loaded a (lc_objects s) (dv_object_ids p) items"
        "\<forall>g \<in> set items. go_object_id g \<notin> held_ids (lc_holds s)" "map go_content_sha256 items = dv_object_hashes p"
      by blast
    then have run: "gs = map (tombstone now) items" "lc_objects t = stored (map (tombstone now) items) (lc_objects s)"
        "map_of (lc_completed_previews t) (dv_preview_sha256 p) = Some (dv_object_ids p)"
      using delete_succeeds [of a p ap policy now s items] guards None assms(2) by auto
    show ?thesis
      using delete_replays [of a p ap policy now t, OF _ _ _ run(3)] guards tombstones_at [OF ok items(1)]
      by (simp add: run(1,2))
  qed
qed

theorem lifecycle_delete_replay_witness:
  "\<exists>t. delete_objects lc_policy lc_access lc_preview lc_delete_approval (utc 10) t =
     (Inr [tombstone (utc 10) (lc_object 5)], t)"
  using lifecycle_delete_replay [OF lc_two_reachable lc_delete_run] by blast

fun call_action :: "lifecycle_call \<Rightarrow> lifecycle_action option" where
  "call_action (RegisterCall a r) = Some ACT_REGISTER"
| "call_action (ExportCall a ids now) = Some ACT_EXPORT"
| "call_action (PreviewCall a ids now force) = None"
| "call_action (DeleteCall a p ap now) = Some ACT_DELETE"
| "call_action (ApplyHoldCall a i reason ap now) = Some ACT_HOLD_APPLY"
| "call_action (ReleaseHoldCall a i ap now) = Some ACT_HOLD_RELEASE"
| "call_action (EraseCall rv a i ap now) = Some ACT_CRYPTO_ERASE"

lemma event_for_fields [simp]:
  "le_action (event_for scope action items ap now) = action" "le_scope (event_for scope action items ap now) = scope"
  "le_object_ids (event_for scope action items ap now) = map go_object_id items"
  by (simp_all add: event_for_def Let_def)

lemma change_logged:
  "change policy c s t \<Longrightarrow> \<exists>e. lc_events t = lc_events s @ [e] \<and> call_action c = Some (le_action e)"
  by (induction rule: change.induct) auto

text \<open>Every change is logged, and a refusal changes nothing: in a reachable repository a call that raises leaves it
  exactly as it was, and a call that changes it appends one event, with the call's action, and touches nothing
  that is already in the log.\<close>

theorem lifecycle_changes_logged:
  assumes "lifecycle_reachable policy s" "lifecycle_run policy c s = (r, t)"
  shows "case r of Inl e \<Rightarrow> t = s
    | Inr _ \<Rightarrow> t = s \<or> (\<exists>e. lc_events t = lc_events s @ [e] \<and> call_action c = Some (le_action e))"
  using lifecycle_call_refines [OF reachable_inv [OF assms(1)] assms(2)] change_logged
  by (auto simp: refines_change_def split: sum.split)

theorem lifecycle_changes_logged_witness:
  "\<exists>t e. lifecycle_run lc_policy lc_delete_call lc_two = (Inr (), t) \<and> t \<noteq> lc_two \<and>
     lc_events t = lc_events lc_two @ [e] \<and> le_action e = ACT_DELETE"
proof -
  obtain t where run: "lifecycle_run lc_policy lc_delete_call lc_two = (Inr (), t)"
      "lc_completed_previews t \<noteq> lc_completed_previews lc_two"
    by (simp add: lc_delete_call_def voidP_def bindP_def lc_delete_run lc_two_fields)
  then have "t \<noteq> lc_two" by auto
  with lifecycle_changes_logged [OF lc_two_reachable run(1)] run(1) show ?thesis
    by (auto simp: lc_delete_call_def)
qed

lemma export_returns:
  assumes "export_objects a ids now s = (Inr b, t)"
  shows "may a ''export'' \<and> eb_scope b = ma_scope a \<and>
    (\<exists>items. loaded a (lc_objects s) ids items \<and> eb_records b = map export_record_of items)"
  using assms unfolding export_objects_def Let_def
  by (elim thenP_cases bindP_cases) (auto dest: authorize_run(3) load_active_run(2))

text \<open>An export holds exactly the objects asked for, in that order; each is active, of the caller's scope and within
  the caller's clearance, and comes with the content its digest names.\<close>

theorem lifecycle_export_exact:
  assumes "lifecycle_reachable policy s" "export_objects a ids now s = (Inr b, t)"
  shows "eb_scope b = ma_scope a \<and> map er_object_id (eb_records b) = ids \<and>
    (\<forall>e \<in> set (eb_records b). content_sha256 (er_content e) = er_content_sha256 e \<and>
       classification_rank (er_classification e) \<le> classification_rank (ma_clearance a) \<and>
       (\<exists>g. map_of (lc_objects s) (er_object_id e) = Some g \<and> go_state g = LC_ACTIVE \<and> go_scope g = ma_scope a \<and>
          go_content g = Some (er_content e) \<and> go_content_sha256 g = er_content_sha256 e))"
proof -
  have inv: "lifecycle_inv s" and ok: "objects_ok (lc_objects s)"
    using reachable_inv [OF assms(1)] by (simp_all add: lifecycle_inv_def)
  obtain items where items: "loaded a (lc_objects s) ids items" "eb_records b = map export_record_of items"
      "eb_scope b = ma_scope a"
    using export_returns [OF assms(2)] by blast
  have one: "content_sha256 (er_content (export_record_of g)) = er_content_sha256 (export_record_of g) \<and>
       classification_rank (er_classification (export_record_of g)) \<le> classification_rank (ma_clearance a) \<and>
       (\<exists>g'. map_of (lc_objects s) (er_object_id (export_record_of g)) = Some g' \<and> go_state g' = LC_ACTIVE \<and>
          go_scope g' = ma_scope a \<and> go_content g' = Some (er_content (export_record_of g)) \<and>
          go_content_sha256 g' = er_content_sha256 (export_record_of g))" if g: "g \<in> set items" for g
  proof -
    obtain i where i: "map_of (lc_objects s) i = Some g"
      using loaded_member [OF items(1) g] by blast
    then have "go_object_id g = i"
      using objects_okD [OF ok] by blast
    moreover obtain c where "go_content g = Some c" "content_sha256 c = go_content_sha256 g"
      using inv_content [OF inv i] loaded_active [OF items(1) g] by blast
    ultimately show ?thesis
      using loaded_active [OF items(1) g] i by (simp add: export_record_of_def)
  qed
  have "map er_object_id (eb_records b) = ids"
    using loaded_ids [OF ok items(1)] by (simp add: items(2) export_record_of_def comp_def)
  then show ?thesis
    using one items(2,3) by auto
qed

lemma lc_export_run:
  "\<exists>b t. export_objects lc_access [5] (utc 9) lc_two = (Inr b, t)"
  by (simp add: export_objects_def thenP_def bindP_def Let_def lc_may(4) load_active_eq [OF lc_loaded(1)])

theorem lifecycle_export_exact_witness:
  "\<exists>b t. export_objects lc_access [5] (utc 9) lc_two = (Inr b, t) \<and> map er_object_id (eb_records b) = [5]"
  using lc_export_run lifecycle_export_exact [OF lc_two_reachable] by blast

lemma preview_returns:
  assumes "preview_delete policy a ids now force s = (Inr p, t)"
  shows "t = s \<and> (\<exists>items. loaded a (lc_objects s) ids items \<and> p = preview_for policy (ma_scope a) items force now)"
  using assms unfolding preview_delete_def Let_def
  by (elim thenP_cases bindP_cases)
    (auto split: if_splits dest: authorize_run(3) load_active_run(2) deny_holds_run(2))

definition preview_text :: "lifecycle_policy \<Rightarrow> deletion_preview \<Rightarrow> string" where
  "preview_text policy p = canonical_json_bytes (preview_payload policy (dv_scope p) (dv_object_ids p)
     (dv_object_hashes p) (dv_force_before_retention p) (dv_created_at p))"

lemma preview_payload_norm:
  "json_norm (preview_payload policy scope ids hs force now) = json_norm (preview_payload policy' scope' ids' hs' force' now') \<longleftrightarrow>
     scope = scope' \<and> ids = ids' \<and> hs = hs' \<and> force = force' \<and> isoformat now = isoformat now' \<and>
     lp_policy_version policy = lp_policy_version policy'"
proof -
  have "map (\<lambda>i. JStr (str_uuid i)) ids = map (\<lambda>i. JStr (str_uuid i)) ids' \<longleftrightarrow> ids = ids'"
    by (rule inj_map_eq_map) (simp add: inj_def)
  moreover have "json_norm (dump_scope scope) = json_norm (dump_scope scope') \<longleftrightarrow> scope = scope'"
    unfolding dump_scope_def by (subst json_norm_same_keys) (cases scope; cases scope'; simp add: comp_def)+
  ultimately show ?thesis
    unfolding preview_payload_def by (subst json_norm_same_keys) (simp_all add: comp_def)
qed

text \<open>A preview digest covers what the preview lists: two previews that the service hands out with the same digest list
  the same objects and digests, for the same scope, retention mode, time and policy version, or the two
  serialised payloads are a collision of SHA-256.\<close>

theorem lifecycle_preview_binds:
  assumes "preview_delete policy a ids now force s = (Inr p, t)"
    and "preview_delete policy' a' ids' now' force' s' = (Inr p', t')"
    and "dv_preview_sha256 p = dv_preview_sha256 p'"
  shows "dv_object_ids p = dv_object_ids p' \<and> dv_object_hashes p = dv_object_hashes p' \<and> dv_scope p = dv_scope p' \<and>
      dv_force_before_retention p = dv_force_before_retention p' \<and>
      isoformat (dv_created_at p) = isoformat (dv_created_at p') \<and> lp_policy_version policy = lp_policy_version policy' \<or>
    sha_collision (preview_text policy p) (preview_text policy' p')"
proof -
  have digest: "dv_preview_sha256 (preview_for pol scope items f n) = sha256_hex (preview_text pol (preview_for pol scope items f n))"
    for pol scope items f n
    by (simp add: preview_for_def preview_text_def Let_def)
  obtain items items' where p: "p = preview_for policy (ma_scope a) items force now"
      "p' = preview_for policy' (ma_scope a') items' force' now'"
    using preview_returns [OF assms(1)] preview_returns [OF assms(2)] by blast
  then have "sha256_hex (preview_text policy p) = sha256_hex (preview_text policy' p')"
    using assms(3) digest by metis
  moreover have "json_wf (preview_payload pol sc js hs f n)" for pol sc js hs f n
    by (simp add: preview_payload_def list_all_iff)
  ultimately show ?thesis
    using canonical_bytes_digest preview_payload_norm unfolding preview_text_def by metis
qed

lemma lc_preview_run: "preview_delete lc_policy lc_access [5] (utc 9) True lc_two = (Inr lc_preview, lc_two)"
proof -
  have "valid_preview lc_preview"
    by (simp add: valid_preview_def) (simp add: lc_preview_def preview_for_def Let_def lc_scope_def valid_scope_def text_len_def)
  moreover have free: "deny_holds [lc_object 5] lc_two = (Inr (), lc_two)"
    by (simp add: lc_two_fields held_ids_def)
  ultimately show ?thesis
    using lc_may(2)
    by (simp add: free preview_delete_def thenP_def bindP_def Let_def load_active_eq [OF lc_loaded(1)] lc_preview_def)
qed

theorem lifecycle_preview_binds_witness:
  "dv_object_ids lc_preview = [5] \<and> (dv_scope lc_preview = dv_scope lc_preview \<or>
     sha_collision (preview_text lc_policy lc_preview) (preview_text lc_policy lc_preview))"
  using lifecycle_preview_binds [OF lc_preview_run lc_preview_run refl] by simp

text \<open>(C39) A deletion trusts the preview it is handed: the approval is matched against the preview's identifier and digest, but
  the digest is not recomputed from the preview's contents and the retention is not checked again. With an approval
  for one preview, a preview with the same identifier and digest but any other list of active, unheld objects
  in scope deletes those objects, whatever their retention.\<close>

theorem lifecycle_delete_trusts_preview:
  assumes "may a ''delete''" "ma_scope a = dv_scope p"
    and "approval_ok ap (dv_scope p) (delete_action p) ''lifecycle.preview'' (dv_preview_id p)
       (lp_policy_version policy) (dv_preview_sha256 p) now"
    and "map_of (lc_completed_previews s) (dv_preview_sha256 p) = None"
    and "loaded a (lc_objects s) ids items" "\<forall>g \<in> set items. go_object_id g \<notin> held_ids (lc_holds s)"
  shows "\<exists>t. delete_objects policy a (p\<lparr>dv_object_ids := ids, dv_object_hashes := map go_content_sha256 items\<rparr>) ap now s =
      (Inr (map (tombstone now) items), t) \<and> lc_objects t = stored (map (tombstone now) items) (lc_objects s)"
proof -
  let ?q = "p\<lparr>dv_object_ids := ids, dv_object_hashes := map go_content_sha256 items\<rparr>"
  have "delete_action ?q = delete_action p"
    by (simp add: delete_action_def)
  then show ?thesis
    using delete_succeeds [of a ?q ap policy now s items] assms by simp
qed

theorem lifecycle_delete_trusts_preview_witness:
  "dv_object_ids lc_preview = [5] \<and>
   (\<exists>t. delete_objects lc_policy lc_access
      (lc_preview\<lparr>dv_object_ids := [6], dv_object_hashes := map go_content_sha256 [lc_object 6]\<rparr>)
      lc_delete_approval (utc 10) lc_two = (Inr (map (tombstone (utc 10)) [lc_object 6]), t) \<and>
      lc_objects t = stored (map (tombstone (utc 10)) [lc_object 6]) (lc_objects lc_two))"
  using lifecycle_delete_trusts_preview [OF lc_may(2), of lc_preview lc_delete_approval lc_policy "utc 10" lc_two "[6]" "[lc_object 6]"]
    lc_delete_ok lc_loaded(2)
  by (simp add: lc_two_fields held_ids_def)

end
