(* ===== verification/ContextModels.thy ===== *)
theory ContextModels
  imports Contracts Complex_Main
begin

section \<open>Task contexts and the models of context assembly\<close>

text \<open>
  \<^verbatim>\<open>ArtifactRef\<close> and \<^verbatim>\<open>TaskContext\<close> of \<^verbatim>\<open>contracts/v1.py\<close>, and \<^verbatim>\<open>context/models.py\<close>: candidates,
  requests, the selected entries and the bundle handed to a task. A model is a record, its field
  constraints and validators a bool-valued predicate, \<^verbatim>\<open>model_dump(mode="json")\<close> a JSON value.
  A Python float is carried by its exact value and its \<^verbatim>\<open>repr\<close> text.
\<close>

datatype pyfloat = PyFloat (fval: rat) (ftext: string)

subsection \<open>Dict comprehensions\<close>

text \<open>\<^verbatim>\<open>{k(x): x for x in xs}\<close>: a later element with the same key replaces the earlier one.\<close>

definition dict_by :: "('a \<Rightarrow> 'k) \<Rightarrow> 'a list \<Rightarrow> ('k \<times> 'a) list" where
  "dict_by k xs = foldl (\<lambda>d x. AList.update (k x) x d) [] xs"

lemma dict_by_Nil [simp]: "dict_by k [] = []"
  by (simp add: dict_by_def)

lemma dict_by_snoc [simp]: "dict_by k (xs @ [x]) = AList.update (k x) x (dict_by k xs)"
  by (simp add: dict_by_def)

lemma distinct_keys_dict_by [simp]: "distinct_keys (dict_by k xs)"
  by (induction xs rule: rev_induct) simp_all

lemma keys_dict_by [simp]: "fst ` set (dict_by k xs) = k ` set xs"
  by (induction xs rule: rev_induct) (simp_all add: dom_update [unfolded dom_map_of_conv_image_fst])

lemma map_of_dict_by: "map_of (dict_by k xs) i = find (\<lambda>x. k x = i) (rev xs)"
  by (induction xs rule: rev_induct) auto

lemma length_dict_by: "length (dict_by k xs) = card (k ` set xs)"
  using distinct_keys_dict_by [of k xs] distinct_card [of "map fst (dict_by k xs)"]
  by (simp add: distinct_keys_def)

lemma length_dict_by_iff: "length (dict_by k xs) = length xs \<longleftrightarrow> distinct (map k xs)"
  using card_distinct [of "map k xs"] distinct_card [of "map k xs"] by (auto simp: length_dict_by)

lemma map_of_dict_by_SomeD: "map_of (dict_by k xs) i = Some x \<Longrightarrow> x \<in> set xs \<and> k x = i"
  by (auto simp: map_of_dict_by find_Some_iff) (metis length_rev nth_mem set_rev)

lemma map_of_dict_by_in: "i \<in> k ` set xs \<Longrightarrow> \<exists>x. map_of (dict_by k xs) i = Some x"
  using map_of_eq_None_iff [of "dict_by k xs" i] by auto

lemma map_of_dict_by_the:
  assumes "i \<in> k ` set xs"
  shows "the (map_of (dict_by k xs) i) \<in> set xs \<and> k (the (map_of (dict_by k xs) i)) = i"
proof -
  obtain x where x: "map_of (dict_by k xs) i = Some x"
    using map_of_dict_by_in [OF assms] by blast
  then show ?thesis
    using map_of_dict_by_SomeD [OF x] by simp
qed

lemma map_of_dict_by_distinct:
  assumes "distinct (map k xs)" "x \<in> set xs"
  shows "map_of (dict_by k xs) (k x) = Some x"
proof -
  obtain y where y: "map_of (dict_by k xs) (k x) = Some y"
    using map_of_dict_by_in [of "k x" k xs] assms(2) by blast
  then have "y \<in> set xs" "k y = k x"
    using map_of_dict_by_SomeD [OF y] by simp_all
  with assms have "y = x"
    by (auto simp: distinct_map inj_on_def)
  with y show ?thesis
    by simp
qed

subsection \<open>Artifact references, policies and task contexts\<close>

datatype risk_level = RISK_LOW | RISK_MEDIUM | RISK_HIGH | RISK_CRITICAL

fun risk_level_value :: "risk_level \<Rightarrow> string" where
  "risk_level_value RISK_LOW = ''LOW''"
| "risk_level_value RISK_MEDIUM = ''MEDIUM''"
| "risk_level_value RISK_HIGH = ''HIGH''"
| "risk_level_value RISK_CRITICAL = ''CRITICAL''"

record artifact_ref =
  af_artifact_id :: uuid
  af_scope :: tenant_scope
  af_artifact_version :: string
  af_uri :: string
  af_media_type :: string
  af_size_bytes :: int
  af_sha256 :: string
  af_classification :: data_classification
  af_immutable :: bool

definition valid_artifact_ref :: "artifact_ref \<Rightarrow> bool" where
  "valid_artifact_ref a = (valid_scope (af_scope a) \<and> text_len 1 64 (af_artifact_version a) \<and>
     text_len 1 2048 (af_uri a) \<and> text_len 1 255 (af_media_type a) \<and> 0 \<le> af_size_bytes a \<and>
     is_sha256 (af_sha256 a))"

definition dump_artifact_ref :: "artifact_ref \<Rightarrow> json" where
  "dump_artifact_ref a = JObj
    [(''schema_version'', JStr ''1.0.0''),
     (''artifact_id'', JStr (str_uuid (af_artifact_id a))),
     (''scope'', dump_scope (af_scope a)),
     (''artifact_version'', JStr (af_artifact_version a)),
     (''uri'', JStr (af_uri a)),
     (''media_type'', JStr (af_media_type a)),
     (''size_bytes'', JInt (af_size_bytes a)),
     (''sha256'', JStr (af_sha256 a)),
     (''classification'', JStr (classification_value (af_classification a))),
     (''immutable'', JBool (af_immutable a))]"

definition dump_limit :: "limit \<Rightarrow> json" where
  "dump_limit l = JObj
    [(''default'', JInt (lim_default l)), (''active'', JInt (lim_active l)), (''hard'', JInt (lim_hard l))]"

definition dump_policy :: "budget_policy \<Rightarrow> json" where
  "dump_policy p = JObj
    [(''schema_version'', JStr ''1.0.0''),
     (''policy_id'', JStr (bp_policy_id p)),
     (''task_class'', JStr (task_class_value (bp_task_class p))),
     (''graph_steps'', dump_limit (bp_graph_steps p)),
     (''llm_calls'', dump_limit (bp_llm_calls p)),
     (''tool_calls'', dump_limit (bp_tool_calls p)),
     (''total_tokens'', dump_limit (bp_total_tokens p)),
     (''wall_time_ms'', dump_limit (bp_wall_time_ms p)),
     (''professional_concurrency'', dump_limit (bp_professional_concurrency p)),
     (''review_rounds'', dump_limit (bp_review_rounds p)),
     (''correction_rounds'', dump_limit (bp_correction_rounds p))]"

record task_context =
  tk_task_id :: uuid
  tk_scope :: tenant_scope
  tk_task_class :: task_class
  tk_goal :: string
  tk_success_criteria :: "string list"
  tk_risk_level :: risk_level
  tk_dependency_data :: "(string \<times> json) list"
  tk_context_manifest_sha256 :: string
  tk_artifacts :: "artifact_ref list"
  tk_skill_versions :: "(string \<times> string) list"
  tk_prompt_versions :: "(string \<times> string) list"
  tk_model_versions :: "(string \<times> string) list"
  tk_knowledge_versions :: "string list"
  tk_allowed_tools :: "string list"
  tk_budget :: budget_policy
  tk_output_schema_id :: string
  tk_review_checklist :: "string list"
  tk_created_at :: datetime

definition valid_task_context :: "task_context \<Rightarrow> bool" where
  "valid_task_context t = (valid_scope (tk_scope t) \<and> text_len 1 8000 (tk_goal t) \<and>
     tk_success_criteria t \<noteq> [] \<and> is_sha256 (tk_context_manifest_sha256 t) \<and>
     list_all valid_artifact_ref (tk_artifacts t) \<and> valid_policy (tk_budget t) \<and>
     text_len 1 512 (tk_output_schema_id t))"

definition str_dict :: "(string \<times> string) list \<Rightarrow> json" where
  "str_dict d = JObj (map (\<lambda>(k, v). (k, JStr v)) d)"

definition str_list :: "string list \<Rightarrow> json" where
  "str_list xs = JArr (map JStr xs)"

text \<open>\<^verbatim>\<open>model_dump(mode="json", exclude={"context_manifest_sha256"})\<close> and its digest.\<close>

definition task_context_payload :: "task_context \<Rightarrow> json" where
  "task_context_payload t = JObj
    [(''schema_version'', JStr ''1.0.0''),
     (''task_id'', JStr (str_uuid (tk_task_id t))),
     (''scope'', dump_scope (tk_scope t)),
     (''task_class'', JStr (task_class_value (tk_task_class t))),
     (''goal'', JStr (tk_goal t)),
     (''success_criteria'', str_list (tk_success_criteria t)),
     (''risk_level'', JStr (risk_level_value (tk_risk_level t))),
     (''dependency_data'', JObj (tk_dependency_data t)),
     (''artifacts'', JArr (map dump_artifact_ref (tk_artifacts t))),
     (''skill_versions'', str_dict (tk_skill_versions t)),
     (''prompt_versions'', str_dict (tk_prompt_versions t)),
     (''model_versions'', str_dict (tk_model_versions t)),
     (''knowledge_versions'', str_list (tk_knowledge_versions t)),
     (''allowed_tools'', str_list (tk_allowed_tools t)),
     (''budget'', dump_policy (tk_budget t)),
     (''output_schema_id'', JStr (tk_output_schema_id t)),
     (''review_checklist'', str_list (tk_review_checklist t)),
     (''created_at'', JStr (json_datetime (tk_created_at t)))]"

definition task_context_manifest_sha256 :: "task_context \<Rightarrow> string" where
  "task_context_manifest_sha256 t = sha256_hex (canonical_json_bytes (task_context_payload t))"

subsection \<open>Validators\<close>

definition unique_strings :: "string list \<Rightarrow> bool" where
  "unique_strings values = (list_all (\<lambda>v. v \<noteq> [] \<and> length v \<le> 256) values \<and> distinct values)"

subsection \<open>Candidates and requests\<close>

datatype context_source_type =
    SYSTEM_INSTRUCTION | USER_INSTRUCTION | PROJECT_FACT | SOURCE_RETRIEVAL | SOURCE_MEMORY
  | TOOL_OUTPUT | AGENT_OUTPUT

fun source_type_value :: "context_source_type \<Rightarrow> string" where
  "source_type_value SYSTEM_INSTRUCTION = ''SYSTEM_INSTRUCTION''"
| "source_type_value USER_INSTRUCTION = ''USER_INSTRUCTION''"
| "source_type_value PROJECT_FACT = ''PROJECT_FACT''"
| "source_type_value SOURCE_RETRIEVAL = ''RETRIEVAL''"
| "source_type_value SOURCE_MEMORY = ''MEMORY''"
| "source_type_value TOOL_OUTPUT = ''TOOL_OUTPUT''"
| "source_type_value AGENT_OUTPUT = ''AGENT_OUTPUT''"

datatype context_trust_level = TRUSTED_POLICY | VERIFIED_INTERNAL | USER_PROVIDED | UNTRUSTED_EXTERNAL

fun trust_level_value :: "context_trust_level \<Rightarrow> string" where
  "trust_level_value TRUSTED_POLICY = ''TRUSTED_POLICY''"
| "trust_level_value VERIFIED_INTERNAL = ''VERIFIED_INTERNAL''"
| "trust_level_value USER_PROVIDED = ''USER_PROVIDED''"
| "trust_level_value UNTRUSTED_EXTERNAL = ''UNTRUSTED_EXTERNAL''"

datatype context_visibility = VISIBLE_USER | VISIBLE_PROJECT

datatype context_selection_reason =
    SELECTED | DEDUPLICATED | TENANT_DENIED | PROJECT_DENIED | USER_DENIED | PERMISSION_VERSION_STALE
  | ROLE_DENIED | PERMISSION_DENIED | CLASSIFICATION_DENIED | IRRELEVANT | BUDGET_EXCLUDED
  | LIMIT_EXCLUDED | NOT_REQUESTED | UNREGISTERED

record assembly_policy =
  ap_policy_version :: string
  ap_minimum_relevance :: pyfloat
  ap_max_selected_items :: int
  ap_max_selected_content_bytes :: int
  ap_max_candidate_content_bytes :: int
  ap_max_artifacts :: int

definition valid_assembly_policy :: "assembly_policy \<Rightarrow> bool" where
  "valid_assembly_policy p = (text_len 1 128 (ap_policy_version p) \<and>
     0 \<le> fval (ap_minimum_relevance p) \<and> fval (ap_minimum_relevance p) \<le> 1 \<and>
     1 \<le> ap_max_selected_items p \<and> ap_max_selected_items p \<le> 500 \<and>
     1 \<le> ap_max_selected_content_bytes p \<and> ap_max_selected_content_bytes p \<le> 2000000 \<and>
     1 \<le> ap_max_candidate_content_bytes p \<and> ap_max_candidate_content_bytes p \<le> 16000000 \<and>
     0 \<le> ap_max_artifacts p \<and> ap_max_artifacts p \<le> 100)"

record item_candidate =
  ic_item_id :: string
  ic_scope :: tenant_scope
  ic_visibility :: context_visibility
  ic_source_type :: context_source_type
  ic_source_ref :: string
  ic_source_version :: string
  ic_source_sha256 :: string
  ic_trust_level :: context_trust_level
  ic_classification :: data_classification
  ic_content :: "(string \<times> json) list"
  ic_content_sha256 :: string
  ic_required_roles :: "string list"
  ic_required_permissions :: "string list"
  ic_relevance_score :: pyfloat
  ic_protected :: bool
  ic_observed_at :: datetime

definition valid_item_candidate :: "item_candidate \<Rightarrow> bool" where
  "valid_item_candidate c = (text_len 1 128 (ic_item_id c) \<and>
     list_all (\<lambda>ch. is_alnum ch \<or> ch \<in> set ''._:-'') (ic_item_id c) \<and>
     valid_scope (ic_scope c) \<and> text_len 1 2048 (ic_source_ref c) \<and> text_len 1 128 (ic_source_version c) \<and>
     is_sha256 (ic_source_sha256 c) \<and> is_sha256 (ic_content_sha256 c) \<and>
     length (ic_required_roles c) \<le> 32 \<and> length (ic_required_permissions c) \<le> 64 \<and>
     0 \<le> fval (ic_relevance_score c) \<and> fval (ic_relevance_score c) \<le> 1 \<and>
     unique_strings (ic_required_roles c) \<and> unique_strings (ic_required_permissions c) \<and>
     is_aware (ic_observed_at c))"

record artifact_candidate =
  acd_artifact :: artifact_ref
  acd_visibility :: context_visibility
  acd_required_roles :: "string list"
  acd_required_permissions :: "string list"
  acd_relevance_score :: pyfloat
  acd_protected :: bool

definition valid_artifact_candidate :: "artifact_candidate \<Rightarrow> bool" where
  "valid_artifact_candidate c = (valid_artifact_ref (acd_artifact c) \<and>
     length (acd_required_roles c) \<le> 32 \<and> length (acd_required_permissions c) \<le> 64 \<and>
     0 \<le> fval (acd_relevance_score c) \<and> fval (acd_relevance_score c) \<le> 1 \<and>
     unique_strings (acd_required_roles c) \<and> unique_strings (acd_required_permissions c))"

record tool_authorization =
  ta_tool_name :: string
  ta_scope :: tenant_scope
  ta_visibility :: context_visibility
  ta_required_roles :: "string list"
  ta_required_permissions :: "string list"

definition valid_tool_authorization :: "tool_authorization \<Rightarrow> bool" where
  "valid_tool_authorization t = (text_len 1 128 (ta_tool_name t) \<and> valid_scope (ta_scope t) \<and>
     length (ta_required_roles t) \<le> 32 \<and> length (ta_required_permissions t) \<le> 64 \<and>
     unique_strings (ta_required_roles t) \<and> unique_strings (ta_required_permissions t))"

record assembly_request =
  rq_task_id :: uuid
  rq_scope :: tenant_scope
  rq_task_class :: task_class
  rq_goal :: string
  rq_success_criteria :: "string list"
  rq_risk_level :: risk_level
  rq_candidates :: "item_candidate list"
  rq_artifact_candidates :: "artifact_candidate list"
  rq_requested_tools :: "string list"
  rq_tool_authorizations :: "tool_authorization list"
  rq_granted_permissions :: "string list"
  rq_clearance :: data_classification
  rq_policy :: assembly_policy
  rq_skill_versions :: "(string \<times> string) list"
  rq_prompt_versions :: "(string \<times> string) list"
  rq_model_versions :: "(string \<times> string) list"
  rq_knowledge_versions :: "string list"
  rq_budget :: budget_policy
  rq_output_schema_id :: string
  rq_review_checklist :: "string list"
  rq_created_at :: datetime

definition valid_request :: "assembly_request \<Rightarrow> bool" where
  "valid_request r = (valid_scope (rq_scope r) \<and> text_len 1 8000 (rq_goal r) \<and>
     1 \<le> length (rq_success_criteria r) \<and> length (rq_success_criteria r) \<le> 20 \<and>
     length (rq_candidates r) \<le> 500 \<and> list_all valid_item_candidate (rq_candidates r) \<and>
     length (rq_artifact_candidates r) \<le> 100 \<and> list_all valid_artifact_candidate (rq_artifact_candidates r) \<and>
     length (rq_requested_tools r) \<le> 12 \<and>
     length (rq_tool_authorizations r) \<le> 24 \<and> list_all valid_tool_authorization (rq_tool_authorizations r) \<and>
     length (rq_granted_permissions r) \<le> 256 \<and> valid_assembly_policy (rq_policy r) \<and>
     distinct_keys (rq_skill_versions r) \<and> distinct_keys (rq_prompt_versions r) \<and>
     distinct_keys (rq_model_versions r) \<and> valid_policy (rq_budget r) \<and>
     text_len 1 512 (rq_output_schema_id r) \<and>
     unique_strings (rq_requested_tools r) \<and> unique_strings (rq_granted_permissions r) \<and>
     unique_strings (map ic_item_id (rq_candidates r)) \<and>
     unique_strings (map (\<lambda>c. str_uuid (af_artifact_id (acd_artifact c))) (rq_artifact_candidates r)) \<and>
     unique_strings (map ta_tool_name (rq_tool_authorizations r)) \<and> is_aware (rq_created_at r))"

subsection \<open>Selected entries and bundles\<close>

record source_label =
  sl_item_id :: string
  sl_source_type :: context_source_type
  sl_source_ref :: string
  sl_source_version :: string
  sl_source_sha256 :: string
  sl_trust_level :: context_trust_level
  sl_observed_at :: datetime

definition valid_source_label :: "source_label \<Rightarrow> bool" where
  "valid_source_label s = (text_len 1 128 (sl_item_id s) \<and> text_len 1 2048 (sl_source_ref s) \<and>
     text_len 1 128 (sl_source_version s) \<and> is_sha256 (sl_source_sha256 s) \<and> is_aware (sl_observed_at s))"

definition dump_source_label :: "source_label \<Rightarrow> json" where
  "dump_source_label s = JObj
    [(''item_id'', JStr (sl_item_id s)),
     (''source_type'', JStr (source_type_value (sl_source_type s))),
     (''source_ref'', JStr (sl_source_ref s)),
     (''source_version'', JStr (sl_source_version s)),
     (''source_sha256'', JStr (sl_source_sha256 s)),
     (''trust_level'', JStr (trust_level_value (sl_trust_level s))),
     (''observed_at'', JStr (json_datetime (sl_observed_at s)))]"

record selected_entry =
  se_content :: "(string \<times> json) list"
  se_content_sha256 :: string
  se_classification :: data_classification
  se_relevance_score :: pyfloat
  se_protected :: bool
  se_content_size_bytes :: int
  se_sources :: "source_label list"

definition valid_selected_entry :: "selected_entry \<Rightarrow> bool" where
  "valid_selected_entry e = (is_sha256 (se_content_sha256 e) \<and> 0 \<le> se_content_size_bytes e \<and>
     se_sources e \<noteq> [] \<and> list_all valid_source_label (se_sources e) \<and>
     (let encoded = canonical_json_bytes (JObj (se_content e)) in
        sha256_hex encoded = se_content_sha256 e \<and> int (length encoded) = se_content_size_bytes e) \<and>
     unique_strings (map sl_item_id (se_sources e)))"

definition dump_selected_entry :: "selected_entry \<Rightarrow> json" where
  "dump_selected_entry e = JObj
    [(''content'', JObj (se_content e)),
     (''content_sha256'', JStr (se_content_sha256 e)),
     (''classification'', JStr (classification_value (se_classification e))),
     (''relevance_score'', JFloat (ftext (se_relevance_score e))),
     (''protected'', JBool (se_protected e)),
     (''content_size_bytes'', JInt (se_content_size_bytes e)),
     (''sources'', JArr (map dump_source_label (se_sources e)))]"

record context_bundle =
  cb_policy_version :: string
  cb_authorization_sha256 :: string
  cb_selected_content_bytes :: int
  cb_entries :: "selected_entry list"

definition valid_bundle :: "context_bundle \<Rightarrow> bool" where
  "valid_bundle b = (text_len 1 128 (cb_policy_version b) \<and> is_sha256 (cb_authorization_sha256 b) \<and>
     0 \<le> cb_selected_content_bytes b \<and> list_all valid_selected_entry (cb_entries b) \<and>
     cb_selected_content_bytes b = sum_list (map se_content_size_bytes (cb_entries b)) \<and>
     unique_strings (map se_content_sha256 (cb_entries b)))"

definition dump_bundle :: "context_bundle \<Rightarrow> json" where
  "dump_bundle b = JObj
    [(''schema_version'', JStr ''1.0.0''),
     (''policy_version'', JStr (cb_policy_version b)),
     (''authorization_sha256'', JStr (cb_authorization_sha256 b)),
     (''selected_content_bytes'', JInt (cb_selected_content_bytes b)),
     (''entries'', JArr (map dump_selected_entry (cb_entries b)))]"

datatype candidate_kind = KIND_ARTIFACT | KIND_ITEM | KIND_TOOL

fun candidate_kind_value :: "candidate_kind \<Rightarrow> string" where
  "candidate_kind_value KIND_ARTIFACT = ''ARTIFACT''"
| "candidate_kind_value KIND_ITEM = ''ITEM''"
| "candidate_kind_value KIND_TOOL = ''TOOL''"

record context_decision =
  cd_candidate_kind :: candidate_kind
  cd_candidate_id :: string
  cd_reason :: context_selection_reason

record assembly_result =
  rr_context :: task_context
  rr_policy_version :: string
  rr_selected_content_bytes :: int
  rr_decisions :: "context_decision list"

end
