(* ===== verification/ChildModels.thy ===== *)
theory ChildModels
  imports ContextModels MainGraph
begin

section \<open>Child agents: contracts, registry and contexts\<close>

text \<open>
  \<^verbatim>\<open>orchestration/child_models.py\<close>, \<^verbatim>\<open>registry.py\<close> and \<^verbatim>\<open>child_context.py\<close>: the definitions a child agent is
  registered with, and the factory that filters the parent's task context into one private, hashed
  context per child. \<^verbatim>\<open>AgentRegistryError\<close> is a \<open>Fault\<close>; \<open>draw\<close> numbers the \<^verbatim>\<open>uuid4\<close> draws of one call;
  \<open>read_bundle\<close> is pydantic's reading of the untyped bundle into fields.
\<close>

subsection \<open>Contracts\<close>

datatype child_kind = GENERAL | PROFESSIONAL

fun child_kind_value :: "child_kind \<Rightarrow> string" where
  "child_kind_value GENERAL = ''GENERAL''"
| "child_kind_value PROFESSIONAL = ''PROFESSIONAL''"

datatype side_effect_class = READ_ONLY | MUTATING

fun side_effect_value :: "side_effect_class \<Rightarrow> string" where
  "side_effect_value READ_ONLY = ''READ_ONLY''"
| "side_effect_value MUTATING = ''MUTATING''"

record agent_definition =
  ad_agent_type :: string
  ad_kind :: child_kind
  ad_agent_configuration_sha256 :: "string option"
  ad_allowed_tools :: "string list"
  ad_skill_version :: string
  ad_prompt_version :: string
  ad_model_version :: string

text \<open>\<^verbatim>\<open>allowed_tools\<close> is a frozenset; the list holds its elements, so its length bound is on the set.\<close>

definition valid_definition :: "agent_definition \<Rightarrow> bool" where
  "valid_definition d = (agent_name (ad_agent_type d) \<and> opt_all is_sha256 (ad_agent_configuration_sha256 d) \<and>
     length (remdups (ad_allowed_tools d)) \<le> 12 \<and> text_len 1 128 (ad_skill_version d) \<and>
     text_len 1 128 (ad_prompt_version d) \<and> text_len 1 128 (ad_model_version d))"

record child_input =
  ci_assignment_id :: string
  ci_goal :: string
  ci_success_criteria :: "string list"
  ci_context_entry_sha256s :: "string list"
  ci_artifact_ids :: "uuid list"
  ci_requested_tools :: "string list"
  ci_side_effect_class :: side_effect_class

definition valid_child_input :: "child_input \<Rightarrow> bool" where
  "valid_child_input i = (text_len 1 128 (ci_assignment_id i) \<and> text_len 1 8000 (ci_goal i) \<and>
     1 \<le> length (ci_success_criteria i) \<and> length (ci_success_criteria i) \<le> 20 \<and>
     length (ci_context_entry_sha256s i) \<le> 100 \<and> length (ci_artifact_ids i) \<le> 20 \<and>
     length (ci_requested_tools i) \<le> 12)"

record child_context =
  ct_parent_task_id :: uuid
  ct_run_id :: uuid
  ct_assignment_id :: string
  ct_kind :: child_kind
  ct_agent_type :: string
  ct_agent_configuration_sha256 :: "string option"
  ct_scope :: tenant_scope
  ct_task_class :: task_class
  ct_goal :: string
  ct_success_criteria :: "string list"
  ct_risk_level :: risk_level
  ct_context_entries :: "selected_entry list"
  ct_artifacts :: "artifact_ref list"
  ct_dependency_assignment_ids :: "string list"
  ct_side_effect_class :: side_effect_class
  ct_allowed_tools :: "string list"
  ct_skill_version :: string
  ct_prompt_version :: string
  ct_model_version :: string
  ct_knowledge_versions :: "string list"
  ct_budget :: budget_policy
  ct_output_schema_id :: string
  ct_review_checklist :: "string list"
  ct_scratch_namespace :: string
  ct_context_manifest_sha256 :: string

definition valid_child_context :: "child_context \<Rightarrow> bool" where
  "valid_child_context c = (text_len 1 128 (ct_assignment_id c) \<and> text_len 1 128 (ct_agent_type c) \<and>
     opt_all is_sha256 (ct_agent_configuration_sha256 c) \<and> valid_scope (ct_scope c) \<and>
     text_len 1 8000 (ct_goal c) \<and>
     1 \<le> length (ct_success_criteria c) \<and> length (ct_success_criteria c) \<le> 20 \<and>
     length (ct_context_entries c) \<le> 100 \<and> list_all valid_selected_entry (ct_context_entries c) \<and>
     length (ct_artifacts c) \<le> 20 \<and> list_all valid_artifact_ref (ct_artifacts c) \<and>
     length (ct_dependency_assignment_ids c) \<le> 4 \<and> length (ct_allowed_tools c) \<le> 12 \<and>
     text_len 1 128 (ct_skill_version c) \<and> text_len 1 128 (ct_prompt_version c) \<and>
     text_len 1 128 (ct_model_version c) \<and> valid_policy (ct_budget c) \<and>
     text_len 1 512 (ct_output_schema_id c) \<and> text_len 1 1024 (ct_scratch_namespace c) \<and>
     is_sha256 (ct_context_manifest_sha256 c))"

subsection \<open>The manifest of a child context\<close>

text \<open>The whole context except the manifest field, with \<^verbatim>\<open>json.dumps\<close>'s default \<^verbatim>\<open>ensure_ascii=True\<close>.\<close>

definition child_context_payload :: "child_context \<Rightarrow> json" where
  "child_context_payload c = JObj
    [(''schema_version'', JStr ''1.0.0''),
     (''parent_task_id'', JStr (str_uuid (ct_parent_task_id c))),
     (''run_id'', JStr (str_uuid (ct_run_id c))),
     (''assignment_id'', JStr (ct_assignment_id c)),
     (''kind'', JStr (child_kind_value (ct_kind c))),
     (''agent_type'', JStr (ct_agent_type c)),
     (''agent_configuration_sha256'', json_opt JStr (ct_agent_configuration_sha256 c)),
     (''scope'', dump_scope (ct_scope c)),
     (''task_class'', JStr (task_class_value (ct_task_class c))),
     (''goal'', JStr (ct_goal c)),
     (''success_criteria'', str_list (ct_success_criteria c)),
     (''risk_level'', JStr (risk_level_value (ct_risk_level c))),
     (''context_entries'', JArr (map dump_selected_entry (ct_context_entries c))),
     (''artifacts'', JArr (map dump_artifact_ref (ct_artifacts c))),
     (''dependency_assignment_ids'', str_list (ct_dependency_assignment_ids c)),
     (''side_effect_class'', JStr (side_effect_value (ct_side_effect_class c))),
     (''allowed_tools'', str_list (ct_allowed_tools c)),
     (''skill_version'', JStr (ct_skill_version c)),
     (''prompt_version'', JStr (ct_prompt_version c)),
     (''model_version'', JStr (ct_model_version c)),
     (''knowledge_versions'', str_list (ct_knowledge_versions c)),
     (''budget'', dump_policy (ct_budget c)),
     (''output_schema_id'', JStr (ct_output_schema_id c)),
     (''review_checklist'', str_list (ct_review_checklist c)),
     (''scratch_namespace'', JStr (ct_scratch_namespace c)),
     (''user_delivery_allowed'', JBool False)]"

definition child_context_manifest_sha256 :: "child_context \<Rightarrow> string" where
  "child_context_manifest_sha256 c = sha256_hex (dumps True (child_context_payload c))"

subsection \<open>The registry\<close>

text \<open>The constructor: \<open>None\<close> where it raises \<^verbatim>\<open>ValueError\<close>. The dict is keyed by agent type.\<close>

type_synonym agent_registry = "(string \<times> agent_definition) list"

definition new_registry :: "agent_definition list \<Rightarrow> agent_registry option" where
  "new_registry definitions = (
     let mapped = dict_by ad_agent_type definitions;
         general = filter (\<lambda>x. ad_kind x = GENERAL) definitions
     in if length mapped \<noteq> length definitions then None
        else if length general \<noteq> 1 \<or> ad_agent_type (hd general) \<noteq> ''general'' then None
        else Some mapped)"

definition require_agent :: "agent_registry \<Rightarrow> string \<Rightarrow> child_kind \<Rightarrow> fault + agent_definition" where
  "require_agent registry agent_type kind = (case map_of registry agent_type of
     None \<Rightarrow> Inl (Fault ''AGENT_NOT_REGISTERED'' ''The requested child agent is not registered.''
       ''Register an authorized versioned child definition.'')
   | Some d \<Rightarrow> if ad_kind d \<noteq> kind
       then Inl (Fault ''AGENT_KIND_MISMATCH''
         ''The registered child agent kind does not match the dispatch.''
         ''Correct the route or the registered child definition.'')
       else Inr d)"

subsection \<open>The factory\<close>

definition empty_bundle :: context_bundle where
  "empty_bundle = \<lparr>cb_policy_version = ''legacy-empty'', cb_authorization_sha256 = replicate 64 (CHR ''0''),
     cb_selected_content_bytes = 0, cb_entries = []\<rparr>"

definition raw_bundle :: "task_context \<Rightarrow> json option" where
  "raw_bundle task = (case jget (tk_dependency_data task) ''context_bundle'' of
     None \<Rightarrow> None | Some JNull \<Rightarrow> None | Some raw \<Rightarrow> Some raw)"

definition context_bundle_of :: "(json \<Rightarrow> context_bundle option) \<Rightarrow> task_context \<Rightarrow> fault + context_bundle" where
  "context_bundle_of read_bundle task = (case raw_bundle task of
     None \<Rightarrow> Inr empty_bundle
   | Some raw \<Rightarrow>
       if task_context_manifest_sha256 task \<noteq> tk_context_manifest_sha256 task
       then Inl (Fault ''CHILD_CONTEXT_MANIFEST_INVALID''
         ''The parent context manifest failed integrity validation.''
         ''Reassemble the parent TaskContext from verified source candidates.'')
       else case read_bundle raw of
         Some b \<Rightarrow> (if valid_bundle b then Inr b
           else Inl (Fault ''CHILD_CONTEXT_BUNDLE_INVALID''
             ''The parent context bundle failed strict validation.''
             ''Reassemble the parent TaskContext with the supported context schema.''))
       | None \<Rightarrow> Inl (Fault ''CHILD_CONTEXT_BUNDLE_INVALID''
             ''The parent context bundle failed strict validation.''
             ''Reassemble the parent TaskContext with the supported context schema.''))"

definition select_context_entries ::
    "(json \<Rightarrow> context_bundle option) \<Rightarrow> task_context \<Rightarrow> string list \<Rightarrow> fault + selected_entry list" where
  "select_context_entries read_bundle task shas = (case context_bundle_of read_bundle task of
     Inl e \<Rightarrow> Inl e
   | Inr bundle \<Rightarrow>
       let available = dict_by se_content_sha256 (cb_entries bundle) in
       if \<not> distinct shas \<or> \<not> set shas \<subseteq> set (map fst available)
       then Inl (Fault ''CHILD_CONTEXT_ENTRY_DENIED''
         ''A requested context entry is not in the authorized parent bundle.''
         ''Use only content hashes from the verified parent context bundle.'')
       else Inr (map (\<lambda>h. the (map_of available h)) shas))"

definition select_artifacts :: "task_context \<Rightarrow> uuid list \<Rightarrow> fault + artifact_ref list" where
  "select_artifacts task ids = (
     let available = dict_by af_artifact_id (tk_artifacts task) in
     if \<not> set ids \<subseteq> set (map fst available)
     then Inl (Fault ''CHILD_ARTIFACT_DENIED''
       ''A requested child artifact is not in the authorized parent context.''
       ''Use only authorized parent artifact references.'')
     else let chosen = map (\<lambda>i. the (map_of available i)) ids in
       if list_ex (\<lambda>a. ts_tenant_id (af_scope a) \<noteq> ts_tenant_id (tk_scope task) \<or>
            ts_project_id (af_scope a) \<noteq> ts_project_id (tk_scope task)) chosen
       then Inl (Fault ''CHILD_ARTIFACT_SCOPE_DENIED''
         ''A requested child artifact is outside the parent scope.''
         ''Use only artifacts in the active tenant and project.'')
       else Inr chosen)"

text \<open>\<^verbatim>\<open>sorted(set(a) & set(b) & set(c))\<close>.\<close>

definition common_tools :: "string list \<Rightarrow> string list \<Rightarrow> string list \<Rightarrow> string list" where
  "common_tools a b c = sort (remdups (filter (\<lambda>t. t \<in> set b \<and> t \<in> set c) a))"

definition child_placeholder :: "uuid \<Rightarrow> task_context \<Rightarrow> agent_definition \<Rightarrow> child_input \<Rightarrow> string list \<Rightarrow>
    selected_entry list \<Rightarrow> artifact_ref list \<Rightarrow> child_context" where
  "child_placeholder run_id task d inp dependencies entries artifacts =
     \<lparr>ct_parent_task_id = tk_task_id task, ct_run_id = run_id,
      ct_assignment_id = ci_assignment_id inp, ct_kind = ad_kind d, ct_agent_type = ad_agent_type d,
      ct_agent_configuration_sha256 = ad_agent_configuration_sha256 d, ct_scope = tk_scope task,
      ct_task_class = tk_task_class task, ct_goal = ci_goal inp,
      ct_success_criteria = ci_success_criteria inp, ct_risk_level = tk_risk_level task,
      ct_context_entries = entries, ct_artifacts = artifacts,
      ct_dependency_assignment_ids = dependencies, ct_side_effect_class = ci_side_effect_class inp,
      ct_allowed_tools = common_tools (ci_requested_tools inp) (tk_allowed_tools task) (ad_allowed_tools d),
      ct_skill_version = ad_skill_version d, ct_prompt_version = ad_prompt_version d,
      ct_model_version = ad_model_version d, ct_knowledge_versions = tk_knowledge_versions task,
      ct_budget = tk_budget task, ct_output_schema_id = tk_output_schema_id task,
      ct_review_checklist = tk_review_checklist task,
      ct_scratch_namespace = ''scratch://'' @ str_uuid (ts_tenant_id (tk_scope task)) @ ''/'' @
        str_uuid (ts_project_id (tk_scope task)) @ ''/'' @ str_uuid (tk_task_id task) @ ''/'' @ str_uuid run_id,
      ct_context_manifest_sha256 = replicate 64 (CHR ''0'')\<rparr>"

definition build_child :: "(json \<Rightarrow> context_bundle option) \<Rightarrow> uuid \<Rightarrow> task_context \<Rightarrow> agent_definition \<Rightarrow>
    child_input \<Rightarrow> string list \<Rightarrow> fault + child_context" where
  "build_child read_bundle run_id task d inp dependencies = (
     case select_context_entries read_bundle task (ci_context_entry_sha256s inp) of
       Inl e \<Rightarrow> Inl e
     | Inr entries \<Rightarrow> (case select_artifacts task (ci_artifact_ids inp) of
         Inl e \<Rightarrow> Inl e
       | Inr artifacts \<Rightarrow>
           let placeholder = child_placeholder run_id task d inp dependencies entries artifacts
           in if \<not> valid_child_context placeholder then Inl ValidationError
              else Inr (placeholder\<lparr>ct_context_manifest_sha256 := child_context_manifest_sha256 placeholder\<rparr>)))"

definition general_input :: "task_context \<Rightarrow> context_bundle \<Rightarrow> child_input" where
  "general_input task bundle =
     \<lparr>ci_assignment_id = ''general'', ci_goal = tk_goal task, ci_success_criteria = tk_success_criteria task,
      ci_context_entry_sha256s = map se_content_sha256 (cb_entries bundle),
      ci_artifact_ids = map af_artifact_id (tk_artifacts task), ci_requested_tools = tk_allowed_tools task,
      ci_side_effect_class = READ_ONLY\<rparr>"

definition prepare_general :: "(json \<Rightarrow> context_bundle option) \<Rightarrow> (nat \<Rightarrow> uuid) \<Rightarrow> agent_registry \<Rightarrow>
    task_context \<Rightarrow> fault + child_context list" where
  "prepare_general read_bundle draw registry task = (case require_agent registry ''general'' GENERAL of
     Inl e \<Rightarrow> Inl e
   | Inr d \<Rightarrow> (case context_bundle_of read_bundle task of
       Inl e \<Rightarrow> Inl e
     | Inr bundle \<Rightarrow>
         if \<not> valid_child_input (general_input task bundle) then Inl ValidationError
         else case build_child read_bundle (draw 0) task d (general_input task bundle) [] of
             Inl e \<Rightarrow> Inl e
           | Inr c \<Rightarrow> Inr [c]))"

text \<open>The loop over the assignments; \<open>n\<close> draws have been made.\<close>

fun prepare_each :: "(json \<Rightarrow> context_bundle option) \<Rightarrow> (nat \<Rightarrow> uuid) \<Rightarrow> agent_registry \<Rightarrow> task_context \<Rightarrow>
    (string \<times> child_input) list \<Rightarrow> nat \<Rightarrow> professional_assignment list \<Rightarrow> fault + child_context list" where
  "prepare_each read_bundle draw registry task inputs n [] = Inr []"
| "prepare_each read_bundle draw registry task inputs n (a # as) =
     (case require_agent registry (pa_agent_type a) PROFESSIONAL of
        Inl e \<Rightarrow> Inl e
      | Inr d \<Rightarrow> (case map_of inputs (pa_assignment_id a) of
          None \<Rightarrow> Inl KeyError
        | Some inp \<Rightarrow> (case build_child read_bundle (draw n) task d inp (pa_depends_on a) of
            Inl e \<Rightarrow> Inl e
          | Inr c \<Rightarrow> (case prepare_each read_bundle draw registry task inputs (Suc n) as of
              Inl e \<Rightarrow> Inl e
            | Inr cs \<Rightarrow> Inr (c # cs)))))"

definition prepare_children :: "(json \<Rightarrow> context_bundle option) \<Rightarrow> (nat \<Rightarrow> uuid) \<Rightarrow> agent_registry \<Rightarrow>
    task_context \<Rightarrow> dispatch_plan \<Rightarrow> child_input list \<Rightarrow> fault + child_context list" where
  "prepare_children read_bundle draw registry task dispatch inputs = (
     if dp_task_id dispatch \<noteq> tk_task_id task
     then Inl (Fault ''CHILD_TASK_MISMATCH'' ''The dispatch does not belong to the active parent task.''
       ''Prepare child contexts from the active verified dispatch.'')
     else if dp_general_agent dispatch then
       (if dp_professional_assignments dispatch \<noteq> [] \<or> inputs \<noteq> []
        then Inl (Fault ''CHILD_INPUT_MISMATCH'' ''General dispatch cannot contain professional inputs.''
          ''Use only the General child for a general dispatch.'')
        else prepare_general read_bundle draw registry task)
     else if dp_professional_assignments dispatch = [] \<or> \<not> dp_review_required dispatch
     then Inl (Fault ''CHILD_DISPATCH_INVALID'' ''Professional dispatch requires assignments and review.''
       ''Use a verified Main Graph professional dispatch.'')
     else let by_id = dict_by ci_assignment_id inputs in
       if set (map pa_assignment_id (dp_professional_assignments dispatch)) \<noteq> set (map fst by_id) \<or>
          length by_id \<noteq> length inputs
       then Inl (Fault ''CHILD_INPUT_MISMATCH''
         ''Professional inputs must match the verified assignments exactly.''
         ''Provide one minimal input for every professional assignment.'')
       else prepare_each read_bundle draw registry task by_id 0 (dp_professional_assignments dispatch))"

end
