(* ===== verification/ChildRun.thy ===== *)
theory ChildRun
  imports ChildModels BudgetSafety
begin

section \<open>The child subgraph\<close>

text \<open>
  \<^verbatim>\<open>orchestration/subgraph.py\<close> with the transition and outcome contracts of \<^verbatim>\<open>child_models.py\<close> and
  \<^verbatim>\<open>AgentResult\<close> of \<^verbatim>\<open>contracts/v1.py\<close>. \<^verbatim>\<open>ChildSubgraph.run\<close> suspends once, at
  \<^verbatim>\<open>await executor.execute(context)\<close>: \<open>child_begin\<close> is the code before it and \<open>child_finish\<close> the code
  after it, so that the scheduler can interleave several children around their suspensions;
  \<open>run_child\<close> is the whole method. The budget guard is shared by the children and is absent when
  none is configured. What the executor answers is a \<open>child_reply\<close>: a payload, as pydantic reads its
  fields (\<open>None\<close>: it is not of the field types), or one of the three kinds of exception the
  method tells apart. Cancellation of the awaiting task is not represented.
\<close>

subsection \<open>Agent results\<close>

datatype agent_status = AGENT_SUCCESS | AGENT_PARTIAL_SUCCESS | AGENT_NEEDS_USER | AGENT_HUMAN_REQUIRED
  | AGENT_FAILED | AGENT_BLOCKED

fun agent_status_value :: "agent_status \<Rightarrow> string" where
  "agent_status_value AGENT_SUCCESS = ''SUCCESS''"
| "agent_status_value AGENT_PARTIAL_SUCCESS = ''PARTIAL_SUCCESS''"
| "agent_status_value AGENT_NEEDS_USER = ''NEEDS_USER''"
| "agent_status_value AGENT_HUMAN_REQUIRED = ''HUMAN_REQUIRED''"
| "agent_status_value AGENT_FAILED = ''FAILED''"
| "agent_status_value AGENT_BLOCKED = ''BLOCKED''"

datatype locator_type = LOC_PAGE | LOC_SECTION | LOC_CLAUSE | LOC_TABLE | LOC_FIGURE | LOC_CELL | LOC_LINE

record citation_ref =
  ctr_citation_id :: uuid
  ctr_artifact_id :: uuid
  ctr_source_sha256 :: string
  ctr_locator_type :: locator_type
  ctr_locator :: string
  ctr_claim_id :: string

definition valid_citation_ref :: "citation_ref \<Rightarrow> bool" where
  "valid_citation_ref c = (is_sha256 (ctr_source_sha256 c) \<and> text_len 1 512 (ctr_locator c) \<and>
     text_len 1 128 (ctr_claim_id c))"

datatype issue_severity = SEV_INFO | SEV_WARNING | SEV_ERROR | SEV_CRITICAL

record issue =
  is_code :: string
  is_severity :: issue_severity
  is_message :: string
  is_affected_path :: "string option"
  is_next_action :: "string option"

definition valid_issue :: "issue \<Rightarrow> bool" where
  "valid_issue i = (text_len 1 128 (is_code i) \<and> text_len 1 4000 (is_message i) \<and>
     opt_all (text_len 0 1024) (is_affected_path i) \<and> opt_all (text_len 0 2000) (is_next_action i))"

record agent_result =
  ag_task_id :: uuid
  ag_run_id :: uuid
  ag_status :: agent_status
  ag_summary :: string
  ag_structured_data :: "(string \<times> json) list"
  ag_artifacts :: "artifact_ref list"
  ag_evidence :: "citation_ref list"
  ag_confidence :: rat
  ag_issues :: "issue list"
  ag_retryable :: bool
  ag_failure_code :: "string option"
  ag_completed_at :: datetime

text \<open>\<^verbatim>\<open>not self.failure_code\<close>: absent or empty.\<close>

definition no_text :: "string option \<Rightarrow> bool" where
  "no_text x = (x = None \<or> x = Some [])"

definition valid_agent_result :: "agent_result \<Rightarrow> bool" where
  "valid_agent_result r = (text_len 1 12000 (ag_summary r) \<and> list_all valid_artifact_ref (ag_artifacts r) \<and>
     list_all valid_citation_ref (ag_evidence r) \<and> 0 \<le> ag_confidence r \<and> ag_confidence r \<le> 1 \<and>
     list_all valid_issue (ag_issues r) \<and> opt_all (text_len 0 128) (ag_failure_code r) \<and>
     \<not> (ag_status r \<in> {AGENT_FAILED, AGENT_BLOCKED} \<and> no_text (ag_failure_code r)) \<and>
     \<not> (ag_status r = AGENT_SUCCESS \<and> \<not> no_text (ag_failure_code r)))"

subsection \<open>Transitions and outcomes\<close>

datatype child_phase = CHILD_PREPARED | CHILD_OBSERVE | CHILD_PLAN | CHILD_ACT | CHILD_VERIFY
  | CHILD_COMPLETED | CHILD_FAILED

record child_transition =
  ctn_sequence :: int
  ctn_source :: child_phase
  ctn_target :: child_phase
  ctn_event :: string

definition valid_child_transition :: "child_transition \<Rightarrow> bool" where
  "valid_child_transition t = (1 \<le> ctn_sequence t \<and> text_len 1 128 (ctn_event t))"

record child_outcome =
  co_parent_task_id :: uuid
  co_run_id :: uuid
  co_assignment_id :: string
  co_completed :: bool
  co_phase :: child_phase
  co_result :: "agent_result option"
  co_transitions :: "child_transition list"
  co_execution_calls :: int
  co_review_required :: bool
  co_aggregation_ready :: bool
  co_error_code :: "string option"
  co_next_action :: "string option"

text \<open>\<^verbatim>\<open>status\<close> is \<^verbatim>\<open>"COMPLETED"\<close> or \<^verbatim>\<open>"FAILED"\<close>: \<open>co_completed\<close> tells which.\<close>

definition valid_outcome :: "child_outcome \<Rightarrow> bool" where
  "valid_outcome o' = (co_transitions o' \<noteq> [] \<and> list_all valid_child_transition (co_transitions o') \<and>
     co_execution_calls o' \<in> {0, 1} \<and> opt_all valid_agent_result (co_result o') \<and>
     opt_all (text_len 0 128) (co_error_code o') \<and> opt_all (text_len 0 1000) (co_next_action o') \<and>
     (if co_completed o'
      then co_result o' \<noteq> None \<and> co_execution_calls o' = 1 \<and> co_error_code o' = None \<and> co_next_action o' = None
      else co_result o' = None \<and> co_error_code o' \<noteq> None \<and> co_next_action o' \<noteq> None) \<and>
     \<not> (co_aggregation_ready o' \<and> (\<not> co_completed o' \<or> co_review_required o')))"

subsection \<open>The run\<close>

datatype child_error = GuardError budget_error | OutcomeInvalid

datatype child_reply =
    Payload "agent_result option"
  | ReplyBudgetExceeded string string
  | ReplyExecutorError string string
  | ReplyException

text \<open>The locals of \<^verbatim>\<open>run\<close> that live across the suspension, beside the shared guard.\<close>

record child_run =
  cr_guard :: "budget_guard option"
  cr_transitions :: "child_transition list"
  cr_phase :: child_phase
  cr_execution_calls :: int

type_synonym 'a child_prog = "(child_run, child_error, 'a) prog"

definition with_guard :: "unit guarded \<Rightarrow> unit child_prog" where
  "with_guard m = (\<lambda>s. case cr_guard s of None \<Rightarrow> (Inr (), s)
     | Some g \<Rightarrow> (case m g of (Inl e, g') \<Rightarrow> (Inl (GuardError e), s\<lparr>cr_guard := Some g'\<rparr>)
                          | (Inr _, g') \<Rightarrow> (Inr (), s\<lparr>cr_guard := Some g'\<rparr>)))"

definition append_transition :: "child_phase \<Rightarrow> child_phase \<Rightarrow> string \<Rightarrow> unit child_prog" where
  "append_transition source target event =
     bindP (gets (\<lambda>s. \<lparr>ctn_sequence = int (length (cr_transitions s)) + 1, ctn_source = source,
         ctn_target = target, ctn_event = event\<rparr>)) (\<lambda>t.
       if valid_child_transition t then modify (\<lambda>s. s\<lparr>cr_transitions := cr_transitions s @ [t]\<rparr>)
       else raise OutcomeInvalid)"

definition child_move :: "budget_env \<Rightarrow> child_phase \<Rightarrow> child_phase \<Rightarrow> string \<Rightarrow> unit child_prog" where
  "child_move env source target event = seqP
     [with_guard (if target \<in> {CHILD_COMPLETED, CHILD_FAILED} then record_terminal_transition env False
        else record_graph_step env STANDARD),
      append_transition source target event,
      modify (\<lambda>s. s\<lparr>cr_phase := target\<rparr>)]"

definition mk_outcome :: "child_outcome \<Rightarrow> child_outcome child_prog" where
  "mk_outcome o' = (if valid_outcome o' then ret o' else raise OutcomeInvalid)"

definition default_next_action :: string where
  "default_next_action = ''Inspect the child evidence and retry with a corrected bounded input.''"

definition child_failure :: "child_context \<Rightarrow> string \<Rightarrow> string \<Rightarrow> child_outcome child_prog" where
  "child_failure c code next_action = bindP (gets (\<lambda>s. (cr_transitions s, cr_execution_calls s))) (\<lambda>(ts, calls).
     mk_outcome \<lparr>co_parent_task_id = ct_parent_task_id c, co_run_id = ct_run_id c,
       co_assignment_id = ct_assignment_id c, co_completed = False, co_phase = CHILD_FAILED,
       co_result = None, co_transitions = ts, co_execution_calls = calls,
       co_review_required = (ct_kind c = PROFESSIONAL), co_aggregation_ready = False,
       co_error_code = Some code, co_next_action = Some next_action\<rparr>)"

text \<open>The outer handler: a budget stop ends the run with a recorded terminal transition.\<close>

definition budget_stopped :: "budget_env \<Rightarrow> child_context \<Rightarrow> child_error \<Rightarrow> child_outcome child_prog" where
  "budget_stopped env c e = (case e of
     GuardError (BudgetExceeded code cause impact next_action t) \<Rightarrow>
       thenP (with_guard (record_terminal_transition env True))
         (bindP (gets cr_phase) (\<lambda>phase.
           thenP (append_transition phase CHILD_FAILED ''graph_budget_stopped'')
             (child_failure c code next_action)))
   | _ \<Rightarrow> raise e)"

definition child_begin :: "budget_env \<Rightarrow> child_context \<Rightarrow> child_outcome option child_prog" where
  "child_begin env c = catchP
     (thenP (seqP
        [child_move env CHILD_PREPARED CHILD_OBSERVE ''context_observed'',
         child_move env CHILD_OBSERVE CHILD_PLAN ''bounded_plan_created'',
         child_move env CHILD_PLAN CHILD_ACT ''executor_called'',
         modify (\<lambda>s. s\<lparr>cr_execution_calls := 1\<rparr>)])
       (ret None))
     (\<lambda>e. bindP (budget_stopped env c e) (\<lambda>o'. ret (Some o')))"

definition in_project :: "tenant_scope \<Rightarrow> artifact_ref \<Rightarrow> bool" where
  "in_project scope a = (ts_tenant_id (af_scope a) = ts_tenant_id scope \<and>
     ts_project_id (af_scope a) = ts_project_id scope)"

definition child_complete :: "budget_env \<Rightarrow> child_context \<Rightarrow> agent_result \<Rightarrow> child_outcome child_prog" where
  "child_complete env c r = thenP (child_move env CHILD_VERIFY CHILD_COMPLETED ''typed_result_ready'')
     (bindP (gets (\<lambda>s. (cr_transitions s, cr_execution_calls s))) (\<lambda>(ts, calls).
       mk_outcome \<lparr>co_parent_task_id = ct_parent_task_id c, co_run_id = ct_run_id c,
         co_assignment_id = ct_assignment_id c, co_completed = True, co_phase = CHILD_COMPLETED,
         co_result = Some r, co_transitions = ts, co_execution_calls = calls,
         co_review_required = (ct_kind c = PROFESSIONAL), co_aggregation_ready = (ct_kind c \<noteq> PROFESSIONAL),
         co_error_code = None, co_next_action = None\<rparr>))"

definition reject_result :: "budget_env \<Rightarrow> child_context \<Rightarrow> string \<Rightarrow> string \<Rightarrow> child_outcome child_prog" where
  "reject_result env c event code = thenP (child_move env CHILD_VERIFY CHILD_FAILED event)
     (child_failure c code default_next_action)"

definition child_check :: "budget_env \<Rightarrow> child_context \<Rightarrow> agent_result option \<Rightarrow> child_outcome child_prog" where
  "child_check env c payload = (case payload of
     None \<Rightarrow> reject_result env c ''result_schema_invalid'' ''CHILD_RESULT_INVALID''
   | Some r \<Rightarrow>
       if \<not> valid_agent_result r then
         reject_result env c ''result_schema_invalid'' ''CHILD_RESULT_INVALID''
       else if ag_task_id r \<noteq> ct_parent_task_id c \<or> ag_run_id r \<noteq> ct_run_id c then
         reject_result env c ''result_identity_invalid'' ''CHILD_RESULT_INVALID''
       else if list_ex (\<lambda>a. \<not> in_project (ct_scope c) a) (ag_artifacts r) then
         reject_result env c ''result_scope_invalid'' ''CHILD_RESULT_SCOPE_DENIED''
       else child_complete env c r)"

definition child_verify :: "budget_env \<Rightarrow> child_context \<Rightarrow> agent_result option \<Rightarrow> child_outcome child_prog" where
  "child_verify env c payload = thenP
     (child_move env CHILD_ACT CHILD_VERIFY ''result_verification_started'') (child_check env c payload)"

definition child_finish :: "budget_env \<Rightarrow> child_context \<Rightarrow> child_reply \<Rightarrow> child_outcome child_prog" where
  "child_finish env c reply = catchP
     (case reply of
        Payload payload \<Rightarrow> child_verify env c payload
      | ReplyBudgetExceeded code next_action \<Rightarrow>
          thenP (child_move env CHILD_ACT CHILD_FAILED ''executor_budget_stopped'')
            (child_failure c code next_action)
      | ReplyExecutorError code next_action \<Rightarrow>
          thenP (child_move env CHILD_ACT CHILD_FAILED ''executor_typed_failure'')
            (child_failure c code next_action)
      | ReplyException \<Rightarrow>
          thenP (child_move env CHILD_ACT CHILD_FAILED ''executor_failed'')
            (child_failure c ''CHILD_EXECUTION_FAILED'' default_next_action))
     (budget_stopped env c)"

definition fresh_run :: "budget_guard option \<Rightarrow> child_run" where
  "fresh_run g = \<lparr>cr_guard = g, cr_transitions = [], cr_phase = CHILD_PREPARED, cr_execution_calls = 0\<rparr>"

text \<open>The executor may use the shared guard while it works: it is a function of the context and the guard.\<close>

type_synonym executor = "child_context \<Rightarrow> budget_guard option \<Rightarrow> child_reply \<times> budget_guard option"

definition call_executor :: "executor \<Rightarrow> child_context \<Rightarrow> child_reply child_prog" where
  "call_executor ex c = (\<lambda>s. let (reply, g) = ex c (cr_guard s) in (Inr reply, s\<lparr>cr_guard := g\<rparr>))"

definition run_child_prog :: "budget_env \<Rightarrow> executor \<Rightarrow> child_context \<Rightarrow> child_outcome child_prog" where
  "run_child_prog env ex c = bindP (child_begin env c) (\<lambda>stopped. case stopped of
     Some o' \<Rightarrow> ret o'
   | None \<Rightarrow> bindP (call_executor ex c) (child_finish env c))"

definition run_child :: "budget_env \<Rightarrow> budget_guard option \<Rightarrow> executor \<Rightarrow> child_context \<Rightarrow>
    (child_error + child_outcome) \<times> budget_guard option" where
  "run_child env g ex c = (let (r, s) = run_child_prog env ex c (fresh_run g) in (r, cr_guard s))"

end
