(* ===== verification/ChildRunRules.thy ===== *)
theory ChildRunRules
  imports ChildRun
begin

section \<open>Rules for child runs\<close>

text \<open>
  The errors the guard can raise into a child run are typed stops with bounded texts
  (\<open>guard_stop\<close>), or nothing but them when the guard is in a reachable state. From this, rules for
  the two halves of \<^verbatim>\<open>ChildSubgraph.run\<close>: what an outcome always is (\<open>outcome_for\<close>) and when a run
  is accepted (\<open>acceptable\<close>).
\<close>

subsection \<open>What the guard raises\<close>

definition bounded_stop :: "budget_error \<Rightarrow> bool" where
  "bounded_stop e = (\<exists>code cause impact next_action t. e = BudgetExceeded code cause impact next_action t \<and>
     text_len 0 128 code \<and> text_len 0 1000 next_action)"

abbreviation guard_stop :: "budget_error \<Rightarrow> bool" where
  "guard_stop e \<equiv> e = BudgetValidationError \<or> bounded_stop e"

lemma elapsed_ms_raises [raises_intros]: "raises_only E (elapsed_ms env)"
  unfolding elapsed_ms_def by (intro raises_intros)

lemma record_event_raises: "raises_only (\<lambda>e. e = BudgetValidationError) (record_event env a)"
  unfolding record_event_def by (intro raises_intros) simp

lemma raise_exceeded_raises:
  "text_len 0 128 code \<Longrightarrow> text_len 0 1000 next_action \<Longrightarrow>
   raises_only guard_stop (raise_exceeded env code cause impact next_action)"
  unfolding raise_exceeded_def telemetry_def by (intro raises_intros) (auto simp: bounded_stop_def)

lemma record_event_stop [raises_intros]: "raises_only guard_stop (record_event env a)"
  using record_event_raises by (rule raises_only_mono) simp

lemma deny_stop:
  "text_len 0 128 code \<Longrightarrow> text_len 0 1000 next_action \<Longrightarrow>
   raises_only guard_stop (thenP (record_event env a) (raise_exceeded env code cause impact next_action))"
  by (intro raises_only_thenP record_event_stop raise_exceeded_raises)

lemma check_time_stop [raises_intros]: "raises_only guard_stop (check_time env)"
  unfolding check_time_def
  by (intro raises_intros deny_stop) (auto simp: time_code_def text_len_def split: if_splits)

lemma ensure_capacity_stop [raises_intros]:
  "raises_only guard_stop (ensure_capacity_at env d n t current)"
  "raises_only guard_stop (ensure_capacity env d n t)"
  unfolding ensure_capacity_def ensure_capacity_at_def
  by (intro raises_intros deny_stop; auto simp: capacity_code_def text_len_def split: if_splits)+

lemma authorize_action_stop [raises_intros]: "raises_only guard_stop (authorize_action env c)"
proof -
  have "text_len 0 128 (''BUDGET_DEGRADATION_'' @ stage_value stage)" for stage
    by (cases stage) (simp_all add: text_len_def)
  then show ?thesis
    unfolding authorize_action_def Let_def
    by (intro raises_intros deny_stop) (auto simp: text_len_def)
qed

lemma counting_raises [raises_intros]:
  "raises_only E (increment d n)" "raises_only E (add_logical n)" "raises_only E add_retry"
  by (simp_all add: increment_def add_logical_def add_retry_def raises_intros)

lemma consume_stop [raises_intros]: "raises_only guard_stop (consume env d n t logical)"
  unfolding consume_def by (intro raises_intros raises_only_seqP) (auto intro: raises_intros)

lemma record_graph_step_stop: "raises_only guard_stop (record_graph_step env c)"
  unfolding record_graph_step_def
  by (intro raises_intros raises_only_seqP) (auto intro: raises_intros raises_only_seqP)

lemma record_terminal_transition_raises:
  "raises_only (\<lambda>e. e = BudgetValidationError) (record_terminal_transition env stop)"
  unfolding record_terminal_transition_def
  by (intro raises_only_seqP) (auto intro: raises_intros record_event_raises)

lemma slot_acquire_stop: "raises_only guard_stop (slot_acquire env)"
  unfolding slot_acquire_def
  by (intro raises_intros raises_only_seqP) (auto intro: raises_intros raises_only_seqP)

lemma slot_release_raises: "raises_only (\<lambda>e. e = BudgetValidationError) (slot_release env)"
  unfolding slot_release_def
  by (intro raises_intros raises_only_seqP) (auto intro: raises_intros record_event_raises)

subsection \<open>Phases\<close>

inductive child_step :: "child_phase \<Rightarrow> child_phase \<Rightarrow> bool" where
  observe: "child_step CHILD_PREPARED CHILD_OBSERVE"
| plan: "child_step CHILD_OBSERVE CHILD_PLAN"
| act: "child_step CHILD_PLAN CHILD_ACT"
| verify: "child_step CHILD_ACT CHILD_VERIFY"
| complete: "child_step CHILD_VERIFY CHILD_COMPLETED"
| fail: "p \<noteq> CHILD_COMPLETED \<Longrightarrow> p \<noteq> CHILD_FAILED \<Longrightarrow> child_step p CHILD_FAILED"

inductive_simps child_step_from [simp]: "child_step p q"

inductive child_path :: "child_transition list \<Rightarrow> child_phase \<Rightarrow> bool" where
  start: "child_path [] CHILD_PREPARED"
| move: "child_path ts p \<Longrightarrow> child_step p q \<Longrightarrow>
    child_path (ts @ [\<lparr>ctn_sequence = int (length ts) + 1, ctn_source = p, ctn_target = q, ctn_event = e\<rparr>]) q"

text \<open>The executor was called exactly when the run reached \<^verbatim>\<open>ACT\<close>.\<close>

definition acted :: "child_transition list \<Rightarrow> bool" where
  "acted ts = list_ex (\<lambda>t. ctn_target t = CHILD_ACT) ts"

definition run_ok :: "child_run \<Rightarrow> bool" where
  "run_ok s = (child_path (cr_transitions s) (cr_phase s) \<and> list_all valid_child_transition (cr_transitions s))"

abbreviation guard_kept :: "child_run \<Rightarrow> budget_guard option \<Rightarrow> bool" where
  "guard_kept s g \<equiv> (opt_all guard_inv (cr_guard s) \<longrightarrow> opt_all guard_inv g) \<and> (cr_guard s = None \<longrightarrow> g = None)"

definition moved :: "child_run \<Rightarrow> budget_guard option \<Rightarrow> child_phase \<Rightarrow> child_phase \<Rightarrow> string \<Rightarrow> child_run" where
  "moved s g p q event = s\<lparr>cr_guard := g, cr_transitions := cr_transitions s @
     [\<lparr>ctn_sequence = int (length (cr_transitions s)) + 1, ctn_source = p, ctn_target = q, ctn_event = event\<rparr>],
     cr_phase := q\<rparr>"

lemma moved_simps [simp]:
  "cr_guard (moved s g p q event) = g" "cr_phase (moved s g p q event) = q"
  "cr_execution_calls (moved s g p q event) = cr_execution_calls s"
  "acted (cr_transitions (moved s g p q event)) = (acted (cr_transitions s) \<or> q = CHILD_ACT)"
  "cr_transitions (moved s g p q event) \<noteq> []"
  by (auto simp: moved_def acted_def)

lemma run_ok_moved [intro]:
  "run_ok s \<Longrightarrow> cr_phase s = p \<Longrightarrow> child_step p q \<Longrightarrow> text_len 1 128 event \<Longrightarrow> run_ok (moved s g p q event)"
  by (auto simp: run_ok_def moved_def valid_child_transition_def intro: child_path.move)

subsection \<open>Moves\<close>

lemma with_guard_rule:
  assumes keeps: "\<And>g. guard_inv g \<Longrightarrow> wp m guard_post guard_err g" and err: "raises_only X m"
    and ok: "\<And>g'. guard_kept s g' \<Longrightarrow> Q () (s\<lparr>cr_guard := g'\<rparr>)"
    and bad: "\<And>e g'. guard_kept s g' \<Longrightarrow> cr_guard s \<noteq> None \<Longrightarrow> X e \<Longrightarrow>
      opt_all guard_inv (cr_guard s) \<longrightarrow> e \<noteq> BudgetValidationError \<Longrightarrow> E (GuardError e) (s\<lparr>cr_guard := g'\<rparr>)"
  shows "wp (with_guard m) Q E s"
proof (cases "cr_guard s")
  case None
  then show ?thesis
    using ok [of None] by (cases s) (simp add: wp_def with_guard_def)
next
  case (Some g)
  show ?thesis
  proof (cases "m g")
    case (Pair r g')
    have inv: "guard_inv g \<longrightarrow> guard_inv g' \<and> r \<noteq> Inl BudgetValidationError"
      using keeps [of g] Pair by (auto simp: wp_def guard_err_def split: sum.splits)
    show ?thesis
      using inv Pair Some ok [of "Some g'"] bad [of "Some g'"] raises_onlyD [OF err, of g _ g']
      by (cases r) (auto simp: wp_def with_guard_def)
  qed
qed

lemma append_transition_rule:
  assumes "text_len 1 128 event"
  shows "wp (append_transition p q event) Q E s = Q () (s\<lparr>cr_transitions := cr_transitions s @
     [\<lparr>ctn_sequence = int (length (cr_transitions s)) + 1, ctn_source = p, ctn_target = q, ctn_event = event\<rparr>]\<rparr>)"
  using assms by (simp add: append_transition_def wp_simps valid_child_transition_def)

text \<open>A move either extends the path or fails with the guard's stop; a terminal move of a run whose
  guard is sound never fails.\<close>

lemma child_move_rule:
  assumes ev: "text_len 1 128 event"
    and ok: "\<And>g'. guard_kept s g' \<Longrightarrow> Q () (moved s g' p q event)"
    and bad: "\<And>e g'. guard_kept s g' \<Longrightarrow> cr_guard s \<noteq> None \<Longrightarrow> guard_stop e \<Longrightarrow>
      opt_all guard_inv (cr_guard s) \<longrightarrow> e \<noteq> BudgetValidationError \<and> q \<noteq> CHILD_COMPLETED \<and> q \<noteq> CHILD_FAILED \<Longrightarrow>
      E (GuardError e) (s\<lparr>cr_guard := g'\<rparr>)"
  shows "wp (child_move env p q event) Q E s"
proof -
  let ?rest = "seqP [append_transition p q event, modify (\<lambda>s. s\<lparr>cr_phase := q\<rparr>)]"
  have rest: "wp ?rest Q E (s\<lparr>cr_guard := g'\<rparr>)" if "guard_kept s g'" for g'
    using ok [OF that] ev by (simp add: wp_simps append_transition_rule moved_def)
  show ?thesis
  proof (cases "q \<in> {CHILD_COMPLETED, CHILD_FAILED}")
    case True
    have "wp (with_guard (record_terminal_transition env False)) (\<lambda>_. wp ?rest Q E) E s"
      using rest bad by (intro with_guard_rule [OF record_terminal_transition_keeps record_terminal_transition_raises]) auto
    with True show ?thesis
      by (simp add: child_move_def wp_thenP)
  next
    case False
    have "wp (with_guard (record_graph_step env STANDARD)) (\<lambda>_. wp ?rest Q E) E s"
      using rest bad False by (intro with_guard_rule [OF record_graph_step_keeps record_graph_step_stop]) auto
    with False show ?thesis
      by (simp add: child_move_def wp_thenP)
  qed
qed

subsection \<open>Outcomes\<close>

text \<open>What every outcome of a run for context \<open>c\<close> is: a valid model bound to the context, whose
  transitions are a path of the phase machine from \<^verbatim>\<open>PREPARED\<close> to its final phase, which counts one
  execution exactly when the run reached the executor, and which is never ready for aggregation without
  review when the child is a professional.\<close>

definition outcome_for :: "child_context \<Rightarrow> child_outcome \<Rightarrow> bool" where
  "outcome_for c o' = (valid_outcome o' \<and>
     co_parent_task_id o' = ct_parent_task_id c \<and> co_run_id o' = ct_run_id c \<and>
     co_assignment_id o' = ct_assignment_id c \<and>
     co_review_required o' = (ct_kind c = PROFESSIONAL) \<and>
     co_aggregation_ready o' = (co_completed o' \<and> ct_kind c = GENERAL) \<and>
     child_path (co_transitions o') (co_phase o') \<and>
     co_phase o' = (if co_completed o' then CHILD_COMPLETED else CHILD_FAILED) \<and>
     co_execution_calls o' = (if acted (co_transitions o') then 1 else 0))"

text \<open>The results a run accepts: valid, for this task and run, every artifact in the child's project.\<close>

definition acceptable :: "child_context \<Rightarrow> agent_result \<Rightarrow> bool" where
  "acceptable c r = (valid_agent_result r \<and> ag_task_id r = ct_parent_task_id c \<and> ag_run_id r = ct_run_id c \<and>
     list_all (in_project (ct_scope c)) (ag_artifacts r))"

definition counted :: "child_run \<Rightarrow> bool" where
  "counted s = (run_ok s \<and> cr_execution_calls s = (if acted (cr_transitions s) then 1 else 0))"

lemma counted_moved [intro]:
  "counted s \<Longrightarrow> cr_phase s = p \<Longrightarrow> child_step p q \<Longrightarrow> q \<noteq> CHILD_ACT \<Longrightarrow> text_len 1 128 event \<Longrightarrow>
   counted (moved s g p q event)"
  by (simp add: counted_def run_ok_moved)

lemma child_failure_rule:
  assumes "child_path (cr_transitions s) CHILD_FAILED" "list_all valid_child_transition (cr_transitions s)"
    and "cr_execution_calls s = (if acted (cr_transitions s) then 1 else 0)" "cr_transitions s \<noteq> []"
    and "text_len 0 128 code" "text_len 0 1000 next_action"
    and Q: "\<And>o'. outcome_for c o' \<Longrightarrow> \<not> co_completed o' \<Longrightarrow> co_execution_calls o' = cr_execution_calls s \<Longrightarrow>
      co_error_code o' = Some code \<Longrightarrow> Q o' s"
  shows "wp (child_failure c code next_action) Q E s"
proof -
  have "ct_kind c = GENERAL \<or> ct_kind c = PROFESSIONAL"
    by (cases "ct_kind c") simp_all
  then show ?thesis
    using assms(1-6)
    by (auto simp: child_failure_def wp_simps mk_outcome_def valid_outcome_def outcome_for_def intro!: Q)
qed

lemma budget_stopped_rule:
  assumes s: "counted s" "child_step (cr_phase s) CHILD_FAILED" and e: "guard_stop e"
    and inv: "sound \<longrightarrow> opt_all guard_inv (cr_guard s) \<and> e \<noteq> BudgetValidationError"
    and Q: "\<And>o' s'. outcome_for c o' \<Longrightarrow> \<not> co_completed o' \<Longrightarrow> guard_kept s (cr_guard s') \<Longrightarrow>
      co_execution_calls o' = cr_execution_calls s \<Longrightarrow> Q o' s'"
    and E: "\<And>s'. \<not> sound \<Longrightarrow> E (GuardError BudgetValidationError) s'"
  shows "wp (budget_stopped env c (GuardError e)) Q E s"
proof (cases "e = BudgetValidationError")
  case True
  with inv E show ?thesis
    by (simp add: budget_stopped_def wp_simps)
next
  case False
  with e obtain code cause impact next_action t where
    e: "e = BudgetExceeded code cause impact next_action t" "text_len 0 128 code" "text_len 0 1000 next_action"
    by (auto simp: bounded_stop_def)
  have ev: "text_len 1 128 ''graph_budget_stopped''"
    by (simp add: text_len_def)
  show ?thesis
    unfolding e(1) budget_stopped_def budget_error.case child_error.case wp_simps
  proof (rule with_guard_rule [OF record_terminal_transition_keeps record_terminal_transition_raises], assumption)
    fix g'
    assume g': "guard_kept s g'"
    show "wp (append_transition (cr_phase (s\<lparr>cr_guard := g'\<rparr>)) CHILD_FAILED ''graph_budget_stopped'')
        (\<lambda>_. wp (child_failure c code next_action) Q E) E (s\<lparr>cr_guard := g'\<rparr>)"
      unfolding append_transition_rule [OF ev]
    proof (rule child_failure_rule [OF _ _ _ _ e(2,3)])
      fix o'
      assume "outcome_for c o'" "\<not> co_completed o'"
      then show "Q o' (s\<lparr>cr_guard := g', cr_transitions := cr_transitions (s\<lparr>cr_guard := g'\<rparr>) @
          [\<lparr>ctn_sequence = int (length (cr_transitions (s\<lparr>cr_guard := g'\<rparr>))) + 1,
            ctn_source = cr_phase (s\<lparr>cr_guard := g'\<rparr>), ctn_target = CHILD_FAILED,
            ctn_event = ''graph_budget_stopped''\<rparr>]\<rparr>)"
        if "co_execution_calls o' = cr_execution_calls (s\<lparr>cr_guard := g', cr_transitions := cr_transitions (s\<lparr>cr_guard := g'\<rparr>) @
          [\<lparr>ctn_sequence = int (length (cr_transitions (s\<lparr>cr_guard := g'\<rparr>))) + 1,
            ctn_source = cr_phase (s\<lparr>cr_guard := g'\<rparr>), ctn_target = CHILD_FAILED,
            ctn_event = ''graph_budget_stopped''\<rparr>]\<rparr>)"
        using g' that by (intro Q) auto
    qed (use s ev in \<open>auto simp: counted_def run_ok_def acted_def valid_child_transition_def simp del: child_step_from
        intro: child_path.move\<close>)
  qed (use inv E in auto)
qed


subsection \<open>The two halves of a run\<close>

lemma counted_guard [simp]: "counted (s\<lparr>cr_guard := g\<rparr>) = counted s"
  by (simp add: counted_def run_ok_def)

lemma child_begin_rule:
  assumes ready: "\<And>s'. counted s' \<Longrightarrow> cr_phase s' = CHILD_ACT \<Longrightarrow> cr_execution_calls s' = 1 \<Longrightarrow>
      guard_kept (fresh_run g) (cr_guard s') \<Longrightarrow> Q None s'"
    and stopped: "\<And>o' s'. outcome_for c o' \<Longrightarrow> \<not> co_completed o' \<Longrightarrow> co_execution_calls o' = 0 \<Longrightarrow>
      g \<noteq> None \<Longrightarrow> guard_kept (fresh_run g) (cr_guard s') \<Longrightarrow> Q (Some o') s'"
    and E: "\<And>s'. \<not> opt_all guard_inv g \<Longrightarrow> E (GuardError BudgetValidationError) s'"
  shows "wp (child_begin env c) Q E (fresh_run g)"
proof -
  let ?H = "\<lambda>e. wp (bindP (budget_stopped env c e) (\<lambda>o'. ret (Some o'))) Q E"
  have ev: "text_len 1 128 ''context_observed''" "text_len 1 128 ''bounded_plan_created''"
    "text_len 1 128 ''executor_called''"
    by (simp_all add: text_len_def)
  have stop: "?H (GuardError e) (s\<lparr>cr_guard := g'\<rparr>)"
    if "counted s" "cr_phase s \<in> {CHILD_PREPARED, CHILD_OBSERVE, CHILD_PLAN}" "cr_execution_calls s = 0"
      "guard_kept (fresh_run g) (cr_guard s)" "guard_kept s g'" "cr_guard s \<noteq> None" "guard_stop e"
      "opt_all guard_inv (cr_guard s) \<longrightarrow> e \<noteq> BudgetValidationError" for s g' e
    unfolding wp_bindP wp_ret
    using that by (intro budget_stopped_rule [where sound = "opt_all guard_inv g"]) (auto simp: fresh_run_def intro!: stopped E)
  have fresh: "counted (fresh_run g)"
    by (simp add: fresh_run_def counted_def run_ok_def acted_def child_path.start)
  have c1: "counted (moved (fresh_run g) g1 CHILD_PREPARED CHILD_OBSERVE ''context_observed'')" for g1
    by (intro counted_moved fresh ev) (simp_all add: fresh_run_def)
  have c2: "counted (moved (moved (fresh_run g) g1 CHILD_PREPARED CHILD_OBSERVE ''context_observed'')
      g2 CHILD_OBSERVE CHILD_PLAN ''bounded_plan_created'')" for g1 g2
    by (intro counted_moved c1 ev) simp_all
  show ?thesis
    unfolding child_begin_def wp_catchP wp_thenP wp_seqP_Cons wp_seqP_Nil wp_modify wp_ret
  proof (intro child_move_rule ev)
    fix g1 g2 g3
    let ?s1 = "moved (fresh_run g) g1 CHILD_PREPARED CHILD_OBSERVE ''context_observed''"
    let ?s2 = "moved ?s1 g2 CHILD_OBSERVE CHILD_PLAN ''bounded_plan_created''"
    let ?s3 = "moved ?s2 g3 CHILD_PLAN CHILD_ACT ''executor_called''"
    assume k: "guard_kept (fresh_run g) g1" "guard_kept ?s1 g2" "guard_kept ?s2 g3"
    have "run_ok ?s3" "acted (cr_transitions ?s3)"
      using c2 [of g1 g2] by (auto simp: counted_def intro!: run_ok_moved ev)
    then have "counted (?s3\<lparr>cr_execution_calls := 1\<rparr>)"
      by (simp add: counted_def run_ok_def)
    then show "Q None (?s3\<lparr>cr_execution_calls := 1\<rparr>)"
      using k by (intro ready) (auto simp: fresh_run_def)
  next
    fix g1 e g'
    let ?s1 = "moved (fresh_run g) g1 CHILD_PREPARED CHILD_OBSERVE ''context_observed''"
    assume k: "guard_kept (fresh_run g) g1" and r: "guard_kept ?s1 g'" "cr_guard ?s1 \<noteq> None" "guard_stop e"
      "opt_all guard_inv (cr_guard ?s1) \<longrightarrow> e \<noteq> BudgetValidationError \<and> CHILD_PLAN \<noteq> CHILD_COMPLETED \<and> CHILD_PLAN \<noteq> CHILD_FAILED"
    with c1 k show "?H (GuardError e) (?s1\<lparr>cr_guard := g'\<rparr>)"
      by (intro stop) (auto simp: fresh_run_def)
  next
    fix g1 g2 e g'
    let ?s1 = "moved (fresh_run g) g1 CHILD_PREPARED CHILD_OBSERVE ''context_observed''"
    let ?s2 = "moved ?s1 g2 CHILD_OBSERVE CHILD_PLAN ''bounded_plan_created''"
    assume k: "guard_kept (fresh_run g) g1" "guard_kept ?s1 g2" and r: "guard_kept ?s2 g'" "cr_guard ?s2 \<noteq> None" "guard_stop e"
      "opt_all guard_inv (cr_guard ?s2) \<longrightarrow> e \<noteq> BudgetValidationError \<and> CHILD_ACT \<noteq> CHILD_COMPLETED \<and> CHILD_ACT \<noteq> CHILD_FAILED"
    with c2 k show "?H (GuardError e) (?s2\<lparr>cr_guard := g'\<rparr>)"
      by (intro stop) (auto simp: fresh_run_def)
  next
    fix e g'
    assume "guard_kept (fresh_run g) g'" "cr_guard (fresh_run g) \<noteq> None" "guard_stop e"
      "opt_all guard_inv (cr_guard (fresh_run g)) \<longrightarrow> e \<noteq> BudgetValidationError \<and>
       CHILD_OBSERVE \<noteq> CHILD_COMPLETED \<and> CHILD_OBSERVE \<noteq> CHILD_FAILED"
    with fresh show "?H (GuardError e) ((fresh_run g)\<lparr>cr_guard := g'\<rparr>)"
      by (intro stop) (auto simp: fresh_run_def)
  qed
qed


definition reply_bounded :: "child_reply \<Rightarrow> bool" where
  "reply_bounded reply = (case reply of
     ReplyBudgetExceeded code next_action \<Rightarrow> text_len 0 128 code \<and> text_len 0 1000 next_action
   | ReplyExecutorError code next_action \<Rightarrow> text_len 0 128 code \<and> text_len 0 1000 next_action
   | _ \<Rightarrow> True)"

definition accepts :: "child_context \<Rightarrow> child_reply \<Rightarrow> bool" where
  "accepts c reply = (case reply of Payload (Some r) \<Rightarrow> acceptable c r | _ \<Rightarrow> False)"

text \<open>A failing end: one terminal move and the failure outcome, under the budget handler.\<close>

lemma child_fail_rule:
  assumes s: "counted s" "cr_phase s = p" "child_step p CHILD_FAILED" "text_len 1 128 event"
    and sound: "sound \<longrightarrow> opt_all guard_inv (cr_guard s)"
    and Q: "\<And>o' s'. outcome_for c o' \<Longrightarrow> \<not> co_completed o' \<Longrightarrow> co_execution_calls o' = cr_execution_calls s \<Longrightarrow>
      guard_kept s (cr_guard s') \<Longrightarrow> Q o' s'"
    and E: "\<And>s'. \<not> sound \<Longrightarrow> E (GuardError BudgetValidationError) s'"
    and long: "\<And>s'. \<not> (text_len 0 128 code \<and> text_len 0 1000 next_action) \<Longrightarrow> E OutcomeInvalid s'"
  shows "wp (thenP (child_move env p CHILD_FAILED event) (child_failure c code next_action))
    Q (\<lambda>e. wp (budget_stopped env c e) Q E) s"
  unfolding wp_thenP
proof (rule child_move_rule [OF s(4)])
  fix g'
  assume g': "guard_kept s g'"
  have m: "counted (moved s g' p CHILD_FAILED event)"
    using s by (intro counted_moved) simp_all
  show "wp (child_failure c code next_action) Q (\<lambda>e. wp (budget_stopped env c e) Q E) (moved s g' p CHILD_FAILED event)"
  proof (cases "text_len 0 128 code \<and> text_len 0 1000 next_action")
    case True
    with m g' show ?thesis
      by (intro child_failure_rule) (auto simp: counted_def run_ok_def split: if_splits intro!: Q)
  next
    case False
    then show ?thesis
      using long by (auto simp: child_failure_def mk_outcome_def valid_outcome_def budget_stopped_def wp_simps)
  qed
next
  fix e g'
  assume "guard_kept s g'" "guard_stop e"
    "opt_all guard_inv (cr_guard s) \<longrightarrow> e \<noteq> BudgetValidationError \<and> CHILD_FAILED \<noteq> CHILD_COMPLETED \<and> CHILD_FAILED \<noteq> CHILD_FAILED"
  then show "wp (budget_stopped env c (GuardError e)) Q E (s\<lparr>cr_guard := g'\<rparr>)"
    using s sound by (intro budget_stopped_rule [where sound = sound]) (auto intro!: Q E)
qed

lemma child_complete_rule:
  assumes s: "counted s" "cr_phase s = CHILD_VERIFY" "cr_execution_calls s = 1" and r: "valid_agent_result r"
    and sound: "sound \<longrightarrow> opt_all guard_inv (cr_guard s)"
    and finished: "\<And>o' s'. outcome_for c o' \<Longrightarrow> co_completed o' \<Longrightarrow> co_result o' = Some r \<Longrightarrow>
      co_execution_calls o' = 1 \<Longrightarrow> guard_kept s (cr_guard s') \<Longrightarrow> Q o' s'"
    and stopped: "\<And>o' s'. outcome_for c o' \<Longrightarrow> \<not> co_completed o' \<Longrightarrow> co_execution_calls o' = 1 \<Longrightarrow>
      cr_guard s \<noteq> None \<Longrightarrow> guard_kept s (cr_guard s') \<Longrightarrow> Q o' s'"
    and E: "\<And>s'. \<not> sound \<Longrightarrow> E (GuardError BudgetValidationError) s'"
  shows "wp (child_complete env c r) Q (\<lambda>e. wp (budget_stopped env c e) Q E) s"
  unfolding child_complete_def wp_thenP
proof (rule child_move_rule)
  fix g'
  assume g': "guard_kept s g'"
  let ?s = "moved s g' CHILD_VERIFY CHILD_COMPLETED ''typed_result_ready''"
  have m: "counted ?s"
    using s by (intro counted_moved) (simp_all add: text_len_def)
  have kind: "ct_kind c = GENERAL \<or> ct_kind c = PROFESSIONAL"
    by (cases "ct_kind c") simp_all
  have t: "child_path (cr_transitions ?s) CHILD_COMPLETED" "list_all valid_child_transition (cr_transitions ?s)"
    "acted (cr_transitions ?s)"
    using m s by (auto simp: counted_def run_ok_def split: if_splits)
  show "wp (bindP (gets (\<lambda>s. (cr_transitions s, cr_execution_calls s))) (\<lambda>(ts, calls).
        mk_outcome \<lparr>co_parent_task_id = ct_parent_task_id c, co_run_id = ct_run_id c,
          co_assignment_id = ct_assignment_id c, co_completed = True, co_phase = CHILD_COMPLETED,
          co_result = Some r, co_transitions = ts, co_execution_calls = calls,
          co_review_required = (ct_kind c = PROFESSIONAL), co_aggregation_ready = (ct_kind c \<noteq> PROFESSIONAL),
          co_error_code = None, co_next_action = None\<rparr>)) Q (\<lambda>e. wp (budget_stopped env c e) Q E) ?s"
    using s r g' kind t
    by (auto simp: wp_simps mk_outcome_def valid_outcome_def outcome_for_def intro!: finished)
next
  fix e g'
  assume "guard_kept s g'" "guard_stop e" "cr_guard s \<noteq> None"
    "opt_all guard_inv (cr_guard s) \<longrightarrow> e \<noteq> BudgetValidationError \<and> CHILD_COMPLETED \<noteq> CHILD_COMPLETED \<and> CHILD_COMPLETED \<noteq> CHILD_FAILED"
  then show "wp (budget_stopped env c (GuardError e)) Q E (s\<lparr>cr_guard := g'\<rparr>)"
    using s sound by (intro budget_stopped_rule [where sound = sound]) (auto intro!: stopped E)
qed (simp add: text_len_def)


lemma child_check_rule:
  assumes s: "counted s" "cr_phase s = CHILD_VERIFY" "cr_execution_calls s = 1"
    and sound: "sound \<longrightarrow> opt_all guard_inv (cr_guard s)"
    and Q: "\<And>o' s'. outcome_for c o' \<Longrightarrow> co_execution_calls o' = 1 \<Longrightarrow> guard_kept s (cr_guard s') \<Longrightarrow>
      co_completed o' \<longrightarrow> (\<exists>r. payload = Some r \<and> acceptable c r \<and> co_result o' = Some r) \<Longrightarrow>
      cr_guard s = None \<longrightarrow> co_completed o' = accepts c (Payload payload) \<Longrightarrow> Q o' s'"
    and E: "\<And>s'. \<not> sound \<Longrightarrow> E (GuardError BudgetValidationError) s'"
  shows "wp (child_check env c payload) Q (\<lambda>e. wp (budget_stopped env c e) Q E) s"
proof -
  have fails: "wp (reject_result env c event code) Q (\<lambda>e. wp (budget_stopped env c e) Q E) s"
    if "text_len 1 128 event" "text_len 0 128 code" "\<not> accepts c (Payload payload)" for event code
    unfolding reject_result_def
    using that s sound
    by (intro child_fail_rule [where sound = sound])
      (auto intro!: Q E simp: default_next_action_def text_len_def)
  have accepted: "wp (child_complete env c r) Q (\<lambda>e. wp (budget_stopped env c e) Q E) s"
    if "payload = Some r" "acceptable c r" for r
    using that by (intro child_complete_rule [OF s _ sound]) (auto simp: acceptable_def accepts_def intro!: Q E)
  show ?thesis
    unfolding child_check_def using accepted
    by (auto split: option.split intro!: fails simp: text_len_def accepts_def acceptable_def list_all_iff list_ex_iff)
qed

lemma child_finish_rule:
  assumes s: "counted s" "cr_phase s = CHILD_ACT" "cr_execution_calls s = 1"
    and sound: "sound \<longrightarrow> opt_all guard_inv (cr_guard s)"
    and Q: "\<And>o' s'. outcome_for c o' \<Longrightarrow> co_execution_calls o' = 1 \<Longrightarrow> guard_kept s (cr_guard s') \<Longrightarrow>
      co_completed o' \<longrightarrow> (\<exists>r. reply = Payload (Some r) \<and> acceptable c r \<and> co_result o' = Some r) \<Longrightarrow>
      cr_guard s = None \<longrightarrow> co_completed o' = accepts c reply \<Longrightarrow> Q o' s'"
    and E: "\<And>s'. \<not> sound \<Longrightarrow> E (GuardError BudgetValidationError) s'"
    and long: "\<And>s'. \<not> reply_bounded reply \<Longrightarrow> E OutcomeInvalid s'"
  shows "wp (child_finish env c reply) Q E s"
proof (cases reply)
  case (Payload payload)
  have "wp (child_verify env c payload) Q (\<lambda>e. wp (budget_stopped env c e) Q E) s"
    unfolding child_verify_def wp_thenP
  proof (rule child_move_rule)
    fix g'
    assume g': "guard_kept s g'"
    let ?s = "moved s g' CHILD_ACT CHILD_VERIFY ''result_verification_started''"
    have "counted ?s"
      using s by (intro counted_moved) (simp_all add: text_len_def)
    then show "wp (child_check env c payload) Q (\<lambda>e. wp (budget_stopped env c e) Q E) ?s"
      using s sound g' Payload by (intro child_check_rule [where sound = sound]) (auto intro!: Q E)
  next
    fix e g'
    assume "guard_kept s g'" "guard_stop e" "cr_guard s \<noteq> None"
      "opt_all guard_inv (cr_guard s) \<longrightarrow> e \<noteq> BudgetValidationError \<and> CHILD_VERIFY \<noteq> CHILD_COMPLETED \<and> CHILD_VERIFY \<noteq> CHILD_FAILED"
    then show "wp (budget_stopped env c (GuardError e)) Q E (s\<lparr>cr_guard := g'\<rparr>)"
      using s sound by (intro budget_stopped_rule [where sound = sound]) (auto intro!: Q E)
  qed (simp add: text_len_def)
  with Payload show ?thesis
    by (simp add: child_finish_def wp_catchP)
qed (use s sound in \<open>auto simp: child_finish_def wp_catchP accepts_def reply_bounded_def text_len_def default_next_action_def
    intro!: child_fail_rule [where sound = sound] Q E long\<close>)

end
