(* ===== verification/ChildProperties.thy ===== *)
theory ChildProperties
  imports ChildRunRules
begin

section \<open>Properties of child contexts and child runs\<close>

text \<open>
  What \<^verbatim>\<open>ChildContextFactory.prepare\<close> hands to a child (nothing the parent does not have, in the
  parent's scope, with a manifest that verifies), and what \<^verbatim>\<open>ChildSubgraph.run\<close> returns.
\<close>

subsection \<open>Child contexts\<close>

text \<open>What a child context may hold, given its parent task, definition and input.\<close>

definition minimal_for :: "(json \<Rightarrow> context_bundle option) \<Rightarrow> task_context \<Rightarrow> agent_definition \<Rightarrow> child_input \<Rightarrow>
    string list \<Rightarrow> child_context \<Rightarrow> bool" where
  "minimal_for read_bundle task d inp deps c = (
     valid_child_context c \<and> ct_context_manifest_sha256 c = child_context_manifest_sha256 c \<and>
     ct_parent_task_id c = tk_task_id task \<and> ct_scope c = tk_scope task \<and> ct_budget c = tk_budget task \<and>
     ct_assignment_id c = ci_assignment_id inp \<and> ct_kind c = ad_kind d \<and> ct_agent_type c = ad_agent_type d \<and>
     ct_dependency_assignment_ids c = deps \<and> ct_side_effect_class c = ci_side_effect_class inp \<and>
     set (ct_allowed_tools c) = set (ci_requested_tools inp) \<inter> set (tk_allowed_tools task) \<inter> set (ad_allowed_tools d) \<and>
     (\<exists>b. context_bundle_of read_bundle task = Inr b \<and> set (ct_context_entries c) \<subseteq> set (cb_entries b)) \<and>
     map se_content_sha256 (ct_context_entries c) = ci_context_entry_sha256s inp \<and>
     set (ct_artifacts c) \<subseteq> set (tk_artifacts task) \<and> list_all (in_project (tk_scope task)) (ct_artifacts c) \<and>
     map af_artifact_id (ct_artifacts c) = ci_artifact_ids inp)"

lemma chosen_entries:
  assumes "set is \<subseteq> k ` set xs"
  shows "set (map (\<lambda>i. the (map_of (dict_by k xs) i)) is) \<subseteq> set xs"
    and "map k (map (\<lambda>i. the (map_of (dict_by k xs) i)) is) = is"
proof -
  have "the (map_of (dict_by k xs) i) \<in> set xs \<and> k (the (map_of (dict_by k xs) i)) = i" if "i \<in> set is" for i
    using that assms by (intro map_of_dict_by_the) auto
  then show "set (map (\<lambda>i. the (map_of (dict_by k xs) i)) is) \<subseteq> set xs"
    and "map k (map (\<lambda>i. the (map_of (dict_by k xs) i)) is) = is"
    by (auto simp: comp_def intro: map_idI)
qed

lemma select_context_entriesD:
  assumes "select_context_entries read_bundle task shas = Inr es"
  shows "\<exists>b. context_bundle_of read_bundle task = Inr b \<and> set es \<subseteq> set (cb_entries b)"
    and "map se_content_sha256 es = shas"
proof -
  obtain b where b: "context_bundle_of read_bundle task = Inr b"
    using assms by (auto simp: select_context_entries_def split: sum.splits)
  let ?d = "dict_by se_content_sha256 (cb_entries b)"
  have es: "es = map (\<lambda>h. the (map_of ?d h)) shas" "set shas \<subseteq> se_content_sha256 ` set (cb_entries b)"
    using assms b by (auto simp: select_context_entries_def Let_def split: if_splits)
  then show "\<exists>b. context_bundle_of read_bundle task = Inr b \<and> set es \<subseteq> set (cb_entries b)"
    and "map se_content_sha256 es = shas"
    using b chosen_entries [OF es(2)] by auto
qed

lemma select_artifactsD:
  assumes "select_artifacts task ids = Inr as"
  shows "set as \<subseteq> set (tk_artifacts task)" "list_all (in_project (tk_scope task)) as" "map af_artifact_id as = ids"
proof -
  have as: "as = map (\<lambda>i. the (map_of (dict_by af_artifact_id (tk_artifacts task)) i)) ids"
    "set ids \<subseteq> af_artifact_id ` set (tk_artifacts task)" "list_all (in_project (tk_scope task)) as"
    using assms
    by (auto simp: select_artifacts_def Let_def in_project_def list_all_iff list_ex_iff split: if_splits)
  then show "set as \<subseteq> set (tk_artifacts task)" "list_all (in_project (tk_scope task)) as" "map af_artifact_id as = ids"
    using chosen_entries [OF as(2)] by auto
qed

lemma manifest_ignores_itself [simp]:
  "child_context_manifest_sha256 (c\<lparr>ct_context_manifest_sha256 := h\<rparr>) = child_context_manifest_sha256 c"
  by (simp add: child_context_manifest_sha256_def child_context_payload_def)

lemma valid_child_context_manifest [simp]:
  "valid_child_context c \<Longrightarrow> is_sha256 h \<Longrightarrow> valid_child_context (c\<lparr>ct_context_manifest_sha256 := h\<rparr>)"
  by (simp add: valid_child_context_def)

lemma manifest_pattern [simp]: "is_sha256 (child_context_manifest_sha256 c)"
  by (simp add: child_context_manifest_sha256_def)

lemma build_childD:
  assumes "build_child read_bundle run_id task d inp deps = Inr c"
  shows "minimal_for read_bundle task d inp deps c" "ct_run_id c = run_id"
proof -
  obtain es as where sel: "select_context_entries read_bundle task (ci_context_entry_sha256s inp) = Inr es"
      "select_artifacts task (ci_artifact_ids inp) = Inr as"
    using assms by (auto simp: build_child_def split: sum.splits)
  let ?p = "child_placeholder run_id task d inp deps es as"
  have c: "c = ?p\<lparr>ct_context_manifest_sha256 := child_context_manifest_sha256 ?p\<rparr>" "valid_child_context ?p"
    using assms sel by (auto simp: build_child_def Let_def split: if_splits)
  have "valid_child_context c" "ct_context_manifest_sha256 c = child_context_manifest_sha256 c"
    using c by simp_all
  then show "minimal_for read_bundle task d inp deps c" "ct_run_id c = run_id"
    using select_context_entriesD [OF sel(1)] select_artifactsD [OF sel(2)]
    by (auto simp: minimal_for_def c(1) child_placeholder_def common_tools_def)
qed

lemma require_agentD:
  "require_agent registry t k = Inr d \<Longrightarrow> map_of registry t = Some d \<and> ad_kind d = k"
  by (auto simp: require_agent_def split: option.splits if_splits)

text \<open>The child of one assignment: its registered professional definition, its own input, its dependencies.\<close>

definition child_of_assignment :: "(json \<Rightarrow> context_bundle option) \<Rightarrow> agent_registry \<Rightarrow> task_context \<Rightarrow>
    child_input list \<Rightarrow> professional_assignment \<Rightarrow> child_context \<Rightarrow> bool" where
  "child_of_assignment read_bundle registry task inputs a c = (\<exists>d inp.
     map_of registry (pa_agent_type a) = Some d \<and> ad_kind d = PROFESSIONAL \<and>
     inp \<in> set inputs \<and> ci_assignment_id inp = pa_assignment_id a \<and>
     minimal_for read_bundle task d inp (pa_depends_on a) c)"

lemma prepare_eachD:
  assumes "prepare_each read_bundle draw registry task (dict_by ci_assignment_id inputs) n as = Inr cs"
  shows "list_all2 (child_of_assignment read_bundle registry task inputs) as cs \<and>
    map ct_run_id cs = map draw [n ..< n + length cs]"
  using assms
proof (induction as arbitrary: n cs)
  case (Cons a as)
  obtain d inp c cs' where s: "require_agent registry (pa_agent_type a) PROFESSIONAL = Inr d"
      "map_of (dict_by ci_assignment_id inputs) (pa_assignment_id a) = Some inp"
      "build_child read_bundle (draw n) task d inp (pa_depends_on a) = Inr c"
      "prepare_each read_bundle draw registry task (dict_by ci_assignment_id inputs) (Suc n) as = Inr cs'" "cs = c # cs'"
    using Cons.prems by (auto split: sum.splits option.splits)
  have "child_of_assignment read_bundle registry task inputs a c"
    using build_childD [OF s(3)] require_agentD [OF s(1)] map_of_dict_by_SomeD [OF s(2)]
    unfolding child_of_assignment_def by blast
  moreover have "n + length cs = Suc n + length cs'"
    using s(5) by simp
  ultimately show ?case
    using Cons.IH [OF s(4)] build_childD(2) [OF s(3)] s(5) by (simp add: upt_conv_Cons del: upt_Suc)
qed simp

lemma prepare_childrenD:
  assumes "prepare_children read_bundle draw registry task dispatch inputs = Inr cs"
  shows "dp_task_id dispatch = tk_task_id task \<and> map ct_run_id cs = map draw [0 ..< length cs] \<and>
    (if dp_general_agent dispatch
     then \<exists>d b c. cs = [c] \<and> map_of registry ''general'' = Some d \<and> ad_kind d = GENERAL \<and>
       context_bundle_of read_bundle task = Inr b \<and> minimal_for read_bundle task d (general_input task b) [] c
     else dp_review_required dispatch \<and>
       list_all2 (child_of_assignment read_bundle registry task inputs) (dp_professional_assignments dispatch) cs)"
proof (cases "dp_general_agent dispatch")
  case True
  with assms have id: "dp_task_id dispatch = tk_task_id task"
    and "prepare_general read_bundle draw registry task = Inr cs"
    by (auto simp: prepare_children_def split: if_splits)
  then obtain d b c where s: "require_agent registry ''general'' GENERAL = Inr d"
      "context_bundle_of read_bundle task = Inr b"
      "build_child read_bundle (draw 0) task d (general_input task b) [] = Inr c" "cs = [c]"
    by (auto simp: prepare_general_def split: sum.splits if_splits)
  then show ?thesis
    using True id build_childD [OF s(3)] require_agentD [OF s(1)] by simp
next
  case False
  with assms have "dp_task_id dispatch = tk_task_id task" "dp_review_required dispatch"
    "prepare_each read_bundle draw registry task (dict_by ci_assignment_id inputs) 0
      (dp_professional_assignments dispatch) = Inr cs"
    by (auto simp: prepare_children_def Let_def split: if_splits)
  then show ?thesis
    using False prepare_eachD [of read_bundle draw registry task inputs 0] by auto
qed

text \<open>
  (C17) A child gets no more than its parent has: every context that \<^verbatim>\<open>prepare\<close> returns belongs to the
  dispatched task and carries the parent's whole scope and budget; its tools are exactly the requested
  ones that both the task and the registered definition allow, its context entries come from the
  parent's verified bundle and its artifacts from the parent's artifacts in the same tenant and
  project; its manifest is the digest of the rest of it. A general dispatch gives the one general
  child; a professional one gives one child per assignment, in order, with that assignment's input
  and dependencies and its own run identifier.
\<close>

theorem child_contexts_minimal:
  assumes "prepare_children read_bundle draw registry task dispatch inputs = Inr cs"
  shows "dp_task_id dispatch = tk_task_id task \<and> map ct_run_id cs = map draw [0 ..< length cs] \<and>
    (if dp_general_agent dispatch
     then \<exists>d b c. cs = [c] \<and> map_of registry ''general'' = Some d \<and> ad_kind d = GENERAL \<and>
       context_bundle_of read_bundle task = Inr b \<and> minimal_for read_bundle task d (general_input task b) [] c
     else dp_review_required dispatch \<and>
       list_all2 (child_of_assignment read_bundle registry task inputs) (dp_professional_assignments dispatch) cs)"
  by (rule prepare_childrenD [OF assms])

subsection \<open>A sample task\<close>

definition child_scope :: tenant_scope where
  "child_scope = \<lparr>ts_tenant_id = 1, ts_project_id = 2, ts_user_id = 3, ts_role_codes = [''engineer''],
     ts_permission_version = ''p1''\<rparr>"

definition child_policy :: budget_policy where
  "child_policy = (let l = \<lparr>lim_default = 2, lim_active = 2, lim_hard = 4\<rparr> in
     \<lparr>bp_policy_id = ''b'', bp_task_class = P3, bp_graph_steps = l, bp_llm_calls = l, bp_tool_calls = l,
      bp_total_tokens = l, bp_wall_time_ms = l, bp_professional_concurrency = l, bp_review_rounds = l,
      bp_correction_rounds = l\<rparr>)"

definition child_task :: task_context where
  "child_task = \<lparr>tk_task_id = 7, tk_scope = child_scope, tk_task_class = P3, tk_goal = ''inspect'',
     tk_success_criteria = [''done''], tk_risk_level = RISK_LOW, tk_dependency_data = [],
     tk_context_manifest_sha256 = replicate 64 (CHR ''0''), tk_artifacts = [], tk_skill_versions = [],
     tk_prompt_versions = [], tk_model_versions = [], tk_knowledge_versions = [],
     tk_allowed_tools = [''read'', ''plot''], tk_budget = child_policy, tk_output_schema_id = ''s'',
     tk_review_checklist = [], tk_created_at = utc 0\<rparr>"

definition sample_registry :: agent_registry where
  "sample_registry = [(''ut'', \<lparr>ad_agent_type = ''ut'', ad_kind = PROFESSIONAL, ad_agent_configuration_sha256 = None,
     ad_allowed_tools = [''read''], ad_skill_version = ''1'', ad_prompt_version = ''1'', ad_model_version = ''1''\<rparr>)]"

definition sample_input :: "string \<Rightarrow> child_input" where
  "sample_input n = \<lparr>ci_assignment_id = n, ci_goal = ''scan'', ci_success_criteria = [''done''],
     ci_context_entry_sha256s = [], ci_artifact_ids = [], ci_requested_tools = [''read'', ''plot''],
     ci_side_effect_class = READ_ONLY\<rparr>"

definition sample_dispatch :: dispatch_plan where
  "sample_dispatch = \<lparr>dp_task_id = 7, dp_route = MULTIPLE_DEPENDENT_ASYNC_REVIEW, dp_general_agent = False,
     dp_professional_assignments =
       [\<lparr>pa_assignment_id = ''a'', pa_agent_type = ''ut'', pa_depends_on = []\<rparr>,
        \<lparr>pa_assignment_id = ''b'', pa_agent_type = ''ut'', pa_depends_on = [''a'']\<rparr>],
     dp_asynchronous = True, dp_review_required = True, dp_human_required = False\<rparr>"

definition sample_child :: "string \<Rightarrow> uuid \<Rightarrow> string list \<Rightarrow> child_context" where
  "sample_child n run_id deps = (let p = child_placeholder run_id child_task (snd (hd sample_registry)) (sample_input n)
       deps [] [] in p\<lparr>ct_context_manifest_sha256 := child_context_manifest_sha256 p\<rparr>)"

lemma zero_digest_pattern: "is_sha256 (replicate 64 (CHR ''0''))"
  by (simp add: is_sha256_def list_all_iff is_hex_char_def)

lemma length_str_uuid: "length (str_uuid u) = 36"
  by (simp add: str_uuid_def Let_def)

lemma length_common_tools: "length (common_tools a b c) \<le> length a"
  using length_remdups_leq [of "filter (\<lambda>t. t \<in> set b \<and> t \<in> set c) a"] length_filter_le [of _ a]
  by (auto simp: common_tools_def intro: order_trans)

lemma sample_placeholder_valid:
  assumes "n \<in> {''a'', ''b''}" "deps \<in> {[], [''a'']}"
  shows "valid_child_context (child_placeholder run_id child_task (snd (hd sample_registry)) (sample_input n) deps [] [])"
proof -
  have "length (common_tools (ci_requested_tools (sample_input n)) b c) \<le> 12" for b c
    by (rule order_trans [OF length_common_tools]) (simp add: sample_input_def)
  moreover have "text_len 1 1024 (''scratch://'' @ str_uuid a @ ''/'' @ str_uuid b @ ''/'' @ str_uuid c @ ''/'' @ str_uuid d)"
    for a b c d
    by (simp add: text_len_def length_str_uuid)
  moreover have "text_len 1 128 n" "length deps \<le> 4"
    using assms by (auto simp: text_len_def)
  moreover have "valid_policy child_policy" "valid_scope child_scope"
    by (simp_all add: child_policy_def child_scope_def valid_policy_def valid_scope_def valid_limit_def text_len_def Let_def)
  ultimately show ?thesis
    by (simp add: child_placeholder_def valid_child_context_def zero_digest_pattern child_task_def sample_registry_def
        sample_input_def, simp add: text_len_def)
qed

lemma sample_prepared:
  "prepare_children (\<lambda>_. None) of_nat sample_registry child_task sample_dispatch [sample_input ''a'', sample_input ''b''] =
     Inr [sample_child ''a'' 0 [], sample_child ''b'' 1 [''a'']]"
proof -
  have b: "build_child (\<lambda>_. None) r child_task (snd (hd sample_registry)) (sample_input n) deps =
      Inr (sample_child n r deps)" if "n \<in> {''a'', ''b''}" "deps \<in> {[], [''a'']}" for n r deps
    using sample_placeholder_valid [OF that]
    by (simp add: build_child_def select_context_entries_def select_artifacts_def context_bundle_of_def raw_bundle_def
        empty_bundle_def child_task_def sample_input_def jget_def sample_child_def Let_def)
  have d: "dict_by ci_assignment_id [sample_input ''a'', sample_input ''b''] =
      [(''a'', sample_input ''a''), (''b'', sample_input ''b'')]"
    by (simp add: dict_by_def sample_input_def)
  have r: "require_agent sample_registry ''ut'' PROFESSIONAL = Inr (snd (hd sample_registry))"
    by (simp add: require_agent_def sample_registry_def)
  have t: "tk_task_id child_task = 7"
    by (simp add: child_task_def)
  show ?thesis
    by (simp add: prepare_children_def sample_dispatch_def t d r b Let_def)
qed

theorem child_contexts_minimal_witness:
  "list_all2 (child_of_assignment (\<lambda>_. None) sample_registry child_task [sample_input ''a'', sample_input ''b''])
     (dp_professional_assignments sample_dispatch) [sample_child ''a'' 0 [], sample_child ''b'' 1 [''a'']]"
  using child_contexts_minimal [OF sample_prepared] by (simp add: sample_dispatch_def)


subsection \<open>Child runs\<close>

lemma wp_call_executor [wp_simps]:
  "wp (call_executor ex c) Q E s = Q (fst (ex c (cr_guard s))) (s\<lparr>cr_guard := snd (ex c (cr_guard s))\<rparr>)"
  by (simp add: wp_def call_executor_def Let_def split: prod.split)

text \<open>What every run establishes; \<open>sound\<close> holds when the guard is sound and the executor keeps it so.\<close>

lemma run_child_rule:
  assumes sound: "sound \<longrightarrow> opt_all guard_inv g \<and>
      (\<forall>g0. opt_all guard_inv g0 \<longrightarrow> reply_bounded (fst (ex c g0)) \<and> opt_all guard_inv (snd (ex c g0)))"
    and none: "g = None \<longrightarrow> snd (ex c None) = None"
  shows "wp (run_child_prog env ex c)
    (\<lambda>o' s'. outcome_for c o' \<and> (sound \<longrightarrow> opt_all guard_inv (cr_guard s')) \<and>
      (co_completed o' \<longrightarrow> (\<exists>g0 r. fst (ex c g0) = Payload (Some r) \<and> acceptable c r \<and> co_result o' = Some r)) \<and>
      (g = None \<longrightarrow> co_completed o' = accepts c (fst (ex c None))))
    (\<lambda>e s'. \<not> sound) (fresh_run g)"
  (is "wp _ ?Q ?E _")
  unfolding run_child_prog_def wp_bindP
proof (rule child_begin_rule)
  fix s'
  assume s': "counted s'" "cr_phase s' = CHILD_ACT" "cr_execution_calls s' = 1" "guard_kept (fresh_run g) (cr_guard s')"
  have snd: "sound \<longrightarrow> opt_all guard_inv (snd (ex c (cr_guard s'))) \<and> reply_bounded (fst (ex c (cr_guard s')))"
    using sound s'(4) by (simp add: fresh_run_def)
  have nn: "g = None \<longrightarrow> cr_guard s' = None"
    using s'(4) by (simp add: fresh_run_def)
  have "wp (child_finish env c (fst (ex c (cr_guard s')))) ?Q ?E (s'\<lparr>cr_guard := snd (ex c (cr_guard s'))\<rparr>)"
    using s' snd nn none by (intro child_finish_rule [where sound = sound]) auto
  then show "wp (case None of Some o' \<Rightarrow> ret o' | None \<Rightarrow> bindP (call_executor ex c) (child_finish env c)) ?Q ?E s'"
    by (simp add: wp_simps)
next
  fix o' and s' :: child_run
  assume o': "outcome_for c o'" "\<not> co_completed o'" "g \<noteq> None" "guard_kept (fresh_run g) (cr_guard s')"
  then show "wp (case Some o' of Some o' \<Rightarrow> ret o' | None \<Rightarrow> bindP (call_executor ex c) (child_finish env c)) ?Q ?E s'"
    using sound by (auto simp: wp_simps fresh_run_def)
qed (use sound in auto)

lemma child_begin_stopped:
  assumes "run_child env g ex c = (Inr o', g')" "co_execution_calls o' = 0"
  shows "\<exists>s'. child_begin env c (fresh_run g) = (Inr (Some o'), s') \<and> g' = cr_guard s'"
proof -
  let ?P = "\<lambda>r s'. r = None \<longrightarrow> counted s' \<and> cr_phase s' = CHILD_ACT \<and> cr_execution_calls s' = 1"
  have first: "wp (child_begin env c) ?P (\<lambda>_ _. True) (fresh_run g)"
    by (rule child_begin_rule) simp_all
  have finish: "wp (child_finish env c reply) (\<lambda>o' _. co_execution_calls o' = 1) (\<lambda>_ _. True) s"
    if "counted s" "cr_phase s = CHILD_ACT" "cr_execution_calls s = 1" for s reply
    using that by (intro child_finish_rule [where sound = False]) auto
  obtain s' where run: "run_child_prog env ex c (fresh_run g) = (Inr o', s')" "g' = cr_guard s'"
    using assms(1) by (auto simp: run_child_def Let_def split: prod.splits)
  then obtain r s1 where r: "child_begin env c (fresh_run g) = (Inr r, s1)"
    by (auto simp: run_child_prog_def bindP_def split: prod.splits sum.splits)
  show ?thesis
  proof (cases r)
    case None
    let ?s = "s1\<lparr>cr_guard := snd (ex c (cr_guard s1))\<rparr>"
    have "child_finish env c (fst (ex c (cr_guard s1))) ?s = (Inr o', s')"
      using run r None by (auto simp: run_child_prog_def bindP_def call_executor_def Let_def split: prod.splits)
    moreover have "counted ?s" "cr_phase ?s = CHILD_ACT" "cr_execution_calls ?s = 1"
      using wp_outcomeD_Inr [OF first r] None by simp_all
    ultimately have "co_execution_calls o' = 1"
      using wp_outcomeD_Inr [OF finish] by blast
    with assms(2) show ?thesis
      by simp
  next
    case (Some o2)
    with run r show ?thesis
      by (simp add: run_child_prog_def bindP_def)
  qed
qed

text \<open>
  (C18) Whatever the executor does, an outcome of \<^verbatim>\<open>ChildSubgraph.run\<close> is a valid model bound to its context, whose
  transitions are a path of the phase machine; a professional outcome always requires review and is never ready
  for aggregation. It is completed only with a result the executor really returned, valid, for this task and
  run, with every artifact in the child's tenant and project. An outcome that reports no
  execution does not depend on the executor at all.
\<close>

theorem child_run_verified:
  assumes "run_child env g ex c = (Inr o', g')" and "g = None \<longrightarrow> snd (ex c None) = None"
  shows "outcome_for c o' \<and>
    (co_completed o' \<longrightarrow> (\<exists>g0 r. fst (ex c g0) = Payload (Some r) \<and> acceptable c r \<and> co_result o' = Some r)) \<and>
    (co_execution_calls o' = 0 \<longrightarrow> (\<forall>ex'. run_child env g ex' c = (Inr o', g')))"
proof -
  obtain s' where "run_child_prog env ex c (fresh_run g) = (Inr o', s')"
    using assms(1) by (auto simp: run_child_def Let_def split: prod.splits)
  from wp_outcomeD_Inr [OF run_child_rule [where sound = False] this] assms(2)
  have "outcome_for c o' \<and>
    (co_completed o' \<longrightarrow> (\<exists>g0 r. fst (ex c g0) = Payload (Some r) \<and> acceptable c r \<and> co_result o' = Some r))"
    by blast
  moreover have "run_child env g ex' c = (Inr o', g')" if "co_execution_calls o' = 0" for ex'
    using child_begin_stopped [OF assms(1) that]
    by (auto simp: run_child_def run_child_prog_def bindP_def Let_def)
  ultimately show ?thesis
    by blast
qed


text \<open>A sample executor that answers with a successful result for the context it is given.\<close>

definition sample_result :: "child_context \<Rightarrow> agent_result" where
  "sample_result c = \<lparr>ag_task_id = ct_parent_task_id c, ag_run_id = ct_run_id c, ag_status = AGENT_SUCCESS,
     ag_summary = ''ok'', ag_structured_data = [], ag_artifacts = [], ag_evidence = [], ag_confidence = 1,
     ag_issues = [], ag_retryable = False, ag_failure_code = None, ag_completed_at = utc 0\<rparr>"

definition sample_executor :: executor where
  "sample_executor c g = (Payload (Some (sample_result c)), g)"

definition idle_env :: budget_env where
  "idle_env = \<lparr>env_clock = (\<lambda>_. 0), env_uuid4 = of_nat\<rparr>"

lemma sample_accepts: "accepts c (fst (sample_executor c g))"
  by (simp add: accepts_def sample_executor_def sample_result_def acceptable_def valid_agent_result_def text_len_def
      no_text_def)

text \<open>
  A child run always returns an outcome, never an exception, when the guard is absent or in a state that satisfies
  its invariant (as every reachable guard does), the executor keeps it there and the error texts it raises fit
  their fields. Without a guard the run completes exactly when the executor's answer is acceptable.
\<close>

theorem child_run_total:
  assumes "opt_all guard_inv g"
    and "\<And>g0. opt_all guard_inv g0 \<Longrightarrow> reply_bounded (fst (ex c g0)) \<and> opt_all guard_inv (snd (ex c g0))"
    and "snd (ex c None) = None"
  shows "\<exists>o' g'. run_child env g ex c = (Inr o', g') \<and> outcome_for c o' \<and> opt_all guard_inv g' \<and>
    (g = None \<longrightarrow> co_completed o' = accepts c (fst (ex c None)))"
proof -
  have "wp (run_child_prog env ex c)
      (\<lambda>o' s'. outcome_for c o' \<and> opt_all guard_inv (cr_guard s') \<and>
        (g = None \<longrightarrow> co_completed o' = accepts c (fst (ex c None))))
      (\<lambda>_ _. False) (fresh_run g)"
    by (rule wp_mono [OF run_child_rule [where sound = True]]) (use assms in auto)
  then show ?thesis
    by (auto simp: wp_def run_child_def split: prod.splits sum.splits)
qed

theorem child_run_total_witness:
  "\<exists>o' g'. run_child idle_env None sample_executor (sample_child ''a'' 0 []) = (Inr o', g') \<and> co_completed o'"
  using child_run_total [of None sample_executor "sample_child ''a'' 0 []" idle_env] sample_accepts
  by (auto simp: sample_executor_def reply_bounded_def)

theorem child_run_verified_witness:
  "\<exists>o' g'. run_child idle_env None sample_executor (sample_child ''a'' 0 []) = (Inr o', g') \<and>
     co_review_required o' \<and> \<not> co_aggregation_ready o' \<and> co_result o' = Some (sample_result (sample_child ''a'' 0 []))"
proof -
  obtain o' g' where run: "run_child idle_env None sample_executor (sample_child ''a'' 0 []) = (Inr o', g')" "co_completed o'"
    using run_child_rule [of True None sample_executor "sample_child ''a'' 0 []" idle_env] sample_accepts
    by (auto simp: sample_executor_def reply_bounded_def wp_def run_child_def split: prod.splits sum.splits)
  have "ct_kind (sample_child ''a'' 0 []) = PROFESSIONAL"
    by (simp add: sample_child_def child_placeholder_def sample_registry_def Let_def)
  then show ?thesis
    using child_run_verified [OF run(1)] run by (auto simp: sample_executor_def outcome_for_def)
qed

end
