(* ===== verification/Scheduler.thy ===== *)
theory Scheduler
  imports ChildProperties
begin

section \<open>The child task scheduler\<close>

text \<open>
  \<^verbatim>\<open>orchestration/scheduler.py\<close>. \<^verbatim>\<open>_execute\<close> runs the assignments wave by wave; the read-only children of a
  wave run concurrently in batches under \<^verbatim>\<open>asyncio.gather\<close>, the mutating ones alone. A child suspends at
  its executor, so a batch is a machine: the event \<open>Starts\<close> runs the next launch of the batch up to its
  suspension, \<open>Answers i reply\<close> resumes a suspended one with its executor's answer, and \<open>Works call\<close> is a
  call that a running executor makes on the shared budget guard (\<^verbatim>\<open>professional_slot\<close> is used by the scheduler only).
  The event loop's choices are the argument \<open>scripts\<close>, one event list per batch, and \<open>None\<close> is the result of a
  script that is not a complete run. The scripts include every order \<^verbatim>\<open>asyncio\<close> can choose. A launch that raises
  ends its batch, as \<^verbatim>\<open>gather\<close> passes on the first exception; what the other launches of that batch still do
  afterwards is outside the schedule and not modelled.
  A schedule that is being executed is neither queued nor terminal, so \<^verbatim>\<open>advance\<close> is the two steps
  \<open>advance_begin\<close> and \<open>advance_end\<close>, between which other calls may run.
\<close>

subsection \<open>Contracts\<close>

datatype schedule_mode = MODE_SYNC | MODE_ASYNC

datatype schedule_status = SCHED_QUEUED | SCHED_RUNNING | SCHED_COMPLETED | SCHED_PARTIAL | SCHED_FAILED
  | SCHED_CANCELLED

datatype assignment_status = ASSIGN_COMPLETED | ASSIGN_FAILED | ASSIGN_BLOCKED | ASSIGN_CANCELLED

record schedule_handle =
  sh_schedule_id :: uuid
  sh_parent_task_id :: uuid
  sh_scope :: tenant_scope
  sh_assignment_ids :: "string list"

definition valid_handle :: "schedule_handle \<Rightarrow> bool" where
  "valid_handle h = (valid_scope (sh_scope h) \<and> 1 \<le> length (sh_assignment_ids h) \<and> length (sh_assignment_ids h) \<le> 4)"

record scheduled_assignment =
  sa_assignment_id :: string
  sa_run_id :: uuid
  sa_wave :: int
  sa_status :: assignment_status
  sa_execution_calls :: int
  sa_outcome :: "child_outcome option"
  sa_error_code :: "string option"
  sa_next_action :: "string option"

definition valid_scheduled :: "scheduled_assignment \<Rightarrow> bool" where
  "valid_scheduled a = (text_len 1 128 (sa_assignment_id a) \<and> 1 \<le> sa_wave a \<and> sa_execution_calls a \<in> {0, 1} \<and>
     opt_all valid_outcome (sa_outcome a) \<and> opt_all (text_len 0 128) (sa_error_code a) \<and>
     opt_all (text_len 0 1000) (sa_next_action a) \<and>
     \<not> (sa_execution_calls a = 1 \<and> sa_outcome a = None) \<and>
     (if sa_status a = ASSIGN_COMPLETED
      then sa_outcome a \<noteq> None \<and> sa_error_code a = None \<and> sa_next_action a = None
      else sa_error_code a \<noteq> None \<and> sa_next_action a \<noteq> None))"

record schedule_result =
  sr_schedule_id :: uuid
  sr_parent_task_id :: uuid
  sr_scope :: tenant_scope
  sr_mode :: schedule_mode
  sr_status :: schedule_status
  sr_assignments :: "scheduled_assignment list"
  sr_waves_completed :: int
  sr_max_concurrency_observed :: int

definition valid_schedule_result :: "schedule_result \<Rightarrow> bool" where
  "valid_schedule_result r = (let statuses = set (map sa_status (sr_assignments r)) in
     valid_scope (sr_scope r) \<and>
     1 \<le> length (sr_assignments r) \<and> length (sr_assignments r) \<le> 4 \<and> list_all valid_scheduled (sr_assignments r) \<and>
     0 \<le> sr_waves_completed r \<and> sr_waves_completed r \<le> 4 \<and>
     0 \<le> sr_max_concurrency_observed r \<and> sr_max_concurrency_observed r \<le> 4 \<and>
     sr_status r \<notin> {SCHED_QUEUED, SCHED_RUNNING} \<and>
     \<not> (sr_status r = SCHED_COMPLETED \<and> statuses \<noteq> {ASSIGN_COMPLETED}) \<and>
     \<not> (sr_status r = SCHED_CANCELLED \<and> statuses \<noteq> {ASSIGN_CANCELLED}) \<and>
     \<not> (sr_status r = SCHED_PARTIAL \<and> ASSIGN_COMPLETED \<notin> statuses) \<and>
     \<not> (sr_status r = SCHED_FAILED \<and> ASSIGN_COMPLETED \<in> statuses))"

text \<open>\<^verbatim>\<open>SchedulerError\<close>, an exception of a child run, pydantic's \<^verbatim>\<open>ValidationError\<close>, \<^verbatim>\<open>KeyError\<close> of a dict and
  the \<^verbatim>\<open>ValueError\<close> of a range with step zero.\<close>

datatype schedule_error =
    SchedulerError (scheduler_code: string) string string
  | ChildError child_error
  | ScheduleInvalid
  | ScheduleKeyError
  | ScheduleRangeError

subsection \<open>Validation\<close>

definition ready_wave :: "child_context list \<Rightarrow> string list \<Rightarrow> string list \<Rightarrow> child_context list" where
  "ready_wave contexts remaining resolved = filter (\<lambda>c. ct_assignment_id c \<in> set remaining \<and>
     set (ct_dependency_assignment_ids c) \<subseteq> set resolved) contexts"

definition schedule_cycle :: schedule_error where
  "schedule_cycle = SchedulerError ''SCHEDULE_DEPENDENCY_CYCLE''
     ''The assignment graph contains a dependency cycle.''
     ''Remove the cycle and submit an acyclic verified dispatch.''"

function waves_from :: "child_context list \<Rightarrow> string list \<Rightarrow> string list \<Rightarrow> schedule_error + child_context list list" where
  "waves_from contexts remaining resolved =
     (if remaining = [] then Inr []
      else let ready = ready_wave contexts remaining resolved in
        if ready = [] then Inl schedule_cycle
        else case waves_from contexts (filter (\<lambda>i. i \<notin> set (map ct_assignment_id ready)) remaining)
            (resolved @ map ct_assignment_id ready) of
          Inl e \<Rightarrow> Inl e
        | Inr ws \<Rightarrow> Inr (ready # ws))"
  by pat_completeness auto

text \<open>Every round removes the identifiers of at least one ready context.\<close>

lemma ready_wave_decreases:
  assumes "ready_wave contexts remaining resolved \<noteq> []"
  shows "length (filter (\<lambda>i. i \<notin> ct_assignment_id ` set (ready_wave contexts remaining resolved)) remaining) < length remaining"
proof -
  from assms obtain c where "c \<in> set (ready_wave contexts remaining resolved)"
    by (cases "ready_wave contexts remaining resolved") auto
  then show ?thesis
    by (intro length_filter_less [of "ct_assignment_id c"]) (auto simp: ready_wave_def)
qed

termination waves_from
  by (relation "measure (\<lambda>(_, remaining, _). length remaining)") (auto simp: ready_wave_decreases)

declare waves_from.simps [simp del]

definition topological_waves :: "child_context list \<Rightarrow> schedule_error + child_context list list" where
  "topological_waves contexts = waves_from contexts (map fst (dict_by ct_assignment_id contexts)) []"


definition dependency_ok :: "child_context list \<Rightarrow> child_context \<Rightarrow> bool" where
  "dependency_ok contexts c = (ct_assignment_id c \<notin> set (ct_dependency_assignment_ids c) \<and>
     set (ct_dependency_assignment_ids c) \<subseteq> set (map ct_assignment_id contexts))"

text \<open>Two policies have the same \<^verbatim>\<open>model_dump_json()\<close> when their dumps are equal.\<close>

definition validate_kinds :: "int \<Rightarrow> child_context list \<Rightarrow> schedule_error + unit" where
  "validate_kinds hard contexts = (let first = hd contexts in
     if GENERAL \<in> set (map ct_kind contexts) then
       (if length contexts \<noteq> 1 \<or> ct_dependency_assignment_ids first \<noteq> []
        then Inl (SchedulerError ''SCHEDULE_GENERAL_INVALID''
          ''General work must be one dependency-free child schedule.'' ''Schedule the General child alone.'')
        else Inr ())
     else if length (remdups (map (\<lambda>c. dump_policy (ct_budget c)) contexts)) \<noteq> 1
     then Inl (SchedulerError ''SCHEDULE_BUDGET_MISMATCH''
       ''Professional children in one schedule require one budget policy.''
       ''Rebuild all child contexts from the same parent task budget.'')
     else let l = bp_professional_concurrency (ct_budget first) in
       if lim_active l < 1 \<or> lim_active l > hard
       then Inl (SchedulerError ''SCHEDULE_CONCURRENCY_DENIED''
         ''The active professional concurrency is outside scheduler limits.''
         ''Use an approved active limit within the configured hard ceiling.'')
       else if lim_hard l > hard
       then Inl (SchedulerError ''SCHEDULE_HARD_LIMIT_DENIED''
         ''The task hard concurrency exceeds the configured scheduler ceiling.''
         ''Use a policy bounded by the configured non-overridable ceiling.'')
       else Inr ())"

text \<open>\<open>executors\<close> lists the keys of the executor mapping.\<close>

definition validate_schedule :: "int \<Rightarrow> child_context list \<Rightarrow> string list \<Rightarrow> schedule_error + child_context list" where
  "validate_schedule hard contexts executors = (
     if contexts = [] \<or> length contexts > 4
     then Inl (SchedulerError ''SCHEDULE_SIZE_INVALID''
       ''A schedule requires between one and four child assignments.''
       ''Submit the minimum bounded child set for this task.'')
     else if list_ex (\<lambda>c. ct_parent_task_id c \<noteq> ct_parent_task_id (hd contexts) \<or>
          ct_scope c \<noteq> ct_scope (hd contexts)) contexts
     then Inl (SchedulerError ''SCHEDULE_SCOPE_MISMATCH''
       ''Every child must belong to the same parent task and complete identity scope.''
       ''Rebuild the schedule from one verified scoped dispatch.'')
     else if \<not> distinct (map ct_assignment_id contexts)
     then Inl (SchedulerError ''SCHEDULE_ASSIGNMENT_DUPLICATE''
       ''Assignment IDs must be unique within a schedule.'' ''Create one isolated context per assignment.'')
     else if list_ex (\<lambda>c. ct_context_manifest_sha256 c \<noteq> child_context_manifest_sha256 c) contexts
     then Inl (SchedulerError ''SCHEDULE_CONTEXT_INTEGRITY_FAILED''
       ''A child context does not match its immutable manifest.''
       ''Rebuild contexts from the verified dispatch before scheduling.'')
     else if set executors \<noteq> set (map ct_assignment_id contexts)
     then Inl (SchedulerError ''SCHEDULE_EXECUTOR_MISMATCH''
       ''Executors must match the scheduled assignments exactly.''
       ''Bind one authorized executor to every assignment and no others.'')
     else if \<not> list_all (dependency_ok contexts) contexts
     then Inl (SchedulerError ''SCHEDULE_DEPENDENCY_INVALID''
       ''An assignment has a self-reference or unknown dependency.''
       ''Use only other assignment IDs from the same verified dispatch.'')
     else case validate_kinds hard contexts of
         Inl e \<Rightarrow> Inl e
       | Inr _ \<Rightarrow> (case topological_waves contexts of Inl e \<Rightarrow> Inl e | Inr _ \<Rightarrow> Inr contexts))"

subsection \<open>Launching one child\<close>

text \<open>The locals of \<^verbatim>\<open>_execute\<close> that its launches share.\<close>

record exec_state =
  es_guard :: "budget_guard option"
  es_current :: int
  es_max :: int

type_synonym 'a exec_prog = "(exec_state, schedule_error, 'a) prog"

definition exec_guard :: "unit guarded \<Rightarrow> unit exec_prog" where
  "exec_guard m = (\<lambda>s. case es_guard s of None \<Rightarrow> (Inr (), s)
     | Some g \<Rightarrow> (case m g of (Inl e, g') \<Rightarrow> (Inl (ChildError (GuardError e)), s\<lparr>es_guard := Some g'\<rparr>)
                          | (Inr _, g') \<Rightarrow> (Inr (), s\<lparr>es_guard := Some g'\<rparr>)))"

definition exec_child :: "child_run \<Rightarrow> 'a child_prog \<Rightarrow> ('a \<times> child_run) exec_prog" where
  "exec_child run m = (\<lambda>s. case m (run\<lparr>cr_guard := es_guard s\<rparr>) of
     (Inl e, run') \<Rightarrow> (Inl (ChildError e), s\<lparr>es_guard := cr_guard run'\<rparr>)
   | (Inr x, run') \<Rightarrow> (Inr (x, run'), s\<lparr>es_guard := cr_guard run'\<rparr>))"

definition mk_scheduled :: "scheduled_assignment \<Rightarrow> scheduled_assignment exec_prog" where
  "mk_scheduled a = (if valid_scheduled a then ret a else raise ScheduleInvalid)"

definition unlaunched :: "child_context \<Rightarrow> int \<Rightarrow> assignment_status \<Rightarrow> string \<Rightarrow> string \<Rightarrow> scheduled_assignment" where
  "unlaunched c wave status code next_action =
     \<lparr>sa_assignment_id = ct_assignment_id c, sa_run_id = ct_run_id c, sa_wave = wave, sa_status = status,
      sa_execution_calls = 0, sa_outcome = None, sa_error_code = Some code, sa_next_action = Some next_action\<rparr>"

definition executed :: "child_context \<Rightarrow> int \<Rightarrow> assignment_status \<Rightarrow> int \<Rightarrow> child_outcome \<Rightarrow> string option \<Rightarrow>
    string option \<Rightarrow> scheduled_assignment" where
  "executed c wave status calls o' code next_action =
     \<lparr>sa_assignment_id = ct_assignment_id c, sa_run_id = ct_run_id c, sa_wave = wave, sa_status = status,
      sa_execution_calls = calls, sa_outcome = Some o', sa_error_code = code, sa_next_action = next_action\<rparr>"

definition from_outcome :: "child_context \<Rightarrow> int \<Rightarrow> child_outcome \<Rightarrow> scheduled_assignment" where
  "from_outcome c wave o' = (case (co_completed o', co_result o') of
     (True, Some r) \<Rightarrow>
       if ag_status r \<in> {AGENT_SUCCESS, AGENT_PARTIAL_SUCCESS}
       then executed c wave ASSIGN_COMPLETED 1 o' None None
       else executed c wave (if ag_status r = AGENT_FAILED then ASSIGN_FAILED else ASSIGN_BLOCKED) 1 o'
         (Some (case ag_failure_code r of Some (ch # cs) \<Rightarrow> ch # cs | _ \<Rightarrow> ''CHILD_'' @ agent_status_value (ag_status r)))
         (Some ''Inspect the typed child result before rescheduling dependent work.'')
   | _ \<Rightarrow> executed c wave ASSIGN_FAILED (co_execution_calls o') o' (co_error_code o') (co_next_action o'))"

text \<open>A completed outcome has a result (\<open>valid_outcome\<close>), which the method asserts.\<close>

text \<open>A launch ends with an assignment or is suspended at its executor.\<close>

datatype launch = Finished scheduled_assignment | Suspended child_run

definition uses_slot :: "exec_state \<Rightarrow> child_context \<Rightarrow> bool" where
  "uses_slot s c = (es_guard s \<noteq> None \<and> ct_kind c = PROFESSIONAL)"

definition enter_child :: "unit exec_prog" where
  "enter_child = modify (\<lambda>s. s\<lparr>es_current := es_current s + 1, es_max := max (es_max s) (es_current s + 1)\<rparr>)"

text \<open>The two \<^verbatim>\<open>finally\<close> clauses: the counter, then the slot. An error in the second replaces the first.\<close>

definition leave_child :: "budget_env \<Rightarrow> child_context \<Rightarrow> unit exec_prog" where
  "leave_child env c = thenP (modify (\<lambda>s. s\<lparr>es_current := es_current s - 1\<rparr>))
     (bindP (gets (\<lambda>s. uses_slot s c)) (\<lambda>slot. whenP slot (exec_guard (slot_release env))))"

text \<open>\<^verbatim>\<open>except BudgetExceeded\<close>: the assignment is blocked.\<close>

definition blocked_by_budget :: "child_context \<Rightarrow> int \<Rightarrow> schedule_error \<Rightarrow> launch exec_prog" where
  "blocked_by_budget c wave e = (case e of
     ChildError (GuardError (BudgetExceeded code cause impact next_action t)) \<Rightarrow>
       bindP (mk_scheduled (unlaunched c wave ASSIGN_BLOCKED code next_action)) (\<lambda>a. ret (Finished a))
   | _ \<Rightarrow> raise e)"

definition settle_outcome :: "budget_env \<Rightarrow> child_context \<Rightarrow> int \<Rightarrow> child_outcome \<Rightarrow> launch exec_prog" where
  "settle_outcome env c wave o' = thenP (leave_child env c)
     (bindP (mk_scheduled (from_outcome c wave o')) (\<lambda>a. ret (Finished a)))"

definition launch_begin :: "budget_env \<Rightarrow> int \<Rightarrow> child_context \<Rightarrow> launch exec_prog" where
  "launch_begin env wave c = catchP
     (thenP (bindP (gets (\<lambda>s. uses_slot s c)) (\<lambda>slot. whenP slot (exec_guard (slot_acquire env))))
       (thenP enter_child
         (bindP (catchP (exec_child (fresh_run None) (child_begin env c))
             (\<lambda>e. thenP (leave_child env c) (raise e)))
           (\<lambda>(stopped, run). case stopped of
              None \<Rightarrow> ret (Suspended run)
            | Some o' \<Rightarrow> settle_outcome env c wave o'))))
     (blocked_by_budget c wave)"

definition launch_resume :: "budget_env \<Rightarrow> int \<Rightarrow> child_context \<Rightarrow> child_run \<Rightarrow> child_reply \<Rightarrow> launch exec_prog" where
  "launch_resume env wave c run reply = catchP
     (bindP (catchP (exec_child run (child_finish env c reply)) (\<lambda>e. thenP (leave_child env c) (raise e)))
       (\<lambda>(o', run'). settle_outcome env c wave o'))
     (blocked_by_budget c wave)"

subsection \<open>Batches\<close>

datatype event = Starts | Answers nat child_reply | Works guard_call

record batch =
  ba_waiting :: "child_context list"
  ba_running :: "(child_context \<times> child_run) list"
  ba_results :: "(string \<times> scheduled_assignment) list"

definition new_batch :: "child_context list \<Rightarrow> batch" where
  "new_batch cs = \<lparr>ba_waiting = cs, ba_running = [], ba_results = []\<rparr>"

definition batch_done :: "batch \<Rightarrow> bool" where
  "batch_done b = (ba_waiting b = [] \<and> ba_running b = [])"

definition store_result :: "child_context \<Rightarrow> scheduled_assignment \<Rightarrow> batch \<Rightarrow> batch" where
  "store_result c a b = b\<lparr>ba_results := AList.update (ct_assignment_id c) a (ba_results b)\<rparr>"

definition land :: "child_context \<Rightarrow> launch \<Rightarrow> batch \<Rightarrow> batch" where
  "land c l b = (case l of Finished a \<Rightarrow> store_result c a b
     | Suspended run \<Rightarrow> b\<lparr>ba_running := ba_running b @ [(c, run)]\<rparr>)"

definition drop_nth :: "nat \<Rightarrow> 'a list \<Rightarrow> 'a list" where
  "drop_nth i xs = take i xs @ drop (Suc i) xs"

text \<open>\<open>None\<close>: the event is not possible in this state.\<close>

fun batch_step :: "budget_env \<Rightarrow> int \<Rightarrow> event \<Rightarrow> batch \<Rightarrow> exec_state \<Rightarrow> ((schedule_error + batch) \<times> exec_state) option" where
  "batch_step env wave Starts b s = (case ba_waiting b of
     [] \<Rightarrow> None
   | c # cs \<Rightarrow> Some (bindP (launch_begin env wave c) (\<lambda>l. ret (land c l (b\<lparr>ba_waiting := cs\<rparr>))) s))"
| "batch_step env wave (Answers i reply) b s = (
     if i < length (ba_running b) then let (c, run) = ba_running b ! i in
       Some (bindP (launch_resume env wave c run reply)
         (\<lambda>l. ret (land c l (b\<lparr>ba_running := drop_nth i (ba_running b)\<rparr>))) s)
     else None)"
| "batch_step env wave (Works call) b s = (
     if ba_running b = [] \<or> call \<in> {SlotAcquire, SlotRelease} then None
     else Some (Inr b, s\<lparr>es_guard := map_option (final (call_prog env call)) (es_guard s)\<rparr>))"

fun run_batch :: "budget_env \<Rightarrow> int \<Rightarrow> event list \<Rightarrow> batch \<Rightarrow> exec_state \<Rightarrow>
    ((schedule_error + batch) \<times> exec_state) option" where
  "run_batch env wave [] b s = (if batch_done b then Some (Inr b, s) else None)"
| "run_batch env wave (ev # evs) b s = (case batch_step env wave ev b s of
     None \<Rightarrow> None
   | Some (Inl e, s') \<Rightarrow> (if evs = [] then Some (Inl e, s') else None)
   | Some (Inr b', s') \<Rightarrow> run_batch env wave evs b' s')"

subsection \<open>Waves\<close>

type_synonym completed = "(string \<times> scheduled_assignment) list"

definition join_names :: "string list \<Rightarrow> string" where
  "join_names xs = (case xs of [] \<Rightarrow> [] | x # xs' \<Rightarrow> x @ concat (map (\<lambda>y. '', '' @ y) xs'))"

definition failed_dependencies :: "completed \<Rightarrow> child_context \<Rightarrow> string list" where
  "failed_dependencies completed c =
     filter (\<lambda>d. map_option sa_status (map_of completed d) \<noteq> Some ASSIGN_COMPLETED) (ct_dependency_assignment_ids c)"

text \<open>The loop over the contexts of a wave: cancelled and blocked ones are settled, the others can run.\<close>

fun settle_wave :: "string list \<Rightarrow> int \<Rightarrow> child_context list \<Rightarrow> completed \<Rightarrow>
    schedule_error + (completed \<times> child_context list)" where
  "settle_wave cancelled wave [] completed = Inr (completed, [])"
| "settle_wave cancelled wave (c # cs) completed = (
     let settle = (\<lambda>a. if valid_scheduled a
           then settle_wave cancelled wave cs (AList.update (ct_assignment_id c) a completed) else Inl ScheduleInvalid)
     in if ct_assignment_id c \<in> set cancelled then
       settle (unlaunched c wave ASSIGN_CANCELLED ''SCHEDULE_ASSIGNMENT_CANCELLED''
         ''Submit a new schedule if this assignment is still required.'')
     else if list_ex (\<lambda>d. map_of completed d = None) (ct_dependency_assignment_ids c) then Inl ScheduleKeyError
     else let failed = failed_dependencies completed c in
       if failed \<noteq> [] then settle (unlaunched c wave ASSIGN_BLOCKED ''SCHEDULE_PREREQUISITE_FAILED''
         (''Repair or rerun prerequisites: '' @ join_names failed))
       else case settle_wave cancelled wave cs completed of
           Inl e \<Rightarrow> Inl e
         | Inr (completed', runnable) \<Rightarrow> Inr (completed', c # runnable))"

fun slices :: "nat \<Rightarrow> nat \<Rightarrow> 'a list \<Rightarrow> 'a list list" where
  "slices 0 n xs = []"
| "slices (Suc k) n xs = (if xs = [] then [] else take n xs # slices k n (drop n xs))"

definition batches_of :: "nat \<Rightarrow> child_context list \<Rightarrow> child_context list list" where
  "batches_of active runnable =
     (let read_only = filter (\<lambda>c. ct_side_effect_class c = READ_ONLY) runnable in slices (length read_only) active read_only) @
     map (\<lambda>c. [c]) (filter (\<lambda>c. ct_side_effect_class c = MUTATING) runnable)"

definition schedule_limit :: "child_context list \<Rightarrow> int" where
  "schedule_limit contexts = (if ct_kind (hd contexts) = GENERAL then 1
     else lim_active (bp_professional_concurrency (ct_budget (hd contexts))))"

type_synonym script = "event list"

fun run_batches :: "budget_env \<Rightarrow> int \<Rightarrow> child_context list list \<Rightarrow> script list \<Rightarrow> completed \<Rightarrow> exec_state \<Rightarrow>
    ((schedule_error + completed) \<times> exec_state \<times> script list) option" where
  "run_batches env wave [] scripts completed s = Some (Inr completed, s, scripts)"
| "run_batches env wave (b # bs) [] completed s = None"
| "run_batches env wave (b # bs) (evs # scripts) completed s = (case run_batch env wave evs (new_batch b) s of
     None \<Rightarrow> None
   | Some (Inl e, s') \<Rightarrow> Some (Inl e, s', scripts)
   | Some (Inr done', s') \<Rightarrow> run_batches env wave bs scripts
       (foldl (\<lambda>d c. AList.update (ct_assignment_id c) (the (map_of (ba_results done') (ct_assignment_id c))) d) completed b) s')"

fun run_waves :: "budget_env \<Rightarrow> string list \<Rightarrow> int \<Rightarrow> int \<Rightarrow> child_context list list \<Rightarrow> script list \<Rightarrow> completed \<Rightarrow>
    exec_state \<Rightarrow> ((schedule_error + completed) \<times> exec_state \<times> script list) option" where
  "run_waves env cancelled active wave [] scripts completed s = Some (Inr completed, s, scripts)"
| "run_waves env cancelled active wave (w # ws) scripts completed s = (
     case settle_wave cancelled wave w completed of
       Inl e \<Rightarrow> Some (Inl e, s, scripts)
     | Inr (completed', runnable) \<Rightarrow>
         if active = 0 then Some (Inl ScheduleRangeError, s, scripts)
         else case run_batches env wave (batches_of (nat active) runnable) scripts completed' s of
             None \<Rightarrow> None
           | Some (Inl e, s', scripts') \<Rightarrow> Some (Inl e, s', scripts')
           | Some (Inr completed'', s', scripts') \<Rightarrow>
               run_waves env cancelled active (wave + 1) ws scripts' completed'' s')"

definition schedule_status_of :: "scheduled_assignment list \<Rightarrow> schedule_status" where
  "schedule_status_of as = (let statuses = set (map sa_status as) in
     if statuses = {ASSIGN_COMPLETED} then SCHED_COMPLETED
     else if ASSIGN_COMPLETED \<in> statuses then SCHED_PARTIAL else SCHED_FAILED)"

definition collect :: "uuid \<Rightarrow> schedule_mode \<Rightarrow> child_context list \<Rightarrow> nat \<Rightarrow> completed \<Rightarrow> exec_state \<Rightarrow>
    schedule_error + schedule_result" where
  "collect schedule_id mode contexts waves completed s = (
     if list_ex (\<lambda>c. map_of completed (ct_assignment_id c) = None) contexts then Inl ScheduleKeyError
     else let as = map (\<lambda>c. the (map_of completed (ct_assignment_id c))) contexts;
              r = \<lparr>sr_schedule_id = schedule_id, sr_parent_task_id = ct_parent_task_id (hd contexts),
                sr_scope = ct_scope (hd contexts), sr_mode = mode, sr_status = schedule_status_of as,
                sr_assignments = as, sr_waves_completed = int waves, sr_max_concurrency_observed = es_max s\<rparr>
       in if valid_schedule_result r then Inr r else Inl ScheduleInvalid)"

definition execute :: "budget_env \<Rightarrow> budget_guard option \<Rightarrow> script list \<Rightarrow> uuid \<Rightarrow> child_context list \<Rightarrow> schedule_mode \<Rightarrow>
    string list \<Rightarrow> ((schedule_error + schedule_result) \<times> budget_guard option) option" where
  "execute env g scripts schedule_id contexts mode cancelled = (case topological_waves contexts of
     Inl e \<Rightarrow> Some (Inl e, g)
   | Inr ws \<Rightarrow> (case run_waves env cancelled (schedule_limit contexts) 1 ws scripts [] \<lparr>es_guard = g, es_current = 0, es_max = 0\<rparr> of
       None \<Rightarrow> None
     | Some (Inl e, s, scripts') \<Rightarrow> Some (Inl e, es_guard s)
     | Some (Inr completed, s, scripts') \<Rightarrow>
         if scripts' \<noteq> [] then None
         else Some (collect schedule_id mode contexts (length ws) completed s, es_guard s)))"


subsection \<open>The scheduler\<close>

record queued_schedule =
  qs_handle :: schedule_handle
  qs_contexts :: "child_context list"
  qs_executors :: "string list"
  qs_cancelled :: "string list"

record scheduler =
  sd_hard_concurrency :: int
  sd_guard :: "budget_guard option"
  sd_queued :: "(uuid \<times> queued_schedule) list"
  sd_terminal :: "(uuid \<times> schedule_result) list"
  sd_draws :: nat

type_synonym 'a sched_prog = "(scheduler, schedule_error, 'a) prog"

definition new_scheduler :: "int \<Rightarrow> budget_guard option \<Rightarrow> scheduler option" where
  "new_scheduler hard g = (if 1 \<le> hard \<and> hard \<le> 4
     then Some \<lparr>sd_hard_concurrency = hard, sd_guard = g, sd_queued = [], sd_terminal = [], sd_draws = 0\<rparr> else None)"

definition draw_schedule_id :: "(nat \<Rightarrow> uuid) \<Rightarrow> uuid sched_prog" where
  "draw_schedule_id draw = bindP (gets (\<lambda>s. draw (sd_draws s)))
     (\<lambda>u. thenP (modify (\<lambda>s. s\<lparr>sd_draws := Suc (sd_draws s)\<rparr>)) (ret u))"

definition require_binding :: "tenant_scope \<Rightarrow> uuid \<Rightarrow> tenant_scope \<Rightarrow> uuid \<Rightarrow> unit sched_prog" where
  "require_binding stored_scope stored_task scope task = (
     if stored_scope \<noteq> scope \<or> stored_task \<noteq> task
     then raise (SchedulerError ''SCHEDULE_BINDING_DENIED''
       ''The schedule is not bound to the requested task and identity scope.''
       ''Use the authenticated tenant, project, user, permission, and parent task binding.'')
     else ret ())"

text \<open>\<^verbatim>\<open>run_sync\<close>: \<open>schedule_id\<close> is the caller's identifier, drawn when it is absent; \<open>None\<close> when the script does
  not fit.\<close>

definition run_sync :: "budget_env \<Rightarrow> (nat \<Rightarrow> uuid) \<Rightarrow> script list \<Rightarrow> child_context list \<Rightarrow> string list \<Rightarrow> uuid option \<Rightarrow>
    scheduler \<Rightarrow> ((schedule_error + schedule_result) \<times> scheduler) option" where
  "run_sync env draw scripts contexts executors schedule_id s = (
     case validate_schedule (sd_hard_concurrency s) contexts executors of
       Inl e \<Rightarrow> Some (Inl e, s)
     | Inr prepared \<Rightarrow>
         let (u, s') = (case schedule_id of Some u \<Rightarrow> (u, s)
               | None \<Rightarrow> (draw (sd_draws s), s\<lparr>sd_draws := Suc (sd_draws s)\<rparr>))
         in map_option (\<lambda>(r, g). (r, s'\<lparr>sd_guard := g\<rparr>)) (execute env (sd_guard s') scripts u prepared MODE_SYNC []))"

definition enqueue :: "(nat \<Rightarrow> uuid) \<Rightarrow> child_context list \<Rightarrow> string list \<Rightarrow> schedule_handle sched_prog" where
  "enqueue draw contexts executors = bindP (gets sd_hard_concurrency) (\<lambda>hard.
     bindP (lift_pure (validate_schedule hard contexts executors)) (\<lambda>prepared.
     bindP (draw_schedule_id draw) (\<lambda>schedule_id.
     bindP (gets sd_guard) (\<lambda>g. let first = hd prepared in
       if opt_all (\<lambda>g. bg_policy g = ct_budget first) g then
         let handle = \<lparr>sh_schedule_id = schedule_id, sh_parent_task_id = ct_parent_task_id first,
               sh_scope = ct_scope first, sh_assignment_ids = map ct_assignment_id prepared\<rparr>
         in if \<not> valid_handle handle then raise ScheduleInvalid
            else thenP (modify (\<lambda>s. s\<lparr>sd_queued := AList.update schedule_id
              \<lparr>qs_handle = handle, qs_contexts = prepared, qs_executors = executors, qs_cancelled = []\<rparr> (sd_queued s)\<rparr>))
              (ret handle)
       else raise (SchedulerError ''SCHEDULE_BUDGET_GUARD_MISMATCH''
         ''The budget guard is not bound to the child task policy.''
         ''Create one fresh guard from the exact parent task budget.'')))))"

definition schedule :: "budget_env \<Rightarrow> (nat \<Rightarrow> uuid) \<Rightarrow> script list \<Rightarrow> child_context list \<Rightarrow> string list \<Rightarrow> bool \<Rightarrow>
    scheduler \<Rightarrow> ((schedule_error + (schedule_handle + schedule_result)) \<times> scheduler) option" where
  "schedule env draw scripts contexts executors asynchronous s = (
     if asynchronous then Some (map_prod (map_sum id Inl) id (enqueue draw contexts executors s))
     else map_option (map_prod (map_sum id Inr) id) (run_sync env draw scripts contexts executors None s))"

definition schedule_not_found :: schedule_error where
  "schedule_not_found = SchedulerError ''SCHEDULE_NOT_FOUND''
     ''The queued schedule does not exist in this scheduler instance.''
     ''Use an active scoped schedule ID or restore it through S1-07 recovery.''"

text \<open>What \<^verbatim>\<open>advance\<close> and \<^verbatim>\<open>cancel\<close> do first: a terminal schedule is replayed, a queued one is taken out.\<close>

definition take_schedule :: "uuid \<Rightarrow> tenant_scope \<Rightarrow> uuid \<Rightarrow> (schedule_result + queued_schedule) sched_prog" where
  "take_schedule schedule_id scope task = bindP (gets (\<lambda>s. map_of (sd_terminal s) schedule_id)) (\<lambda>found. case found of
     Some r \<Rightarrow> thenP (require_binding (sr_scope r) (sr_parent_task_id r) scope task) (ret (Inl r))
   | None \<Rightarrow> bindP (gets (\<lambda>s. map_of (sd_queued s) schedule_id)) (\<lambda>found. case found of
       None \<Rightarrow> raise schedule_not_found
     | Some q \<Rightarrow> thenP (require_binding (sh_scope (qs_handle q)) (sh_parent_task_id (qs_handle q)) scope task)
         (thenP (modify (\<lambda>s. s\<lparr>sd_queued := AList.delete schedule_id (sd_queued s)\<rparr>)) (ret (Inr q)))))"

definition store_terminal :: "uuid \<Rightarrow> schedule_result \<Rightarrow> schedule_result sched_prog" where
  "store_terminal schedule_id r =
     thenP (modify (\<lambda>s. s\<lparr>sd_terminal := AList.update schedule_id r (sd_terminal s)\<rparr>)) (ret r)"

definition advance_begin :: "uuid \<Rightarrow> tenant_scope \<Rightarrow> uuid \<Rightarrow> (schedule_result + queued_schedule) sched_prog" where
  "advance_begin = take_schedule"

definition advance_end :: "uuid \<Rightarrow> (schedule_error + schedule_result) \<times> budget_guard option \<Rightarrow> schedule_result sched_prog" where
  "advance_end schedule_id ended = thenP (modify (\<lambda>s. s\<lparr>sd_guard := snd ended\<rparr>))
     (case fst ended of Inl e \<Rightarrow> raise e | Inr r \<Rightarrow> store_terminal schedule_id r)"

text \<open>\<^verbatim>\<open>advance\<close> with no other call in between.\<close>

definition advance :: "budget_env \<Rightarrow> script list \<Rightarrow> uuid \<Rightarrow> tenant_scope \<Rightarrow> uuid \<Rightarrow> scheduler \<Rightarrow>
    ((schedule_error + schedule_result) \<times> scheduler) option" where
  "advance env scripts schedule_id scope task s = (case advance_begin schedule_id scope task s of
     (Inl e, s') \<Rightarrow> Some (Inl e, s')
   | (Inr (Inl r), s') \<Rightarrow> Some (Inr r, s')
   | (Inr (Inr q), s') \<Rightarrow> map_option (\<lambda>x. advance_end schedule_id x s')
       (execute env (sd_guard s') scripts schedule_id (qs_contexts q) MODE_ASYNC (qs_cancelled q)))"

definition cancel_assignment :: "uuid \<Rightarrow> string \<Rightarrow> tenant_scope \<Rightarrow> uuid \<Rightarrow> schedule_handle sched_prog" where
  "cancel_assignment schedule_id assignment_id scope task =
     bindP (gets (\<lambda>s. map_of (sd_queued s) schedule_id)) (\<lambda>found. case found of
       None \<Rightarrow> raise (SchedulerError ''SCHEDULE_NOT_QUEUED''
         ''Only an assignment in a queued schedule can be cancelled.''
         ''Cancel before explicit schedule advancement.'')
     | Some q \<Rightarrow> thenP (require_binding (sh_scope (qs_handle q)) (sh_parent_task_id (qs_handle q)) scope task)
         (if assignment_id \<notin> set (sh_assignment_ids (qs_handle q))
          then raise (SchedulerError ''SCHEDULE_ASSIGNMENT_UNKNOWN''
            ''The requested assignment is not part of this schedule.''
            ''Use an assignment ID from the scoped schedule handle.'')
          else thenP (modify (\<lambda>s. s\<lparr>sd_queued := AList.update schedule_id
              (q\<lparr>qs_cancelled := List.insert assignment_id (qs_cancelled q)\<rparr>) (sd_queued s)\<rparr>))
            (ret (qs_handle q))))"

definition cancelled_result :: "uuid \<Rightarrow> queued_schedule \<Rightarrow> schedule_result" where
  "cancelled_result schedule_id q =
     \<lparr>sr_schedule_id = schedule_id, sr_parent_task_id = sh_parent_task_id (qs_handle q),
      sr_scope = sh_scope (qs_handle q), sr_mode = MODE_ASYNC, sr_status = SCHED_CANCELLED,
      sr_assignments = map (\<lambda>c. unlaunched c 1 ASSIGN_CANCELLED ''SCHEDULE_CANCELLED''
        ''Submit a new scoped schedule if the work is still required.'') (qs_contexts q),
      sr_waves_completed = 0, sr_max_concurrency_observed = 0\<rparr>"

definition cancel_schedule :: "uuid \<Rightarrow> tenant_scope \<Rightarrow> uuid \<Rightarrow> schedule_result sched_prog" where
  "cancel_schedule schedule_id scope task = bindP (take_schedule schedule_id scope task) (\<lambda>taken. case taken of
     Inl r \<Rightarrow> ret r
   | Inr q \<Rightarrow> if \<not> valid_schedule_result (cancelled_result schedule_id q) then raise ScheduleInvalid
       else store_terminal schedule_id (cancelled_result schedule_id q))"

end
