(* ===== verification/SchedulerWaves.thy ===== *)
theory SchedulerWaves
  imports Scheduler
begin

section \<open>Waves of a schedule\<close>

text \<open>
  \<^verbatim>\<open>_topological_waves\<close>: the waves hold every context once, each after all its dependencies, and
  the method refuses exactly the dependency graphs that the router refuses.
\<close>

abbreviation ids :: "child_context list \<Rightarrow> string list" where
  "ids \<equiv> map ct_assignment_id"

text \<open>\<open>layered R ws\<close>: every context of a wave depends only on \<open>R\<close> and on earlier waves.\<close>

fun layered :: "string set \<Rightarrow> child_context list list \<Rightarrow> bool" where
  "layered R [] = True"
| "layered R (w # ws) = (w \<noteq> [] \<and> (\<forall>c \<in> set w. set (ct_dependency_assignment_ids c) \<subseteq> R) \<and>
     layered (R \<union> ct_assignment_id ` set w) ws)"

definition left :: "child_context list \<Rightarrow> string list \<Rightarrow> child_context list" where
  "left contexts remaining = filter (\<lambda>c. ct_assignment_id c \<in> set remaining) contexts"

lemma left_split:
  assumes "distinct (ids contexts)"
  shows "mset (left contexts remaining) = mset (ready_wave contexts remaining resolved) +
    mset (left contexts (filter (\<lambda>i. i \<notin> set (ids (ready_wave contexts remaining resolved))) remaining))"
proof -
  let ?P = "\<lambda>c. set (ct_dependency_assignment_ids c) \<subseteq> set resolved"
  let ?ready = "ready_wave contexts remaining resolved"
  have "ct_assignment_id c \<notin> set (ids ?ready) \<longleftrightarrow> \<not> ?P c"
    if "c \<in> set contexts" "ct_assignment_id c \<in> set remaining" for c
  proof -
    have "x = c" if "x \<in> set contexts" "ct_assignment_id x = ct_assignment_id c" for x
      using assms that \<open>c \<in> set contexts\<close> by (auto simp: distinct_map inj_on_def)
    then show ?thesis
      using that by (auto simp: ready_wave_def)
  qed
  then have "left contexts (filter (\<lambda>i. i \<notin> set (ids ?ready)) remaining) = filter (\<lambda>c. \<not> ?P c) (left contexts remaining)"
    unfolding left_def filter_filter by (intro filter_cong) auto
  moreover have "?ready = filter ?P (left contexts remaining)"
    by (simp add: ready_wave_def left_def conj_commute)
  ultimately show ?thesis
    by simp
qed

lemma waves_from_sound:
  assumes "distinct (ids contexts)"
  shows "waves_from contexts remaining resolved = Inr ws \<Longrightarrow> set remaining \<subseteq> set (ids contexts) \<Longrightarrow>
    layered (set resolved) ws \<and> mset (concat ws) = mset (left contexts remaining)"
  using assms
proof (induction contexts remaining resolved arbitrary: ws rule: waves_from.induct)
  case (1 contexts remaining resolved)
  let ?ready = "ready_wave contexts remaining resolved"
  show ?case
  proof (cases "remaining = []")
    case True
    with 1(2) show ?thesis
      by (auto simp: waves_from.simps left_def)
  next
    case False
    with 1(2) obtain ws' where ready: "?ready \<noteq> []"
        and ws': "waves_from contexts (filter (\<lambda>i. i \<notin> set (ids ?ready)) remaining) (resolved @ ids ?ready) = Inr ws'"
          "ws = ?ready # ws'"
      by (subst (asm) waves_from.simps) (auto simp: Let_def split: if_splits sum.splits)
    have ih: "layered (set (resolved @ ids ?ready)) ws' \<and> mset (concat ws') =
        mset (left contexts (filter (\<lambda>i. i \<notin> set (ids ?ready)) remaining))"
      using 1(1) [OF False refl ready ws'(1) _ 1(4)] 1(3) by auto
    have "\<forall>c \<in> set ?ready. set (ct_dependency_assignment_ids c) \<subseteq> set resolved"
      by (auto simp: ready_wave_def)
    with ih ready show ?thesis
      using left_split [OF 1(4), of remaining resolved] ws'(2) by simp
  qed
qed

lemma left_all: "set remaining = set (ids contexts) \<Longrightarrow> left contexts remaining = contexts"
  by (simp add: left_def)

lemma topological_waves_sound:
  assumes "distinct (ids contexts)" "topological_waves contexts = Inr ws"
  shows "layered {} ws" "mset (concat ws) = mset contexts"
proof -
  have r: "set (map fst (dict_by ct_assignment_id contexts)) = set (ids contexts)"
    by simp
  have "layered (set []) ws \<and> mset (concat ws) = mset (left contexts (map fst (dict_by ct_assignment_id contexts)))"
    by (rule waves_from_sound [OF assms(1)]) (use assms(2) in \<open>simp_all add: topological_waves_def\<close>)
  then show "layered {} ws" "mset (concat ws) = mset contexts"
    unfolding left_all [OF r] by simp_all
qed

subsection \<open>The router's cycle check\<close>

definition edges :: "child_context list \<Rightarrow> dependencies" where
  "edges cs = map (\<lambda>c. (ct_assignment_id c, ct_dependency_assignment_ids c)) cs"

lemma waves_from_remove_ready:
  assumes "distinct (ids contexts)" "list_all (dependency_ok contexts) contexts"
  shows "set remaining \<subseteq> set (ids contexts) \<Longrightarrow> set resolved = set (ids contexts) - set remaining \<Longrightarrow>
    (if remove_ready (edges (left contexts remaining)) = Inr () then \<exists>ws. waves_from contexts remaining resolved = Inr ws
     else waves_from contexts remaining resolved = Inl schedule_cycle)"
  using assms
proof (induction contexts remaining resolved rule: waves_from.induct)
  case (1 contexts remaining resolved)
  let ?ready = "ready_wave contexts remaining resolved"
  let ?rest = "filter (\<lambda>i. i \<notin> set (ids ?ready)) remaining"
  have keys: "set (map fst (edges (left contexts remaining))) = set remaining"
    using 1(2) by (force simp: edges_def left_def)
  have "set deps \<inter> set remaining = {} \<longleftrightarrow> set deps \<subseteq> set resolved" if "set deps \<subseteq> set (ids contexts)" for deps
    using that 1(2,3) by auto
  then have names: "ready_names (edges (left contexts remaining)) = ids ?ready"
    using 1(5) unfolding ready_names_def keys
    by (auto simp: edges_def filter_map comp_def left_def ready_wave_def list_all_iff dependency_ok_def
        intro!: filter_cong arg_cong [where f = "map _"])
  have step: "filter (\<lambda>(name, needs). name \<notin> set (ids ?ready)) (edges (left contexts remaining)) = edges (left contexts ?rest)"
    by (simp add: edges_def left_def filter_map comp_def conj_commute)
  show ?case
  proof (cases "remaining = []")
    case True
    then show ?thesis
      by (simp add: waves_from.simps left_def edges_def remove_ready.simps)
  next
    case False
    then have ne: "edges (left contexts remaining) \<noteq> []"
      using keys by (metis list.set(1) list.simps(8) set_empty)
    show ?thesis
    proof (cases "?ready = []")
      case True
      with ne False names show ?thesis
        by (simp add: waves_from.simps remove_ready.simps Let_def)
    next
      case ready: False
      have sub: "set ?rest \<subseteq> set (ids contexts)" "set (resolved @ ids ?ready) = set (ids contexts) - set ?rest"
        using 1(2,3) by (auto simp: ready_wave_def)
      have "remove_ready (edges (left contexts remaining)) = remove_ready (edges (left contexts ?rest))"
        using ne ready names step by (subst remove_ready.simps) (simp add: Let_def)
      moreover have "waves_from contexts remaining resolved =
          (case waves_from contexts ?rest (resolved @ ids ?ready) of Inl e \<Rightarrow> Inl e | Inr ws \<Rightarrow> Inr (?ready # ws))"
        using False ready by (subst waves_from.simps) (simp add: Let_def)
      ultimately show ?thesis
        using 1(1) [OF False refl ready sub 1(4,5)] by (auto split: if_splits)
    qed
  qed
qed

text \<open>The scheduler finds a cycle exactly when the router's check on the same assignments does.\<close>

lemma topological_waves_iff:
  assumes "distinct (ids contexts)" "list_all (dependency_ok contexts) contexts"
  shows "if acyclic (waits (edges contexts)) then \<exists>ws. topological_waves contexts = Inr ws
    else topological_waves contexts = Inl schedule_cycle"
proof -
  have r: "set (map fst (dict_by ct_assignment_id contexts)) = set (ids contexts)"
    by simp
  have "distinct (map fst (edges contexts))"
    using assms(1) by (simp add: edges_def comp_def)
  then have "remove_ready (edges contexts) = Inr () \<longleftrightarrow> acyclic (waits (edges contexts))"
    by (simp add: remove_ready_iff)
  then show ?thesis
    using waves_from_remove_ready [OF assms, of "map fst (dict_by ct_assignment_id contexts)" "[]"] left_all [OF r]
    by (auto simp: topological_waves_def r)
qed

end
