(* ===== verification/SchedulerRules.thy ===== *)
theory SchedulerRules
  imports SchedulerWaves
begin

section \<open>Rules for launches and batches\<close>

text \<open>
  What a launch leaves behind, and the invariant of a batch under every event. A launch and the executors
  change the number of open professional slots only through the scheduler's own acquire and release, so the
  guard's count is the number of running children; with a sound guard nothing in a batch raises.
\<close>

subsection \<open>Who changes the number of open slots\<close>

abbreviation slots :: "int \<Rightarrow> budget_guard \<Rightarrow> bool" where
  "slots n g \<equiv> bg_counts g PROFESSIONAL_CONCURRENCY = n"

lemma keeps_voidP [keeps_intros]: "keeps I m \<Longrightarrow> keeps I (voidP m)"
  by (simp add: voidP_def keeps_intros)

lemma keeps_slots_modify:
  "(\<And>g. bg_counts (f g) PROFESSIONAL_CONCURRENCY = bg_counts g PROFESSIONAL_CONCURRENCY) \<Longrightarrow> keeps (slots n) (modify f)"
  by (simp add: keeps_modify)

lemma keeps_slots_increment: "d \<noteq> PROFESSIONAL_CONCURRENCY \<Longrightarrow> keeps (slots n) (increment d k)"
  unfolding increment_def by (rule keeps_slots_modify) simp

lemma keeps_slots_small [keeps_intros]:
  "keeps (slots n) (add_logical k)" "keeps (slots n) add_retry" "keeps (slots n) (elapsed_ms env)"
  "keeps (slots n) (draw_uuid4 env)"
  unfolding add_logical_def add_retry_def elapsed_ms_def draw_uuid4_def
  by (intro keeps_intros keeps_slots_modify; simp)+

lemma keeps_slots_record [keeps_intros]: "keeps (slots n) (record_event env a)"
  unfolding record_event_def by (intro keeps_intros keeps_slots_modify) simp

lemma keeps_slots_raise [keeps_intros]:
  "keeps (slots n) (telemetry env)" "keeps (slots n) (raise_exceeded env code cause impact next)"
  unfolding raise_exceeded_def telemetry_def by (intro keeps_intros)+

lemma keeps_slots_checks [keeps_intros]:
  "keeps (slots n) (check_time env)" "keeps (slots n) (ensure_capacity_at env d k t cur)"
  "keeps (slots n) (ensure_capacity env d k t)" "keeps (slots n) (ensure_token_capacity env k t)"
  "keeps (slots n) (authorize_action env c)"
  unfolding check_time_def ensure_capacity_def ensure_capacity_at_def ensure_token_capacity_def authorize_action_def Let_def
  by (intro keeps_intros)+

lemma keeps_slots_consume:
  "d \<noteq> PROFESSIONAL_CONCURRENCY \<Longrightarrow> keeps (slots n) (consume env d k t logical)"
  unfolding consume_def
  by (intro keeps_intros keeps_seqP) (auto intro!: keeps_intros keeps_slots_increment)

lemmas slots_steps = keeps_intros keeps_slots_increment keeps_slots_consume keeps_slots_modify

lemma keeps_slots_call:
  "call \<notin> {SlotAcquire, SlotRelease} \<Longrightarrow> keeps (slots n) (call_prog env call)"
proof (cases call)
  case (BeginToolCall name version args obs retry c)
  show ?thesis
    unfolding BeginToolCall call_prog.simps begin_tool_call_def Let_def
    by (intro keeps_intros keeps_seqP; (intro keeps_intros)?; auto intro!: slots_steps)
next
  case (BeginLlmCall m retry c)
  show ?thesis
    unfolding BeginLlmCall call_prog.simps begin_llm_call_def
    by (intro keeps_intros keeps_seqP; (intro keeps_intros)?; auto intro!: slots_steps)
next
  case (CompleteLlmCall u i out ok)
  show ?thesis
    unfolding CompleteLlmCall call_prog.simps complete_llm_call_def Let_def
    by (intro keeps_intros keeps_seqP; (intro keeps_intros)?; auto intro!: slots_steps)
next
  case (CompleteToolCall u ok)
  show ?thesis
    unfolding CompleteToolCall call_prog.simps complete_tool_call_def
    by (intro keeps_intros keeps_seqP; (intro keeps_intros)?; auto intro!: slots_steps)
qed (auto simp: record_graph_step_def reserve_graph_steps_def abandon_graph_reservation_def release_graph_reservation_def
    record_cache_lookup_def record_terminal_transition_def record_review_def record_correction_def
    intro!: slots_steps keeps_seqP)


lemma keeps_catchP [keeps_intros]: "keeps I m \<Longrightarrow> (\<And>e. keeps I (h e)) \<Longrightarrow> keeps I (catchP m h)"
  by (fastforce simp: keeps_def final_def catchP_def split: prod.splits sum.splits)

abbreviation run_slots :: "int \<Rightarrow> child_run \<Rightarrow> bool" where
  "run_slots n s \<equiv> opt_all (slots n) (cr_guard s)"

lemma keeps_with_guard: "keeps (slots n) m \<Longrightarrow> keeps (run_slots n) (with_guard m)"
  by (fastforce simp: keeps_def final_def with_guard_def split: prod.splits sum.splits option.splits)

lemma keeps_guard_step:
  "keeps (run_slots n) (with_guard (record_terminal_transition env stop))"
  "keeps (run_slots n) (with_guard (record_graph_step env c))"
  using keeps_slots_call [of "RecordTerminalTransition stop" n env] keeps_slots_call [of "RecordGraphStep c" n env]
  by (simp_all add: keeps_with_guard)

lemma keeps_append [keeps_intros]: "keeps (run_slots n) (append_transition p q event)"
  unfolding append_transition_def by (intro keeps_intros keeps_modify) simp

lemma keeps_child_move [keeps_intros]: "keeps (run_slots n) (child_move env p q event)"
  unfolding child_move_def
  by (intro keeps_seqP) (auto intro!: keeps_append keeps_modify simp: keeps_guard_step)

lemma keeps_child_failure [keeps_intros]: "keeps (run_slots n) (child_failure c code next_action)"
  unfolding child_failure_def mk_outcome_def by (intro keeps_intros) (auto intro!: keeps_intros)

lemma keeps_budget_stopped [keeps_intros]: "keeps (run_slots n) (budget_stopped env c e)"
proof (cases e)
  case (GuardError b)
  then show ?thesis
    by (cases b) (auto simp: budget_stopped_def intro!: keeps_intros keeps_guard_step)
qed (simp add: budget_stopped_def keeps_raise)

lemma keeps_child_begin: "keeps (run_slots n) (child_begin env c)"
  unfolding child_begin_def
  by (intro keeps_intros keeps_seqP) (auto intro!: keeps_intros keeps_modify)

lemma keeps_child_finish: "keeps (run_slots n) (child_finish env c reply)"
proof -
  have "keeps (run_slots n) (child_verify env c payload)" for payload
    unfolding child_verify_def child_check_def reject_result_def child_complete_def mk_outcome_def
    by (intro keeps_intros) (auto intro!: keeps_intros)
  then show ?thesis
    unfolding child_finish_def by (cases reply) (auto intro!: keeps_intros)
qed

subsection \<open>Launches\<close>

lemma exec_guard_rule:
  assumes "es_guard s = None \<Longrightarrow> Q () s"
    and "\<And>g. es_guard s = Some g \<Longrightarrow> wp m (\<lambda>_ g'. Q () (s\<lparr>es_guard := Some g'\<rparr>))
      (\<lambda>e g'. E (ChildError (GuardError e)) (s\<lparr>es_guard := Some g'\<rparr>)) g"
  shows "wp (exec_guard m) Q E s"
  using assms by (cases "es_guard s") (auto simp: exec_guard_def wp_def split: prod.splits sum.splits)

lemma wp_exec_child:
  "wp (exec_child run m) Q E s =
     wp m (\<lambda>x run'. Q (x, run') (s\<lparr>es_guard := cr_guard run'\<rparr>)) (\<lambda>e run'. E (ChildError e) (s\<lparr>es_guard := cr_guard run'\<rparr>))
       (run\<lparr>cr_guard := es_guard s\<rparr>)"
  by (simp add: wp_def exec_child_def split: prod.split sum.split)

text \<open>A sound state of a schedule of kind \<open>k\<close>: the guard satisfies its invariant and counts, beside the
  \<open>base\<close> slots open elsewhere, one slot per running child of a professional schedule.\<close>

definition exec_ok :: "int \<Rightarrow> child_kind \<Rightarrow> exec_state \<Rightarrow> bool" where
  "exec_ok base k s = (0 \<le> base \<and> 0 \<le> es_current s \<and> opt_all (\<lambda>g. guard_inv g \<and>
     slots (base + (if k = PROFESSIONAL then es_current s else 0)) g) (es_guard s))"

text \<open>What a finished launch reports.\<close>

definition settled :: "child_context \<Rightarrow> int \<Rightarrow> scheduled_assignment \<Rightarrow> bool" where
  "settled c wave a = (valid_scheduled a \<and> sa_assignment_id a = ct_assignment_id c \<and> sa_run_id a = ct_run_id c \<and>
     sa_wave a = wave \<and> opt_all (outcome_for c) (sa_outcome a) \<and>
     (sa_status a = ASSIGN_COMPLETED \<longrightarrow> (\<exists>o' r. sa_outcome a = Some o' \<and> co_completed o' \<and> co_result o' = Some r \<and>
        acceptable c r \<and> ag_status r \<in> {AGENT_SUCCESS, AGENT_PARTIAL_SUCCESS})))"

definition suspended_ok :: "child_context \<Rightarrow> child_run \<Rightarrow> bool" where
  "suspended_ok c run = (counted run \<and> cr_phase run = CHILD_ACT \<and> cr_execution_calls run = 1)"


definition launched :: "child_context \<Rightarrow> int \<Rightarrow> scheduled_assignment \<Rightarrow> bool" where
  "launched c wave a = (settled c wave a \<and> sa_status a \<noteq> ASSIGN_CANCELLED)"

lemma from_outcome_launched:
  assumes o': "outcome_for c o'" "co_completed o' \<longrightarrow> (\<exists>r. co_result o' = Some r \<and> acceptable c r)"
    and name: "text_len 1 128 (ct_assignment_id c)" "1 \<le> wave"
  shows "launched c wave (from_outcome c wave o')"
proof (cases "co_completed o'")
  case True
  with o' obtain r where r: "co_result o' = Some r" "acceptable c r"
    by blast
  have code: "text_len 0 128 (case ag_failure_code r of Some (ch # cs) \<Rightarrow> ch # cs | _ \<Rightarrow> ''CHILD_'' @ agent_status_value (ag_status r))"
    using r(2) by (cases "ag_status r")
      (auto simp: acceptable_def valid_agent_result_def text_len_def split: option.split list.split)
  have next': "text_len 0 1000 ''Inspect the typed child result before rescheduling dependent work.''"
    by (simp add: text_len_def)
  have v: "valid_outcome o'" "co_execution_calls o' = 1"
    using o'(1) True by (simp_all add: outcome_for_def valid_outcome_def)
  show ?thesis
    using True r o'(1) name v code next'
    by (auto simp: launched_def settled_def from_outcome_def executed_def valid_scheduled_def)
next
  case False
  then show ?thesis
    using o'(1) name
    by (auto simp: launched_def settled_def from_outcome_def executed_def valid_scheduled_def outcome_for_def valid_outcome_def
        split: option.split)
qed

lemma slot_release_count: "slots n g \<Longrightarrow> wp (slot_release env) (\<lambda>_. slots (n - 1)) (\<lambda>_. slots (n - 1)) g"
  unfolding slot_release_def increment_def wp_simps
  by (rule keeps_wp [OF keeps_slots_record]) simp

lemma record_event_count:
  "slots n g \<Longrightarrow> wp (record_event env a) (\<lambda>_. slots n) (\<lambda>e _. e = BudgetValidationError) g"
  using raises_only_wp [OF record_event_raises keeps_wp [OF keeps_slots_record]]
  by (rule wp_mono) simp_all

lemma slot_acquire_count:
  assumes "slots n g"
  shows "wp (slot_acquire env) (\<lambda>_. slots (n + 1)) (\<lambda>e g'. e = BudgetValidationError \<or> slots n g') g"
proof -
  let ?checks = "seqP [check_time env, ensure_capacity env PROFESSIONAL_CONCURRENCY 1 ''professional_concurrency_denied'']"
  have "keeps (slots n) ?checks"
    by (auto intro!: keeps_seqP keeps_intros)
  then show ?thesis
    unfolding slot_acquire_def wp_thenP increment_def
    by (rule wp_mono [OF keeps_wp])
      (auto simp: assms wp_simps intro!: wp_mono [OF record_event_count])
qed


lemma wp_Pair [simp]: "wp (Pair (Inr x)) Q E s = Q x s" "wp (Pair (Inl e)) Q E s = E e s"
  by (simp_all add: wp_def)

lemma leave_child_rule:
  assumes sound: "sound \<longrightarrow> exec_ok base (ct_kind c) s \<and> 1 \<le> es_current s"
    and Q: "\<And>s'. es_current s' = es_current s - 1 \<Longrightarrow> es_max s' = es_max s \<Longrightarrow>
      (sound \<longrightarrow> exec_ok base (ct_kind c) s') \<Longrightarrow> Q () s'"
    and E: "\<And>s'. \<not> sound \<Longrightarrow> E (ChildError (GuardError BudgetValidationError)) s'"
  shows "wp (leave_child env c) Q E s"
proof (cases "uses_slot s c")
  case False
  then have "ct_kind c = GENERAL \<or> es_guard s = None"
    by (cases "ct_kind c") (auto simp: uses_slot_def)
  with False sound show ?thesis
    by (auto simp: leave_child_def wp_simps uses_slot_def exec_ok_def intro!: Q)
next
  case True
  let ?s = "s\<lparr>es_current := es_current s - 1\<rparr>"
  have "wp (exec_guard (slot_release env)) Q E ?s"
  proof (rule exec_guard_rule)
    fix g
    assume g: "es_guard ?s = Some g"
    have "wp (slot_release env) (\<lambda>_ g'. (sound \<longrightarrow> guard_inv g') \<and> slots (bg_counts g PROFESSIONAL_CONCURRENCY - 1) g')
        (\<lambda>e g'. e = BudgetValidationError \<and> \<not> sound) g"
    proof -
      have "wp (slot_release env) (\<lambda>_ g'. sound \<longrightarrow> guard_inv g') (\<lambda>e g'. sound \<longrightarrow> e \<noteq> BudgetValidationError) g"
      proof (cases sound)
        case s: True
        with sound True g have "guard_inv g" "0 < bg_counts g PROFESSIONAL_CONCURRENCY"
          by (simp_all add: exec_ok_def uses_slot_def)
        from slot_release_keeps [OF this, of env] show ?thesis
          by (rule wp_mono) (simp_all add: guard_err_def)
      qed (simp add: wp_def split: prod.split sum.split)
      then show ?thesis
        using slot_release_count [OF refl, of env g] raises_onlyD [OF slot_release_raises, of env g]
        by (fastforce simp: wp_def split: prod.splits sum.splits)
    qed
    then show "wp (slot_release env) (\<lambda>_ g'. Q () (?s\<lparr>es_guard := Some g'\<rparr>))
        (\<lambda>e g'. E (ChildError (GuardError e)) (?s\<lparr>es_guard := Some g'\<rparr>)) g"
      using sound g True by (elim wp_mono) (auto simp: exec_ok_def uses_slot_def intro!: Q E)
  qed (use True in \<open>simp add: uses_slot_def\<close>)
  with True show ?thesis
    by (simp add: leave_child_def wp_simps uses_slot_def)
qed

lemma blocked_launched:
  assumes "bounded_stop b" "text_len 1 128 (ct_assignment_id c)" "1 \<le> wave"
    and Q: "\<And>a. launched c wave a \<Longrightarrow> Q (Finished a) s"
  shows "wp (blocked_by_budget c wave (ChildError (GuardError b))) Q E s"
proof -
  obtain code cause impact next_action t where b: "b = BudgetExceeded code cause impact next_action t"
      "text_len 0 128 code" "text_len 0 1000 next_action"
    using assms(1) by (auto simp: bounded_stop_def)
  then show ?thesis
    using assms(2,3)
    by (auto simp: blocked_by_budget_def mk_scheduled_def wp_simps unlaunched_def launched_def settled_def valid_scheduled_def
        intro!: Q)
qed

lemma blocked_other [simp]:
  "wp (blocked_by_budget c wave (ChildError (GuardError BudgetValidationError))) Q E s =
     E (ChildError (GuardError BudgetValidationError)) s"
  "wp (blocked_by_budget c wave (ChildError OutcomeInvalid)) Q E s = E (ChildError OutcomeInvalid) s"
  by (simp_all add: blocked_by_budget_def wp_simps)

lemma settle_outcome_rule:
  assumes sound: "sound \<longrightarrow> exec_ok base (ct_kind c) s \<and> 1 \<le> es_current s"
    and o': "outcome_for c o'" "co_completed o' \<longrightarrow> (\<exists>r. co_result o' = Some r \<and> acceptable c r)"
    and name: "text_len 1 128 (ct_assignment_id c)" "1 \<le> wave"
    and Q: "\<And>a s'. launched c wave a \<Longrightarrow> es_current s' = es_current s - 1 \<Longrightarrow> es_max s' = es_max s \<Longrightarrow>
      (sound \<longrightarrow> exec_ok base (ct_kind c) s') \<Longrightarrow> Q (Finished a) s'"
    and E: "\<And>s'. \<not> sound \<Longrightarrow> E (ChildError (GuardError BudgetValidationError)) s'"
  shows "wp (settle_outcome env c wave o') Q E s"
proof -
  have "launched c wave (from_outcome c wave o')"
    using o' name by (rule from_outcome_launched)
  then show ?thesis
    unfolding settle_outcome_def wp_thenP
    by (intro leave_child_rule [OF sound]) (auto simp: wp_simps mk_scheduled_def launched_def settled_def intro!: Q E)
qed


abbreviation guard_ok :: "int \<Rightarrow> budget_guard option \<Rightarrow> bool" where
  "guard_ok n \<equiv> opt_all (\<lambda>g. guard_inv g \<and> slots n g)"

lemma opt_all_conj: "opt_all (\<lambda>x. P x \<and> Q x) y = (opt_all P y \<and> opt_all Q y)"
  by (cases y) simp_all

lemma wp_keeps_slots:
  assumes "wp m Q E s" "keeps (run_slots n) m" "sound \<longrightarrow> run_slots n s"
  shows "wp m (\<lambda>x s'. Q x s' \<and> (sound \<longrightarrow> run_slots n s')) E s"
  using assms keepsD [OF assms(2)] by (fastforce simp: wp_def split: prod.splits sum.splits)

lemma child_begin_slots:
  assumes sound: "sound \<longrightarrow> guard_ok n g"
  shows "wp (child_begin env c)
    (\<lambda>r run. (case r of None \<Rightarrow> suspended_ok c run | Some o' \<Rightarrow> outcome_for c o' \<and> \<not> co_completed o') \<and>
      (sound \<longrightarrow> guard_ok n (cr_guard run)))
    (\<lambda>e run. e = GuardError BudgetValidationError \<and> \<not> sound) (fresh_run g)"
proof -
  have "wp (child_begin env c)
    (\<lambda>r run. (case r of None \<Rightarrow> suspended_ok c run | Some o' \<Rightarrow> outcome_for c o' \<and> \<not> co_completed o') \<and>
      (sound \<longrightarrow> opt_all guard_inv (cr_guard run)))
    (\<lambda>e run. e = GuardError BudgetValidationError \<and> \<not> sound) (fresh_run g)"
    using sound by (intro child_begin_rule) (auto simp: suspended_ok_def fresh_run_def opt_all_conj)
  moreover have "sound \<longrightarrow> run_slots n (fresh_run g)"
    using sound by (simp add: fresh_run_def opt_all_conj)
  ultimately show ?thesis
    by (rule wp_mono [OF wp_keeps_slots [OF _ keeps_child_begin]]) (auto simp: opt_all_conj)
qed

lemma child_finish_slots:
  assumes run: "suspended_ok c run" and sound: "sound \<longrightarrow> guard_ok n (cr_guard run) \<and> reply_bounded reply"
  shows "wp (child_finish env c reply)
    (\<lambda>o' run'. outcome_for c o' \<and> (co_completed o' \<longrightarrow> (\<exists>r. co_result o' = Some r \<and> acceptable c r)) \<and>
      (sound \<longrightarrow> guard_ok n (cr_guard run')))
    (\<lambda>e run'. e \<in> {GuardError BudgetValidationError, OutcomeInvalid} \<and> \<not> sound) run"
proof -
  have "wp (child_finish env c reply)
    (\<lambda>o' run'. (outcome_for c o' \<and> (co_completed o' \<longrightarrow> (\<exists>r. co_result o' = Some r \<and> acceptable c r))) \<and>
      (sound \<longrightarrow> opt_all guard_inv (cr_guard run')))
    (\<lambda>e run'. e \<in> {GuardError BudgetValidationError, OutcomeInvalid} \<and> \<not> sound) run"
    using run sound by (intro child_finish_rule [where sound = sound]) (auto simp: suspended_ok_def opt_all_conj)
  moreover have "sound \<longrightarrow> run_slots n run"
    using sound by (simp add: opt_all_conj)
  ultimately show ?thesis
    by (rule wp_mono [OF wp_keeps_slots [OF _ keeps_child_finish]]) (auto simp: opt_all_conj)
qed

lemma exec_ok_guard:
  "exec_ok base k s \<longleftrightarrow> 0 \<le> base \<and> 0 \<le> es_current s \<and>
     guard_ok (base + (if k = PROFESSIONAL then es_current s else 0)) (es_guard s)"
  by (simp add: exec_ok_def)

text \<open>Entering: the slot, if one is needed, and the counter.\<close>

definition entered :: "exec_state \<Rightarrow> exec_state \<Rightarrow> bool" where
  "entered s s' = (es_current s' = es_current s + 1 \<and> es_max s' = max (es_max s) (es_current s + 1))"

lemma acquire_rule:
  assumes sound: "sound \<longrightarrow> exec_ok base (ct_kind c) s"
    and Q: "\<And>s'. entered s s' \<Longrightarrow> (sound \<longrightarrow> exec_ok base (ct_kind c) s') \<Longrightarrow> Q () s'"
    and stop: "\<And>b s'. guard_stop b \<Longrightarrow> (sound \<longrightarrow> b \<noteq> BudgetValidationError \<and> exec_ok base (ct_kind c) s') \<Longrightarrow>
      es_current s' = es_current s \<Longrightarrow> es_max s' = es_max s \<Longrightarrow> E (ChildError (GuardError b)) s'"
  shows "wp (thenP (bindP (gets (\<lambda>s. uses_slot s c)) (\<lambda>slot. whenP slot (exec_guard (slot_acquire env)))) enter_child) Q E s"
proof (cases "uses_slot s c")
  case False
  then have "ct_kind c = GENERAL \<or> es_guard s = None"
    by (cases "ct_kind c") (auto simp: uses_slot_def)
  with False sound show ?thesis
    by (auto simp: wp_simps enter_child_def entered_def exec_ok_def intro!: Q)
next
  case True
  have "wp (exec_guard (slot_acquire env)) (\<lambda>_. wp enter_child Q E) E s"
  proof (rule exec_guard_rule)
    fix g
    assume g: "es_guard s = Some g"
    let ?n = "bg_counts g PROFESSIONAL_CONCURRENCY"
    have inv: "sound \<longrightarrow> guard_inv g" "sound \<longrightarrow> ?n = base + es_current s"
      using sound g True by (auto simp: exec_ok_def uses_slot_def)
    have "wp (slot_acquire env) (\<lambda>_ g'. sound \<longrightarrow> guard_inv g') (\<lambda>e g'. sound \<longrightarrow> e \<noteq> BudgetValidationError \<and> guard_inv g') g"
    proof (cases sound)
      case s: True
      with inv slot_acquire_keeps [of g env] show ?thesis
        by (auto elim!: wp_mono simp: guard_err_def)
    qed (simp add: wp_def split: prod.split sum.split)
    then have "wp (slot_acquire env) (\<lambda>_ g'. (sound \<longrightarrow> guard_inv g') \<and> slots (?n + 1) g')
        (\<lambda>e g'. guard_stop e \<and> (sound \<longrightarrow> e \<noteq> BudgetValidationError \<and> guard_inv g' \<and> slots ?n g')) g"
      using slot_acquire_count [OF refl, of env g] raises_onlyD [OF slot_acquire_stop, of env g]
      by (fastforce simp: wp_def split: prod.splits sum.splits)
    then show "wp (slot_acquire env) (\<lambda>_ g'. wp enter_child Q E (s\<lparr>es_guard := Some g'\<rparr>))
        (\<lambda>e g'. E (ChildError (GuardError e)) (s\<lparr>es_guard := Some g'\<rparr>)) g"
      using sound inv True
      by (elim wp_mono) (auto simp: enter_child_def entered_def wp_simps exec_ok_def uses_slot_def intro!: Q stop)
  qed (use True in \<open>simp add: uses_slot_def\<close>)
  with True show ?thesis
    by (simp add: wp_simps)
qed


text \<open>The exception path of a launch: leave, then raise again.\<close>

lemma reraise_rule:
  assumes "sound \<longrightarrow> False" and "\<And>s'. E e s'" and "\<And>s'. E (ChildError (GuardError BudgetValidationError)) s'"
  shows "wp (thenP (leave_child env c) (raise e)) Q E s"
  unfolding wp_thenP using assms by (intro leave_child_rule [where sound = sound]) (auto simp: wp_simps)

lemma launch_begin_rule:
  assumes name: "text_len 1 128 (ct_assignment_id c)" "1 \<le> wave"
    and sound: "sound \<longrightarrow> exec_ok base (ct_kind c) s"
    and fin: "\<And>a s'. launched c wave a \<Longrightarrow> es_current s' = es_current s \<Longrightarrow>
      es_max s' \<in> {es_max s, max (es_max s) (es_current s + 1)} \<Longrightarrow> (sound \<longrightarrow> exec_ok base (ct_kind c) s') \<Longrightarrow> Q (Finished a) s'"
    and sus: "\<And>run s'. suspended_ok c run \<Longrightarrow> entered s s' \<Longrightarrow> (sound \<longrightarrow> exec_ok base (ct_kind c) s') \<Longrightarrow> Q (Suspended run) s'"
    and E: "\<And>e s'. \<not> sound \<Longrightarrow> E e s'"
  shows "wp (launch_begin env wave c) Q E s"
proof -
  let ?E = "\<lambda>e. wp (blocked_by_budget c wave e) Q E"
  let ?cont = "\<lambda>(stopped, run). case stopped of None \<Rightarrow> ret (Suspended run) | Some o' \<Rightarrow> settle_outcome env c wave o'"
  let ?attempt = "catchP (exec_child (fresh_run None) (child_begin env c)) (\<lambda>e. thenP (leave_child env c) (raise e))"
  have body: "wp (bindP ?attempt ?cont) Q ?E s1" if s1: "entered s s1" "sound \<longrightarrow> exec_ok base (ct_kind c) s1" for s1
  proof -
    let ?n = "base + (if ct_kind c = PROFESSIONAL then es_current s1 else 0)"
    have g: "sound \<longrightarrow> guard_ok ?n (es_guard s1)"
      using s1(2) by (simp add: exec_ok_guard)
    have fr: "(fresh_run None)\<lparr>cr_guard := es_guard s1\<rparr> = fresh_run (es_guard s1)"
      by (simp add: fresh_run_def)
    have ok: "exec_ok base (ct_kind c) (s1\<lparr>es_guard := g'\<rparr>)" if "sound" "guard_ok ?n g'" for g'
      using s1(2) that by (simp add: exec_ok_guard split: if_splits)
    have cur: "sound \<longrightarrow> 1 \<le> es_current s1"
      using s1 sound by (auto simp: entered_def exec_ok_def)
    have "wp (?cont (r, run)) Q ?E (s1\<lparr>es_guard := cr_guard run\<rparr>)"
      if "(case r of None \<Rightarrow> suspended_ok c run | Some o' \<Rightarrow> outcome_for c o' \<and> \<not> co_completed o')"
        "sound \<longrightarrow> guard_ok ?n (cr_guard run)" for r run
    proof (cases r)
      case None
      with that s1(1) show ?thesis
        by (auto simp: wp_simps entered_def intro!: sus ok)
    next
      case (Some o')
      have "wp (settle_outcome env c wave o') Q ?E (s1\<lparr>es_guard := cr_guard run\<rparr>)"
        using Some that s1(1) cur name
        by (intro settle_outcome_rule [where sound = sound and base = base])
          (auto simp: entered_def intro!: fin ok E)
      with Some show ?thesis
        by simp
    qed
    moreover have "wp (thenP (leave_child env c) (raise (ChildError e))) (\<lambda>x. wp (?cont x) Q ?E) ?E s'"
      if "e = GuardError BudgetValidationError \<and> \<not> sound" for e s'
      using that by (intro reraise_rule [where sound = False]) (auto intro!: E)
    ultimately show ?thesis
      unfolding wp_bindP wp_catchP wp_exec_child fr
      by (intro wp_mono [OF child_begin_slots [OF g]]) auto
  qed
  have eq: "launch_begin env wave c = catchP (thenP (thenP (bindP (gets (\<lambda>s. uses_slot s c))
      (\<lambda>slot. whenP slot (exec_guard (slot_acquire env)))) enter_child) (bindP ?attempt ?cont)) (blocked_by_budget c wave)"
    unfolding launch_begin_def by (simp add: thenP_def bindP_assoc)
  show ?thesis
    unfolding eq wp_catchP wp_thenP [of "thenP _ enter_child"]
  proof (rule acquire_rule [OF sound body])
    fix b and s' :: exec_state
    assume "guard_stop b" "sound \<longrightarrow> b \<noteq> BudgetValidationError \<and> exec_ok base (ct_kind c) s'"
      "es_current s' = es_current s" "es_max s' = es_max s"
    then show "?E (ChildError (GuardError b)) s'"
      by (cases "b = BudgetValidationError") (auto intro!: blocked_launched name fin E)
  qed
qed

lemma launch_resume_rule:
  assumes name: "text_len 1 128 (ct_assignment_id c)" "1 \<le> wave" and run: "suspended_ok c run"
    and sound: "sound \<longrightarrow> exec_ok base (ct_kind c) s \<and> 1 \<le> es_current s \<and> reply_bounded reply"
    and fin: "\<And>a s'. launched c wave a \<Longrightarrow> es_current s' = es_current s - 1 \<Longrightarrow> es_max s' = es_max s \<Longrightarrow>
      (sound \<longrightarrow> exec_ok base (ct_kind c) s') \<Longrightarrow> Q (Finished a) s'"
    and E: "\<And>e s'. \<not> sound \<Longrightarrow> E e s'"
  shows "wp (launch_resume env wave c run reply) Q E s"
proof -
  let ?E = "\<lambda>e. wp (blocked_by_budget c wave e) Q E"
  let ?n = "base + (if ct_kind c = PROFESSIONAL then es_current s else 0)"
  have g: "sound \<longrightarrow> guard_ok ?n (cr_guard (run\<lparr>cr_guard := es_guard s\<rparr>)) \<and> reply_bounded reply"
    using sound by (simp add: exec_ok_guard)
  have run': "suspended_ok c (run\<lparr>cr_guard := es_guard s\<rparr>)"
    using run by (simp add: suspended_ok_def)
  have ok: "exec_ok base (ct_kind c) (s\<lparr>es_guard := g'\<rparr>)" if "sound" "guard_ok ?n g'" for g'
    using sound that by (simp add: exec_ok_guard split: if_splits)
  have settle: "wp (settle_outcome env c wave o') Q ?E (s\<lparr>es_guard := g'\<rparr>)"
    if "outcome_for c o'" "co_completed o' \<longrightarrow> (\<exists>r. co_result o' = Some r \<and> acceptable c r)" "sound \<longrightarrow> guard_ok ?n g'" for o' g'
    using that sound name by (intro settle_outcome_rule [where sound = sound and base = base]) (auto intro!: fin ok E)
  have again: "wp (thenP (leave_child env c) (raise (ChildError e)))
      (\<lambda>x. wp (case x of (o', run') \<Rightarrow> settle_outcome env c wave o') Q ?E) ?E s'"
    if "e \<in> {GuardError BudgetValidationError, OutcomeInvalid} \<and> \<not> sound" for e s'
    using that by (intro reraise_rule [where sound = False]) (auto intro!: E)
  show ?thesis
    unfolding launch_resume_def wp_catchP wp_bindP wp_exec_child
  proof (rule wp_mono [OF child_finish_slots [OF run' g]])
    show "wp (thenP (leave_child env c) (raise (ChildError e)))
        (\<lambda>x. wp (case x of (o', run') \<Rightarrow> settle_outcome env c wave o') Q ?E) ?E (s\<lparr>es_guard := cr_guard r'\<rparr>)"
      if "e \<in> {GuardError BudgetValidationError, OutcomeInvalid} \<and> \<not> sound" for e and r' :: child_run
      using that by (rule again)
  qed (use settle in auto)
qed

end
