(* ===== verification/SchedulerBatches.thy ===== *)
theory SchedulerBatches
  imports SchedulerRules
begin

section \<open>The invariant of a batch\<close>

text \<open>
  \<open>batch_inv\<close> holds at every point of every interleaving of a batch: each child is waiting, suspended or settled, the
  concurrency counter is the number of suspended children, and, with a sound guard and executors whose error
  texts fit, no event raises. A batch that is not done can always go on.
\<close>

text \<open>The fixed data of a batch, for the invariant: its wave and contexts, the kind of the schedule, the slots open elsewhere,
  the peak before the batch, and whether guard and executors are sound.\<close>

record batch_setting =
  bs_wave :: int
  bs_contexts :: "child_context list"
  bs_kind :: child_kind
  bs_base :: int
  bs_sound :: bool
  bs_peak :: int

definition batch_ok :: "batch_setting \<Rightarrow> bool" where
  "batch_ok t = (1 \<le> bs_wave t \<and> distinct (ids (bs_contexts t)) \<and>
     (\<forall>c \<in> set (bs_contexts t). text_len 1 128 (ct_assignment_id c) \<and> ct_kind c = bs_kind t))"

definition batch_inv :: "batch_setting \<Rightarrow> batch \<Rightarrow> exec_state \<Rightarrow> bool" where
  "batch_inv t b s = (set (ba_waiting b) \<subseteq> set (bs_contexts t) \<and>
     (\<forall>(c, run) \<in> set (ba_running b). c \<in> set (bs_contexts t) \<and> suspended_ok c run) \<and>
     (\<forall>i a. map_of (ba_results b) i = Some a \<longrightarrow>
        (\<exists>c \<in> set (bs_contexts t). ct_assignment_id c = i \<and> launched c (bs_wave t) a)) \<and>
     (\<forall>c \<in> set (bs_contexts t). c \<in> set (ba_waiting b) \<or> c \<in> fst ` set (ba_running b) \<or>
        map_of (ba_results b) (ct_assignment_id c) \<noteq> None) \<and>
     es_current s = int (length (ba_running b)) \<and>
     length (ba_waiting b) + length (ba_running b) \<le> length (bs_contexts t) \<and>
     bs_peak t \<le> es_max s \<and> es_max s \<le> max (bs_peak t) (int (length (bs_contexts t))) \<and>
     (bs_sound t \<longrightarrow> exec_ok (bs_base t) (bs_kind t) s))"

definition event_ok :: "event \<Rightarrow> bool" where
  "event_ok ev = (case ev of Answers i reply \<Rightarrow> reply_bounded reply | _ \<Rightarrow> True)"

lemma batch_okD:
  "batch_ok t \<Longrightarrow> c \<in> set (bs_contexts t) \<Longrightarrow> text_len 1 128 (ct_assignment_id c)"
  "batch_ok t \<Longrightarrow> c \<in> set (bs_contexts t) \<Longrightarrow> ct_kind c = bs_kind t"
  "batch_ok t \<Longrightarrow> 1 \<le> bs_wave t"
  by (auto simp: batch_ok_def)

lemma set_drop_nth:
  "i < length xs \<Longrightarrow> set xs = insert (xs ! i) (set (drop_nth i xs))" "set (drop_nth i xs) \<subseteq> set xs"
  "i < length xs \<Longrightarrow> length xs = Suc (length (drop_nth i xs))"
proof -
  show "i < length xs \<Longrightarrow> set xs = insert (xs ! i) (set (drop_nth i xs))"
    by (subst (1) id_take_nth_drop [of i xs]) (auto simp: drop_nth_def)
  show "set (drop_nth i xs) \<subseteq> set xs"
    by (auto simp: drop_nth_def dest: in_set_takeD in_set_dropD)
qed (simp add: drop_nth_def)

lemma start_inv:
  assumes ok: "batch_ok t" and inv: "batch_inv t b s" and w: "ba_waiting b = c # ws"
  shows "wp (bindP (launch_begin env (bs_wave t) c) (\<lambda>l. ret (land c l (b\<lparr>ba_waiting := ws\<rparr>)))) (batch_inv t) (\<lambda>_ _. \<not> bs_sound t) s"
proof -
  have c: "c \<in> set (bs_contexts t)"
    using inv w by (auto simp: batch_inv_def)
  have snd: "bs_sound t \<longrightarrow> exec_ok (bs_base t) (ct_kind c) s"
    using inv batch_okD(2) [OF ok c] by (simp add: batch_inv_def)
  show ?thesis
    unfolding wp_bindP wp_ret
  proof (rule launch_begin_rule [OF batch_okD(1) [OF ok c] batch_okD(3) [OF ok] snd])
    fix a and s' :: exec_state
    assume "launched c (bs_wave t) a" "es_current s' = es_current s" "es_max s' \<in> {es_max s, max (es_max s) (es_current s + 1)}"
      "bs_sound t \<longrightarrow> exec_ok (bs_base t) (ct_kind c) s'"
    then show "batch_inv t (land c (Finished a) (b\<lparr>ba_waiting := ws\<rparr>)) s'"
      using inv w c batch_okD(2) [OF ok c] by (auto simp: batch_inv_def land_def store_result_def)
  next
    fix run and s' :: exec_state
    assume "suspended_ok c run" "entered s s'" "bs_sound t \<longrightarrow> exec_ok (bs_base t) (ct_kind c) s'"
    then show "batch_inv t (land c (Suspended run) (b\<lparr>ba_waiting := ws\<rparr>)) s'"
      using inv w c batch_okD(2) [OF ok c] by (auto simp: batch_inv_def land_def entered_def)
  qed simp
qed

lemma answer_inv:
  assumes ok: "batch_ok t" and inv: "batch_inv t b s" and i: "i < length (ba_running b)" "ba_running b ! i = (c, run)"
    and reply: "bs_sound t \<longrightarrow> reply_bounded reply"
  shows "wp (bindP (launch_resume env (bs_wave t) c run reply)
      (\<lambda>l. ret (land c l (b\<lparr>ba_running := drop_nth i (ba_running b)\<rparr>)))) (batch_inv t) (\<lambda>_ _. \<not> bs_sound t) s"
proof -
  have mem: "(c, run) \<in> set (ba_running b)"
    using i nth_mem by fastforce
  then have c: "c \<in> set (bs_contexts t)" "suspended_ok c run"
    using inv by (auto simp: batch_inv_def)
  have snd: "bs_sound t \<longrightarrow> exec_ok (bs_base t) (ct_kind c) s \<and> 1 \<le> es_current s \<and> reply_bounded reply"
    using inv batch_okD(2) [OF ok c(1)] reply i(1) by (auto simp: batch_inv_def)
  note d = set_drop_nth(1) [OF i(1)] set_drop_nth(2) [of i "ba_running b"] set_drop_nth(3) [OF i(1)]
  show ?thesis
    unfolding wp_bindP wp_ret
  proof (rule launch_resume_rule [OF batch_okD(1) [OF ok c(1)] batch_okD(3) [OF ok] c(2) snd])
    fix a and s' :: exec_state
    assume a: "launched c (bs_wave t) a" "es_current s' = es_current s - 1" "es_max s' = es_max s"
      "bs_sound t \<longrightarrow> exec_ok (bs_base t) (ct_kind c) s'"
    have "x \<in> set (ba_waiting b) \<or> x \<in> fst ` set (drop_nth i (ba_running b)) \<or> x = c \<or>
        map_of (ba_results b) (ct_assignment_id x) \<noteq> None" if "x \<in> set (bs_contexts t)" for x
      using inv that d(1) i(2) by (fastforce simp: batch_inv_def)
    then show "batch_inv t (land c (Finished a) (b\<lparr>ba_running := drop_nth i (ba_running b)\<rparr>)) s'"
      using inv a c d batch_okD(2) [OF ok c(1)] by (auto simp: batch_inv_def land_def store_result_def)
  qed simp
qed

lemma works_inv:
  assumes "batch_inv t b s" "call \<notin> {SlotAcquire, SlotRelease}"
  shows "batch_inv t b (s\<lparr>es_guard := map_option (final (call_prog env call)) (es_guard s)\<rparr>)"
proof -
  have "guard_inv (final (call_prog env call) g) \<and> slots n (final (call_prog env call) g)"
    if "guard_inv g" "slots n g" for g n
    using that assms(2) call_final_inv [of g call env] keeps_slots_call [OF assms(2), of n env] by (auto simp: keeps_def)
  then have "exec_ok (bs_base t) (bs_kind t) (s\<lparr>es_guard := map_option (final (call_prog env call)) (es_guard s)\<rparr>)" if "exec_ok (bs_base t) (bs_kind t) s"
    using that by (cases "es_guard s") (auto simp: exec_ok_def)
  with assms(1) show ?thesis
    by (simp add: batch_inv_def)
qed

lemma batch_step_inv:
  assumes ok: "batch_ok t" and inv: "batch_inv t b s" and st: "batch_step env (bs_wave t) ev b s = Some (r, s')"
    and sound: "bs_sound t \<longrightarrow> event_ok ev"
  shows "case r of Inl e \<Rightarrow> \<not> bs_sound t | Inr b' \<Rightarrow> batch_inv t b' s'"
proof (cases ev)
  case Starts
  with st obtain c ws where w: "ba_waiting b = c # ws"
    "bindP (launch_begin env (bs_wave t) c) (\<lambda>l. ret (land c l (b\<lparr>ba_waiting := ws\<rparr>))) s = (r, s')"
    by (auto split: list.splits)
  with start_inv [OF ok inv w(1)] show ?thesis
    by (simp add: wp_iff)
next
  case (Answers i reply)
  with st obtain c run where i: "i < length (ba_running b)" "ba_running b ! i = (c, run)"
    "bindP (launch_resume env (bs_wave t) c run reply) (\<lambda>l. ret (land c l (b\<lparr>ba_running := drop_nth i (ba_running b)\<rparr>))) s = (r, s')"
    by (auto split: if_splits prod.splits)
  with answer_inv [OF ok inv i(1,2), of reply] sound Answers show ?thesis
    by (simp add: wp_iff event_ok_def)
next
  case (Works call)
  with st inv show ?thesis
    using works_inv [OF inv, of call] by (auto split: if_splits)
qed

lemma run_batch_inv:
  assumes ok: "batch_ok t"
  shows "run_batch env (bs_wave t) evs b s = Some (r, s') \<Longrightarrow> batch_inv t b s \<Longrightarrow> (bs_sound t \<longrightarrow> list_all event_ok evs) \<Longrightarrow>
   case r of Inl e \<Rightarrow> \<not> bs_sound t | Inr b' \<Rightarrow> batch_inv t b' s' \<and> batch_done b'"
proof (induction evs arbitrary: b s)
  case (Cons ev evs)
  obtain r1 s1 where st: "batch_step env (bs_wave t) ev b s = Some (r1, s1)"
    using Cons.prems(1) by (auto split: option.splits)
  have "case r1 of Inl e \<Rightarrow> \<not> bs_sound t | Inr b' \<Rightarrow> batch_inv t b' s1"
    using batch_step_inv [OF ok Cons.prems(2) st] Cons.prems(3) by simp
  with Cons st show ?case
    by (auto split: sum.splits if_splits)
qed (auto split: if_splits)

text \<open>When the batch is done, every child of it is settled and none is running.\<close>

lemma batch_inv_done:
  assumes "batch_inv t b s" "batch_ok t" "batch_done b"
  shows "\<forall>c \<in> set (bs_contexts t). \<exists>a. map_of (ba_results b) (ct_assignment_id c) = Some a \<and> launched c (bs_wave t) a"
    and "es_current s = 0" "bs_peak t \<le> es_max s" "es_max s \<le> max (bs_peak t) (int (length (bs_contexts t)))" "bs_sound t \<longrightarrow> exec_ok (bs_base t) (bs_kind t) s"
proof -
  show "\<forall>c \<in> set (bs_contexts t). \<exists>a. map_of (ba_results b) (ct_assignment_id c) = Some a \<and> launched c (bs_wave t) a"
  proof
    fix c
    assume c: "c \<in> set (bs_contexts t)"
    then obtain a where a: "map_of (ba_results b) (ct_assignment_id c) = Some a"
      using assms by (auto simp: batch_inv_def batch_done_def)
    then obtain c' where "c' \<in> set (bs_contexts t)" "ct_assignment_id c' = ct_assignment_id c" "launched c' (bs_wave t) a"
      using assms(1) unfolding batch_inv_def by blast
    with c assms(2) have "launched c (bs_wave t) a"
      by (auto simp: batch_ok_def distinct_map inj_on_def)
    with a show "\<exists>a. map_of (ba_results b) (ct_assignment_id c) = Some a \<and> launched c (bs_wave t) a"
      by blast
  qed
qed (use assms in \<open>auto simp: batch_inv_def batch_done_def\<close>)

lemma new_batch_inv:
  "es_current s = 0 \<Longrightarrow> es_max s = bs_peak t \<Longrightarrow> (bs_sound t \<longrightarrow> exec_ok (bs_base t) (bs_kind t) s) \<Longrightarrow> batch_inv t (new_batch (bs_contexts t)) s"
  by (auto simp: batch_inv_def new_batch_def)

text \<open>A batch is never stuck: the next launch can start, or a suspended child can be answered, and either brings
  it nearer to its end. So whatever the executors answer, some order of events completes it.\<close>

lemma batch_completes:
  assumes sound: "bs_sound t" and ok: "batch_ok t" and R: "R \<noteq> {}" "\<forall>reply \<in> R. reply_bounded reply"
  shows "batch_inv t b s \<Longrightarrow> \<exists>evs b' s'. run_batch env (bs_wave t) evs b s = Some (Inr b', s') \<and>
    (\<forall>ev \<in> set evs. ev = Starts \<or> (\<exists>i. \<exists>reply \<in> R. ev = Answers i reply))"
proof (induction "2 * length (ba_waiting b) + length (ba_running b)" arbitrary: b s rule: less_induct)
  case less
  obtain reply where reply: "reply \<in> R" "reply_bounded reply"
    using R by blast
  consider (start) c ws where "ba_waiting b = c # ws" | (answer) c run rs where "ba_waiting b = []" "ba_running b = (c, run) # rs"
    | (finished) "batch_done b"
    by (cases "ba_waiting b"; cases "ba_running b") (auto simp: batch_done_def)
  then show ?case
  proof cases
    case start
    obtain r s1 where st: "batch_step env (bs_wave t) Starts b s = Some (r, s1)"
      using start by (cases "bindP (launch_begin env (bs_wave t) c) (\<lambda>l. ret (land c l (b\<lparr>ba_waiting := ws\<rparr>))) s") simp
    obtain b1 where b1: "r = Inr b1" "batch_inv t b1 s1"
      using batch_step_inv [OF ok less.prems st] sound by (cases r) (auto simp: event_ok_def)
    have "2 * length (ba_waiting b1) + length (ba_running b1) < 2 * length (ba_waiting b) + length (ba_running b)"
      using st start b1(1) by (auto simp: bindP_def land_def store_result_def split: prod.splits sum.splits launch.splits)
    from less.hyps [OF this b1(2)] obtain evs b' s' where "run_batch env (bs_wave t) evs b1 s1 = Some (Inr b', s')"
      "\<forall>ev \<in> set evs. ev = Starts \<or> (\<exists>i. \<exists>reply \<in> R. ev = Answers i reply)"
      by blast
    with st b1(1) show ?thesis
      by (intro exI [of _ "Starts # evs"]) auto
  next
    case answer
    have i: "0 < length (ba_running b)" "ba_running b ! 0 = (c, run)"
      using answer by simp_all
    obtain r s1 where st: "batch_step env (bs_wave t) (Answers 0 reply) b s = Some (r, s1)"
      using i by (cases "bindP (launch_resume env (bs_wave t) c run reply) (\<lambda>l. ret (land c l (b\<lparr>ba_running := drop_nth 0 (ba_running b)\<rparr>))) s") simp
    obtain b1 where b1: "r = Inr b1" "batch_inv t b1 s1"
      using batch_step_inv [OF ok less.prems st] sound reply(2) by (cases r) (auto simp: event_ok_def)
    have fin: "wp (launch_resume env (bs_wave t) c run reply) (\<lambda>l _. \<exists>a. l = Finished a) (\<lambda>_ _. True) s"
      unfolding launch_resume_def settle_outcome_def blocked_by_budget_def
      by (auto simp: wp_def catchP_def bindP_def thenP_def mk_scheduled_def split: prod.splits sum.splits if_splits
          schedule_error.splits child_error.splits budget_error.splits)
    have "2 * length (ba_waiting b1) + length (ba_running b1) < 2 * length (ba_waiting b) + length (ba_running b)"
      using st answer b1(1) fin
      by (auto simp: bindP_def land_def store_result_def drop_nth_def wp_def split: prod.splits sum.splits launch.splits)
    from less.hyps [OF this b1(2)] obtain evs b' s' where "run_batch env (bs_wave t) evs b1 s1 = Some (Inr b', s')"
      "\<forall>ev \<in> set evs. ev = Starts \<or> (\<exists>i. \<exists>reply \<in> R. ev = Answers i reply)"
      by blast
    with st b1(1) reply(1) show ?thesis
      by (intro exI [of _ "Answers 0 reply # evs"]) auto
  next
    case finished
    then show ?thesis
      by (intro exI [of _ "[]"]) simp
  qed
qed

end
