(* ===== verification/SchedulerExecution.thy ===== *)
theory SchedulerExecution
  imports SchedulerBatches
begin

section \<open>Executing a schedule\<close>

text \<open>
  Every wave settles the cancelled and the blocked children and runs the others in batches. Over all waves,
  each context is accounted for exactly once, after its dependencies, and the execution raises
  nothing when the guard is sound and the executors' error texts fit their fields.
\<close>

subsection \<open>Settling a wave\<close>

definition verdict :: "string list \<Rightarrow> int \<Rightarrow> completed \<Rightarrow> child_context \<Rightarrow> scheduled_assignment option" where
  "verdict cancelled wave completed c = (
     if ct_assignment_id c \<in> set cancelled then
       Some (unlaunched c wave ASSIGN_CANCELLED ''SCHEDULE_ASSIGNMENT_CANCELLED''
         ''Submit a new schedule if this assignment is still required.'')
     else if failed_dependencies completed c \<noteq> [] then
       Some (unlaunched c wave ASSIGN_BLOCKED ''SCHEDULE_PREREQUISITE_FAILED''
         (''Repair or rerun prerequisites: '' @ join_names (failed_dependencies completed c)))
     else None)"

lemma failed_dependencies_cong:
  "(\<And>d. d \<in> set (ct_dependency_assignment_ids c) \<Longrightarrow> map_of m d = map_of m' d) \<Longrightarrow>
   failed_dependencies m c = failed_dependencies m' c"
  unfolding failed_dependencies_def by (intro filter_cong) simp_all

lemma verdict_cong:
  "(\<And>d. d \<in> set (ct_dependency_assignment_ids c) \<Longrightarrow> map_of m d = map_of m' d) \<Longrightarrow>
   verdict cancelled wave m c = verdict cancelled wave m' c"
  using failed_dependencies_cong [of c m m'] by (simp add: verdict_def)

text \<open>The dependencies of a wave lie outside it.\<close>

definition apart :: "child_context list \<Rightarrow> bool" where
  "apart cs = (\<forall>c \<in> set cs. set (ct_dependency_assignment_ids c) \<inter> set (ids cs) = {})"

lemma apart_Cons: "apart (c # cs) \<Longrightarrow> apart cs"
  by (auto simp: apart_def)

lemma settle_wave_result:
  assumes "settle_wave cancelled wave cs completed = Inr (completed', runnable)" "distinct (ids cs)" "apart cs"
    "\<forall>c \<in> set cs. map_of completed (ct_assignment_id c) = None"
  shows "runnable = filter (\<lambda>c. verdict cancelled wave completed c = None) cs \<and>
    (\<forall>c \<in> set cs. map_of completed' (ct_assignment_id c) = verdict cancelled wave completed c) \<and>
    (\<forall>c \<in> set cs. \<forall>a. verdict cancelled wave completed c = Some a \<longrightarrow> valid_scheduled a) \<and>
    (\<forall>i. i \<notin> set (ids cs) \<longrightarrow> map_of completed' i = map_of completed i)"
  using assms
proof (induction cs arbitrary: completed completed' runnable)
  case (Cons c cs)
  have same: "verdict cancelled wave (AList.update (ct_assignment_id c) a completed) x = verdict cancelled wave completed x"
    if "x \<in> set cs" for x a
    using Cons.prems(3) that by (intro verdict_cong) (auto simp: apart_def)
  show ?case
  proof (cases "verdict cancelled wave completed c")
    case None
    then have nc: "ct_assignment_id c \<notin> set cancelled" "failed_dependencies completed c = []"
      by (auto simp: verdict_def split: if_splits)
    with Cons.prems(1) obtain r where r: "settle_wave cancelled wave cs completed = Inr (completed', r)" "runnable = c # r"
      by (auto simp: Let_def split: if_splits sum.splits)
    with Cons.IH [OF r(1)] Cons.prems None show ?thesis
      by (auto simp: apart_Cons)
  next
    case (Some a)
    then have a: "valid_scheduled a"
        "settle_wave cancelled wave cs (AList.update (ct_assignment_id c) a completed) = Inr (completed', runnable)"
      using Cons.prems(1) by (auto simp: verdict_def Let_def split: if_splits)
    have fresh: "\<forall>x \<in> set cs. map_of (AList.update (ct_assignment_id c) a completed) (ct_assignment_id x) = None"
      using Cons.prems(2,4) by (auto simp: image_iff)
    note ih = Cons.IH [OF a(2) _ apart_Cons [OF Cons.prems(3)] fresh]
    have "filter (\<lambda>x. verdict cancelled wave (AList.update (ct_assignment_id c) a completed) x = None) cs =
        filter (\<lambda>x. verdict cancelled wave completed x = None) cs"
      using same by (intro filter_cong) simp_all
    then show ?thesis
      using ih Cons.prems(2) Some same a(1) by auto
  qed
qed simp

lemma length_join_names: "length (join_names xs) \<le> sum_list (map length xs) + 2 * length xs"
proof (cases xs)
  case (Cons y ys)
  have "length (concat (map ((@) '', '') ys)) = sum_list (map length ys) + 2 * length ys"
    by (induction ys) simp_all
  with Cons show ?thesis
    by (simp add: join_names_def)
qed (simp add: join_names_def)

text \<open>Contexts whose names fit: what \<open>valid_child_context\<close> says of identifiers and of the dependency list.\<close>

definition named :: "child_context \<Rightarrow> bool" where
  "named c = (text_len 1 128 (ct_assignment_id c) \<and> length (ct_dependency_assignment_ids c) \<le> 4 \<and>
     (\<forall>d \<in> set (ct_dependency_assignment_ids c). length d \<le> 128))"

lemma verdict_valid:
  assumes "named c" "1 \<le> wave" "verdict cancelled wave completed c = Some a"
  shows "valid_scheduled a" "settled c wave a" "sa_outcome a = None" "sa_wave a = wave"
proof -
  let ?f = "failed_dependencies completed c"
  have "length ?f \<le> length (ct_dependency_assignment_ids c)"
    unfolding failed_dependencies_def by (rule length_filter_le)
  then have "length ?f \<le> 4"
    using assms(1) unfolding named_def by linarith
  have "set ?f \<subseteq> set (ct_dependency_assignment_ids c)"
    by (auto simp: failed_dependencies_def)
  then have "length d \<le> 128" if "d \<in> set ?f" for d
    using assms(1) that by (auto simp: named_def)
  then have "sum_list (map length ?f) \<le> 128 * length ?f"
    using sum_list_mono [of ?f length "\<lambda>_. 128"] by (simp add: sum_list_triv)
  with \<open>length ?f \<le> 4\<close> have "length (join_names ?f) \<le> 600"
    using length_join_names [of ?f] by linarith
  then have t: "text_len 0 1000 (''Repair or rerun prerequisites: '' @ join_names ?f)"
    by (simp add: text_len_def)
  have u: "text_len 0 128 ''SCHEDULE_PREREQUISITE_FAILED''" "text_len 0 128 ''SCHEDULE_ASSIGNMENT_CANCELLED''"
    "text_len 0 1000 ''Submit a new schedule if this assignment is still required.''"
    by (simp_all add: text_len_def)
  show "valid_scheduled a" "settled c wave a" "sa_outcome a = None" "sa_wave a = wave"
    using assms t u
    by (auto simp: verdict_def unlaunched_def valid_scheduled_def settled_def named_def split: if_splits)
qed

lemma settle_wave_total:
  assumes "\<forall>c \<in> set cs. named c" "1 \<le> wave"
    "\<forall>c \<in> set cs. \<forall>d \<in> set (ct_dependency_assignment_ids c). map_of completed d \<noteq> None"
  shows "\<exists>r. settle_wave cancelled wave cs completed = Inr r"
  using assms
proof (induction cs arbitrary: completed)
  case (Cons c cs)
  show ?case
  proof (cases "verdict cancelled wave completed c")
    case None
    have "\<exists>r. settle_wave cancelled wave cs completed = Inr r"
      using Cons.IH [of completed] Cons.prems by simp
    with None Cons.prems(3) show ?thesis
      by (auto simp: verdict_def Let_def list_ex_iff split: if_splits)
  next
    case (Some a)
    have "valid_scheduled a"
      using verdict_valid(1) [OF _ Cons.prems(2) Some] Cons.prems(1) by simp
    moreover have "\<exists>r. settle_wave cancelled wave cs (AList.update (ct_assignment_id c) a completed) = Inr r"
      using Cons.prems by (intro Cons.IH) auto
    ultimately show ?thesis
      using Some Cons.prems(3) by (auto simp: verdict_def Let_def list_ex_iff split: if_splits)
  qed
qed simp


subsection \<open>Batches of a wave\<close>

lemma concat_slices: "0 < n \<Longrightarrow> length xs \<le> k \<Longrightarrow> concat (slices k n xs) = xs"
  by (induction k n xs rule: slices.induct) auto

lemma slices_length: "b \<in> set (slices k n xs) \<Longrightarrow> length b \<le> n"
  by (induction k n xs rule: slices.induct) (auto split: if_splits)

lemma batches_of_mset:
  "0 < n \<Longrightarrow> mset (concat (batches_of n cs)) = mset cs"
proof -
  assume "0 < n"
  have "concat (map (\<lambda>c. [c]) xs) = xs" for xs :: "child_context list"
    by (induction xs) simp_all
  moreover have "filter (\<lambda>c. ct_side_effect_class c = MUTATING) cs = filter (\<lambda>c. \<not> ct_side_effect_class c = READ_ONLY) cs"
    by (intro filter_cong) (auto intro: side_effect_class.exhaust)
  ultimately show ?thesis
    using concat_slices [OF \<open>0 < n\<close> order_refl, of "filter (\<lambda>c. ct_side_effect_class c = READ_ONLY) cs"]
    by (simp add: batches_of_def Let_def)
qed

text \<open>A batch is a slice of read-only children, no longer than the limit, or one mutating child alone.\<close>

lemma batches_of_shape:
  "b \<in> set (batches_of n cs) \<Longrightarrow>
   (length b \<le> n \<and> (\<forall>c \<in> set b. ct_side_effect_class c = READ_ONLY)) \<or> (\<exists>c. b = [c] \<and> ct_side_effect_class c = MUTATING)"
proof -
  assume b: "b \<in> set (batches_of n cs)"
  have "set x \<subseteq> set xs" if "x \<in> set (slices k n xs)" for k x and xs :: "child_context list"
    using that by (induction k n xs rule: slices.induct) (auto split: if_splits dest: in_set_takeD in_set_dropD)
  with b show ?thesis
    by (fastforce simp: batches_of_def Let_def dest: slices_length)
qed

definition scripts_ok :: "script list \<Rightarrow> bool" where
  "scripts_ok scripts = list_all (list_all event_ok) scripts"

definition update_all :: "(string \<times> scheduled_assignment) list \<Rightarrow> child_context list \<Rightarrow> completed \<Rightarrow> completed" where
  "update_all results cs completed =
     foldl (\<lambda>d c. AList.update (ct_assignment_id c) (the (map_of results (ct_assignment_id c))) d) completed cs"

lemma map_of_update_all:
  "map_of (update_all results cs completed) i =
     (if i \<in> set (ids cs) then Some (the (map_of results i)) else map_of completed i)"
  unfolding update_all_def by (induction cs arbitrary: completed) auto

text \<open>What holds between batches.\<close>

definition idle :: "int \<Rightarrow> child_kind \<Rightarrow> bool \<Rightarrow> exec_state \<Rightarrow> bool" where
  "idle base kind sound s = (es_current s = 0 \<and> 0 \<le> es_max s \<and> (sound \<longrightarrow> exec_ok base kind s))"

lemma run_batches_rule:
  assumes "run_batches env wave bs scripts completed s = Some (r, s', scripts')"
    and "1 \<le> wave" "distinct (ids (concat bs))" "\<forall>c \<in> set (concat bs). named c \<and> ct_kind c = kind"
    and "idle base kind sound s" "sound \<longrightarrow> scripts_ok scripts"
  shows "case r of Inl e \<Rightarrow> \<not> sound
    | Inr completed' \<Rightarrow> idle base kind sound s' \<and> (sound \<longrightarrow> scripts_ok scripts') \<and>
        (\<forall>m \<ge> es_max s. (\<forall>b \<in> set bs. int (length b) \<le> m) \<longrightarrow> es_max s' \<le> m) \<and>
        (\<forall>c \<in> set (concat bs). \<exists>a. map_of completed' (ct_assignment_id c) = Some a \<and> launched c wave a) \<and>
        (\<forall>i. i \<notin> set (ids (concat bs)) \<longrightarrow> map_of completed' i = map_of completed i)"
  using assms
proof (induction env wave bs scripts completed s rule: run_batches.induct)
  case (3 env wave b bs evs scripts completed s)
  let ?t = "\<lparr>bs_wave = wave, bs_contexts = b, bs_kind = kind, bs_base = base, bs_sound = sound, bs_peak = es_max s\<rparr>"
  have ok: "batch_ok ?t"
    using 3(3,4,5) by (auto simp: batch_ok_def named_def)
  have inv: "batch_inv ?t (new_batch b) s"
    using new_batch_inv [of s ?t] 3(6) by (simp add: idle_def)
  obtain r1 s1 where run: "run_batch env wave evs (new_batch b) s = Some (r1, s1)"
    using 3(2) by (auto split: option.splits)
  have res: "case r1 of Inl e \<Rightarrow> \<not> sound | Inr b' \<Rightarrow> batch_inv ?t b' s1 \<and> batch_done b'"
    using run_batch_inv [OF ok, of env evs "new_batch b" s r1 s1] run inv 3(7) by (cases r1) (simp_all add: scripts_ok_def)
  show ?case
  proof (cases r1)
    case (Inl e)
    with res run 3(2) show ?thesis
      by (cases r) simp_all
  next
    case (Inr b')
    have b': "batch_inv ?t b' s1" "batch_done b'"
      using res Inr by simp_all
    note d = batch_inv_done [OF b'(1) ok b'(2), simplified]
    let ?c = "update_all (ba_results b') b completed"
    have rest: "run_batches env wave bs scripts ?c s1 = Some (r, s', scripts')"
      using 3(2) run Inr by (simp add: update_all_def)
    have IH: "case r of Inl e \<Rightarrow> \<not> sound
      | Inr completed' \<Rightarrow> idle base kind sound s' \<and> (sound \<longrightarrow> scripts_ok scripts') \<and>
          (\<forall>m \<ge> es_max s1. (\<forall>b \<in> set bs. int (length b) \<le> m) \<longrightarrow> es_max s' \<le> m) \<and>
          (\<forall>c \<in> set (concat bs). \<exists>a. map_of completed' (ct_assignment_id c) = Some a \<and> launched c wave a) \<and>
          (\<forall>i. i \<notin> set (ids (concat bs)) \<longrightarrow> map_of completed' i = map_of ?c i)"
      using 3(1) [OF run refl Inr, folded update_all_def, OF rest 3(3)] 3(4-7) d by (simp add: idle_def scripts_ok_def)
    have own: "map_of completed' (ct_assignment_id c) = Some (the (map_of (ba_results b') (ct_assignment_id c)))"
      if "\<forall>i. i \<notin> set (ids (concat bs)) \<longrightarrow> map_of completed' i = map_of ?c i" "c \<in> set b" for completed' c
    proof -
      have "ct_assignment_id c \<notin> set (ids (concat bs))" "ct_assignment_id c \<in> set (ids b)"
        using 3(4) that(2) by auto
      with that(1) show ?thesis
        by (simp add: map_of_update_all)
    qed
    show ?thesis
    proof (cases r)
      case (Inr completed')
      note IH = IH [unfolded Inr sum.case]
      have max: "es_max s' \<le> m" if "es_max s \<le> m" "\<forall>x \<in> set (b # bs). int (length x) \<le> m" for m
        using IH d(4) that by auto
      have "\<exists>a. map_of completed' (ct_assignment_id c) = Some a \<and> launched c wave a" if "c \<in> set (concat (b # bs))" for c
        using IH own [of completed' c] d(1) that by fastforce
      moreover have "map_of completed' i = map_of completed i" if "i \<notin> set (ids (concat (b # bs)))" for i
        using IH that by (simp add: map_of_update_all)
      ultimately show ?thesis
        using IH max Inr by simp
    qed (use IH in simp)
  qed
qed auto


subsection \<open>All waves\<close>

text \<open>How a context is accounted for in the results: settled, in a later wave than all it depends on; cancelled exactly when
  its cancellation was asked for; blocked without a launch when a dependency did not complete; launched otherwise.\<close>

definition accounted :: "string list \<Rightarrow> completed \<Rightarrow> child_context \<Rightarrow> bool" where
  "accounted cancelled completed c = (\<exists>a. map_of completed (ct_assignment_id c) = Some a \<and> settled c (sa_wave a) a \<and>
     (\<forall>d \<in> set (ct_dependency_assignment_ids c). \<exists>b. map_of completed d = Some b \<and> sa_wave b < sa_wave a) \<and>
     (if ct_assignment_id c \<in> set cancelled then sa_status a = ASSIGN_CANCELLED \<and> sa_outcome a = None
      else if failed_dependencies completed c \<noteq> []
      then sa_status a = ASSIGN_BLOCKED \<and> sa_outcome a = None \<and> sa_error_code a = Some ''SCHEDULE_PREREQUISITE_FAILED''
      else sa_status a \<noteq> ASSIGN_CANCELLED))"

lemma accounted_extend:
  assumes "accounted cancelled m c" "\<And>i. map_of m i \<noteq> None \<Longrightarrow> map_of m' i = map_of m i"
  shows "accounted cancelled m' c"
proof -
  obtain a where a: "map_of m (ct_assignment_id c) = Some a" "settled c (sa_wave a) a"
    "\<forall>d \<in> set (ct_dependency_assignment_ids c). \<exists>b. map_of m d = Some b \<and> sa_wave b < sa_wave a"
    using assms(1) by (auto simp: accounted_def)
  have deps: "map_of m' d = map_of m d" if "d \<in> set (ct_dependency_assignment_ids c)" for d
    using a(3) assms(2) that by fastforce
  then have "failed_dependencies m' c = failed_dependencies m c"
    by (rule failed_dependencies_cong)
  moreover have "map_of m' (ct_assignment_id c) = Some a"
    using a(1) assms(2) by simp
  ultimately show ?thesis
    using assms(1) a deps by (simp add: accounted_def)
qed

text \<open>One wave, given the results of the earlier ones.\<close>

definition before_wave :: "int \<Rightarrow> completed \<Rightarrow> bool" where
  "before_wave wave completed = (\<forall>i a. map_of completed i = Some a \<longrightarrow> sa_wave a < wave)"

lemma wave_accounted:
  assumes w: "distinct (ids w)" "\<forall>c \<in> set w. named c" "1 \<le> wave"
    and fresh: "\<forall>c \<in> set w. map_of completed (ct_assignment_id c) = None"
    and deps: "\<forall>c \<in> set w. \<forall>d \<in> set (ct_dependency_assignment_ids c). map_of completed d \<noteq> None"
    and early: "before_wave wave completed"
    and settle: "settle_wave cancelled wave w completed = Inr (completed1, runnable)"
    and run: "\<forall>c \<in> set runnable. \<exists>a. map_of completed2 (ct_assignment_id c) = Some a \<and> launched c wave a"
    and keep: "\<forall>i. i \<notin> set (ids runnable) \<longrightarrow> map_of completed2 i = map_of completed1 i"
  shows "\<forall>c \<in> set w. accounted cancelled completed2 c"
    and "\<forall>i. map_of completed i \<noteq> None \<longrightarrow> map_of completed2 i = map_of completed i"
    and "\<forall>i. map_of completed2 i \<noteq> None \<longleftrightarrow> map_of completed i \<noteq> None \<or> i \<in> set (ids w)"
    and "before_wave (wave + 1) completed2"
proof -
  have apart: "apart w"
    unfolding apart_def using fresh deps by fastforce
  note r = settle_wave_result [OF settle w(1) apart fresh]
  have sub: "set (ids runnable) \<subseteq> set (ids w)"
    using r by auto
  have old: "map_of completed2 i = map_of completed i" if "i \<notin> set (ids w)" for i
    using r keep sub that by auto
  have "i \<notin> set (ids w)" if "map_of completed i \<noteq> None" for i
    using fresh that by auto
  with old show keeps: "\<forall>i. map_of completed i \<noteq> None \<longrightarrow> map_of completed2 i = map_of completed i"
    by blast
  have entry: "\<exists>a. map_of completed2 (ct_assignment_id c) = Some a \<and> settled c wave a \<and> sa_wave a = wave \<and>
      (case verdict cancelled wave completed c of None \<Rightarrow> sa_status a \<noteq> ASSIGN_CANCELLED | Some v \<Rightarrow> a = v)"
    if c: "c \<in> set w" for c
  proof (cases "verdict cancelled wave completed c")
    case None
    then have "c \<in> set runnable"
      using r c by simp
    with run None show ?thesis
      by (fastforce simp: launched_def settled_def)
  next
    case (Some v)
    have "x = c" if "x \<in> set w" "ct_assignment_id x = ct_assignment_id c" for x
      using w(1) c that by (auto simp: distinct_map inj_on_def)
    then have "ct_assignment_id c \<notin> set (ids runnable)"
      using r Some by auto
    with keep r c Some verdict_valid [OF _ w(3) Some] w(2) show ?thesis
      by auto
  qed
  have dep: "\<exists>b. map_of completed2 d = Some b \<and> sa_wave b < wave" if cd: "c \<in> set w" "d \<in> set (ct_dependency_assignment_ids c)" for c d
  proof -
    obtain b where b: "map_of completed d = Some b"
      using deps [rule_format, OF cd] by (cases "map_of completed d") simp_all
    then have "map_of completed2 d = Some b" "sa_wave b < wave"
      using early keeps [rule_format, of d] by (simp_all add: before_wave_def)
    then show ?thesis
      by blast
  qed
  have failed: "failed_dependencies completed2 c = failed_dependencies completed c" if "c \<in> set w" for c
    by (intro failed_dependencies_cong keeps [rule_format]) (rule deps [rule_format, OF that])
  show "\<forall>c \<in> set w. accounted cancelled completed2 c"
  proof
    fix c
    assume c: "c \<in> set w"
    then obtain a where a: "map_of completed2 (ct_assignment_id c) = Some a" "settled c wave a" "sa_wave a = wave"
        "case verdict cancelled wave completed c of None \<Rightarrow> sa_status a \<noteq> ASSIGN_CANCELLED | Some v \<Rightarrow> a = v"
      using entry by blast
    with dep [OF c] failed [OF c] show "accounted cancelled completed2 c"
      by (auto simp: accounted_def verdict_def unlaunched_def split: if_splits)
  qed
  show "\<forall>i. map_of completed2 i \<noteq> None \<longleftrightarrow> map_of completed i \<noteq> None \<or> i \<in> set (ids w)"
    using old entry keeps by (metis (no_types, lifting) ex_map_conv imageE list.set_map option.distinct(1))
  show "before_wave (wave + 1) completed2"
    unfolding before_wave_def
  proof (intro allI impI)
    fix i a
    assume a: "map_of completed2 i = Some a"
    show "sa_wave a < wave + 1"
    proof (cases "i \<in> set (ids w)")
      case True
      then show ?thesis
        using a entry by fastforce
    next
      case False
      with a old early show ?thesis
        by (fastforce simp: before_wave_def)
    qed
  qed
qed


text \<open>What the remaining waves need of the results so far, and what one wave does with it.\<close>

definition waves_ready :: "child_kind \<Rightarrow> int \<Rightarrow> child_context list list \<Rightarrow> completed \<Rightarrow> bool" where
  "waves_ready kind wave ws completed = (1 \<le> wave \<and> distinct (ids (concat ws)) \<and>
     (\<forall>c \<in> set (concat ws). named c \<and> ct_kind c = kind) \<and>
     layered {i. map_of completed i \<noteq> None} ws \<and>
     (\<forall>c \<in> set (concat ws). map_of completed (ct_assignment_id c) = None) \<and> before_wave wave completed)"

lemma ready_first:
  assumes "waves_ready kind wave (w # ws) completed"
  shows "distinct (ids w)" "\<forall>c \<in> set w. named c" "\<forall>c \<in> set w. map_of completed (ct_assignment_id c) = None"
    "\<forall>c \<in> set w. \<forall>d \<in> set (ct_dependency_assignment_ids c). map_of completed d \<noteq> None" "1 \<le> wave" "apart w"
proof -
  show w: "distinct (ids w)" "\<forall>c \<in> set w. named c" "\<forall>c \<in> set w. map_of completed (ct_assignment_id c) = None"
    "\<forall>c \<in> set w. \<forall>d \<in> set (ct_dependency_assignment_ids c). map_of completed d \<noteq> None" "1 \<le> wave"
    using assms by (auto simp: waves_ready_def)
  show "apart w"
    unfolding apart_def using w(3,4) by fastforce
qed

lemma ready_batches:
  assumes ready: "waves_ready kind wave (w # ws) completed" and "1 \<le> active"
    and settle: "settle_wave cancelled wave w completed = Inr (completed1, runnable)"
  shows "set (concat (batches_of (nat active) runnable)) = set runnable"
    "distinct (ids (concat (batches_of (nat active) runnable)))"
    "\<forall>c \<in> set (concat (batches_of (nat active) runnable)). named c \<and> ct_kind c = kind"
proof -
  let ?bs = "batches_of (nat active) runnable"
  have runnable: "runnable = filter (\<lambda>c. verdict cancelled wave completed c = None) w"
    using settle_wave_result [OF settle ready_first(1,6,3) [OF ready]] by simp
  have ms: "mset (concat ?bs) = mset runnable"
    using assms(2) by (intro batches_of_mset) simp
  show bs: "set (concat ?bs) = set runnable" "distinct (ids (concat ?bs))"
    using ready_first(1) [OF ready] runnable mset_eq_setD [OF ms] mset_eq_imp_distinct_iff [of "ids (concat ?bs)" "ids runnable"] ms
    by (simp_all add: distinct_map_filter)
  show "\<forall>c \<in> set (concat ?bs). named c \<and> ct_kind c = kind"
    unfolding bs(1) using ready runnable by (auto simp: waves_ready_def)
qed

lemma wave_step:
  assumes ready: "waves_ready kind wave (w # ws) completed" and active: "1 \<le> active"
    and idle: "idle base kind sound s" and scripts: "sound \<longrightarrow> scripts_ok scripts"
    and settle: "settle_wave cancelled wave w completed = Inr (completed1, runnable)"
    and run: "run_batches env wave (batches_of (nat active) runnable) scripts completed1 s = Some (Inr completed2, s1, scripts1)"
  shows "waves_ready kind (wave + 1) ws completed2" "idle base kind sound s1" "sound \<longrightarrow> scripts_ok scripts1"
    "es_max s1 \<le> max (es_max s) active" "\<forall>c \<in> set w. accounted cancelled completed2 c"
    "\<forall>i. map_of completed i \<noteq> None \<longrightarrow> map_of completed2 i = map_of completed i"
proof -
  note bs = ready_batches [OF ready active settle]
  note res = run_batches_rule [OF run ready_first(5) [OF ready] bs(2,3) idle scripts, unfolded sum.case]
  have acc: "\<forall>c \<in> set w. accounted cancelled completed2 c"
    "\<forall>i. map_of completed i \<noteq> None \<longrightarrow> map_of completed2 i = map_of completed i"
    "\<forall>i. map_of completed2 i \<noteq> None \<longleftrightarrow> map_of completed i \<noteq> None \<or> i \<in> set (ids w)"
    "before_wave (wave + 1) completed2"
    using res ready
    by (intro wave_accounted [OF ready_first(1,2,5,3,4) [OF ready] _ settle]; simp add: waves_ready_def bs(1) [simplified])+
  have dom: "{i. map_of completed2 i \<noteq> None} = {i. map_of completed i \<noteq> None} \<union> ct_assignment_id ` set w"
    using acc(3) by auto
  have "map_of completed2 (ct_assignment_id c) = None" if "c \<in> set (concat ws)" for c
  proof -
    have "ct_assignment_id c \<notin> set (ids w)" "map_of completed (ct_assignment_id c) = None"
      using ready that by (auto simp: waves_ready_def)
    with acc(3) show ?thesis
      by blast
  qed
  with ready acc(4) dom show "waves_ready kind (wave + 1) ws completed2"
    by (auto simp: waves_ready_def)
  have "int (length b) \<le> max (es_max s) active" if "b \<in> set (batches_of (nat active) runnable)" for b
    using batches_of_shape [OF that] active by auto
  then show "es_max s1 \<le> max (es_max s) active"
    using res by simp
  show "idle base kind sound s1" "sound \<longrightarrow> scripts_ok scripts1" "\<forall>c \<in> set w. accounted cancelled completed2 c"
    "\<forall>i. map_of completed i \<noteq> None \<longrightarrow> map_of completed2 i = map_of completed i"
    using res acc by simp_all
qed

lemma run_waves_rule:
  assumes "run_waves env cancelled active wave ws scripts completed s = Some (r, s', scripts')"
    and "waves_ready kind wave ws completed" "1 \<le> active" "idle base kind sound s" "sound \<longrightarrow> scripts_ok scripts"
  shows "case r of Inl e \<Rightarrow> \<not> sound
    | Inr completed' \<Rightarrow> idle base kind sound s' \<and> es_max s' \<le> max (es_max s) active \<and>
        (\<forall>c \<in> set (concat ws). accounted cancelled completed' c) \<and>
        (\<forall>i. map_of completed i \<noteq> None \<longrightarrow> map_of completed' i = map_of completed i)"
  using assms
proof (induction ws arbitrary: wave scripts completed s)
  case (Cons w ws)
  note first = ready_first [OF Cons.prems(2)]
  obtain completed1 runnable where settle: "settle_wave cancelled wave w completed = Inr (completed1, runnable)"
    using settle_wave_total [OF first(2,5,4), of cancelled] by auto
  obtain r1 s1 scripts1 where run: "run_batches env wave (batches_of (nat active) runnable) scripts completed1 s =
      Some (r1, s1, scripts1)"
    using Cons.prems(1,3) settle by (auto split: option.splits)
  show ?case
  proof (cases r1)
    case (Inl e)
    then show ?thesis
      using run_batches_rule [OF run first(5) ready_batches(2,3) [OF Cons.prems(2,3) settle] Cons.prems(4,5)]
        run settle Cons.prems(1,3) by (cases r) simp_all
  next
    case (Inr completed2)
    note step = wave_step [OF Cons.prems(2-5) settle run [unfolded Inr]]
    have "run_waves env cancelled active (wave + 1) ws scripts1 completed2 s1 = Some (r, s', scripts')"
      using Cons.prems(1,3) settle run Inr by simp
    note ih = Cons.IH [OF this step(1) Cons.prems(3) step(2,3)]
    show ?thesis
    proof (cases r)
      case (Inr completed')
      note ih = ih [unfolded Inr sum.case]
      have "accounted cancelled completed' c" if "c \<in> set w" for c
        using step(5) ih that by (intro accounted_extend [of cancelled completed2 c completed']) auto
      moreover have "map_of completed' i = map_of completed i" if "map_of completed i \<noteq> None" for i
        using step(6) ih that by simp
      ultimately show ?thesis
        using ih step(4) Inr by auto
    qed (use ih in simp)
  qed
qed (auto simp: idle_def)

subsection \<open>Progress\<close>

definition scripts_from :: "child_reply set \<Rightarrow> script list \<Rightarrow> bool" where
  "scripts_from R scripts = (\<forall>evs \<in> set scripts. \<forall>ev \<in> set evs. ev = Starts \<or> (\<exists>i. \<exists>reply \<in> R. ev = Answers i reply))"

lemma scripts_from_append [simp]: "scripts_from R (xs @ ys) = (scripts_from R xs \<and> scripts_from R ys)"
  by (auto simp: scripts_from_def)

lemma scripts_from_ok: "scripts_from R scripts \<Longrightarrow> \<forall>reply \<in> R. reply_bounded reply \<Longrightarrow> scripts_ok scripts"
  unfolding scripts_from_def scripts_ok_def list_all_iff event_ok_def by fastforce

lemma run_batches_completes:
  assumes R: "R \<noteq> {}" "\<forall>reply \<in> R. reply_bounded reply" and "1 \<le> wave"
  shows "distinct (ids (concat bs)) \<Longrightarrow> \<forall>c \<in> set (concat bs). named c \<and> ct_kind c = kind \<Longrightarrow> idle base kind True s \<Longrightarrow>
    \<exists>scripts completed' s'. scripts_from R scripts \<and>
      (\<forall>rest. run_batches env wave bs (scripts @ rest) completed s = Some (Inr completed', s', rest))"
proof (induction bs arbitrary: completed s)
  case Nil
  then show ?case
    by (intro exI [of _ "[]"] exI [of _ completed] exI [of _ s]) (simp add: scripts_from_def)
next
  case (Cons b bs)
  let ?t = "\<lparr>bs_wave = wave, bs_contexts = b, bs_kind = kind, bs_base = base, bs_sound = True, bs_peak = es_max s\<rparr>"
  have ok: "batch_ok ?t"
    using Cons.prems assms(3) by (auto simp: batch_ok_def named_def)
  have inv: "batch_inv ?t (new_batch b) s"
    using new_batch_inv [of s ?t] Cons.prems(3) by (simp add: idle_def)
  obtain evs b' s1 where run: "run_batch env wave evs (new_batch b) s = Some (Inr b', s1)"
      and evs: "\<forall>ev \<in> set evs. ev = Starts \<or> (\<exists>i. \<exists>reply \<in> R. ev = Answers i reply)"
    using batch_completes [OF _ ok R inv, of env] by auto
  have "list_all event_ok evs"
    using scripts_from_ok [of R "[evs]"] evs R(2) by (simp add: scripts_from_def scripts_ok_def)
  then have "batch_inv ?t b' s1" "batch_done b'"
    using run_batch_inv [OF ok, of env evs "new_batch b" s] run inv by simp_all
  then have "idle base kind True s1"
    using batch_inv_done [of ?t b' s1] ok Cons.prems(3) by (auto simp: idle_def)
  then obtain scripts completed' s' where rest: "scripts_from R scripts"
      "\<forall>rest. run_batches env wave bs (scripts @ rest) (update_all (ba_results b') b completed) s1 = Some (Inr completed', s', rest)"
    using Cons.IH [of s1 "update_all (ba_results b') b completed"] Cons.prems(1,2) by auto
  then show ?case
    using run evs by (intro exI [of _ "evs # scripts"] exI [of _ completed'] exI [of _ s'])
      (auto simp: scripts_from_def update_all_def)
qed

lemma run_waves_completes:
  assumes R: "R \<noteq> {}" "\<forall>reply \<in> R. reply_bounded reply" and active: "1 \<le> active"
  shows "waves_ready kind wave ws completed \<Longrightarrow> idle base kind True s \<Longrightarrow>
    \<exists>scripts completed' s'. scripts_from R scripts \<and>
      (\<forall>rest. run_waves env cancelled active wave ws (scripts @ rest) completed s = Some (Inr completed', s', rest))"
proof (induction ws arbitrary: wave completed s)
  case Nil
  then show ?case
    by (intro exI [of _ "[]"] exI [of _ completed] exI [of _ s]) (simp add: scripts_from_def)
next
  case (Cons w ws)
  note first = ready_first [OF Cons.prems(1)]
  obtain completed1 runnable where settle: "settle_wave cancelled wave w completed = Inr (completed1, runnable)"
    using settle_wave_total [OF first(2,5,4), of cancelled] by auto
  obtain scripts1 completed2 s1 where one: "scripts_from R scripts1"
      "\<forall>rest. run_batches env wave (batches_of (nat active) runnable) (scripts1 @ rest) completed1 s = Some (Inr completed2, s1, rest)"
    using run_batches_completes [OF R first(5) ready_batches(2,3) [OF Cons.prems(1) active settle] Cons.prems(2), of env completed1]
    by blast
  have run1: "run_batches env wave (batches_of (nat active) runnable) scripts1 completed1 s = Some (Inr completed2, s1, [])"
    using one(2) [rule_format, of "[]"] by simp
  have "scripts_ok scripts1"
    using scripts_from_ok one(1) R(2) by blast
  note step = wave_step [OF Cons.prems(1) active Cons.prems(2) impI [OF this] settle run1]
  obtain scripts2 completed' s' where two: "scripts_from R scripts2"
      "\<forall>rest. run_waves env cancelled active (wave + 1) ws (scripts2 @ rest) completed2 s1 = Some (Inr completed', s', rest)"
    using Cons.IH [OF step(1,2)] by blast
  then show ?case
    using one settle active by (intro exI [of _ "scripts1 @ scripts2"] exI [of _ completed'] exI [of _ s']) auto
qed

end
