(* ===== verification/SchedulerProperties.thy ===== *)
theory SchedulerProperties
  imports SchedulerExecution
begin

section \<open>Properties of the scheduler\<close>

text \<open>
  What \<^verbatim>\<open>_validate\<close> accepts, what an execution returns under every interleaving, and that it always can be completed.
\<close>

subsection \<open>Accepted schedules\<close>

text \<open>Everything \<^verbatim>\<open>_validate\<close> establishes.\<close>

definition accepted :: "int \<Rightarrow> child_context list \<Rightarrow> string list \<Rightarrow> bool" where
  "accepted hard cs executors = (1 \<le> length cs \<and> length cs \<le> 4 \<and> distinct (ids cs) \<and> set executors = set (ids cs) \<and>
     (\<forall>c \<in> set cs. ct_parent_task_id c = ct_parent_task_id (hd cs) \<and> ct_scope c = ct_scope (hd cs) \<and>
        ct_context_manifest_sha256 c = child_context_manifest_sha256 c \<and> dependency_ok cs c) \<and>
     acyclic (waits (edges cs)) \<and>
     (if GENERAL \<in> set (map ct_kind cs) then length cs = 1 \<and> ct_dependency_assignment_ids (hd cs) = []
      else (\<forall>c \<in> set cs. dump_policy (ct_budget c) = dump_policy (ct_budget (hd cs))) \<and>
        1 \<le> lim_active (bp_professional_concurrency (ct_budget (hd cs))) \<and>
        lim_active (bp_professional_concurrency (ct_budget (hd cs))) \<le> hard \<and>
        lim_hard (bp_professional_concurrency (ct_budget (hd cs))) \<le> hard))"

lemma remdups_one_iff: "xs \<noteq> [] \<Longrightarrow> length (remdups xs) = 1 \<longleftrightarrow> (\<forall>x \<in> set xs. x = hd xs)"
proof -
  assume "xs \<noteq> []"
  then have "length (remdups xs) = 1 \<longleftrightarrow> (\<exists>x. set xs = {x})"
    by (simp add: length_remdups_card_conv card_1_singleton_iff)
  also have "\<dots> \<longleftrightarrow> (\<forall>x \<in> set xs. x = hd xs)"
    using \<open>xs \<noteq> []\<close> by (cases xs) auto
  finally show ?thesis .
qed

lemma validate_kinds_iff:
  assumes "cs \<noteq> []"
  shows "validate_kinds hard cs = Inr () \<longleftrightarrow>
    (if GENERAL \<in> set (map ct_kind cs) then length cs = 1 \<and> ct_dependency_assignment_ids (hd cs) = []
      else (\<forall>c \<in> set cs. dump_policy (ct_budget c) = dump_policy (ct_budget (hd cs))) \<and>
        1 \<le> lim_active (bp_professional_concurrency (ct_budget (hd cs))) \<and>
        lim_active (bp_professional_concurrency (ct_budget (hd cs))) \<le> hard \<and>
        lim_hard (bp_professional_concurrency (ct_budget (hd cs))) \<le> hard)"
proof -
  have "length (remdups (map (\<lambda>c. dump_policy (ct_budget c)) cs)) = 1 \<longleftrightarrow>
      (\<forall>c \<in> set cs. dump_policy (ct_budget c) = dump_policy (ct_budget (hd cs)))"
    using assms remdups_one_iff [of "map (\<lambda>c. dump_policy (ct_budget c)) cs"] by (simp add: hd_map)
  then show ?thesis
    unfolding validate_kinds_def Let_def by (auto split: if_splits)
qed

lemma if_Inl_eq_Inr: "(if b then Inl e else r) = Inr x \<longleftrightarrow> \<not> b \<and> r = Inr x"
  by simp

lemma validate_schedule_iff:
  "validate_schedule hard cs executors = Inr cs' \<longleftrightarrow> cs' = cs \<and> accepted hard cs executors"
proof -
  have kinds: "(case validate_kinds hard cs of Inl e \<Rightarrow> Inl e
      | Inr _ \<Rightarrow> (case topological_waves cs of Inl e \<Rightarrow> Inl e | Inr _ \<Rightarrow> Inr cs)) = Inr cs' \<longleftrightarrow>
      cs' = cs \<and> validate_kinds hard cs = Inr () \<and> (\<exists>ws. topological_waves cs = Inr ws)"
    by (auto split: sum.splits)
  have waves: "(\<exists>ws. topological_waves cs = Inr ws) \<longleftrightarrow> acyclic (waits (edges cs))"
    if "distinct (ids cs)" "list_all (dependency_ok cs) cs"
    using topological_waves_iff [OF that] by (auto split: if_splits)
  have "validate_schedule hard cs executors = Inr cs' \<longleftrightarrow> \<not> (cs = [] \<or> length cs > 4) \<and>
      \<not> list_ex (\<lambda>c. ct_parent_task_id c \<noteq> ct_parent_task_id (hd cs) \<or> ct_scope c \<noteq> ct_scope (hd cs)) cs \<and>
      distinct (ids cs) \<and> \<not> list_ex (\<lambda>c. ct_context_manifest_sha256 c \<noteq> child_context_manifest_sha256 c) cs \<and>
      set executors = set (ids cs) \<and> list_all (dependency_ok cs) cs \<and>
      cs' = cs \<and> validate_kinds hard cs = Inr () \<and> (\<exists>ws. topological_waves cs = Inr ws)"
    unfolding validate_schedule_def by (simp only: if_Inl_eq_Inr kinds not_not)
  also have "\<dots> \<longleftrightarrow> cs' = cs \<and> accepted hard cs executors"
  proof (cases "cs \<noteq> [] \<and> distinct (ids cs) \<and> list_all (dependency_ok cs) cs")
    case True
    then have nonempty: "cs \<noteq> []" and w: "(\<exists>ws. topological_waves cs = Inr ws) \<longleftrightarrow> acyclic (waits (edges cs))"
      using waves by simp_all
    show ?thesis
      unfolding validate_kinds_iff [OF nonempty] w accepted_def list_ex_iff list_all_iff
      using nonempty by (simp add: Suc_le_eq not_less ball_conj_distrib) blast
  next
    case False
    then show ?thesis
      by (auto simp: accepted_def list_all_iff)
  qed
  finally show ?thesis .
qed


subsection \<open>Executions\<close>

lemma valid_contexts_named:
  assumes "\<forall>c \<in> set cs. valid_child_context c" "\<forall>c \<in> set cs. dependency_ok cs c" "c \<in> set cs"
  shows "named c"
proof -
  have "length d \<le> 128" if "d \<in> set (ct_dependency_assignment_ids c)" for d
  proof -
    have "d \<in> set (ids cs)"
      using assms(2,3) that by (auto simp: dependency_ok_def)
    then show ?thesis
      using assms(1) by (auto simp: valid_child_context_def text_len_def)
  qed
  then show ?thesis
    using assms(1,3) by (auto simp: named_def valid_child_context_def)
qed

lemma accepted_kind:
  assumes "accepted hard cs executors" "c \<in> set cs"
  shows "ct_kind c = ct_kind (hd cs)"
proof (cases "GENERAL \<in> set (map ct_kind cs)")
  case True
  with assms have "length cs = 1"
    by (simp add: accepted_def)
  with assms(2) show ?thesis
    by (auto simp: length_Suc_conv)
next
  case False
  have "ct_kind x = PROFESSIONAL" if "x \<in> set cs" for x
    using False that by (cases "ct_kind x") force+
  moreover have "hd cs \<in> set cs"
    using assms(2) by (cases cs) auto
  ultimately show ?thesis
    using assms(2) by simp
qed

lemma accepted_limit:
  assumes "accepted hard cs executors" "1 \<le> hard"
  shows "1 \<le> schedule_limit cs" "schedule_limit cs \<le> hard"
proof -
  have ne: "hd cs \<in> set cs"
    using assms(1) by (cases cs) (simp_all add: accepted_def)
  have "GENERAL \<in> set (map ct_kind cs) \<longleftrightarrow> ct_kind (hd cs) = GENERAL"
    unfolding set_map image_iff using accepted_kind [OF assms(1)] ne by (metis (full_types))
  then show "1 \<le> schedule_limit cs" "schedule_limit cs \<le> hard"
    using assms by (simp_all add: accepted_def schedule_limit_def)
qed

lemma length_layered: "layered R ws \<Longrightarrow> length ws \<le> length (concat ws)"
proof (induction ws arbitrary: R)
  case (Cons w ws)
  then have "length ws \<le> length (concat ws)" "w \<noteq> []"
    by auto
  then show ?case
    by (cases w) auto
qed simp

text \<open>The waves of an accepted schedule, ready to run.\<close>

lemma accepted_waves:
  assumes "accepted hard cs executors" "\<forall>c \<in> set cs. valid_child_context c"
  shows "\<exists>ws. topological_waves cs = Inr ws \<and> waves_ready (ct_kind (hd cs)) 1 ws [] \<and> set (concat ws) = set cs \<and> length ws \<le> 4"
proof -
  have d: "distinct (ids cs)" "list_all (dependency_ok cs) cs" "acyclic (waits (edges cs))" "length cs \<le> 4"
    using assms(1) by (auto simp: accepted_def list_all_iff)
  then obtain ws where ws: "topological_waves cs = Inr ws"
    using topological_waves_iff [OF d(1,2)] by auto
  note t = topological_waves_sound [OF d(1) ws]
  have "distinct (ids (concat ws))"
    using d(1) mset_eq_imp_distinct_iff [of "ids (concat ws)" "ids cs"] t(2) by simp
  moreover have s: "set (concat ws) = set cs"
    using mset_eq_setD [OF t(2)] .
  moreover have "named c \<and> ct_kind c = ct_kind (hd cs)" if "c \<in> set cs" for c
    using valid_contexts_named [OF assms(2) _ that] accepted_kind [OF assms(1) that] d(2) by (simp add: list_all_iff)
  moreover have "length ws \<le> 4"
    using length_layered [OF t(1)] mset_eq_length [OF t(2)] d(4) by linarith
  ultimately show ?thesis
    using ws t(1) by (auto simp: waves_ready_def before_wave_def)
qed

definition by_id :: "scheduled_assignment list \<Rightarrow> completed" where
  "by_id as = map (\<lambda>a. (sa_assignment_id a, a)) as"

lemma map_of_by_id:
  assumes "distinct (ids cs)" "\<forall>c \<in> set cs. sa_assignment_id (f c) = ct_assignment_id c" "c \<in> set cs"
  shows "map_of (by_id (map f cs)) (ct_assignment_id c) = Some (f c)"
  using assms by (induction cs) (auto simp: by_id_def image_iff)

lemma schedule_status_valid:
  "as \<noteq> [] \<Longrightarrow> let statuses = set (map sa_status as); st = schedule_status_of as in
     st \<notin> {SCHED_QUEUED, SCHED_RUNNING, SCHED_CANCELLED} \<and>
     (st = SCHED_COMPLETED \<longleftrightarrow> statuses = {ASSIGN_COMPLETED}) \<and>
     (st = SCHED_FAILED \<longleftrightarrow> ASSIGN_COMPLETED \<notin> statuses)"
  by (auto simp: schedule_status_of_def Let_def)

text \<open>Results that account for every context are collected into a valid result.\<close>

lemma collect_accounted:
  assumes acc: "\<forall>c \<in> set cs. accounted cancelled completed c" and cs: "accepted hard cs executors"
    and v: "\<forall>c \<in> set cs. valid_child_context c" and n: "n \<le> 4" "0 \<le> es_max s" "es_max s \<le> 4"
  shows "\<exists>r. collect sid mode cs n completed s = Inr r \<and> valid_schedule_result r \<and> sr_schedule_id r = sid \<and>
    sr_scope r = ct_scope (hd cs) \<and> sr_parent_task_id r = ct_parent_task_id (hd cs) \<and> sr_mode r = mode \<and>
    sr_status r = schedule_status_of (sr_assignments r) \<and> sr_max_concurrency_observed r = es_max s \<and>
    map sa_assignment_id (sr_assignments r) = ids cs \<and> map sa_run_id (sr_assignments r) = map ct_run_id cs \<and>
    (\<forall>c \<in> set cs. accounted cancelled (by_id (sr_assignments r)) c)"
proof -
  let ?f = "\<lambda>c. the (map_of completed (ct_assignment_id c))"
  have f: "map_of completed (ct_assignment_id c) = Some (?f c)" "valid_scheduled (?f c)"
      "sa_assignment_id (?f c) = ct_assignment_id c" "sa_run_id (?f c) = ct_run_id c" if "c \<in> set cs" for c
    using acc that by (auto simp: accounted_def settled_def)
  have ne: "cs \<noteq> []" "1 \<le> length cs" "length cs \<le> 4" "distinct (ids cs)"
    using cs by (auto simp: accepted_def)
  let ?r = "\<lparr>sr_schedule_id = sid, sr_parent_task_id = ct_parent_task_id (hd cs), sr_scope = ct_scope (hd cs), sr_mode = mode,
    sr_status = schedule_status_of (map ?f cs), sr_assignments = map ?f cs, sr_waves_completed = int n,
    sr_max_concurrency_observed = es_max s\<rparr>"
  have scope: "valid_scope (ct_scope (hd cs))"
    using v ne(1) by (auto simp: valid_child_context_def)
  have "valid_schedule_result ?r"
    using schedule_status_valid [of "map ?f cs"] ne scope f(2) n
    by (auto simp: valid_schedule_result_def Let_def list_all_iff)
  moreover have "collect sid mode cs n completed s = Inr ?r"
    using f(1) calculation by (auto simp: collect_def Let_def list_ex_iff)
  moreover have "accounted cancelled (by_id (map ?f cs)) c" if "c \<in> set cs" for c
  proof -
    have known: "map_of (by_id (map ?f cs)) i = map_of completed i" if "i \<in> set (ids cs)" for i
      using map_of_by_id [of cs ?f] ne(4) f(1,3) that by auto
    have deps: "d \<in> set (ids cs)" if "d \<in> set (ct_dependency_assignment_ids c)" for d
      using cs that \<open>c \<in> set cs\<close> by (auto simp: accepted_def dependency_ok_def)
    have "failed_dependencies (by_id (map ?f cs)) c = failed_dependencies completed c"
      using known deps by (intro failed_dependencies_cong) auto
    then show ?thesis
      using acc that known deps by (fastforce simp: accounted_def)
  qed
  moreover have "map sa_assignment_id (map ?f cs) = ids cs" "map sa_run_id (map ?f cs) = map ct_run_id cs"
    using f by simp_all
  ultimately show ?thesis
    by (intro exI [of _ ?r]) simp
qed


definition start_state :: "budget_guard option \<Rightarrow> exec_state" where
  "start_state g = \<lparr>es_guard = g, es_current = 0, es_max = 0\<rparr>"

definition open_slots :: "budget_guard option \<Rightarrow> int" where
  "open_slots g = (case g of None \<Rightarrow> 0 | Some g \<Rightarrow> bg_counts g PROFESSIONAL_CONCURRENCY)"

lemma start_idle: "sound \<longrightarrow> opt_all guard_inv g \<Longrightarrow> idle (open_slots g) kind sound (start_state g)"
  by (cases g) (auto simp: idle_def start_state_def exec_ok_def open_slots_def guard_nonneg)

lemma execute_rule:
  assumes acc: "accepted hard cs executors" and hard: "1 \<le> hard" "hard \<le> 4" and v: "\<forall>c \<in> set cs. valid_child_context c"
    and run: "execute env g scripts sid cs mode cancelled = Some (x, g')"
    and sound: "sound \<longrightarrow> opt_all guard_inv g \<and> scripts_ok scripts"
  shows "(case x of Inl e \<Rightarrow> \<not> sound | Inr r \<Rightarrow> valid_schedule_result r \<and> sr_schedule_id r = sid \<and>
    sr_scope r = ct_scope (hd cs) \<and> sr_parent_task_id r = ct_parent_task_id (hd cs) \<and> sr_mode r = mode \<and>
    sr_status r = schedule_status_of (sr_assignments r) \<and> sr_max_concurrency_observed r \<le> schedule_limit cs \<and>
    map sa_assignment_id (sr_assignments r) = ids cs \<and> map sa_run_id (sr_assignments r) = map ct_run_id cs \<and>
    (\<forall>c \<in> set cs. accounted cancelled (by_id (sr_assignments r)) c))"
proof -
  obtain ws where ws: "topological_waves cs = Inr ws" "waves_ready (ct_kind (hd cs)) 1 ws []" "set (concat ws) = set cs"
      "length ws \<le> 4"
    using accepted_waves [OF acc v] by blast
  note lim = accepted_limit [OF acc hard(1)]
  obtain y s scripts' where y: "run_waves env cancelled (schedule_limit cs) 1 ws scripts [] (start_state g) = Some (y, s, scripts')"
    using run ws(1) by (auto simp: execute_def start_state_def split: option.splits)
  have "sound \<longrightarrow> opt_all guard_inv g" "sound \<longrightarrow> scripts_ok scripts"
    using sound by simp_all
  note rule = run_waves_rule [OF y ws(2) lim(1) start_idle [OF this(1)] this(2)]
  show ?thesis
  proof (cases y)
    case (Inl e)
    with rule run ws(1) y show ?thesis
      by (auto simp: execute_def start_state_def)
  next
    case (Inr completed)
    note rule = rule [unfolded Inr sum.case]
    have max: "0 \<le> es_max s" "es_max s \<le> schedule_limit cs"
      using rule lim by (auto simp: idle_def start_state_def)
    have "es_max s \<le> 4"
      using max lim hard by linarith
    from collect_accounted [OF _ acc v ws(4) max(1) this, of cancelled completed sid mode] rule ws(3)
    obtain r where r: "collect sid mode cs (length ws) completed s = Inr r \<and> valid_schedule_result r \<and> sr_schedule_id r = sid \<and>
      sr_scope r = ct_scope (hd cs) \<and> sr_parent_task_id r = ct_parent_task_id (hd cs) \<and> sr_mode r = mode \<and>
      sr_status r = schedule_status_of (sr_assignments r) \<and> sr_max_concurrency_observed r = es_max s \<and>
      map sa_assignment_id (sr_assignments r) = ids cs \<and> map sa_run_id (sr_assignments r) = map ct_run_id cs \<and>
      (\<forall>c \<in> set cs. accounted cancelled (by_id (sr_assignments r)) c)"
      by auto
    have "x = Inr r"
      using run ws(1) y Inr r by (auto simp: execute_def start_state_def split: if_splits)
    with r max show ?thesis
      by simp
  qed
qed

text \<open>Some run completes, whatever bounded answers the executors give.\<close>

lemma execute_completes:
  assumes acc: "accepted hard cs executors" and hard: "1 \<le> hard" "hard \<le> 4" and v: "\<forall>c \<in> set cs. valid_child_context c"
    and g: "opt_all guard_inv g" and R: "R \<noteq> {}" "\<forall>reply \<in> R. reply_bounded reply"
  shows "\<exists>scripts r g'. scripts_from R scripts \<and> execute env g scripts sid cs mode cancelled = Some (Inr r, g')"
proof -
  obtain ws where ws: "topological_waves cs = Inr ws" "waves_ready (ct_kind (hd cs)) 1 ws []"
    using accepted_waves [OF acc v] by blast
  obtain scripts completed s where run: "scripts_from R scripts"
      "\<forall>rest. run_waves env cancelled (schedule_limit cs) 1 ws (scripts @ rest) [] (start_state g) = Some (Inr completed, s, rest)"
    using run_waves_completes [OF R accepted_limit(1) [OF acc hard(1)] ws(2) start_idle [of True g, OF impI [OF g]], of env cancelled]
    by blast
  then have ex: "execute env g scripts sid cs mode cancelled = Some (collect sid mode cs (length ws) completed s, es_guard s)"
    using ws(1) run(2) [rule_format, of "[]"] by (simp add: execute_def start_state_def)
  have "True \<longrightarrow> opt_all guard_inv g \<and> scripts_ok scripts"
    using g scripts_from_ok [OF run(1) R(2)] by simp
  from execute_rule [OF acc hard v ex this] obtain r where "collect sid mode cs (length ws) completed s = Inr r"
    by (cases "collect sid mode cs (length ws) completed s") auto
  with ex run(1) show ?thesis
    by auto
qed


lemma sample_child_simps [simp]:
  "ct_assignment_id (sample_child n u deps) = n" "ct_dependency_assignment_ids (sample_child n u deps) = deps"
  "ct_kind (sample_child n u deps) = PROFESSIONAL" "ct_parent_task_id (sample_child n u deps) = 7"
  "ct_scope (sample_child n u deps) = child_scope" "ct_budget (sample_child n u deps) = child_policy"
  "ct_run_id (sample_child n u deps) = u" "ct_side_effect_class (sample_child n u deps) = READ_ONLY"
  by (simp_all add: sample_child_def child_placeholder_def sample_input_def sample_registry_def child_task_def Let_def)

lemma sample_child_manifest [simp]:
  "ct_context_manifest_sha256 (sample_child n u deps) = child_context_manifest_sha256 (sample_child n u deps)"
  by (simp add: sample_child_def Let_def)

lemma sample_child_valid:
  "n \<in> {''a'', ''b''} \<Longrightarrow> deps \<in> {[], [''a'']} \<Longrightarrow> valid_child_context (sample_child n u deps)"
  using sample_placeholder_valid by (simp add: sample_child_def Let_def)

abbreviation sample_children :: "child_context list" where
  "sample_children \<equiv> [sample_child ''a'' 0 [], sample_child ''b'' 1 [''a'']]"

lemma sample_accepted: "validate_schedule 4 sample_children [''b'', ''a''] = Inr sample_children"
proof -
  have "waits (edges sample_children) = {(''a'', ''b'')}"
    by (auto simp: waits_def edges_def)
  moreover have "acyclic {(''a'', ''b'')}"
    using acyclic_insert [of "''a''" "''b''" "{}"] by (simp add: acyclic_def)
  ultimately have "acyclic (waits (edges sample_children))"
    by simp
  then show ?thesis
    by (auto simp: validate_schedule_iff accepted_def dependency_ok_def child_policy_def Let_def)
qed




subsection \<open>A sample execution\<close>

lemmas child_eval = child_begin_def child_finish_def child_verify_def child_check_def child_complete_def child_move_def
  append_transition_def with_guard_def mk_outcome_def catchP_def thenP_def bindP_def fresh_run_def
  valid_child_transition_def text_len_def

definition suspended_run :: child_run where
  "suspended_run = \<lparr>cr_guard = None, cr_transitions =
   [\<lparr>ctn_sequence = 1, ctn_source = CHILD_PREPARED, ctn_target = CHILD_OBSERVE, ctn_event = ''context_observed''\<rparr>,
    \<lparr>ctn_sequence = 2, ctn_source = CHILD_OBSERVE, ctn_target = CHILD_PLAN, ctn_event = ''bounded_plan_created''\<rparr>,
    \<lparr>ctn_sequence = 3, ctn_source = CHILD_PLAN, ctn_target = CHILD_ACT, ctn_event = ''executor_called''\<rparr>],
   cr_phase = CHILD_ACT, cr_execution_calls = 1\<rparr>"

lemma begin_none: "child_begin env c (fresh_run None) = (Inr None, suspended_run)"
  by (simp add: child_eval suspended_run_def)

definition good_outcome :: "child_context \<Rightarrow> child_outcome" where
  "good_outcome c = \<lparr>co_parent_task_id = ct_parent_task_id c, co_run_id = ct_run_id c,
         co_assignment_id = ct_assignment_id c, co_completed = True, co_phase = CHILD_COMPLETED,
         co_result = Some (sample_result c), co_transitions = cr_transitions suspended_run @
   [\<lparr>ctn_sequence = 4, ctn_source = CHILD_ACT, ctn_target = CHILD_VERIFY, ctn_event = ''result_verification_started''\<rparr>,
    \<lparr>ctn_sequence = 5, ctn_source = CHILD_VERIFY, ctn_target = CHILD_COMPLETED, ctn_event = ''typed_result_ready''\<rparr>], co_execution_calls = 1,
         co_review_required = (ct_kind c = PROFESSIONAL), co_aggregation_ready = (ct_kind c \<noteq> PROFESSIONAL),
         co_error_code = None, co_next_action = None\<rparr>"

lemma sample_result_valid: "valid_agent_result (sample_result c)"
  by (simp add: sample_result_def valid_agent_result_def text_len_def no_text_def)

lemma sample_result_simps: "ag_task_id (sample_result c) = ct_parent_task_id c" "ag_run_id (sample_result c) = ct_run_id c" "ag_artifacts (sample_result c) = []" "ag_status (sample_result c) = AGENT_SUCCESS"
  by (simp_all add: sample_result_def)

lemma finish_none: "\<exists>run. child_finish env c (Payload (Some (sample_result c))) suspended_run = (Inr (good_outcome c), run) \<and> cr_guard run = None"
  by (simp add: child_eval suspended_run_def good_outcome_def sample_result_valid sample_result_simps valid_outcome_def)

lemma good_valid: "valid_outcome (good_outcome c)"
  by (simp add: good_outcome_def valid_outcome_def suspended_run_def sample_result_valid valid_child_transition_def text_len_def)

definition good_assignment :: "child_context \<Rightarrow> int \<Rightarrow> scheduled_assignment" where
  "good_assignment c w = executed c w ASSIGN_COMPLETED 1 (good_outcome c) None None"

lemma sample_batch:
  assumes "text_len 1 128 (ct_assignment_id c)" "1 \<le> w"
  shows "run_batch env w [Starts, Answers 0 (Payload (Some (sample_result c)))] (new_batch [c]) \<lparr>es_guard = None, es_current = 0, es_max = m\<rparr>
   = Some (Inr \<lparr>ba_waiting = [], ba_running = [], ba_results = [(ct_assignment_id c, good_assignment c w)]\<rparr>, \<lparr>es_guard = None, es_current = 0, es_max = max m 1\<rparr>)"
proof -
  have v: "valid_scheduled (good_assignment c w)"
    using assms good_valid by (auto simp: good_assignment_def executed_def valid_scheduled_def)
  have f: "from_outcome c w (good_outcome c) = good_assignment c w"
    by (simp add: from_outcome_def good_assignment_def good_outcome_def sample_result_simps)
  obtain run where r: "child_finish env c (Payload (Some (sample_result c))) suspended_run = (Inr (good_outcome c), run)" "cr_guard run = None"
    using finish_none by blast
  have [simp]: "suspended_run\<lparr>cr_guard := None\<rparr> = suspended_run" "(fresh_run None)\<lparr>cr_guard := None\<rparr> = fresh_run None" "cr_guard suspended_run = None"
    by (simp_all add: suspended_run_def fresh_run_def)
  show ?thesis
    using r v
    by (simp add: new_batch_def launch_begin_def launch_resume_def catchP_def thenP_def bindP_def uses_slot_def
      whenP_def enter_child_def exec_child_def begin_none settle_outcome_def leave_child_def mk_scheduled_def f land_def
      store_result_def drop_nth_def batch_done_def)
qed


lemma sample_waves: "topological_waves sample_children = Inr [[sample_child ''a'' 0 []], [sample_child ''b'' 1 [''a'']]]"
  by (simp add: topological_waves_def dict_by_def waves_from.simps ready_wave_def)

definition sample_scripts :: "script list" where
  "sample_scripts = map (\<lambda>c. [Starts, Answers 0 (Payload (Some (sample_result c)))]) sample_children"

lemma sample_execution:
  "\<exists>r. execute env None sample_scripts 9 sample_children MODE_SYNC [] = Some (Inr r, None) \<and>
     sr_assignments r = [good_assignment (sample_child ''a'' 0 []) 1, good_assignment (sample_child ''b'' 1 [''a'']) 2]"
proof -
  let ?a = "sample_child ''a'' 0 []" and ?b = "sample_child ''b'' 1 [''a'']"
  have lim: "schedule_limit sample_children = 2"
    by (simp add: schedule_limit_def child_policy_def Let_def)
  have n: "text_len 1 128 ''a''" "text_len 1 128 ''b''"
    by (simp_all add: text_len_def)
  have v: "valid_scheduled (good_assignment ?a 1)" "valid_scheduled (good_assignment ?b 2)"
    using good_valid n by (auto simp: good_assignment_def executed_def valid_scheduled_def)
  have st: "sa_status (good_assignment c w) = ASSIGN_COMPLETED" for c w
    by (simp add: good_assignment_def executed_def)
  note eval = batches_of_def Let_def failed_dependencies_def sample_scripts_def st
  have one: "run_waves env [] 2 1 [[?a], [?b]] sample_scripts [] \<lparr>es_guard = None, es_current = 0, es_max = 0\<rparr> =
      run_waves env [] 2 2 [[?b]] (tl sample_scripts) [(''a'', good_assignment ?a 1)] \<lparr>es_guard = None, es_current = 0, es_max = 1\<rparr>"
    using sample_batch [of ?a 1 env 0] n by (simp add: eval)
  have two: "run_waves env [] 2 2 [[?b]] (tl sample_scripts) [(''a'', good_assignment ?a 1)] \<lparr>es_guard = None, es_current = 0, es_max = 1\<rparr> =
      Some (Inr [(''a'', good_assignment ?a 1), (''b'', good_assignment ?b 2)], \<lparr>es_guard = None, es_current = 0, es_max = 1\<rparr>, [])"
    using sample_batch [of ?b 2 env 1] n by (simp add: eval)
  have "valid_scope child_scope"
    by (simp add: child_scope_def valid_scope_def text_len_def)
  then show ?thesis
    unfolding execute_def sample_waves sum.case lim one two
    using v by (simp add: collect_def Let_def valid_schedule_result_def schedule_status_of_def st)
qed

text \<open>
  A child is executed only after everything it depends on completed: if the result holds an outcome for a context, then its
  assignment was not cancelled and every dependency has a completed assignment in an earlier wave, whose outcome is
  a verified successful result of that dependency.
\<close>

theorem launched_after_dependencies:
  assumes "validate_schedule hard cs executors = Inr cs'" "1 \<le> hard" "hard \<le> 4"
    and "\<forall>c \<in> set cs. valid_child_context c"
    and "execute env g scripts sid cs mode cancelled = Some (Inr r, g')"
    and "c \<in> set cs" "map_of (by_id (sr_assignments r)) (ct_assignment_id c) = Some a" "sa_outcome a \<noteq> None"
  shows "ct_assignment_id c \<notin> set cancelled \<and>
    (\<forall>d \<in> set (ct_dependency_assignment_ids c). \<exists>x \<in> set cs. \<exists>b res out.
       ct_assignment_id x = d \<and> map_of (by_id (sr_assignments r)) d = Some b \<and> sa_wave b < sa_wave a \<and>
       sa_status b = ASSIGN_COMPLETED \<and> sa_outcome b = Some out \<and> co_result out = Some res \<and> acceptable x res \<and>
       ag_status res \<in> {AGENT_SUCCESS, AGENT_PARTIAL_SUCCESS})"
proof -
  have acc: "accepted hard cs executors"
    using assms(1) by (simp add: validate_schedule_iff)
  have all: "\<forall>c \<in> set cs. accounted cancelled (by_id (sr_assignments r)) c"
    using execute_rule [OF acc assms(2,3,4,5), of False] by simp
  with assms(6-8) have c: "ct_assignment_id c \<notin> set cancelled" "failed_dependencies (by_id (sr_assignments r)) c = []"
      "\<forall>d \<in> set (ct_dependency_assignment_ids c). \<exists>b. map_of (by_id (sr_assignments r)) d = Some b \<and> sa_wave b < sa_wave a"
    by (auto simp: accounted_def split: if_splits)
  have "\<exists>x \<in> set cs. \<exists>b res out. ct_assignment_id x = d \<and> map_of (by_id (sr_assignments r)) d = Some b \<and> sa_wave b < sa_wave a \<and>
      sa_status b = ASSIGN_COMPLETED \<and> sa_outcome b = Some out \<and> co_result out = Some res \<and> acceptable x res \<and>
      ag_status res \<in> {AGENT_SUCCESS, AGENT_PARTIAL_SUCCESS}" if d: "d \<in> set (ct_dependency_assignment_ids c)" for d
  proof -
    have "d \<in> ct_assignment_id ` set cs"
      using acc assms(6) d by (auto simp: accepted_def dependency_ok_def)
    then obtain x where x: "x \<in> set cs" "ct_assignment_id x = d"
      by blast
    obtain b where b: "map_of (by_id (sr_assignments r)) d = Some b" "sa_wave b < sa_wave a"
      using c(3) d by blast
    have "sa_status b = ASSIGN_COMPLETED"
      using c(2) d b(1) by (auto simp: failed_dependencies_def filter_empty_conv)
    moreover have "settled x (sa_wave b) b"
      using all x b(1) by (auto simp: accounted_def)
    ultimately show ?thesis
      using x b by (auto simp: settled_def)
  qed
  with c(1) show ?thesis
    by blast
qed

theorem launched_after_dependencies_witness:
  "\<exists>r g' b out. execute idle_env None sample_scripts 9 sample_children MODE_SYNC [] = Some (Inr r, g') \<and>
     map_of (by_id (sr_assignments r)) ''a'' = Some b \<and> sa_status b = ASSIGN_COMPLETED \<and> sa_outcome b = Some out"
proof -
  let ?b = "sample_child ''b'' 1 [''a'']"
  obtain r where run: "execute idle_env None sample_scripts 9 sample_children MODE_SYNC [] = Some (Inr r, None)"
      and r: "sr_assignments r = [good_assignment (sample_child ''a'' 0 []) 1, good_assignment ?b 2]"
    using sample_execution [of idle_env] by blast
  have b: "map_of (by_id (sr_assignments r)) (ct_assignment_id ?b) = Some (good_assignment ?b 2)"
    "sa_outcome (good_assignment ?b 2) \<noteq> None"
    by (simp_all add: r by_id_def good_assignment_def executed_def)
  have "\<forall>c \<in> set sample_children. valid_child_context c" "?b \<in> set sample_children"
    using sample_child_valid by simp_all
  from launched_after_dependencies [OF sample_accepted _ _ this(1) run this(2) b] run show ?thesis
    by auto
qed

text \<open>
  (C12) Nothing is left hanging: with an absent or sound guard and executors whose error texts fit their fields, every complete
  run of an accepted schedule returns a result, never an exception, and whatever such answers the executors give,
  there is an order of events that completes the schedule.
\<close>

theorem schedule_completes:
  assumes "validate_schedule hard cs executors = Inr cs'" "1 \<le> hard" "hard \<le> 4"
    and "\<forall>c \<in> set cs. valid_child_context c" "opt_all guard_inv g"
    and "R \<noteq> {}" "\<forall>reply \<in> R. reply_bounded reply"
  shows "(\<forall>scripts x g'. scripts_ok scripts \<and> execute env g scripts sid cs mode cancelled = Some (x, g') \<longrightarrow> (\<exists>r. x = Inr r)) \<and>
    (\<exists>scripts r g'. scripts_from R scripts \<and> execute env g scripts sid cs mode cancelled = Some (Inr r, g'))"
proof -
  have acc: "accepted hard cs executors"
    using assms(1) by (simp add: validate_schedule_iff)
  have "\<exists>r. x = Inr r" if "scripts_ok scripts" "execute env g scripts sid cs mode cancelled = Some (x, g')" for scripts x g'
    using execute_rule [OF acc assms(2,3,4) that(2), of True] that(1) assms(5) by (cases x) auto
  then show ?thesis
    using execute_completes [OF acc assms(2-7)] by blast
qed

theorem schedule_completes_witness:
  "\<exists>scripts r g'. scripts_from {ReplyException, ReplyExecutorError ''DISK'' ''Retry.''} scripts \<and>
     execute idle_env None scripts 9 sample_children MODE_ASYNC [''a''] = Some (Inr r, g')"
proof -
  have "\<forall>c \<in> set sample_children. valid_child_context c"
    using sample_child_valid by simp
  moreover have "\<forall>reply \<in> {ReplyException, ReplyExecutorError ''DISK'' ''Retry.''}. reply_bounded reply"
    by (simp add: reply_bounded_def text_len_def)
  ultimately show ?thesis
    using schedule_completes [OF sample_accepted, of None "{ReplyException, ReplyExecutorError ''DISK'' ''Retry.''}" idle_env 9
        MODE_ASYNC "[''a'']"] by simp
qed

end
