(* ===== verification/SchedulerQueue.thy ===== *)
theory SchedulerQueue
  imports SchedulerProperties
begin

section \<open>The queue of the scheduler\<close>

text \<open>
  The scheduler as a service: its state together with the schedules that \<^verbatim>\<open>advance\<close> has taken out of the queue and is still
  executing. Between the two halves of \<^verbatim>\<open>advance\<close> any other call may run. The theory shows that the service refines a
  small life cycle of one schedule (queued, running, terminal) in which nothing runs twice, and derives that results are
  final and that a schedule stays bound to its task and scope.
\<close>

subsection \<open>Steps of the service\<close>

type_synonym service = "scheduler \<times> (uuid \<times> queued_schedule) list"

text \<open>What an execution hands to the second half of \<^verbatim>\<open>advance\<close>: an exception, or the result collected from what its launches
  completed. Executions of other schedules may use the same guard meanwhile, so nothing more is assumed of it.\<close>

definition ended_with :: "uuid \<Rightarrow> queued_schedule \<Rightarrow> schedule_error + schedule_result \<Rightarrow> bool" where
  "ended_with u q r = ((\<exists>e. r = Inl e) \<or> (\<exists>n completed s. r = collect u MODE_ASYNC (qs_contexts q) n completed s))"

lemma execute_ended:
  assumes "execute env g scripts u (qs_contexts q) MODE_ASYNC (qs_cancelled q) = Some (r, g')"
  shows "ended_with u q r"
  using assms unfolding execute_def ended_with_def
  by (auto split: sum.splits option.splits prod.splits if_splits)

text \<open>The identifiers that \<^verbatim>\<open>uuid4\<close> returned so far. A step that draws one draws a new one.\<close>

definition drawn :: "(nat \<Rightarrow> uuid) \<Rightarrow> scheduler \<Rightarrow> uuid \<Rightarrow> bool" where
  "drawn draw s u = (\<exists>n < sd_draws s. u = draw n)"

definition fresh :: "(nat \<Rightarrow> uuid) \<Rightarrow> scheduler \<Rightarrow> bool" where
  "fresh draw s = (\<not> drawn draw s (draw (sd_draws s)))"

inductive service_step :: "(nat \<Rightarrow> uuid) \<Rightarrow> service \<Rightarrow> service \<Rightarrow> bool" for draw where
  enqueues: "fresh draw s \<Longrightarrow> \<forall>c \<in> set cs. valid_child_context c \<Longrightarrow>
    enqueue draw cs executors s = (r, s') \<Longrightarrow> service_step draw (s, busy) (s', busy)"
| syncs: "fresh draw s \<Longrightarrow> run_sync env draw scripts cs executors u s = Some (r, s') \<Longrightarrow> service_step draw (s, busy) (s', busy)"
| takes: "advance_begin u scope task s = (Inr (Inr q), s') \<Longrightarrow>
    service_step draw (s, busy) (s', AList.update u q busy)"
| replays: "advance_begin u scope task s = (r, s') \<Longrightarrow> (\<And>q. r \<noteq> Inr (Inr q)) \<Longrightarrow> service_step draw (s, busy) (s', busy)"
| works: "service_step draw (s, busy) (s\<lparr>sd_guard := g\<rparr>, busy)"
| ends: "map_of busy u = Some q \<Longrightarrow> ended_with u q (fst ended) \<Longrightarrow> advance_end u ended s = (r, s') \<Longrightarrow>
    service_step draw (s, busy) (s', AList.delete u busy)"
| cancels_one: "cancel_assignment u a scope task s = (r, s') \<Longrightarrow> service_step draw (s, busy) (s', busy)"
| cancels: "cancel_schedule u scope task s = (r, s') \<Longrightarrow> service_step draw (s, busy) (s', busy)"

definition service_start :: "service \<Rightarrow> bool" where
  "service_start v = (\<exists>hard g. new_scheduler hard g = Some (fst v) \<and> snd v = [])"

subsection \<open>The life of a schedule\<close>

text \<open>Where an identifier is: not drawn yet, queued, being executed, terminal, or used up (drawn by a synchronous run or a
  refused call, or its execution raised).\<close>

datatype spot = Unborn | Queued queued_schedule | Running queued_schedule | Terminal schedule_result | Spent

definition spot_of :: "(nat \<Rightarrow> uuid) \<Rightarrow> service \<Rightarrow> uuid \<Rightarrow> spot" where
  "spot_of draw v u = (case map_of (sd_terminal (fst v)) u of Some r \<Rightarrow> Terminal r
     | None \<Rightarrow> (case map_of (snd v) u of Some q \<Rightarrow> Running q
       | None \<Rightarrow> (case map_of (sd_queued (fst v)) u of Some q \<Rightarrow> Queued q
         | None \<Rightarrow> if drawn draw (fst v) u then Spent else Unborn)))"

definition schedule_for :: "uuid \<Rightarrow> queued_schedule \<Rightarrow> bool" where
  "schedule_for u q = (sh_schedule_id (qs_handle q) = u \<and>
     sh_parent_task_id (qs_handle q) = ct_parent_task_id (hd (qs_contexts q)) \<and>
     sh_scope (qs_handle q) = ct_scope (hd (qs_contexts q)) \<and>
     sh_assignment_ids (qs_handle q) = ids (qs_contexts q) \<and> set (qs_cancelled q) \<subseteq> set (ids (qs_contexts q)) \<and>
     1 \<le> length (qs_contexts q) \<and> length (qs_contexts q) \<le> 4 \<and> (\<forall>c \<in> set (qs_contexts q). valid_child_context c))"

definition result_for :: "uuid \<Rightarrow> queued_schedule \<Rightarrow> schedule_result \<Rightarrow> bool" where
  "result_for u q r = (valid_schedule_result r \<and> sr_schedule_id r = u \<and> sr_mode r = MODE_ASYNC \<and>
     sr_parent_task_id r = sh_parent_task_id (qs_handle q) \<and> sr_scope r = sh_scope (qs_handle q) \<and>
     length (sr_assignments r) = length (sh_assignment_ids (qs_handle q)))"

inductive schedule_life :: "uuid \<Rightarrow> spot \<Rightarrow> spot \<Rightarrow> bool" for u where
  use_up: "schedule_life u Unborn Spent"
| submit: "schedule_for u q \<Longrightarrow> qs_cancelled q = [] \<Longrightarrow> schedule_life u Unborn (Queued q)"
| drop_one: "a \<in> set (sh_assignment_ids (qs_handle q)) \<Longrightarrow>
    schedule_life u (Queued q) (Queued (q\<lparr>qs_cancelled := List.insert a (qs_cancelled q)\<rparr>))"
| start: "schedule_life u (Queued q) (Running q)"
| drop_all: "result_for u q (cancelled_result u q) \<Longrightarrow> schedule_life u (Queued q) (Terminal (cancelled_result u q))"
| finish: "result_for u q r \<Longrightarrow> schedule_life u (Running q) (Terminal r)"
| fail: "schedule_life u (Running q) Spent"

inductive_cases from_terminal: "schedule_life u (Terminal r) p"
inductive_cases from_queued: "schedule_life u (Queued q) p"
inductive_cases from_running: "schedule_life u (Running q) p"
inductive_cases from_spent: "schedule_life u Spent p"

subsection \<open>Invariant\<close>

definition coherent_at :: "(nat \<Rightarrow> uuid) \<Rightarrow> service \<Rightarrow> uuid \<Rightarrow> bool" where
  "coherent_at draw v u = (
     (\<forall>q. map_of (sd_queued (fst v)) u = Some q \<longrightarrow> drawn draw (fst v) u \<and> schedule_for u q \<and>
        map_of (snd v) u = None \<and> map_of (sd_terminal (fst v)) u = None) \<and>
     (\<forall>q. map_of (snd v) u = Some q \<longrightarrow> drawn draw (fst v) u \<and> schedule_for u q \<and>
        map_of (sd_terminal (fst v)) u = None) \<and>
     (\<forall>r. map_of (sd_terminal (fst v)) u = Some r \<longrightarrow> drawn draw (fst v) u \<and> valid_schedule_result r))"

definition service_inv :: "(nat \<Rightarrow> uuid) \<Rightarrow> service \<Rightarrow> bool" where
  "service_inv draw v = (\<forall>u. coherent_at draw v u)"

lemma cancelled_result_for:
  assumes "schedule_for u q"
  shows "result_for u q (cancelled_result u q)"
proof -
  let ?as = "sr_assignments (cancelled_result u q)"
  have ne: "qs_contexts q \<noteq> []" "hd (qs_contexts q) \<in> set (qs_contexts q)"
    using assms by (cases "qs_contexts q"; simp add: schedule_for_def)+
  then have "set (map sa_status ?as) = {ASSIGN_CANCELLED}"
    by (simp add: cancelled_result_def unlaunched_def comp_def image_constant_conv)
  moreover have "list_all valid_scheduled ?as"
    using assms by (auto simp: cancelled_result_def list_all_iff unlaunched_def valid_scheduled_def schedule_for_def
        valid_child_context_def text_len_def)
  moreover have "valid_scope (sh_scope (qs_handle q))"
    using assms ne by (auto simp: schedule_for_def valid_child_context_def)
  ultimately show ?thesis
    using assms by (simp add: result_for_def valid_schedule_result_def schedule_for_def cancelled_result_def Let_def)
qed

lemma collected_result_for:
  assumes "schedule_for u q" "collect u MODE_ASYNC (qs_contexts q) n completed s = Inr r"
  shows "result_for u q r"
  using assms by (auto simp: collect_def Let_def result_for_def schedule_for_def split: if_splits)

text \<open>At most one identifier moves, and it moves along the life cycle.\<close>

definition moves_one :: "(nat \<Rightarrow> uuid) \<Rightarrow> service \<Rightarrow> service \<Rightarrow> bool" where
  "moves_one draw v w = (\<exists>u. (\<forall>u'. u' \<noteq> u \<longrightarrow> spot_of draw w u' = spot_of draw v u') \<and>
     (spot_of draw w u = spot_of draw v u \<or> schedule_life u (spot_of draw v u) (spot_of draw w u)))"

lemma moves_oneI:
  assumes "\<And>u'. u' \<noteq> u \<Longrightarrow> spot_of draw w u' = spot_of draw v u'" "schedule_life u (spot_of draw v u) (spot_of draw w u)"
  shows "moves_one draw v w"
  using assms by (auto simp: moves_one_def)

lemma moves_none: "(\<And>u. spot_of draw w u = spot_of draw v u) \<Longrightarrow> moves_one draw v w"
  by (auto simp: moves_one_def)


subsection \<open>Each operation\<close>

lemma enqueue_effect:
  assumes "enqueue draw cs executors s = (r, s')" "\<forall>c \<in> set cs. valid_child_context c"
  obtains "s' = s" | "s' = s\<lparr>sd_draws := Suc (sd_draws s)\<rparr>"
    | q where "s' = s\<lparr>sd_draws := Suc (sd_draws s), sd_queued := AList.update (draw (sd_draws s)) q (sd_queued s)\<rparr>"
        "schedule_for (draw (sd_draws s)) q" "qs_cancelled q = []"
proof (cases "validate_schedule (sd_hard_concurrency s) cs executors")
  case (Inl e)
  then have "s' = s"
    using assms(1) by (simp add: enqueue_def bindP_def)
  then show thesis by (rule that(1))
next
  case (Inr prepared)
  then have p: "prepared = cs" "accepted (sd_hard_concurrency s) cs executors"
    by (simp_all add: validate_schedule_iff)
  let ?q = "\<lparr>qs_handle = \<lparr>sh_schedule_id = draw (sd_draws s), sh_parent_task_id = ct_parent_task_id (hd cs),
      sh_scope = ct_scope (hd cs), sh_assignment_ids = ids cs\<rparr>, qs_contexts = cs, qs_executors = executors, qs_cancelled = []\<rparr>"
  have "schedule_for (draw (sd_draws s)) ?q"
    using p(2) assms(2) by (simp add: schedule_for_def accepted_def)
  moreover have "s' = s\<lparr>sd_draws := Suc (sd_draws s)\<rparr> \<or>
      s' = s\<lparr>sd_draws := Suc (sd_draws s), sd_queued := AList.update (draw (sd_draws s)) ?q (sd_queued s)\<rparr>"
    using assms(1) Inr p(1)
    by (auto simp: enqueue_def draw_schedule_id_def bindP_def thenP_def Let_def split: if_splits)
  ultimately show thesis
    using that(2,3) by auto
qed

lemma run_sync_effect:
  assumes "run_sync env draw scripts cs executors u s = Some (r, s')"
  shows "sd_queued s' = sd_queued s" "sd_terminal s' = sd_terminal s" "sd_draws s' \<in> {sd_draws s, Suc (sd_draws s)}"
  using assms by (auto simp: run_sync_def Let_def split: sum.splits option.splits)

lemma take_effect:
  assumes "take_schedule u scope task s = (r, s')"
  obtains e where "r = Inl e" "s' = s"
    | r' where "r = Inr (Inl r')" "s' = s" "map_of (sd_terminal s) u = Some r'"
    | q where "r = Inr (Inr q)" "s' = s\<lparr>sd_queued := AList.delete u (sd_queued s)\<rparr>"
        "map_of (sd_queued s) u = Some q" "map_of (sd_terminal s) u = None"
  using assms
  by (cases "map_of (sd_terminal s) u"; cases "map_of (sd_queued s) u")
    (auto simp: take_schedule_def bindP_def thenP_def require_binding_def split: if_splits)

lemma advance_end_effect:
  assumes "advance_end u ended s = (r, s')"
  obtains e where "fst ended = Inl e" "s' = s\<lparr>sd_guard := snd ended\<rparr>"
    | x where "fst ended = Inr x" "s' = s\<lparr>sd_guard := snd ended, sd_terminal := AList.update u x (sd_terminal s)\<rparr>"
  using assms
  by (cases "fst ended") (auto simp: advance_end_def store_terminal_def bindP_def thenP_def)

lemma cancel_one_effect:
  assumes "cancel_assignment u a scope task s = (r, s')"
  obtains "s' = s" | q where "map_of (sd_queued s) u = Some q" "a \<in> set (sh_assignment_ids (qs_handle q))"
      "s' = s\<lparr>sd_queued := AList.update u (q\<lparr>qs_cancelled := List.insert a (qs_cancelled q)\<rparr>) (sd_queued s)\<rparr>"
  using assms
  by (cases "map_of (sd_queued s) u")
    (auto simp: cancel_assignment_def bindP_def thenP_def require_binding_def split: if_splits)

lemma cancel_effect:
  assumes "cancel_schedule u scope task s = (r, s')" "\<And>q. map_of (sd_queued s) u = Some q \<Longrightarrow> schedule_for u q"
  obtains "s' = s" | q where "map_of (sd_queued s) u = Some q" "map_of (sd_terminal s) u = None"
      "s' = s\<lparr>sd_queued := AList.delete u (sd_queued s),
        sd_terminal := AList.update u (cancelled_result u q) (sd_terminal s)\<rparr>"
proof -
  obtain r' t where t: "take_schedule u scope task s = (r', t)"
    by fastforce
  then show thesis
  proof (cases rule: take_effect)
    case (3 q)
    then have "valid_schedule_result (cancelled_result u q)"
      using cancelled_result_for [OF assms(2)] by (simp add: result_for_def)
    then show thesis
      using assms(1) t 3 by (intro that(2) [of q]) (auto simp: cancel_schedule_def bindP_def store_terminal_def thenP_def)
  qed (use assms(1) t that(1) in \<open>auto simp: cancel_schedule_def bindP_def\<close>)
qed


subsection \<open>The service keeps its invariant and refines the life cycle\<close>

lemma drawn_simps [simp]:
  "drawn draw (s\<lparr>sd_queued := x\<rparr>) u = drawn draw s u" "drawn draw (s\<lparr>sd_terminal := y\<rparr>) u = drawn draw s u"
  "drawn draw (s\<lparr>sd_guard := g\<rparr>) u = drawn draw s u"
  "drawn draw (s\<lparr>sd_draws := Suc (sd_draws s)\<rparr>) u \<longleftrightarrow> drawn draw s u \<or> u = draw (sd_draws s)"
  "drawn draw (s\<lparr>sd_draws := Suc (sd_draws s), sd_queued := x\<rparr>) u \<longleftrightarrow> drawn draw s u \<or> u = draw (sd_draws s)"
  "drawn draw (s\<lparr>sd_queued := x, sd_terminal := y\<rparr>) u = drawn draw s u"
  "drawn draw (s\<lparr>sd_guard := g, sd_terminal := y\<rparr>) u = drawn draw s u"
  by (auto simp: drawn_def less_Suc_eq)

text \<open>What the steps share: the spots of a state whose invariant holds.\<close>

lemma service_invD:
  assumes "service_inv draw v"
  shows "map_of (sd_queued (fst v)) u = Some q \<Longrightarrow> spot_of draw v u = Queued q \<and> schedule_for u q \<and> drawn draw (fst v) u"
    and "map_of (snd v) u = Some q \<Longrightarrow> spot_of draw v u = Running q \<and> schedule_for u q \<and> drawn draw (fst v) u"
    and "map_of (sd_terminal (fst v)) u = Some r \<Longrightarrow> spot_of draw v u = Terminal r \<and> drawn draw (fst v) u"
    and "\<not> drawn draw (fst v) u \<Longrightarrow> spot_of draw v u = Unborn \<and> map_of (sd_queued (fst v)) u = None \<and>
      map_of (snd v) u = None \<and> map_of (sd_terminal (fst v)) u = None"
proof -
  have c: "coherent_at draw v u"
    using assms by (simp add: service_inv_def)
  show "map_of (sd_queued (fst v)) u = Some q \<Longrightarrow> spot_of draw v u = Queued q \<and> schedule_for u q \<and> drawn draw (fst v) u"
    and "map_of (snd v) u = Some q \<Longrightarrow> spot_of draw v u = Running q \<and> schedule_for u q \<and> drawn draw (fst v) u"
    and "map_of (sd_terminal (fst v)) u = Some r \<Longrightarrow> spot_of draw v u = Terminal r \<and> drawn draw (fst v) u"
    using c by (simp_all add: coherent_at_def spot_of_def)
  assume n: "\<not> drawn draw (fst v) u"
  then have "map_of (sd_queued (fst v)) u = None" "map_of (snd v) u = None" "map_of (sd_terminal (fst v)) u = None"
    using c unfolding coherent_at_def by (metis not_None_eq)+
  then show "spot_of draw v u = Unborn \<and> map_of (sd_queued (fst v)) u = None \<and>
      map_of (snd v) u = None \<and> map_of (sd_terminal (fst v)) u = None"
    using n by (simp add: spot_of_def)
qed

lemma spot_of_cong:
  "map_of (sd_queued (fst w)) u = map_of (sd_queued (fst v)) u \<Longrightarrow>
   map_of (sd_terminal (fst w)) u = map_of (sd_terminal (fst v)) u \<Longrightarrow>
   map_of (snd w) u = map_of (snd v) u \<Longrightarrow> drawn draw (fst w) u = drawn draw (fst v) u \<Longrightarrow>
   spot_of draw w u = spot_of draw v u"
  by (simp add: spot_of_def cong: option.case_cong)

lemma draws_only:
  assumes "fresh draw s" "service_inv draw (s, busy)" "sd_queued s' = sd_queued s" "sd_terminal s' = sd_terminal s"
    "sd_draws s' \<in> {sd_draws s, Suc (sd_draws s)}"
  shows "service_inv draw (s', busy) \<and> moves_one draw (s, busy) (s', busy)"
proof -
  let ?u = "draw (sd_draws s)"
  have d: "drawn draw s' u \<longleftrightarrow> drawn draw s u \<or> (sd_draws s' = Suc (sd_draws s) \<and> u = ?u)" for u
    using assms(5) by (auto simp: drawn_def less_Suc_eq)
  have "service_inv draw (s', busy)"
    using assms(2) d by (simp add: service_inv_def coherent_at_def assms(3,4))
  moreover have "moves_one draw (s, busy) (s', busy)"
  proof (cases "sd_draws s' = sd_draws s")
    case True
    then have "drawn draw s' u = drawn draw s u" for u
      by (simp add: drawn_def)
    then show ?thesis
      by (intro moves_none spot_of_cong) (simp_all add: assms(3,4))
  next
    case False
    then have "drawn draw s' ?u" "spot_of draw (s, busy) ?u = Unborn \<and> map_of (sd_queued s) ?u = None \<and> map_of busy ?u = None \<and>
        map_of (sd_terminal s) ?u = None"
      using d assms(5) service_invD(4) [OF assms(2), of ?u] assms(1) by (auto simp: fresh_def)
    moreover from this have "spot_of draw (s', busy) ?u = Spent"
      by (simp add: spot_of_def assms(3,4))
    ultimately show ?thesis
      by (intro moves_oneI [of ?u] spot_of_cong) (simp_all add: d assms(3,4) use_up)
  qed
  ultimately show ?thesis by simp
qed

text \<open>A step that changes one identifier's entries only.\<close>

definition only_at :: "uuid \<Rightarrow> (nat \<Rightarrow> uuid) \<Rightarrow> service \<Rightarrow> service \<Rightarrow> bool" where
  "only_at u draw v w = (\<forall>u'. u' \<noteq> u \<longrightarrow> map_of (sd_queued (fst w)) u' = map_of (sd_queued (fst v)) u' \<and>
     map_of (snd w) u' = map_of (snd v) u' \<and> map_of (sd_terminal (fst w)) u' = map_of (sd_terminal (fst v)) u' \<and>
     drawn draw (fst w) u' = drawn draw (fst v) u')"

lemma step_at:
  assumes "service_inv draw v" "only_at u draw v w" "coherent_at draw w u" "schedule_life u (spot_of draw v u) (spot_of draw w u)"
  shows "service_inv draw w \<and> moves_one draw v w"
proof
  have "coherent_at draw w u'" for u'
    using assms(1-3) by (cases "u' = u") (simp_all add: service_inv_def coherent_at_def only_at_def)
  then show "service_inv draw w"
    by (simp add: service_inv_def)
  show "moves_one draw v w"
    using assms(2,4) by (intro moves_oneI [of u] spot_of_cong) (simp_all add: only_at_def)
qed


lemma no_change: "service_inv draw (s, busy) \<Longrightarrow> service_inv draw (s\<lparr>sd_guard := g\<rparr>, busy) \<and>
    moves_one draw (s, busy) (s\<lparr>sd_guard := g\<rparr>, busy)"
  by (intro conjI moves_none spot_of_cong) (simp_all add: service_inv_def coherent_at_def)

lemma same_state: "service_inv draw v \<Longrightarrow> service_inv draw v \<and> moves_one draw v v"
  by (simp add: moves_none)

lemma enqueued:
  assumes "fresh draw s" "service_inv draw (s, busy)" "schedule_for (draw (sd_draws s)) q" "qs_cancelled q = []"
    "s' = s\<lparr>sd_draws := Suc (sd_draws s), sd_queued := AList.update (draw (sd_draws s)) q (sd_queued s)\<rparr>"
  shows "service_inv draw (s', busy) \<and> moves_one draw (s, busy) (s', busy)"
proof -
  let ?u = "draw (sd_draws s)"
  have u: "spot_of draw (s, busy) ?u = Unborn" "map_of busy ?u = None" "map_of (sd_terminal s) ?u = None"
    using service_invD(4) [OF assms(2), of ?u] assms(1) by (simp_all add: fresh_def)
  then have "spot_of draw (s', busy) ?u = Queued q"
    by (simp add: assms(5) spot_of_def)
  then show ?thesis
    using assms u by (intro step_at [of _ _ ?u]) (auto simp: only_at_def coherent_at_def intro: submit)
qed

lemma taken:
  assumes "service_inv draw (s, busy)" "map_of (sd_queued s) u = Some q"
    "s' = s\<lparr>sd_queued := AList.delete u (sd_queued s)\<rparr>"
  shows "service_inv draw (s', AList.update u q busy) \<and> moves_one draw (s, busy) (s', AList.update u q busy)"
proof -
  have t: "map_of (sd_terminal s) u = None" "spot_of draw (s, busy) u = Queued q" "schedule_for u q" "drawn draw s u"
    using assms(1,2) service_invD(1) [OF assms(1), of u q] by (auto simp: service_inv_def coherent_at_def)
  then have "spot_of draw (s', AList.update u q busy) u = Running q"
    by (simp add: assms(3) spot_of_def)
  then show ?thesis
    using assms t by (intro step_at [of _ _ u]) (auto simp: only_at_def coherent_at_def intro: start)
qed

lemma ended:
  assumes "service_inv draw (s, busy)" "map_of busy u = Some q" "ended_with u q (fst ended)" "advance_end u ended s = (r, s')"
  shows "service_inv draw (s', AList.delete u busy) \<and> moves_one draw (s, busy) (s', AList.delete u busy)"
proof -
  have "map_of (sd_queued s) u = None"
  proof (cases "map_of (sd_queued s) u")
    case (Some q')
    then show ?thesis
      using service_invD(1) [OF assms(1), of u q'] service_invD(2) [OF assms(1), of u q] assms(2) by simp
  qed
  then have t: "map_of (sd_terminal s) u = None" "map_of (sd_queued s) u = None"
      "spot_of draw (s, busy) u = Running q" "schedule_for u q" "drawn draw s u"
    using assms(1,2) service_invD(2) [OF assms(1), of u q] by (auto simp: service_inv_def coherent_at_def)
  from assms(4) show ?thesis
  proof (cases rule: advance_end_effect)
    case (1 e)
    then have "spot_of draw (s', AList.delete u busy) u = Spent"
      using t by (simp add: spot_of_def)
    then show ?thesis
      using assms t 1 by (intro step_at [of _ _ u]) (auto simp: only_at_def coherent_at_def intro: fail)
  next
    case (2 x)
    then have "result_for u q x"
      using assms(3) collected_result_for [OF t(4)] by (auto simp: ended_with_def)
    moreover have "spot_of draw (s', AList.delete u busy) u = Terminal x"
      using t 2 by (simp add: spot_of_def)
    ultimately show ?thesis
      using assms t 2 by (intro step_at [of _ _ u]) (auto simp: only_at_def coherent_at_def result_for_def intro: finish)
  qed
qed

lemma dropped_one:
  assumes "service_inv draw (s, busy)" "map_of (sd_queued s) u = Some q" "a \<in> set (sh_assignment_ids (qs_handle q))"
    "s' = s\<lparr>sd_queued := AList.update u (q\<lparr>qs_cancelled := List.insert a (qs_cancelled q)\<rparr>) (sd_queued s)\<rparr>"
  shows "service_inv draw (s', busy) \<and> moves_one draw (s, busy) (s', busy)"
proof -
  let ?q = "q\<lparr>qs_cancelled := List.insert a (qs_cancelled q)\<rparr>"
  have t: "map_of (sd_terminal s) u = None" "map_of busy u = None" "spot_of draw (s, busy) u = Queued q" "schedule_for u q"
      "drawn draw s u"
    using assms(1,2) service_invD(1) [OF assms(1), of u q] by (auto simp: service_inv_def coherent_at_def)
  then have "spot_of draw (s', busy) u = Queued ?q" "schedule_for u ?q"
    using assms(3) by (auto simp: assms(4) spot_of_def schedule_for_def)
  then show ?thesis
    using assms t by (intro step_at [of _ _ u]) (auto simp: only_at_def coherent_at_def intro: drop_one)
qed

lemma dropped_all:
  assumes "service_inv draw (s, busy)" "map_of (sd_queued s) u = Some q"
    "s' = s\<lparr>sd_queued := AList.delete u (sd_queued s), sd_terminal := AList.update u (cancelled_result u q) (sd_terminal s)\<rparr>"
  shows "service_inv draw (s', busy) \<and> moves_one draw (s, busy) (s', busy)"
proof -
  have t: "map_of (sd_terminal s) u = None" "map_of busy u = None" "spot_of draw (s, busy) u = Queued q" "schedule_for u q"
      "drawn draw s u"
    using assms(1,2) service_invD(1) [OF assms(1), of u q] by (auto simp: service_inv_def coherent_at_def)
  then have "spot_of draw (s', busy) u = Terminal (cancelled_result u q)" "result_for u q (cancelled_result u q)"
    by (auto simp: assms(3) spot_of_def cancelled_result_for)
  then show ?thesis
    using assms t by (intro step_at [of _ _ u])
      (auto simp: only_at_def coherent_at_def result_for_def intro: drop_all)
qed

lemma service_step_sound:
  assumes "service_inv draw v" "service_step draw v w"
  shows "service_inv draw w \<and> moves_one draw v w"
  using assms(2,1)
proof cases
  case (enqueues s cs executors r s' busy)
  note i = assms(1) [unfolded enqueues(1)]
  from enqueues(5,4) show ?thesis
    unfolding enqueues(1,2)
  proof (cases rule: enqueue_effect)
    case 1
    then show "service_inv draw (s', busy) \<and> moves_one draw (s, busy) (s', busy)"
      using same_state [OF i] by simp
  next
    case 2
    then show "service_inv draw (s', busy) \<and> moves_one draw (s, busy) (s', busy)"
      by (intro draws_only [OF enqueues(3) i]) simp_all
  next
    case (3 q)
    then show "service_inv draw (s', busy) \<and> moves_one draw (s, busy) (s', busy)"
      by (intro enqueued [OF enqueues(3) i, where q = q]) simp_all
  qed
next
  case (syncs s env scripts cs executors u r s' busy)
  then show ?thesis
    using assms run_sync_effect [OF syncs(4)] draws_only by simp
next
  case (takes u scope task s q s' busy)
  from takes(3) show ?thesis
    unfolding advance_begin_def by (cases rule: take_effect) (use assms(1) takes(1,2) taken in auto)
next
  case (replays u scope task s r s' busy)
  from replays(3) have "s' = s"
    unfolding advance_begin_def by (cases rule: take_effect) (use replays(4) in auto)
  then show ?thesis
    using assms(1) replays(1,2) same_state by simp
next
  case (works s g busy)
  then show ?thesis
    using assms(1) no_change by simp
next
  case (ends busy u q ended s r s')
  then show ?thesis
    using assms(1) ended by simp
next
  case (cancels_one u a scope task s r s' busy)
  from cancels_one(3) show ?thesis
    by (cases rule: cancel_one_effect) (use assms(1) cancels_one(1,2) same_state dropped_one in auto)
next
  case (cancels u scope task s r s' busy)
  have "schedule_for u q" if "map_of (sd_queued s) u = Some q" for q
    using service_invD(1) [OF assms(1), of u q] cancels(1) that by simp
  with cancels(3) show ?thesis
    by (cases rule: cancel_effect) (use assms(1) cancels(1,2) same_state dropped_all in auto)
qed

lemma service_start_inv: "service_start v \<Longrightarrow> service_inv draw v"
  by (cases v) (auto simp: service_start_def new_scheduler_def service_inv_def coherent_at_def split: if_splits)

interpretation scheduler_service: invariant_machine service_start "service_step draw" "service_inv draw"
  for draw
  using service_step_sound service_start_inv by unfold_locales auto


subsection \<open>Properties\<close>

lemma steps_live:
  assumes "service_inv draw v" "(service_step draw)\<^sup>*\<^sup>* v w"
  shows "(schedule_life u)\<^sup>*\<^sup>* (spot_of draw v u) (spot_of draw w u)"
  using assms(2)
proof (induction rule: rtranclp_induct)
  case (step x y)
  then have "service_inv draw x"
    using scheduler_service.steps_inv assms(1) by blast
  then have "spot_of draw y u = spot_of draw x u \<or> schedule_life u (spot_of draw x u) (spot_of draw y u)"
    using service_step_sound [OF _ step.hyps(2)] unfolding moves_one_def by metis
  then show ?case
    using step.IH by (metis rtranclp.rtrancl_into_rtrancl)
qed simp

lemma terminal_stays: "(schedule_life u)\<^sup>*\<^sup>* p p' \<Longrightarrow> p = Terminal r \<Longrightarrow> p' = Terminal r"
  by (induction rule: rtranclp_induct) (auto elim: from_terminal)

lemma spent_stays: "(schedule_life u)\<^sup>*\<^sup>* p p' \<Longrightarrow> p = Spent \<Longrightarrow> p' = Spent"
  by (induction rule: rtranclp_induct) (auto elim: from_spent)

text \<open>What a queued schedule can have become: the same schedule with more cancellations, running with them, ended.\<close>

definition later_than :: "queued_schedule \<Rightarrow> queued_schedule \<Rightarrow> bool" where
  "later_than q q' = (qs_handle q' = qs_handle q \<and> qs_contexts q' = qs_contexts q \<and>
     qs_executors q' = qs_executors q \<and> set (qs_cancelled q) \<subseteq> set (qs_cancelled q'))"

fun descends :: "uuid \<Rightarrow> queued_schedule \<Rightarrow> spot \<Rightarrow> bool" where
  "descends u q Unborn = False"
| "descends u q (Queued q') = later_than q q'"
| "descends u q (Running q') = later_than q q'"
| "descends u q (Terminal r) = result_for u q r"
| "descends u q Spent = True"

lemma later_than_cancelled: "later_than q q' \<Longrightarrow> later_than q (q'\<lparr>qs_cancelled := List.insert a (qs_cancelled q')\<rparr>)"
  by (auto simp: later_than_def)

lemma result_for_later: "later_than q q' \<Longrightarrow> result_for u q' r = result_for u q r"
  by (simp add: later_than_def result_for_def)

lemma descends_step: "schedule_life u p p' \<Longrightarrow> descends u q p \<Longrightarrow> descends u q p'"
  by (induction rule: schedule_life.induct) (simp_all add: later_than_cancelled result_for_later)

lemma queued_descends:
  assumes "(schedule_life u)\<^sup>*\<^sup>* (Queued q) p"
  shows "descends u q p"
  using assms by (induction rule: rtranclp_induct) (auto intro: descends_step simp: later_than_def)

text \<open>The answers of the three operations to a request for a schedule.\<close>

lemma spot_queued: "service_inv draw v \<Longrightarrow> spot_of draw v u = Queued q \<longleftrightarrow> map_of (sd_queued (fst v)) u = Some q"
  using service_invD(1) [of draw v u] by (auto simp: spot_of_def split: option.splits if_splits)

lemma spot_running: "service_inv draw v \<Longrightarrow> spot_of draw v u = Running q \<longleftrightarrow> map_of (snd v) u = Some q"
  using service_invD(2) [of draw v u] by (auto simp: spot_of_def split: option.splits if_splits)

lemma spot_terminal: "spot_of draw v u = Terminal r \<longleftrightarrow> map_of (sd_terminal (fst v)) u = Some r"
  by (auto simp: spot_of_def split: option.splits if_splits)

abbreviation binding_denied :: schedule_error where
  "binding_denied \<equiv> SchedulerError ''SCHEDULE_BINDING_DENIED''
     ''The schedule is not bound to the requested task and identity scope.''
     ''Use the authenticated tenant, project, user, permission, and parent task binding.''"

lemma take_denied:
  assumes "map_of (sd_terminal s) u = Some r \<and> (sr_scope r, sr_parent_task_id r) \<noteq> (scope, task) \<or>
    map_of (sd_terminal s) u = None \<and> map_of (sd_queued s) u = Some q \<and>
    (sh_scope (qs_handle q), sh_parent_task_id (qs_handle q)) \<noteq> (scope, task)"
  shows "take_schedule u scope task s = (Inl binding_denied, s)"
  using assms by (auto simp: take_schedule_def bindP_def thenP_def require_binding_def)

lemma cancel_one_denied:
  assumes "map_of (sd_queued s) u = Some q" "(sh_scope (qs_handle q), sh_parent_task_id (qs_handle q)) \<noteq> (scope, task)"
  shows "cancel_assignment u a scope task s = (Inl binding_denied, s)"
  using assms by (auto simp: cancel_assignment_def bindP_def thenP_def require_binding_def)

lemma take_terminal:
  assumes "map_of (sd_terminal s) u = Some r"
  shows "take_schedule u (sr_scope r) (sr_parent_task_id r) s = (Inr (Inl r), s)"
  using assms by (simp add: take_schedule_def bindP_def thenP_def require_binding_def)

text \<open>(C13) The scheduler refines the life cycle of a schedule. In every reachable state of the service, whichever operation
  comes next and whatever it returns, at most one schedule identifier moves, and it moves along the life cycle: it is queued
  by \<^verbatim>\<open>enqueue\<close> with the binding of its contexts, loses assignments by \<^verbatim>\<open>cancel_assignment\<close>, starts once, and ends with a
  valid result for its own handle or without one. \<open>fresh\<close> in the steps is \<^verbatim>\<open>uuid4\<close> returning a new identifier.\<close>

theorem scheduler_refines_life:
  assumes "reaches service_start (service_step draw) v" "service_step draw v w"
  shows "\<exists>u. (\<forall>u'. u' \<noteq> u \<longrightarrow> spot_of draw w u' = spot_of draw v u') \<and>
    (spot_of draw w u = spot_of draw v u \<or> schedule_life u (spot_of draw v u) (spot_of draw w u))"
  using service_step_sound [OF scheduler_service.reachable_inv [OF assms(1)] assms(2)] by (simp add: moves_one_def)

text \<open>(C14) The result of a schedule is final and nothing runs twice: once a schedule is terminal, every later state of the
  service holds the same result, the schedule is neither queued nor being executed, and \<^verbatim>\<open>advance\<close> and \<^verbatim>\<open>cancel\<close> with its
  binding return that result and change nothing.\<close>

theorem schedule_result_final:
  assumes "reaches service_start (service_step draw) v" "map_of (sd_terminal (fst v)) u = Some r"
    "(service_step draw)\<^sup>*\<^sup>* v (s, busy)"
  shows "map_of (sd_terminal s) u = Some r \<and> map_of (sd_queued s) u = None \<and> map_of busy u = None \<and>
    advance env scripts u (sr_scope r) (sr_parent_task_id r) s = Some (Inr r, s) \<and>
    cancel_schedule u (sr_scope r) (sr_parent_task_id r) s = (Inr r, s)"
proof -
  have inv: "service_inv draw v" "service_inv draw (s, busy)"
    using scheduler_service.reachable_inv scheduler_service.steps_inv assms(1,3) by blast+
  have t: "map_of (sd_terminal s) u = Some r"
    using terminal_stays [OF steps_live [OF inv(1) assms(3)]] assms(2) by (simp add: spot_terminal)
  then have "map_of (sd_queued s) u = None" "map_of busy u = None"
    using spot_queued [OF inv(2), of u] spot_running [OF inv(2), of u] spot_terminal [of draw "(s, busy)" u r]
    by (metis fst_conv snd_conv not_None_eq spot.distinct)+
  then show ?thesis
    using t take_terminal [OF t] by (simp add: advance_def advance_begin_def cancel_schedule_def bindP_def)
qed

text \<open>(C15) A schedule stays bound to its task and identity scope. Once it is queued, every later state holds it with the same
  handle, contexts and executors and no cancellation undone, or holds a valid result for exactly that handle (its identifier,
  parent task, scope and one entry per assignment), or it has been started and its execution raised. And in all of these
  states a request that names another task or scope is refused with \<^verbatim>\<open>SCHEDULE_BINDING_DENIED\<close> and changes nothing.\<close>

theorem schedule_stays_bound:
  assumes "reaches service_start (service_step draw) v" "map_of (sd_queued (fst v)) u = Some q"
    "(service_step draw)\<^sup>*\<^sup>* v (s, busy)"
  shows "descends u q (spot_of draw (s, busy) u) \<and>
    ((scope, task) \<noteq> (sh_scope (qs_handle q), sh_parent_task_id (qs_handle q)) \<longrightarrow>
      (map_of (sd_queued s) u \<noteq> None \<or> map_of (sd_terminal s) u \<noteq> None \<longrightarrow>
        advance_begin u scope task s = (Inl binding_denied, s) \<and> cancel_schedule u scope task s = (Inl binding_denied, s)) \<and>
      (map_of (sd_queued s) u \<noteq> None \<longrightarrow> cancel_assignment u a scope task s = (Inl binding_denied, s)))"
proof -
  have inv: "service_inv draw v" "service_inv draw (s, busy)"
    using scheduler_service.reachable_inv scheduler_service.steps_inv assms(1,3) by blast+
  have d: "descends u q (spot_of draw (s, busy) u)"
  proof -
    have "spot_of draw v u = Queued q"
      using assms(2) spot_queued [OF inv(1)] by simp
    with steps_live [OF inv(1) assms(3), of u] show ?thesis
      by (simp add: queued_descends)
  qed
  have take: "take_schedule u scope task s = (Inl binding_denied, s)"
    if other: "(scope, task) \<noteq> (sh_scope (qs_handle q), sh_parent_task_id (qs_handle q))"
      and here: "map_of (sd_queued s) u \<noteq> None \<or> map_of (sd_terminal s) u \<noteq> None"
  proof (cases "map_of (sd_terminal s) u")
    case (Some r)
    then show ?thesis
      using d other spot_terminal [of draw "(s, busy)" u r] by (intro take_denied) (auto simp: result_for_def)
  next
    case None
    then obtain q' where "map_of (sd_queued s) u = Some q'"
      using here by auto
    then show ?thesis
      using None d other spot_queued [OF inv(2), of u q'] by (intro take_denied) (auto simp: later_than_def)
  qed
  have "cancel_assignment u a scope task s = (Inl binding_denied, s)"
    if "(scope, task) \<noteq> (sh_scope (qs_handle q), sh_parent_task_id (qs_handle q))" "map_of (sd_queued s) u \<noteq> None"
  proof -
    from that(2) obtain q' where "map_of (sd_queued s) u = Some q'"
      by auto
    then show ?thesis
      using d that(1) spot_queued [OF inv(2), of u q'] by (intro cancel_one_denied) (auto simp: later_than_def)
  qed
  then show ?thesis
    using d take by (simp add: advance_begin_def cancel_schedule_def bindP_def)
qed


subsection \<open>A sample service\<close>

definition sample_draw :: "nat \<Rightarrow> uuid" where
  "sample_draw n = word_of_nat n"

definition sample_scheduler :: scheduler where
  "sample_scheduler = \<lparr>sd_hard_concurrency = 4, sd_guard = None, sd_queued = [], sd_terminal = [], sd_draws = 0\<rparr>"

definition sample_queued :: queued_schedule where
  "sample_queued = \<lparr>qs_handle = \<lparr>sh_schedule_id = 0, sh_parent_task_id = ct_parent_task_id (hd sample_children),
      sh_scope = ct_scope (hd sample_children), sh_assignment_ids = ids sample_children\<rparr>,
    qs_contexts = sample_children, qs_executors = [''b'', ''a''], qs_cancelled = []\<rparr>"

definition queued_service :: scheduler where
  "queued_service = sample_scheduler\<lparr>sd_draws := 1, sd_queued := [(0, sample_queued)]\<rparr>"

lemma sample_scope: "valid_scope (ct_scope (sample_child ''a'' 0 []))"
  using sample_child_valid [of "''a''" "[]" 0] by (simp add: valid_child_context_def)

lemma sample_enqueues: "enqueue sample_draw sample_children [''b'', ''a''] sample_scheduler = (Inr (qs_handle sample_queued), queued_service)"
  using sample_scope
  by (simp add: enqueue_def bindP_def thenP_def draw_schedule_id_def sample_scheduler_def sample_accepted
      queued_service_def sample_queued_def sample_draw_def valid_handle_def Let_def)

lemma sample_start: "service_start (sample_scheduler, [])"
  by (simp add: service_start_def new_scheduler_def sample_scheduler_def) (intro exI [of _ 4] exI [of _ None], simp)

lemma sample_reached_start: "reaches service_start (service_step sample_draw) (sample_scheduler, [])"
  by (rule reaches_start) (rule sample_start)

lemma sample_first_step: "service_step sample_draw (sample_scheduler, []) (queued_service, [])"
  using sample_child_valid
  by (intro enqueues [OF _ _ sample_enqueues]) (auto simp: fresh_def drawn_def sample_scheduler_def)

lemma sample_reached: "reaches service_start (service_step sample_draw) (queued_service, [])"
  by (rule reaches_step [OF sample_reached_start sample_first_step])

theorem scheduler_refines_life_witness:
  "\<exists>u. spot_of sample_draw (sample_scheduler, []) u = Unborn \<and> spot_of sample_draw (queued_service, []) u = Queued sample_queued \<and>
    schedule_life u Unborn (Queued sample_queued)"
proof -
  have "spot_of sample_draw (sample_scheduler, []) u = Unborn" for u
    by (simp add: spot_of_def sample_scheduler_def drawn_def)
  moreover have at: "spot_of sample_draw (queued_service, []) 0 = Queued sample_queued"
    by (simp add: spot_of_def queued_service_def sample_scheduler_def)
  ultimately have "schedule_life 0 Unborn (Queued sample_queued)"
    using scheduler_refines_life [OF sample_reached_start sample_first_step] by (metis spot.distinct(1))
  then show ?thesis
    using at by (intro exI [of _ 0]) (simp add: spot_of_def sample_scheduler_def drawn_def)
qed

theorem schedule_stays_bound_witness:
  "descends 0 sample_queued (spot_of sample_draw (queued_service, []) 0) \<and>
   advance_begin 0 child_scope 5 queued_service = (Inl binding_denied, queued_service) \<and>
   cancel_assignment 0 ''a'' child_scope 5 queued_service = (Inl binding_denied, queued_service)"
proof -
  have "map_of (sd_queued (fst (queued_service, []))) 0 = Some sample_queued"
    by (simp add: queued_service_def sample_scheduler_def)
  from schedule_stays_bound [OF sample_reached this rtranclp.rtrancl_refl] show ?thesis
    by (auto simp: queued_service_def sample_scheduler_def sample_queued_def Let_def)
qed

definition cancelled_service :: scheduler where
  "cancelled_service = final (cancel_schedule 0 (sh_scope (qs_handle sample_queued)) (sh_parent_task_id (qs_handle sample_queued))) queued_service"

theorem schedule_result_final_witness:
  "\<exists>r. map_of (sd_terminal cancelled_service) 0 = Some r \<and> sr_status r = SCHED_CANCELLED \<and>
     advance idle_env [] 0 (sr_scope r) (sr_parent_task_id r) cancelled_service = Some (Inr r, cancelled_service)"
proof -
  let ?r = "cancelled_result 0 sample_queued"
  have q: "map_of (sd_queued queued_service) 0 = Some sample_queued" "map_of (sd_terminal queued_service) 0 = None"
    by (simp_all add: queued_service_def sample_scheduler_def)
  have "schedule_for 0 sample_queued"
    using sample_child_valid by (simp add: schedule_for_def sample_queued_def)
  then have valid: "valid_schedule_result ?r"
    using cancelled_result_for by (simp add: result_for_def)
  obtain x where c: "cancel_schedule 0 (sh_scope (qs_handle sample_queued)) (sh_parent_task_id (qs_handle sample_queued)) queued_service = (x, cancelled_service)"
    by (simp add: cancelled_service_def final_def prod_eq_iff)
  have t: "map_of (sd_terminal (fst (cancelled_service, []))) 0 = Some ?r"
    using valid q by (simp add: cancelled_service_def final_def cancel_schedule_def take_schedule_def bindP_def thenP_def
        require_binding_def store_terminal_def)
  have "reaches service_start (service_step sample_draw) (cancelled_service, [])"
    by (rule reaches_step [OF sample_reached cancels [OF c]])
  from schedule_result_final [OF this t rtranclp.rtrancl_refl, of idle_env "[]"] show ?thesis
    by (intro exI [of _ ?r]) (simp add: cancelled_result_def)
qed

end
