(* ===== verification/DispatchPipeline.thy ===== *)
theory DispatchPipeline
  imports SchedulerQueue
begin

section \<open>From the Main Graph to the scheduler\<close>

text \<open>
  The composition of the orchestration parts: the dispatch that the Main Graph plans from valid route signals, the child
  contexts that the factory prepares for it and the schedule they are submitted as. The router and the scheduler
  check dependencies with different code; here their checks meet, and what was dispatched is what a schedule reports.
\<close>

lemma planned_dispatch:
  assumes "valid_signals s" "run_graph route t s = Some r" "mg_dispatch r = Some p"
  shows "t = rs_task_id s \<and> acyclic (depends (rs_professional_assignments s)) \<and>
    dp_professional_assignments p = rs_professional_assignments s \<and> dp_general_agent p = (rs_professional_assignments s = [])"
proof -
  obtain d where d: "route s = Inr d" "p = dispatch_of t s d" "t = rs_task_id s"
    using assms(2,3) by (auto simp: run_graph_def Let_def split: if_splits sum.splits)
  have "acyclic (depends (rs_professional_assignments s))"
    using route_error_iff(1) [OF assms(1)] d(1) by auto
  moreover have "(rd_route d = GENERAL_SYNC) = (rs_professional_assignments s = [])"
    using route_topology [OF assms(1) d(1)] by (auto simp: required_topology_def split: list.split)
  ultimately show ?thesis
    using d(2,3) by (simp add: dispatch_of_def)
qed

lemma children_of_assignments:
  assumes "list_all2 (child_of_assignment read_bundle registry task inputs) as cs"
  shows "ids cs = map pa_assignment_id as" "edges cs = map (\<lambda>a. (pa_assignment_id a, pa_depends_on a)) as"
    and "\<forall>c \<in> set cs. ct_parent_task_id c = tk_task_id task \<and> ct_scope c = tk_scope task \<and> ct_budget c = tk_budget task \<and>
      ct_kind c = PROFESSIONAL \<and> ct_context_manifest_sha256 c = child_context_manifest_sha256 c \<and> valid_child_context c"
  using assms by (induction rule: list_all2_induct) (auto simp: child_of_assignment_def minimal_for_def edges_def)

lemma acyclic_children:
  assumes "edges cs = map (\<lambda>a. (pa_assignment_id a, pa_depends_on a)) as" "distinct (map pa_assignment_id as)"
  shows "waits (edges cs) = depends as"
  using waits_dependencies_of [OF assms(2)] dependencies_of_distinct [OF assms(2)] assms(1) by simp

lemma dependencies_of_children:
  assumes "edges cs = map (\<lambda>a. (pa_assignment_id a, pa_depends_on a)) as" "ids cs = map pa_assignment_id as"
    and "list_all (\<lambda>a. pa_assignment_id a \<notin> set (pa_depends_on a) \<and> set (pa_depends_on a) \<subseteq> pa_assignment_id ` set as) as"
  shows "\<forall>c \<in> set cs. dependency_ok cs c"
proof
  fix c
  assume "c \<in> set cs"
  then have "(ct_assignment_id c, ct_dependency_assignment_ids c) \<in> set (edges cs)"
    by (auto simp: edges_def)
  then obtain a where "a \<in> set as" "ct_assignment_id c = pa_assignment_id a" "ct_dependency_assignment_ids c = pa_depends_on a"
    using assms(1) by auto
  then show "dependency_ok cs c"
    using assms(2,3) by (auto simp: dependency_ok_def list_all_iff)
qed

lemma dispatch_accepted:
  assumes "valid_signals s" "run_graph route (tk_task_id task) s = Some r" "mg_dispatch r = Some p"
    and cs: "prepare_children read_bundle draw registry task p inputs = Inr cs" "set executors = set (ids cs)"
    and limits: "rs_professional_assignments s = [] \<or> (let l = bp_professional_concurrency (tk_budget task) in
      1 \<le> lim_active l \<and> lim_active l \<le> hard \<and> lim_hard l \<le> hard)"
  shows "accepted hard cs executors \<and> (\<forall>c \<in> set cs. valid_child_context c) \<and> ct_scope (hd cs) = tk_scope task \<and>
    ct_parent_task_id (hd cs) = tk_task_id task \<and>
    ids cs = (if rs_professional_assignments s = [] then [''general''] else map pa_assignment_id (rs_professional_assignments s))"
proof -
  let ?as = "rs_professional_assignments s"
  note p = planned_dispatch [OF assms(1-3)]
  note prep = prepare_childrenD [OF cs(1)]
  show ?thesis
  proof (cases "?as = []")
    case True
    then obtain d b c where c: "cs = [c]" "ad_kind d = GENERAL" "minimal_for read_bundle task d (general_input task b) [] c"
      using prep p by auto
    then have "edges cs = [(ct_assignment_id c, [])]" "ct_assignment_id c = ''general''"
      by (simp_all add: edges_def minimal_for_def general_input_def)
    then have "acyclic (waits (edges cs))"
      by (simp add: waits_def acyclic_def)
    with True c cs(2) show ?thesis
      by (simp add: accepted_def dependency_ok_def minimal_for_def general_input_def)
  next
    case False
    then have all: "list_all2 (child_of_assignment read_bundle registry task inputs) ?as cs"
      using prep p by simp
    note ch = children_of_assignments [OF all]
    have d: "distinct (map pa_assignment_id ?as)"
      using valid_signals_distinct [OF assms(1)] .
    have shape: "list_all (\<lambda>a. pa_assignment_id a \<notin> set (pa_depends_on a) \<and> set (pa_depends_on a) \<subseteq> pa_assignment_id ` set ?as) ?as"
        "length ?as \<le> 4"
      using assms(1) by (simp_all add: valid_signals_def validate_shape_def Let_def)
    have len: "length cs = length ?as"
      using all by (simp add: list_all2_lengthD)
    then have ne: "hd cs \<in> set cs"
      using False by (cases cs) auto
    have kinds: "GENERAL \<notin> set (map ct_kind cs)"
      using ch(3) by auto
    have "accepted hard cs executors"
      unfolding accepted_def if_not_P [OF kinds]
      using ch ne d len False shape(2) limits cs(2) p acyclic_children [OF ch(2) d] dependencies_of_children [OF ch(2,1) shape(1)]
      by (simp add: Let_def Suc_le_eq)
    then show ?thesis
      using ch ne False by simp
  qed
qed

text \<open>(C16) What the Main Graph dispatches can be scheduled, and the schedule reports it. For valid signals whose dispatch
  was planned for the task and whose children were prepared from it, the scheduler accepts the children, provided every
  child has its executor and the task's concurrency budget is within the scheduler's ceiling; in particular the scheduler's
  cycle, duplicate and scope checks never refuse what the router let through. And whatever happens in an execution,
  a result is for this task and scope and has one entry for every dispatched assignment, in the order of the signals.\<close>

theorem dispatch_is_schedulable:
  assumes "valid_signals s" "run_graph route (tk_task_id task) s = Some r" "mg_dispatch r = Some p"
    and "prepare_children read_bundle draw registry task p inputs = Inr cs" "set executors = set (map ct_assignment_id cs)"
    and "rs_professional_assignments s = [] \<or> (let l = bp_professional_concurrency (tk_budget task) in
      1 \<le> lim_active l \<and> lim_active l \<le> hard \<and> lim_hard l \<le> hard)" "1 \<le> hard" "hard \<le> 4"
  shows "validate_schedule hard cs executors = Inr cs \<and>
    (\<forall>env g scripts sid mode cancelled x g'. execute env g scripts sid cs mode cancelled = Some (Inr x, g') \<longrightarrow>
       sr_parent_task_id x = rs_task_id s \<and> sr_scope x = tk_scope task \<and>
       map sa_assignment_id (sr_assignments x) = (if rs_professional_assignments s = [] then [''general'']
         else map pa_assignment_id (rs_professional_assignments s)))"
proof -
  note acc = dispatch_accepted [OF assms(1-6)]
  have id: "tk_task_id task = rs_task_id s"
    using planned_dispatch [OF assms(1-3)] by simp
  have "sr_parent_task_id x = rs_task_id s \<and> sr_scope x = tk_scope task \<and> map sa_assignment_id (sr_assignments x) = ids cs"
    if run: "execute env g scripts sid cs mode cancelled = Some (Inr x, g')" for env g scripts sid mode cancelled x g'
    using execute_rule [OF conjunct1 [OF acc] assms(7,8) conjunct1 [OF conjunct2 [OF acc]] run, of False] acc id by simp
  with acc show ?thesis
    by (simp add: validate_schedule_iff)
qed

subsection \<open>A sample request\<close>

definition pipeline_signals :: route_signals where
  "pipeline_signals = sample_signals (dp_professional_assignments sample_dispatch)"

lemma pipeline_planned:
  "\<exists>r. run_graph route (tk_task_id child_task) pipeline_signals = Some r \<and> mg_dispatch r = Some sample_dispatch"
proof -
  have v: "valid_signals pipeline_signals"
    by (simp add: pipeline_signals_def sample_signals_def sample_dispatch_def valid_signals_def validate_shape_def
        valid_assignment_def agent_name_def text_len_def head_tail_def is_lower_def is_decimal_def Let_def)
  have "runs_in_order (rs_professional_assignments pipeline_signals)"
    by (simp add: pipeline_signals_def sample_signals_def sample_dispatch_def runs_in_order_Cons) (simp add: runs_in_order_def)
  then have "acyclic (depends (rs_professional_assignments pipeline_signals))"
    by (rule order_gives_acyclic) (rule valid_signals_distinct [OF v])
  then obtain d where d: "route pipeline_signals = Inr d"
    using route_error_iff(1) [OF v] by (cases "route pipeline_signals") auto
  then obtain r where "run_graph route 7 pipeline_signals = Some r" "mg_dispatch r = Some (dispatch_of 7 pipeline_signals d)"
    using rules_router.run_ready_iff [OF v, of 7]
    by (auto simp: run_graph_def Let_def pipeline_signals_def sample_signals_def split: if_splits)
  moreover have "dispatch_of 7 pipeline_signals d = sample_dispatch"
    using d v by (auto simp: dispatch_of_def route_def Let_def pipeline_signals_def sample_signals_def sample_dispatch_def
        split: sum.splits)
  ultimately show ?thesis
    by (simp add: child_task_def)
qed

theorem dispatch_is_schedulable_witness: "validate_schedule 4 sample_children [''b'', ''a''] = Inr sample_children"
proof -
  have v: "valid_signals pipeline_signals"
    by (simp add: pipeline_signals_def sample_signals_def sample_dispatch_def valid_signals_def validate_shape_def
        valid_assignment_def agent_name_def text_len_def head_tail_def is_lower_def is_decimal_def Let_def)
  obtain r where r: "run_graph route (tk_task_id child_task) pipeline_signals = Some r" "mg_dispatch r = Some sample_dispatch"
    using pipeline_planned by blast
  have "set [''b'', ''a''] = set (ids sample_children)"
    by auto
  moreover have "let l = bp_professional_concurrency (tk_budget child_task) in 1 \<le> lim_active l \<and> lim_active l \<le> 4 \<and> lim_hard l \<le> 4"
    by (simp add: child_task_def child_policy_def Let_def)
  ultimately show ?thesis
    using dispatch_is_schedulable [OF v r sample_prepared, of "[''b'', ''a'']" 4] by simp
qed

end
