(* ===== verification/ContextAssembly.thy ===== *)
theory ContextAssembly
  imports ContextModels "HOL-Library.Product_Lexorder"
begin

section \<open>Assembly of task contexts\<close>

text \<open>
  \<^verbatim>\<open>context/assembly.py\<close>: the default-deny, deterministic selection of context entries, artifacts and tools for a task.
  The methods append to a shared list of decisions; here each returns the decisions it appends. A raised
  \<^verbatim>\<open>ContextAssemblyError\<close> and pydantic's \<^verbatim>\<open>ValidationError\<close> are the error values.
\<close>

subsection \<open>Python's numbers\<close>

text \<open>\<^verbatim>\<open>aware.timestamp()\<close> divides the microseconds since the epoch by \<open>10\<^sup>6\<close> and rounds to the nearest double, ties to even:
  53 significant bits. \<open>e\<close> is the exponent of the quotient; it is below 52 for every \<^verbatim>\<open>datetime\<close>.\<close>

fun bit_length :: "nat \<Rightarrow> nat" where
  "bit_length n = (if n = 0 then 0 else Suc (bit_length (n div 2)))"

declare bit_length.simps [simp del]

definition half_even :: "rat \<Rightarrow> int" where
  "half_even q = (let f = \<lfloor>q\<rfloor>; d = q - of_int f in if d < 1 / 2 \<or> (d = 1 / 2 \<and> even f) then f else f + 1)"

definition timestamp :: "datetime \<Rightarrow> rat" where
  "timestamp d = (let n = dt_us d; q = rat_of_int \<bar>n\<bar> / 1000000;
     e = int (bit_length (nat \<lfloor>q * 2 ^ 64\<rfloor>)) - 65; k = nat (52 - e); v = of_int (half_even (q * 2 ^ k)) / 2 ^ k
   in if n < 0 then - v else v)"

text \<open>\<^verbatim>\<open>max(xs, key=f)\<close> is the first of the largest elements.\<close>

definition first_max :: "('a \<Rightarrow> 'k :: linorder) \<Rightarrow> 'a list \<Rightarrow> 'a" where
  "first_max f xs = foldl (\<lambda>m x. if f m < f x then x else m) (hd xs) (tl xs)"

subsection \<open>Access\<close>

fun classification_order :: "data_classification \<Rightarrow> nat" where
  "classification_order PUBLIC = 0"
| "classification_order INTERNAL = 1"
| "classification_order CONFIDENTIAL = 2"
| "classification_order RESTRICTED = 3"

datatype assembly_error = AssemblyError (assembly_code: string) string string | AssemblyInvalid

record access_input =
  ai_scope :: tenant_scope
  ai_visibility :: context_visibility
  ai_required_roles :: "string list"
  ai_required_permissions :: "string list"
  ai_classification :: data_classification

definition canonical_scope :: "tenant_scope \<Rightarrow> tenant_scope" where
  "canonical_scope s = s\<lparr>ts_role_codes := sort (remdups (ts_role_codes s))\<rparr>"

definition context_content_sha256 :: "(string \<times> json) list \<Rightarrow> string" where
  "context_content_sha256 content = sha256_hex (canonical_json_bytes (JObj content))"

definition access_reason :: "access_input \<Rightarrow> assembly_request \<Rightarrow> tenant_scope \<Rightarrow> context_selection_reason option" where
  "access_reason a req scope = (
     if ts_tenant_id (ai_scope a) \<noteq> ts_tenant_id scope then Some TENANT_DENIED
     else if ts_project_id (ai_scope a) \<noteq> ts_project_id scope then Some PROJECT_DENIED
     else if ai_visibility a = VISIBLE_USER \<and> ts_user_id (ai_scope a) \<noteq> ts_user_id scope then Some USER_DENIED
     else if ts_permission_version (ai_scope a) \<noteq> ts_permission_version scope then Some PERMISSION_VERSION_STALE
     else if \<not> set (ai_required_roles a) \<subseteq> set (ts_role_codes scope) then Some ROLE_DENIED
     else if \<not> set (ai_required_permissions a) \<subseteq> set (rq_granted_permissions req) then Some PERMISSION_DENIED
     else if classification_order (ai_classification a) > classification_order (rq_clearance req)
     then Some CLASSIFICATION_DENIED
     else None)"

definition authorization_sha256 :: "assembly_request \<Rightarrow> tenant_scope \<Rightarrow> string" where
  "authorization_sha256 req scope = sha256_hex (canonical_json_bytes (JObj
     [(''scope'', dump_scope scope),
      (''granted_permissions'', str_list (sort (remdups (rq_granted_permissions req)))),
      (''clearance'', JStr (classification_value (rq_clearance req))),
      (''policy_version'', JStr (ap_policy_version (rq_policy req)))]))"

text \<open>\<^verbatim>\<open>_validate_request\<close>: the loop raises at the first candidate whose content and digest differ.\<close>

definition content_size :: "item_candidate \<Rightarrow> int" where
  "content_size c = int (length (canonical_json_bytes (JObj (ic_content c))))"

definition validate_assembly :: "assembly_request \<Rightarrow> assembly_error + unit" where
  "validate_assembly req = (
     if bp_task_class (rq_budget req) \<noteq> rq_task_class req
     then Inl (AssemblyError ''CONTEXT_BUDGET_CLASS_MISMATCH''
       ''The context request and budget use different task classes.''
       ''Select the versioned budget policy for the active task class.'')
     else if list_ex (\<lambda>c. ic_content_sha256 c \<noteq> context_content_sha256 (ic_content c)) (rq_candidates req)
     then Inl (AssemblyError ''CONTEXT_CONTENT_HASH_MISMATCH''
       ''A context candidate failed content-integrity validation.''
       ''Rebuild the candidate from its verified source content.'')
     else if sum_list (map content_size (rq_candidates req)) > ap_max_candidate_content_bytes (rq_policy req)
     then Inl (AssemblyError ''CONTEXT_CANDIDATE_INPUT_OVERFLOW''
       ''Context candidates exceed the active bounded-input policy.''
       ''Move large content to authorized artifacts before assembly.'')
     else Inr ())"

subsection \<open>Entries\<close>

definition decided :: "candidate_kind \<Rightarrow> context_selection_reason \<Rightarrow> string \<Rightarrow> context_decision" where
  "decided kind reason i = \<lparr>cd_candidate_kind = kind, cd_candidate_id = i, cd_reason = reason\<rparr>"

definition item_reason :: "assembly_request \<Rightarrow> tenant_scope \<Rightarrow> item_candidate \<Rightarrow> context_selection_reason option" where
  "item_reason req scope c = (case access_reason
       \<lparr>ai_scope = ic_scope c, ai_visibility = ic_visibility c, ai_required_roles = ic_required_roles c,
        ai_required_permissions = ic_required_permissions c, ai_classification = ic_classification c\<rparr> req scope of
     Some reason \<Rightarrow> Some reason
   | None \<Rightarrow> if \<not> ic_protected c \<and> fval (ic_relevance_score c) < fval (ap_minimum_relevance (rq_policy req))
       then Some IRRELEVANT else None)"

text \<open>The first loop of a selection: what has a reason is decided with it, what has none is eligible.\<close>

definition sift :: "candidate_kind \<Rightarrow> ('c \<Rightarrow> string) \<Rightarrow> ('c \<Rightarrow> context_selection_reason option) \<Rightarrow> 'c list \<Rightarrow>
    context_decision list \<times> 'c list" where
  "sift kind name reason cs =
     (concat (map (\<lambda>c. case reason c of Some r \<Rightarrow> [decided kind r (name c)] | None \<Rightarrow> []) cs),
      filter (\<lambda>c. reason c = None) cs)"

text \<open>\<^verbatim>\<open>groups.setdefault(key, []).append(candidate)\<close>.\<close>

definition group_by :: "('a \<Rightarrow> 'k) \<Rightarrow> 'a list \<Rightarrow> ('k \<times> 'a list) list" where
  "group_by k xs = foldl (\<lambda>d x. AList.update (k x) ((case map_of d (k x) of None \<Rightarrow> [] | Some g \<Rightarrow> g) @ [x]) d) [] xs"

definition label_of :: "item_candidate \<Rightarrow> source_label" where
  "label_of c = \<lparr>sl_item_id = ic_item_id c, sl_source_type = ic_source_type c, sl_source_ref = ic_source_ref c,
     sl_source_version = ic_source_version c, sl_source_sha256 = ic_source_sha256 c, sl_trust_level = ic_trust_level c,
     sl_observed_at = ic_observed_at c\<rparr>"

definition merged :: "item_candidate list \<Rightarrow> selected_entry" where
  "merged cs = (let ordered = sort_key ic_item_id cs; first = hd ordered in
     \<lparr>se_content = ic_content first, se_content_sha256 = ic_content_sha256 first,
      se_classification = first_max classification_order (map ic_classification ordered),
      se_relevance_score = first_max fval (map ic_relevance_score ordered),
      se_protected = list_ex ic_protected ordered,
      se_content_size_bytes = content_size first,
      se_sources = map label_of ordered\<rparr>)"

definition merge_groups :: "item_candidate list list \<Rightarrow> assembly_error + selected_entry list" where
  "merge_groups groups = (let entries = map merged groups in
     if list_all valid_selected_entry entries then Inr entries else Inl AssemblyInvalid)"

definition latest :: "selected_entry \<Rightarrow> rat" where
  "latest e = Max (set (map (timestamp \<circ> sl_observed_at) (se_sources e)))"

definition entry_key :: "selected_entry \<Rightarrow> bool \<times> rat \<times> rat \<times> string" where
  "entry_key e = (\<not> se_protected e, - fval (se_relevance_score e), - latest e, se_content_sha256 e)"

text \<open>The second loop: the entries it keeps, in order, and the decisions on their sources.\<close>

definition kept_decisions :: "selected_entry \<Rightarrow> context_decision list" where
  "kept_decisions e = (case map sl_item_id (se_sources e) of [] \<Rightarrow> []
     | i # others \<Rightarrow> decided KIND_ITEM SELECTED i # map (decided KIND_ITEM DEDUPLICATED) others)"

fun pick_entries :: "assembly_policy \<Rightarrow> selected_entry list \<Rightarrow> int \<Rightarrow> int \<Rightarrow> context_decision list \<times> selected_entry list" where
  "pick_entries p [] n bytes = ([], [])"
| "pick_entries p (e # es) n bytes = (
     if n \<ge> ap_max_selected_items p then let (ds, ss) = pick_entries p es n bytes in
       (map (decided KIND_ITEM LIMIT_EXCLUDED \<circ> sl_item_id) (se_sources e) @ ds, ss)
     else if bytes + se_content_size_bytes e > ap_max_selected_content_bytes p then let (ds, ss) = pick_entries p es n bytes in
       (map (decided KIND_ITEM BUDGET_EXCLUDED \<circ> sl_item_id) (se_sources e) @ ds, ss)
     else let (ds, ss) = pick_entries p es (n + 1) (bytes + se_content_size_bytes e) in (kept_decisions e @ ds, e # ss))"

definition total_bytes :: "selected_entry list \<Rightarrow> int" where
  "total_bytes es = sum_list (map se_content_size_bytes es)"

definition assembly_entries :: "assembly_request \<Rightarrow> tenant_scope \<Rightarrow>
    assembly_error + (context_decision list \<times> selected_entry list)" where
  "assembly_entries req scope = (
     let (denied, eligible) = sift KIND_ITEM ic_item_id (item_reason req scope) (rq_candidates req) in
     case merge_groups (map snd (group_by ic_content_sha256 eligible)) of
       Inl e \<Rightarrow> Inl e
     | Inr entries \<Rightarrow>
         let ordered = sort_key entry_key entries; protected = filter se_protected ordered; p = rq_policy req in
         if int (length protected) > ap_max_selected_items p \<or> total_bytes protected > ap_max_selected_content_bytes p
         then Inl (AssemblyError ''CONTEXT_PROTECTED_OVERFLOW''
           ''Protected context exceeds the active lossless context policy.''
           ''Increase the approved context budget or move large content to an authorized artifact.'')
         else let (ds, selected) = pick_entries p ordered 0 0 in Inr (denied @ ds, selected))"

subsection \<open>Artifacts\<close>

definition artifact_name :: "artifact_candidate \<Rightarrow> string" where
  "artifact_name c = str_uuid (af_artifact_id (acd_artifact c))"

definition artifact_reason :: "assembly_request \<Rightarrow> tenant_scope \<Rightarrow> artifact_candidate \<Rightarrow> context_selection_reason option" where
  "artifact_reason req scope c = (case access_reason
       \<lparr>ai_scope = af_scope (acd_artifact c), ai_visibility = acd_visibility c, ai_required_roles = acd_required_roles c,
        ai_required_permissions = acd_required_permissions c, ai_classification = af_classification (acd_artifact c)\<rparr> req scope of
     Some reason \<Rightarrow> Some reason
   | None \<Rightarrow> if \<not> acd_protected c \<and> fval (acd_relevance_score c) < fval (ap_minimum_relevance (rq_policy req))
       then Some IRRELEVANT else None)"

definition artifact_key :: "artifact_candidate \<Rightarrow> bool \<times> rat \<times> string" where
  "artifact_key c = (\<not> acd_protected c, - fval (acd_relevance_score c), artifact_name c)"

definition assembly_artifacts :: "assembly_request \<Rightarrow> tenant_scope \<Rightarrow>
    assembly_error + (context_decision list \<times> artifact_ref list)" where
  "assembly_artifacts req scope = (
     let (denied, eligible) = sift KIND_ARTIFACT artifact_name (artifact_reason req scope) (rq_artifact_candidates req);
         ordered = sort_key artifact_key eligible; limit = ap_max_artifacts (rq_policy req) in
     if int (length (filter acd_protected ordered)) > limit
     then Inl (AssemblyError ''CONTEXT_PROTECTED_ARTIFACT_OVERFLOW''
       ''Protected artifact references exceed the active context policy.''
       ''Increase the approved artifact-reference limit or reduce the protected set.'')
     else let selected = take (nat limit) ordered; selected_ids = map (af_artifact_id \<circ> acd_artifact) selected in
       Inr (denied @ map (\<lambda>c. decided KIND_ARTIFACT
              (if af_artifact_id (acd_artifact c) \<in> set selected_ids then SELECTED else LIMIT_EXCLUDED) (artifact_name c)) ordered,
            map acd_artifact selected))"

subsection \<open>Tools\<close>

definition tool_access_reason :: "tool_authorization \<Rightarrow> assembly_request \<Rightarrow> tenant_scope \<Rightarrow> context_selection_reason option" where
  "tool_access_reason t req scope = access_reason
     \<lparr>ai_scope = ta_scope t, ai_visibility = ta_visibility t, ai_required_roles = ta_required_roles t,
      ai_required_permissions = ta_required_permissions t, ai_classification = PUBLIC\<rparr> req scope"

definition tool_reason :: "assembly_request \<Rightarrow> tenant_scope \<Rightarrow> string \<Rightarrow> context_selection_reason" where
  "tool_reason req scope name = (case map_of (dict_by ta_tool_name (rq_tool_authorizations req)) name of
     None \<Rightarrow> UNREGISTERED
   | Some t \<Rightarrow> (case tool_access_reason t req scope of None \<Rightarrow> SELECTED | Some reason \<Rightarrow> reason))"

definition assembly_tools :: "assembly_request \<Rightarrow> tenant_scope \<Rightarrow> context_decision list \<times> string list" where
  "assembly_tools req scope = (
     let requested = sort (remdups (rq_requested_tools req));
         others = sort (filter (\<lambda>n. n \<notin> set requested) (map fst (dict_by ta_tool_name (rq_tool_authorizations req)))) in
     (map (\<lambda>n. decided KIND_TOOL (tool_reason req scope n) n) requested @ map (decided KIND_TOOL NOT_REQUESTED) others,
      filter (\<lambda>n. tool_reason req scope n = SELECTED) requested))"

subsection \<open>Assembly\<close>

definition decision_key :: "context_decision \<Rightarrow> string \<times> string" where
  "decision_key d = (candidate_kind_value (cd_candidate_kind d), cd_candidate_id d)"

definition bundle_for :: "assembly_request \<Rightarrow> tenant_scope \<Rightarrow> selected_entry list \<Rightarrow> context_bundle" where
  "bundle_for req scope entries = \<lparr>cb_policy_version = ap_policy_version (rq_policy req),
     cb_authorization_sha256 = authorization_sha256 req scope, cb_selected_content_bytes = total_bytes entries,
     cb_entries = entries\<rparr>"

definition context_placeholder :: "assembly_request \<Rightarrow> tenant_scope \<Rightarrow> context_bundle \<Rightarrow> artifact_ref list \<Rightarrow> string list \<Rightarrow>
    task_context" where
  "context_placeholder req scope bundle artifacts tools =
     \<lparr>tk_task_id = rq_task_id req, tk_scope = scope, tk_task_class = rq_task_class req, tk_goal = rq_goal req,
      tk_success_criteria = rq_success_criteria req, tk_risk_level = rq_risk_level req,
      tk_dependency_data = [(''context_bundle'', dump_bundle bundle)],
      tk_context_manifest_sha256 = replicate 64 (CHR ''0''), tk_artifacts = artifacts,
      tk_skill_versions = sort_key fst (rq_skill_versions req), tk_prompt_versions = sort_key fst (rq_prompt_versions req),
      tk_model_versions = sort_key fst (rq_model_versions req),
      tk_knowledge_versions = sort (remdups (rq_knowledge_versions req)), tk_allowed_tools = tools,
      tk_budget = rq_budget req, tk_output_schema_id = rq_output_schema_id req,
      tk_review_checklist = rq_review_checklist req, tk_created_at = rq_created_at req\<rparr>"

definition assemble :: "assembly_request \<Rightarrow> assembly_error + assembly_result" where
  "assemble req = (let scope = canonical_scope (rq_scope req) in
     case validate_assembly req of Inl e \<Rightarrow> Inl e | Inr _ \<Rightarrow>
     case assembly_entries req scope of Inl e \<Rightarrow> Inl e | Inr (d1, entries) \<Rightarrow>
     case assembly_artifacts req scope of Inl e \<Rightarrow> Inl e | Inr (d2, artifacts) \<Rightarrow>
     let (d3, tools) = assembly_tools req scope;
         bundle = bundle_for req scope entries;
         placeholder = context_placeholder req scope bundle artifacts tools in
     if \<not> valid_bundle bundle \<or> \<not> valid_task_context placeholder then Inl AssemblyInvalid
     else Inr \<lparr>rr_context = placeholder\<lparr>tk_context_manifest_sha256 := task_context_manifest_sha256 placeholder\<rparr>,
       rr_policy_version = ap_policy_version (rq_policy req), rr_selected_content_bytes = total_bytes entries,
       rr_decisions = sort_key decision_key (d1 @ d2 @ d3)\<rparr>)"

end
