(* ===== verification/ContextAssemblyRules.thy ===== *)
theory ContextAssemblyRules
  imports ContextAssembly
begin

section \<open>What the parts of the assembly compute\<close>

text \<open>
  The lemmas on grouping, merging and picking that the properties of the assembly share: a group holds the eligible candidates
  of one content, a merged entry is described by its group alone, the picked entries are the longest the limits allow
  with all protected ones among them, and every source of every entry is decided once.
\<close>

subsection \<open>Groups\<close>

lemma group_by_Nil [simp]: "group_by k [] = []"
  by (simp add: group_by_def)

lemma group_by_snoc: "group_by k (xs @ [x]) =
    AList.update (k x) ((case map_of (group_by k xs) (k x) of None \<Rightarrow> [] | Some g \<Rightarrow> g) @ [x]) (group_by k xs)"
  by (simp add: group_by_def)

lemma distinct_keys_group_by [simp]: "distinct_keys (group_by k xs)"
  by (induction xs rule: rev_induct) (simp_all add: group_by_snoc)

lemma map_of_group_by: "map_of (group_by k xs) i = (if i \<in> k ` set xs then Some (filter (\<lambda>x. k x = i) xs) else None)"
proof (induction xs rule: rev_induct)
  case (snoc x xs)
  have "filter (\<lambda>y. k y = k x) xs = []" if "k x \<notin> k ` set xs"
    using that by (intro filter_False) (metis image_eqI)
  with snoc.IH show ?case
    by (cases "i = k x") (simp_all add: group_by_snoc)
qed simp

lemma keys_group_by: "set (map fst (group_by k xs)) = k ` set xs"
proof -
  have "i \<in> fst ` set (group_by k xs) \<longleftrightarrow> i \<in> k ` set xs" for i
    using map_of_eq_None_iff [of "group_by k xs" i] by (simp add: map_of_group_by split: if_splits)
  then show ?thesis
    by auto
qed

lemma groups_eq: "map snd (group_by k xs) = map (\<lambda>i. filter (\<lambda>x. k x = i) xs) (map fst (group_by k xs))"
proof -
  have "snd p = filter (\<lambda>x. k x = fst p) xs" if "p \<in> set (group_by k xs)" for p
  proof -
    have "map_of (group_by k xs) (fst p) = Some (snd p)"
      using that distinct_keys_group_by [of k xs] by (cases p) (auto simp: distinct_keys_def)
    then show ?thesis
      by (simp add: map_of_group_by split: if_splits)
  qed
  then show ?thesis
    by simp
qed

text \<open>Which groups there are, and how often, depends on the elements alone.\<close>

lemma mset_groups:
  "mset (map f (map snd (group_by k xs))) = image_mset (\<lambda>i. f (filter (\<lambda>x. k x = i) xs)) (mset_set (k ` set xs))"
proof -
  have "distinct (map fst (group_by k xs))"
    using distinct_keys_group_by [of k xs] by (simp add: distinct_keys_def)
  then have "mset (map fst (group_by k xs)) = mset_set (k ` set xs)"
    using mset_set_set keys_group_by [of k xs] by metis
  moreover have "map f (map snd (group_by k xs)) = map (\<lambda>i. f (filter (\<lambda>x. k x = i) xs)) (map fst (group_by k xs))"
    unfolding groups_eq by simp
  ultimately show ?thesis
    by (metis mset_map)
qed

lemma group_in_groups:
  assumes "g \<in> set (map snd (group_by k xs))"
  shows "\<exists>i \<in> k ` set xs. g = filter (\<lambda>x. k x = i) xs \<and> g \<noteq> []"
proof -
  obtain i where i: "i \<in> set (map fst (group_by k xs))" "g = filter (\<lambda>x. k x = i) xs"
    using assms unfolding groups_eq by auto
  then have "i \<in> k ` set xs"
    unfolding keys_group_by by simp
  with i show ?thesis
    by (intro bexI [of _ i]) (auto simp: filter_empty_conv)
qed

lemma in_some_group:
  assumes "x \<in> set xs"
  shows "filter (\<lambda>y. k y = k x) xs \<in> set (map snd (group_by k xs))"
  using assms unfolding groups_eq set_map keys_group_by [unfolded set_map] by blast

text \<open>Putting the groups together gives all elements again.\<close>

lemma mset_append_to_group:
  "mset (concat (map snd (AList.update i ((case map_of d i of None \<Rightarrow> [] | Some g \<Rightarrow> g) @ [x]) d))) =
    add_mset x (mset (concat (map snd d)))"
  by (induction d) auto

lemma mset_concat_groups: "mset (concat (map snd (group_by k xs))) = mset xs"
  by (induction xs rule: rev_induct) (simp_all only: group_by_snoc mset_append_to_group, simp_all)

subsection \<open>First maximum\<close>

lemma fold_max_in: "foldl (\<lambda>m x. if f m < f x then x else m) x xs \<in> set (x # xs)"
  by (induction xs arbitrary: x) auto

lemma foldl_first_max_ge:
  fixes f :: "'a \<Rightarrow> 'k :: linorder"
  shows "z \<in> set (x # xs) \<Longrightarrow> f z \<le> f (foldl (\<lambda>m x. if f m < f x then x else m) x xs)"
proof (induction xs arbitrary: x z)
  case (Cons y ys)
  let ?m = "if f x < f y then y else x"
  have "f z \<le> f ?m \<or> z \<in> set ys"
    using Cons.prems by auto
  then show ?case
    using Cons.IH [of ?m ?m] Cons.IH [of z ?m] by (auto split: if_splits)
qed simp

lemma first_max_in: "xs \<noteq> [] \<Longrightarrow> first_max f xs \<in> set xs"
  using fold_max_in [of f "hd xs" "tl xs"] by (cases xs) (auto simp: first_max_def)

lemma first_max_ge: "x \<in> set xs \<Longrightarrow> f x \<le> f (first_max f xs)"
  using foldl_first_max_ge [of x "hd xs" "tl xs" f] by (cases xs) (auto simp: first_max_def)


subsection \<open>Merged entries\<close>

lemma hd_sorted_in: "g \<noteq> [] \<Longrightarrow> hd (sort_key f g) \<in> set g"
  by (metis hd_in_set set_empty set_sort)

text \<open>A group of eligible candidates: integral, with one content digest and distinct identifiers.\<close>

definition content_group :: "item_candidate list \<Rightarrow> bool" where
  "content_group g = (g \<noteq> [] \<and> distinct (map ic_item_id g) \<and> (\<forall>c \<in> set g. valid_item_candidate c \<and>
     ic_content_sha256 c = context_content_sha256 (ic_content c) \<and> ic_content_sha256 c = ic_content_sha256 (hd g)))"

lemma merged_sources: "map sl_item_id (se_sources (merged g)) = sort (map ic_item_id g)"
proof -
  have "map ic_item_id (sort_key ic_item_id g) = sort (map ic_item_id g)"
    by (rule properties_for_sort [symmetric]) simp_all
  then show ?thesis
    by (simp add: merged_def label_of_def comp_def Let_def)
qed

lemma merged_entry:
  assumes "g \<noteq> []"
  shows "set (se_sources (merged g)) = label_of ` set g"
    and "\<exists>c \<in> set g. se_content (merged g) = ic_content c \<and> se_content_sha256 (merged g) = ic_content_sha256 c"
    and "\<exists>c \<in> set g. se_classification (merged g) = ic_classification c"
    and "c \<in> set g \<Longrightarrow> classification_order (ic_classification c) \<le> classification_order (se_classification (merged g))"
    and "\<exists>c \<in> set g. se_relevance_score (merged g) = ic_relevance_score c"
    and "se_protected (merged g) \<longleftrightarrow> (\<exists>c \<in> set g. ic_protected c)"
proof -
  let ?o = "sort_key ic_item_id g"
  have ne: "?o \<noteq> []"
    using assms by (metis set_empty set_sort)
  show "set (se_sources (merged g)) = label_of ` set g"
    by (simp add: merged_def Let_def)
  show "\<exists>c \<in> set g. se_content (merged g) = ic_content c \<and> se_content_sha256 (merged g) = ic_content_sha256 c"
    using hd_sorted_in [OF assms] by (auto simp: merged_def Let_def)
  show "\<exists>c \<in> set g. se_classification (merged g) = ic_classification c"
    using first_max_in [of "map ic_classification ?o"] ne by (auto simp: merged_def Let_def)
  show "c \<in> set g \<Longrightarrow> classification_order (ic_classification c) \<le> classification_order (se_classification (merged g))"
    by (simp add: merged_def Let_def) (rule first_max_ge, simp)
  show "\<exists>c \<in> set g. se_relevance_score (merged g) = ic_relevance_score c"
    using first_max_in [of "map ic_relevance_score ?o"] ne by (auto simp: merged_def Let_def)
  show "se_protected (merged g) \<longleftrightarrow> (\<exists>c \<in> set g. ic_protected c)"
    by (simp add: merged_def Let_def list_ex_iff)
qed

lemma merged_sha256:
  assumes "content_group g"
  shows "se_content_sha256 (merged g) = ic_content_sha256 (hd g)"
  using merged_entry(2) [of g] assms unfolding content_group_def by metis

lemma valid_label: "valid_item_candidate c \<Longrightarrow> valid_source_label (label_of c)"
  by (simp add: valid_item_candidate_def valid_source_label_def label_of_def)

lemma merged_valid:
  assumes "content_group g"
  shows "valid_selected_entry (merged g)"
proof -
  let ?first = "hd (sort_key ic_item_id g)"
  have ne: "g \<noteq> []" and first: "?first \<in> set g"
    using assms hd_sorted_in by (auto simp: content_group_def)
  have "is_sha256 (ic_content_sha256 ?first)" "ic_content_sha256 ?first = context_content_sha256 (ic_content ?first)"
    using assms first by (auto simp: content_group_def valid_item_candidate_def)
  moreover have "list_all valid_source_label (se_sources (merged g))" "se_sources (merged g) \<noteq> []"
    using assms ne merged_entry(1) [OF ne] valid_label by (auto simp: list_all_iff content_group_def)
  moreover have "unique_strings (map sl_item_id (se_sources (merged g)))"
    using assms unfolding merged_sources
    by (auto simp: unique_strings_def content_group_def list_all_iff valid_item_candidate_def text_len_def)
  ultimately show ?thesis
    by (simp add: valid_selected_entry_def merged_def Let_def content_size_def context_content_sha256_def)
qed

subsection \<open>Picking\<close>

lemma pick_Cons:
  "fst (pick_entries p (e # es) n bytes) = (
     if n \<ge> ap_max_selected_items p
     then map (decided KIND_ITEM LIMIT_EXCLUDED \<circ> sl_item_id) (se_sources e) @ fst (pick_entries p es n bytes)
     else if bytes + se_content_size_bytes e > ap_max_selected_content_bytes p
     then map (decided KIND_ITEM BUDGET_EXCLUDED \<circ> sl_item_id) (se_sources e) @ fst (pick_entries p es n bytes)
     else kept_decisions e @ fst (pick_entries p es (n + 1) (bytes + se_content_size_bytes e)))"
  "snd (pick_entries p (e # es) n bytes) = (
     if n \<ge> ap_max_selected_items p \<or> bytes + se_content_size_bytes e > ap_max_selected_content_bytes p
     then snd (pick_entries p es n bytes) else e # snd (pick_entries p es (n + 1) (bytes + se_content_size_bytes e)))"
  by (simp_all add: Let_def split: prod.split)

declare pick_entries.simps(2) [simp del] pick_Cons [simp]

lemma pick_bounds:
  assumes "0 \<le> n" "n \<le> ap_max_selected_items p" "bytes \<le> ap_max_selected_content_bytes p"
  shows "n + int (length (snd (pick_entries p es n bytes))) \<le> ap_max_selected_items p"
    and "bytes + total_bytes (snd (pick_entries p es n bytes)) \<le> ap_max_selected_content_bytes p"
  using assms
proof (induction es arbitrary: n bytes)
  case (Cons e es)
  case 1
  then show ?case
    using Cons.IH(1) [of n bytes] Cons.IH(1) [of "n + 1" "bytes + se_content_size_bytes e"]
    by (auto simp: not_le not_less)
next
  case (Cons e es)
  case 2
  then show ?case
    using Cons.IH(2) [of n bytes] Cons.IH(2) [of "n + 1" "bytes + se_content_size_bytes e"]
    by (auto simp: total_bytes_def not_le not_less)
qed (simp_all add: total_bytes_def)

lemma pick_set: "set (snd (pick_entries p es n bytes)) \<subseteq> set es"
  by (induction es arbitrary: n bytes) auto

text \<open>A prefix that fits is picked whole.\<close>

lemma pick_prefix:
  assumes "n + int (length ps) \<le> ap_max_selected_items p" "bytes + total_bytes ps \<le> ap_max_selected_content_bytes p"
    and "\<forall>e \<in> set ps. 0 \<le> se_content_size_bytes e"
  shows "\<exists>rest. snd (pick_entries p (ps @ es) n bytes) = ps @ rest"
  using assms
proof (induction ps arbitrary: n bytes)
  case (Cons e ps)
  have "0 \<le> total_bytes ps"
    using Cons.prems(3) by (auto simp: total_bytes_def intro!: sum_list_nonneg)
  then have fits: "n < ap_max_selected_items p" "bytes + se_content_size_bytes e \<le> ap_max_selected_content_bytes p"
    using Cons.prems by (simp_all add: total_bytes_def)
  have "\<exists>rest. snd (pick_entries p (ps @ es) (n + 1) (bytes + se_content_size_bytes e)) = ps @ rest"
    using Cons.prems by (intro Cons.IH) (simp_all add: total_bytes_def)
  with fits show ?case
    by auto
qed simp

lemma kept_decisions_ids: "map cd_candidate_id (kept_decisions e) = map sl_item_id (se_sources e)"
  by (simp add: kept_decisions_def decided_def comp_def split: list.split)

text \<open>Every source of every entry is decided once, and it is kept exactly when its entry is picked.\<close>

lemma pick_decisions:
  "map (\<lambda>d. (cd_candidate_kind d, cd_candidate_id d)) (fst (pick_entries p es n bytes)) =
     map (Pair KIND_ITEM) (concat (map (\<lambda>e. map sl_item_id (se_sources e)) es))"
proof (induction es arbitrary: n bytes)
  case (Cons e es)
  have kept: "map (\<lambda>d. (cd_candidate_kind d, cd_candidate_id d)) (kept_decisions e) = map (Pair KIND_ITEM \<circ> sl_item_id) (se_sources e)"
    by (cases "se_sources e") (auto simp: kept_decisions_def decided_def)
  show ?case
    using Cons.IH by (simp add: kept) (simp add: decided_def comp_def)
qed simp

definition chosen :: "context_selection_reason \<Rightarrow> bool" where
  "chosen r = (r \<in> {SELECTED, DEDUPLICATED})"

lemma pick_ids: "d \<in> set (fst (pick_entries p es n bytes)) \<Longrightarrow> \<exists>e \<in> set es. cd_candidate_id d \<in> sl_item_id ` set (se_sources e)"
proof -
  assume "d \<in> set (fst (pick_entries p es n bytes))"
  then have "(cd_candidate_kind d, cd_candidate_id d) \<in>
      set (map (\<lambda>d. (cd_candidate_kind d, cd_candidate_id d)) (fst (pick_entries p es n bytes)))"
    by (auto intro: rev_image_eqI)
  then show ?thesis
    unfolding pick_decisions by auto
qed

lemma pick_kept:
  assumes "distinct (concat (map (\<lambda>e. map sl_item_id (se_sources e)) es))"
  shows "d \<in> set (fst (pick_entries p es n bytes)) \<Longrightarrow> chosen (cd_reason d) \<longleftrightarrow>
    (\<exists>e \<in> set (snd (pick_entries p es n bytes)). cd_candidate_id d \<in> sl_item_id ` set (se_sources e))"
  using assms
proof (induction es arbitrary: n bytes)
  case (Cons e es)
  let ?id = "\<lambda>e. sl_item_id ` set (se_sources e)"
  let ?picked = "\<lambda>r. \<exists>e \<in> set (snd r). cd_candidate_id d \<in> ?id e"
  have apart: "?id e \<inter> ?id e' = {}" if "e' \<in> set es" for e'
    using that Cons.prems(2) by auto
  have d: "distinct (concat (map (\<lambda>e. map sl_item_id (se_sources e)) es))"
    using Cons.prems(2) by simp
  have own: "chosen (cd_reason d) \<and> cd_candidate_id d \<in> ?id e" if "d \<in> set (kept_decisions e)"
    using that by (cases "se_sources e") (auto simp: kept_decisions_def decided_def chosen_def)
  have out: "\<not> chosen r \<Longrightarrow> d \<in> set (map (decided KIND_ITEM r \<circ> sl_item_id) (se_sources e)) \<Longrightarrow>
      \<not> chosen (cd_reason d) \<and> \<not> ?picked (pick_entries p es m b)" for r m b
    using apart pick_set [of p es m b] by (fastforce simp: decided_def)
  have rest: "cd_candidate_id d \<notin> ?id e" if "d \<in> set (fst (pick_entries p es m b))" for m b
    using pick_ids [OF that] apart by blast
  consider "n \<ge> ap_max_selected_items p"
    | "n < ap_max_selected_items p" "bytes + se_content_size_bytes e > ap_max_selected_content_bytes p"
    | "n < ap_max_selected_items p" "bytes + se_content_size_bytes e \<le> ap_max_selected_content_bytes p"
    by linarith
  then show ?case
  proof cases
    case 1
    then show ?thesis
      using Cons.prems(1) Cons.IH [OF _ d, of n bytes] out [of LIMIT_EXCLUDED n bytes]
      by (auto simp: chosen_def)
  next
    case 2
    then show ?thesis
      using Cons.prems(1) Cons.IH [OF _ d, of n bytes] out [of BUDGET_EXCLUDED n bytes]
      by (auto simp: chosen_def)
  next
    case 3
    then show ?thesis
      using Cons.prems(1) Cons.IH [OF _ d, of "n + 1" "bytes + se_content_size_bytes e"] own rest [of "n + 1" "bytes + se_content_size_bytes e"]
      by auto
  qed
qed simp

end
