(* ===== verification/ContextAssemblyProperties.thy ===== *)
theory ContextAssemblyProperties
  imports ContextAssemblyRules ChildProperties
begin

section \<open>Properties of the assembly\<close>

text \<open>
  What an assembled context may hold, that its decisions account for every candidate, its bounds, that it does not depend
  on the order in which candidates arrive, that it fails in its own ways only, and that the child factory accepts it.
\<close>

subsection \<open>The parts of an assembly\<close>

abbreviation scope_of :: "assembly_request \<Rightarrow> tenant_scope" where
  "scope_of req \<equiv> canonical_scope (rq_scope req)"

definition eligible_items :: "assembly_request \<Rightarrow> item_candidate list" where
  "eligible_items req = filter (\<lambda>c. item_reason req (scope_of req) c = None) (rq_candidates req)"

definition item_groups :: "assembly_request \<Rightarrow> item_candidate list list" where
  "item_groups req = map snd (group_by ic_content_sha256 (eligible_items req))"

definition ordered_entries :: "assembly_request \<Rightarrow> selected_entry list" where
  "ordered_entries req = sort_key entry_key (map merged (item_groups req))"

definition ordered_artifacts :: "assembly_request \<Rightarrow> artifact_candidate list" where
  "ordered_artifacts req = sort_key artifact_key
     (filter (\<lambda>c. artifact_reason req (scope_of req) c = None) (rq_artifact_candidates req))"

abbreviation picked :: "assembly_request \<Rightarrow> context_decision list \<times> selected_entry list" where
  "picked req \<equiv> pick_entries (rq_policy req) (ordered_entries req) 0 0"

abbreviation chosen_artifacts :: "assembly_request \<Rightarrow> artifact_candidate list" where
  "chosen_artifacts req \<equiv> take (nat (ap_max_artifacts (rq_policy req))) (ordered_artifacts req)"

definition denials :: "candidate_kind \<Rightarrow> ('c \<Rightarrow> string) \<Rightarrow> ('c \<Rightarrow> context_selection_reason option) \<Rightarrow> 'c list \<Rightarrow>
    context_decision list" where
  "denials kind name reason cs = fst (sift kind name reason cs)"

definition artifact_decisions :: "assembly_request \<Rightarrow> context_decision list" where
  "artifact_decisions req = map (\<lambda>c. decided KIND_ARTIFACT
     (if af_artifact_id (acd_artifact c) \<in> (af_artifact_id \<circ> acd_artifact) ` set (chosen_artifacts req)
      then SELECTED else LIMIT_EXCLUDED) (artifact_name c)) (ordered_artifacts req)"

definition all_decisions :: "assembly_request \<Rightarrow> context_decision list" where
  "all_decisions req =
     (denials KIND_ITEM ic_item_id (item_reason req (scope_of req)) (rq_candidates req) @ fst (picked req)) @
     (denials KIND_ARTIFACT artifact_name (artifact_reason req (scope_of req)) (rq_artifact_candidates req) @
        artifact_decisions req) @
     fst (assembly_tools req (scope_of req))"

lemma assembleD:
  assumes "assemble req = Inr res"
  defines "bundle \<equiv> bundle_for req (scope_of req) (snd (picked req))"
  defines "p \<equiv> context_placeholder req (scope_of req) bundle (map acd_artifact (chosen_artifacts req))
    (snd (assembly_tools req (scope_of req)))"
  shows "validate_assembly req = Inr ()"
    and "int (length (filter se_protected (ordered_entries req))) \<le> ap_max_selected_items (rq_policy req)"
    and "total_bytes (filter se_protected (ordered_entries req)) \<le> ap_max_selected_content_bytes (rq_policy req)"
    and "int (length (filter acd_protected (ordered_artifacts req))) \<le> ap_max_artifacts (rq_policy req)"
    and "valid_bundle bundle"
    and "res = \<lparr>rr_context = p\<lparr>tk_context_manifest_sha256 := task_context_manifest_sha256 p\<rparr>,
       rr_policy_version = ap_policy_version (rq_policy req), rr_selected_content_bytes = total_bytes (snd (picked req)),
       rr_decisions = sort_key decision_key (all_decisions req)\<rparr>"
proof -
  obtain d1 entries d2 artifacts where parts: "validate_assembly req = Inr ()"
      "assembly_entries req (scope_of req) = Inr (d1, entries)" "assembly_artifacts req (scope_of req) = Inr (d2, artifacts)"
    using assms(1) by (auto simp: assemble_def Let_def split: sum.splits)
  have e: "int (length (filter se_protected (ordered_entries req))) \<le> ap_max_selected_items (rq_policy req)"
      "total_bytes (filter se_protected (ordered_entries req)) \<le> ap_max_selected_content_bytes (rq_policy req)"
      "entries = snd (picked req)"
      "d1 = denials KIND_ITEM ic_item_id (item_reason req (scope_of req)) (rq_candidates req) @ fst (picked req)"
    using parts(2)
    by (auto simp: assembly_entries_def merge_groups_def sift_def denials_def ordered_entries_def item_groups_def eligible_items_def
        Let_def split: if_splits prod.splits)
  have a: "int (length (filter acd_protected (ordered_artifacts req))) \<le> ap_max_artifacts (rq_policy req)"
      "artifacts = map acd_artifact (chosen_artifacts req)"
      "d2 = denials KIND_ARTIFACT artifact_name (artifact_reason req (scope_of req)) (rq_artifact_candidates req) @
        artifact_decisions req"
    using parts(3)
    by (auto simp: assembly_artifacts_def sift_def denials_def ordered_artifacts_def artifact_decisions_def Let_def split: if_splits)
  show "validate_assembly req = Inr ()"
    and "int (length (filter se_protected (ordered_entries req))) \<le> ap_max_selected_items (rq_policy req)"
    and "total_bytes (filter se_protected (ordered_entries req)) \<le> ap_max_selected_content_bytes (rq_policy req)"
    and "int (length (filter acd_protected (ordered_artifacts req))) \<le> ap_max_artifacts (rq_policy req)"
    using parts(1) e(1,2) a(1) by simp_all
  show "valid_bundle bundle"
    using assms(1) parts e(3) by (auto simp: assemble_def bundle_def Let_def split: if_splits prod.splits)
  show "res = \<lparr>rr_context = p\<lparr>tk_context_manifest_sha256 := task_context_manifest_sha256 p\<rparr>,
       rr_policy_version = ap_policy_version (rq_policy req), rr_selected_content_bytes = total_bytes (snd (picked req)),
       rr_decisions = sort_key decision_key (all_decisions req)\<rparr>"
    using assms(1) parts e(3,4) a(2,3)
    by (auto simp: assemble_def bundle_def p_def all_decisions_def Let_def split: if_splits prod.splits)
qed

subsection \<open>Access\<close>

definition granted :: "assembly_request \<Rightarrow> tenant_scope \<Rightarrow> context_visibility \<Rightarrow> string list \<Rightarrow> string list \<Rightarrow>
    data_classification \<Rightarrow> bool" where
  "granted req s visibility roles permissions classification = (
     ts_tenant_id s = ts_tenant_id (rq_scope req) \<and> ts_project_id s = ts_project_id (rq_scope req) \<and>
     (visibility = VISIBLE_USER \<longrightarrow> ts_user_id s = ts_user_id (rq_scope req)) \<and>
     ts_permission_version s = ts_permission_version (rq_scope req) \<and>
     set roles \<subseteq> set (ts_role_codes (rq_scope req)) \<and> set permissions \<subseteq> set (rq_granted_permissions req) \<and>
     classification_order classification \<le> classification_order (rq_clearance req))"

lemma access_reason_None:
  "access_reason a req (scope_of req) = None \<longleftrightarrow>
   granted req (ai_scope a) (ai_visibility a) (ai_required_roles a) (ai_required_permissions a) (ai_classification a)"
  by (auto simp: access_reason_def granted_def canonical_scope_def)

lemma access_reason_denies: "access_reason a req scope = Some r \<Longrightarrow> r \<notin> {SELECTED, DEDUPLICATED}"
  by (auto simp: access_reason_def split: if_splits)

definition item_granted :: "assembly_request \<Rightarrow> item_candidate \<Rightarrow> bool" where
  "item_granted req c = granted req (ic_scope c) (ic_visibility c) (ic_required_roles c) (ic_required_permissions c)
     (ic_classification c)"

definition artifact_granted :: "assembly_request \<Rightarrow> artifact_candidate \<Rightarrow> bool" where
  "artifact_granted req c = granted req (af_scope (acd_artifact c)) (acd_visibility c) (acd_required_roles c)
     (acd_required_permissions c) (af_classification (acd_artifact c))"

definition tool_granted :: "assembly_request \<Rightarrow> tool_authorization \<Rightarrow> bool" where
  "tool_granted req t = granted req (ta_scope t) (ta_visibility t) (ta_required_roles t) (ta_required_permissions t) PUBLIC"

lemma reason_or_None: "(case x of None \<Rightarrow> if b then Some y else None | Some r \<Rightarrow> Some r) = None \<longleftrightarrow> x = None \<and> \<not> b"
  by (simp split: option.split)

lemma item_reason_None:
  "item_reason req (scope_of req) c = None \<longleftrightarrow> item_granted req c \<and>
     (ic_protected c \<or> fval (ap_minimum_relevance (rq_policy req)) \<le> fval (ic_relevance_score c))"
  unfolding item_reason_def reason_or_None access_reason_None by (auto simp: item_granted_def not_less)

lemma artifact_reason_None:
  "artifact_reason req (scope_of req) c = None \<longleftrightarrow> artifact_granted req c \<and>
     (acd_protected c \<or> fval (ap_minimum_relevance (rq_policy req)) \<le> fval (acd_relevance_score c))"
  unfolding artifact_reason_def reason_or_None access_reason_None by (auto simp: artifact_granted_def not_less)

lemma tool_reason_SELECTED:
  "tool_reason req (scope_of req) n = SELECTED \<longleftrightarrow>
     (\<exists>t. map_of (dict_by ta_tool_name (rq_tool_authorizations req)) n = Some t \<and> tool_granted req t)"
proof (cases "map_of (dict_by ta_tool_name (rq_tool_authorizations req)) n")
  case (Some t)
  then show ?thesis
    using access_reason_denies [of "\<lparr>ai_scope = ta_scope t, ai_visibility = ta_visibility t, ai_required_roles = ta_required_roles t,
      ai_required_permissions = ta_required_permissions t, ai_classification = PUBLIC\<rparr>" req "scope_of req"]
      access_reason_None [of "\<lparr>ai_scope = ta_scope t, ai_visibility = ta_visibility t, ai_required_roles = ta_required_roles t,
      ai_required_permissions = ta_required_permissions t, ai_classification = PUBLIC\<rparr>" req]
    by (auto simp: tool_reason_def tool_access_reason_def tool_granted_def split: option.split)
qed (simp add: tool_reason_def)


subsection \<open>Entries\<close>

lemma ordered_entry:
  assumes "e \<in> set (ordered_entries req)"
  shows "\<exists>g. e = merged g \<and> g \<noteq> [] \<and> set g \<subseteq> set (eligible_items req) \<and>
    (\<forall>c \<in> set g. ic_content_sha256 c = se_content_sha256 e)"
proof -
  obtain g where g: "e = merged g" "g \<in> set (item_groups req)"
    using assms by (auto simp: ordered_entries_def)
  then obtain i where "g = filter (\<lambda>x. ic_content_sha256 x = i) (eligible_items req)" "g \<noteq> []"
    using group_in_groups unfolding item_groups_def by blast
  then show ?thesis
    using merged_entry(2) [of g] g(1) by auto
qed

lemma eligible_item: "c \<in> set (eligible_items req) \<Longrightarrow> c \<in> set (rq_candidates req) \<and> item_granted req c"
  by (simp add: eligible_items_def item_reason_None)

lemma chosen_artifact:
  assumes "c \<in> set (chosen_artifacts req)"
  shows "c \<in> set (rq_artifact_candidates req) \<and> artifact_granted req c"
  using in_set_takeD [OF assms] by (simp add: ordered_artifacts_def artifact_reason_None)

lemma allowed_tool:
  assumes "t \<in> set (snd (assembly_tools req (scope_of req)))"
  shows "t \<in> set (rq_requested_tools req) \<and> (\<exists>a \<in> set (rq_tool_authorizations req). ta_tool_name a = t \<and> tool_granted req a)"
  using assms map_of_dict_by_SomeD [of ta_tool_name "rq_tool_authorizations req" t]
  by (auto simp: assembly_tools_def Let_def tool_reason_SELECTED)

text \<open>An entry shows only what the candidates behind it show, and those were granted.\<close>

definition entry_granted :: "assembly_request \<Rightarrow> selected_entry \<Rightarrow> bool" where
  "entry_granted req e = (
     (\<exists>c \<in> set (rq_candidates req). item_granted req c \<and> se_content e = ic_content c) \<and>
     (\<forall>s \<in> set (se_sources e). \<exists>c \<in> set (rq_candidates req). item_granted req c \<and> s = label_of c \<and>
        ic_content_sha256 c = se_content_sha256 e \<and>
        classification_order (ic_classification c) \<le> classification_order (se_classification e)) \<and>
     classification_order (se_classification e) \<le> classification_order (rq_clearance req))"

lemma picked_granted:
  assumes "e \<in> set (snd (picked req))"
  shows "entry_granted req e"
proof -
  have "e \<in> set (ordered_entries req)"
    using assms pick_set by blast
  then obtain g where g: "e = merged g" "g \<noteq> []" "set g \<subseteq> set (eligible_items req)"
      "\<forall>c \<in> set g. ic_content_sha256 c = se_content_sha256 e"
    using ordered_entry by blast
  note m = merged_entry [OF g(2), folded g(1)]
  have c: "c \<in> set (rq_candidates req) \<and> item_granted req c" if "c \<in> set g" for c
    using that g(3) eligible_item by blast
  obtain k where "k \<in> set g" "se_classification e = ic_classification k"
    using m(3) by blast
  then have "classification_order (se_classification e) \<le> classification_order (rq_clearance req)"
    using c by (simp add: item_granted_def granted_def)
  moreover have "\<exists>c \<in> set (rq_candidates req). item_granted req c \<and> se_content e = ic_content c"
    using m(2) c by blast
  moreover have "\<exists>c \<in> set (rq_candidates req). item_granted req c \<and> s = label_of c \<and>
      ic_content_sha256 c = se_content_sha256 e \<and>
      classification_order (ic_classification c) \<le> classification_order (se_classification e)"
    if "s \<in> set (se_sources e)" for s
  proof -
    obtain x where "x \<in> set g" "s = label_of x"
      using \<open>s \<in> set (se_sources e)\<close> m(1) by auto
    then show ?thesis
      using m(4) g(4) c by (intro bexI [of _ x]) simp_all
  qed
  ultimately show ?thesis
    by (simp add: entry_granted_def)
qed

text \<open>(C19) Default deny. Everything in an assembled context was granted to the requester: every entry of its bundle has the content
  of a granted candidate, its sources are labels of granted candidates of that content, and its classification
  covers all of them and is within the clearance; every artifact and tool is a granted candidate, and a tool was also
  requested. \<open>granted\<close> is same tenant and project, the user for private ones, the current permission version, all
  required roles and permissions held, and a classification within the clearance.\<close>

theorem assembly_default_deny:
  assumes "assemble req = Inr res"
  shows "\<exists>b. tk_dependency_data (rr_context res) = [(''context_bundle'', dump_bundle b)] \<and> valid_bundle b \<and>
    (\<forall>e \<in> set (cb_entries b). entry_granted req e) \<and>
    (\<forall>a \<in> set (tk_artifacts (rr_context res)). \<exists>c \<in> set (rq_artifact_candidates req). acd_artifact c = a \<and> artifact_granted req c) \<and>
    (\<forall>t \<in> set (tk_allowed_tools (rr_context res)). t \<in> set (rq_requested_tools req) \<and>
      (\<exists>a \<in> set (rq_tool_authorizations req). ta_tool_name a = t \<and> tool_granted req a))"
proof -
  let ?b = "bundle_for req (scope_of req) (snd (picked req))"
  note d = assembleD [OF assms]
  have "\<exists>c \<in> set (rq_artifact_candidates req). acd_artifact c = a \<and> artifact_granted req c"
    if "a \<in> set (tk_artifacts (rr_context res))" for a
    using that chosen_artifact by (auto simp: d(6) context_placeholder_def simp del: set_take_subset)
  moreover have "t \<in> set (rq_requested_tools req) \<and> (\<exists>a \<in> set (rq_tool_authorizations req). ta_tool_name a = t \<and> tool_granted req a)"
    if "t \<in> set (tk_allowed_tools (rr_context res))" for t
    using that allowed_tool by (auto simp: d(6) context_placeholder_def)
  moreover have "entry_granted req e" if "e \<in> set (cb_entries ?b)" for e
    using that picked_granted by (simp add: bundle_for_def)
  ultimately show ?thesis
    using d(5) by (intro exI [of _ ?b]) (simp add: d(6) context_placeholder_def)
qed

subsection \<open>Bounds\<close>

lemma sorted_protected_first:
  assumes "sorted (map entry_key es)"
  shows "es = filter se_protected es @ filter (\<lambda>e. \<not> se_protected e) es"
  using assms
proof (induction es)
  case (Cons e es)
  have "filter se_protected es = []" if "\<not> se_protected e"
    using Cons.prems that by (auto simp: entry_key_def less_eq_prod_def filter_empty_conv)
  then show ?case
    using Cons by (cases "se_protected e") auto
qed simp

lemma artifacts_protected_first:
  assumes "sorted (map artifact_key cs)"
  shows "cs = filter acd_protected cs @ filter (\<lambda>c. \<not> acd_protected c) cs"
  using assms
proof (induction cs)
  case (Cons c cs)
  have "filter acd_protected cs = []" if "\<not> acd_protected c"
    using Cons.prems that by (auto simp: artifact_key_def less_eq_prod_def filter_empty_conv)
  then show ?case
    using Cons by (cases "acd_protected c") auto
qed simp

lemma entry_size: "e \<in> set (ordered_entries req) \<Longrightarrow> 0 \<le> se_content_size_bytes e"
  by (auto simp: ordered_entries_def merged_def Let_def content_size_def)

lemma protected_picked:
  assumes "int (length (filter se_protected (ordered_entries req))) \<le> ap_max_selected_items (rq_policy req)"
    "total_bytes (filter se_protected (ordered_entries req)) \<le> ap_max_selected_content_bytes (rq_policy req)"
    "e \<in> set (ordered_entries req)" "se_protected e"
  shows "e \<in> set (snd (picked req))"
proof -
  let ?o = "ordered_entries req"
  have "sorted (map entry_key ?o)"
    by (simp add: ordered_entries_def)
  then have o: "?o = filter se_protected ?o @ filter (\<lambda>e. \<not> se_protected e) ?o"
    by (rule sorted_protected_first)
  have "\<exists>rest. snd (pick_entries (rq_policy req) (filter se_protected ?o @ filter (\<lambda>e. \<not> se_protected e) ?o) 0 0) =
      filter se_protected ?o @ rest"
    using assms(1,2) entry_size by (intro pick_prefix) auto
  then obtain rest where "snd (picked req) = filter se_protected ?o @ rest"
    unfolding o [symmetric] by blast
  then show ?thesis
    using assms(3,4) by simp
qed

lemma protected_chosen:
  assumes "int (length (filter acd_protected (ordered_artifacts req))) \<le> ap_max_artifacts (rq_policy req)"
    "c \<in> set (ordered_artifacts req)" "acd_protected c"
  shows "c \<in> set (chosen_artifacts req)"
proof -
  let ?o = "ordered_artifacts req" and ?n = "nat (ap_max_artifacts (rq_policy req))"
  have o: "?o = filter acd_protected ?o @ filter (\<lambda>c. \<not> acd_protected c) ?o"
    by (rule artifacts_protected_first) (simp add: ordered_artifacts_def)
  have "length (filter acd_protected ?o) \<le> ?n"
    using assms(1) by simp
  then have "take ?n ?o = filter acd_protected ?o @ take (?n - length (filter acd_protected ?o)) (filter (\<lambda>c. \<not> acd_protected c) ?o)"
    by (subst o) simp
  then show ?thesis
    using assms(2,3) by simp
qed


lemma eligible_entry:
  assumes "c \<in> set (eligible_items req)"
  shows "\<exists>e \<in> set (ordered_entries req). label_of c \<in> set (se_sources e) \<and> (ic_protected c \<longrightarrow> se_protected e) \<and>
    se_content_sha256 e = ic_content_sha256 c"
proof -
  let ?g = "filter (\<lambda>x. ic_content_sha256 x = ic_content_sha256 c) (eligible_items req)"
  have g: "?g \<in> set (item_groups req)" "c \<in> set ?g" "?g \<noteq> []"
    using in_some_group [OF assms, of ic_content_sha256] assms by (auto simp: item_groups_def filter_empty_conv)
  moreover have "se_content_sha256 (merged ?g) = ic_content_sha256 c"
    using merged_entry(2) [OF g(3)] by auto
  ultimately show ?thesis
    using merged_entry(1,6) [OF g(3)] by (intro bexI [of _ "merged ?g"]) (auto simp: ordered_entries_def)
qed

text \<open>(C20) An assembled context is bounded and lossless for protected material. Its bundle has at most the policy's number of
  entries and bytes, and reports their true size; it names at most the policy's number of artifacts. And no limit
  drops what is protected: every granted protected candidate has an entry with its content and its source label, and
  every granted protected artifact is in the context.\<close>

theorem assembly_bounded_lossless:
  assumes "assemble req = Inr res" "valid_request req"
  shows "\<exists>b. tk_dependency_data (rr_context res) = [(''context_bundle'', dump_bundle b)] \<and>
    int (length (cb_entries b)) \<le> ap_max_selected_items (rq_policy req) \<and>
    total_bytes (cb_entries b) \<le> ap_max_selected_content_bytes (rq_policy req) \<and>
    rr_selected_content_bytes res = total_bytes (cb_entries b) \<and> cb_selected_content_bytes b = total_bytes (cb_entries b) \<and>
    int (length (tk_artifacts (rr_context res))) \<le> ap_max_artifacts (rq_policy req) \<and>
    (\<forall>c \<in> set (rq_candidates req). item_granted req c \<and> ic_protected c \<longrightarrow>
      (\<exists>e \<in> set (cb_entries b). label_of c \<in> set (se_sources e) \<and> se_content_sha256 e = ic_content_sha256 c \<and> se_protected e)) \<and>
    (\<forall>c \<in> set (rq_artifact_candidates req). artifact_granted req c \<and> acd_protected c \<longrightarrow>
      acd_artifact c \<in> set (tk_artifacts (rr_context res)))"
proof -
  let ?b = "bundle_for req (scope_of req) (snd (picked req))" and ?p = "rq_policy req"
  note d = assembleD [OF assms(1)]
  have p: "0 \<le> ap_max_selected_items ?p" "0 \<le> ap_max_selected_content_bytes ?p" "0 \<le> ap_max_artifacts ?p"
    using assms(2) by (simp_all add: valid_request_def valid_assembly_policy_def)
  have len: "int (length (snd (picked req))) \<le> ap_max_selected_items ?p" "total_bytes (snd (picked req)) \<le> ap_max_selected_content_bytes ?p"
    using pick_bounds [of 0 ?p 0 "ordered_entries req"] p by simp_all
  have items: "\<exists>e \<in> set (snd (picked req)). label_of c \<in> set (se_sources e) \<and> se_content_sha256 e = ic_content_sha256 c \<and> se_protected e"
    if c: "c \<in> set (rq_candidates req)" "item_granted req c" "ic_protected c" for c
  proof -
    have "c \<in> set (eligible_items req)"
      using c by (simp add: eligible_items_def item_reason_None)
    then obtain e where "e \<in> set (ordered_entries req)" "label_of c \<in> set (se_sources e)" "se_protected e"
        "se_content_sha256 e = ic_content_sha256 c"
      using eligible_entry c(3) by blast
    then show ?thesis
      using protected_picked [OF d(2,3)] by blast
  qed
  have artifacts: "c \<in> set (chosen_artifacts req)"
    if "c \<in> set (rq_artifact_candidates req)" "artifact_granted req c" "acd_protected c" for c
    using protected_chosen [OF d(4) _ that(3)] that by (simp add: ordered_artifacts_def artifact_reason_None)
  show ?thesis
    using len p(3) items artifacts
    by (intro exI [of _ ?b]) (auto simp: d(6) context_placeholder_def bundle_for_def)
qed

subsection \<open>Decisions\<close>

definition decision_of :: "context_decision \<Rightarrow> candidate_kind \<times> string" where
  "decision_of d = (cd_candidate_kind d, cd_candidate_id d)"

lemma decision_of_decided [simp]: "decision_of (decided k r i) = (k, i)"
  by (simp add: decision_of_def decided_def)

lemma denials_ids: "map decision_of (denials k name reason cs) = map (Pair k \<circ> name) (filter (\<lambda>c. reason c \<noteq> None) cs)"
  by (induction cs) (auto simp: denials_def sift_def)

lemma denial_reason:
  "d \<in> set (denials k name reason cs) \<Longrightarrow> \<exists>c \<in> set cs. cd_candidate_kind d = k \<and> cd_candidate_id d = name c \<and> reason c = Some (cd_reason d)"
  by (auto simp: denials_def sift_def decided_def split: option.splits)

lemma mset_split: "mset (map f (filter P xs)) + mset (map f (filter (\<lambda>x. \<not> P x) xs)) = mset (map f xs)"
  by (induction xs) auto

lemma mset_sources: "mset (map sl_item_id (se_sources (merged g))) = mset (map ic_item_id g)"
  by (simp only: merged_sources mset_sort)

lemma mset_concat_map: "mset (concat (map f xs)) = \<Sum>\<^sub># (image_mset (mset \<circ> f) (mset xs))"
  by (induction xs) simp_all

lemma ordered_ids: "mset (concat (map (\<lambda>e. map sl_item_id (se_sources e)) (ordered_entries req))) = mset (map ic_item_id (eligible_items req))"
proof -
  have "mset (concat (map (\<lambda>e. map sl_item_id (se_sources e)) (ordered_entries req))) =
      \<Sum>\<^sub># (image_mset (\<lambda>g. mset (map sl_item_id (se_sources (merged g)))) (mset (item_groups req)))"
    unfolding mset_concat_map ordered_entries_def mset_sort by (simp only: mset_map multiset.map_comp comp_def)
  also have "\<dots> = mset (concat (map (map ic_item_id) (item_groups req)))"
    unfolding mset_concat_map mset_sources by (simp only: comp_def)
  also have "\<dots> = mset (map ic_item_id (concat (item_groups req)))"
    by (simp only: map_concat)
  also have "\<dots> = mset (map ic_item_id (eligible_items req))"
    using mset_concat_groups [of ic_content_sha256 "eligible_items req"] by (simp only: item_groups_def mset_map)
  finally show ?thesis .
qed

lemma item_decisions:
  "mset (map decision_of (denials KIND_ITEM ic_item_id (item_reason req (scope_of req)) (rq_candidates req) @ fst (picked req))) =
   mset (map (Pair KIND_ITEM \<circ> ic_item_id) (rq_candidates req))"
proof -
  have "mset (map decision_of (fst (picked req))) = image_mset (Pair KIND_ITEM) (mset (map ic_item_id (eligible_items req)))"
    using pick_decisions [of "rq_policy req" "ordered_entries req" 0 0] ordered_ids [of req]
    by (simp add: decision_of_def [abs_def])
  then show ?thesis
    using mset_split [of "Pair KIND_ITEM \<circ> ic_item_id" "\<lambda>c. item_reason req (scope_of req) c \<noteq> None" "rq_candidates req"]
    by (simp add: denials_ids eligible_items_def multiset.map_comp)
qed

lemma artifact_decision_ids:
  "mset (map decision_of (denials KIND_ARTIFACT artifact_name (artifact_reason req (scope_of req)) (rq_artifact_candidates req) @
     artifact_decisions req)) = mset (map (Pair KIND_ARTIFACT \<circ> artifact_name) (rq_artifact_candidates req))"
proof -
  have "map decision_of (artifact_decisions req) = map (Pair KIND_ARTIFACT \<circ> artifact_name) (ordered_artifacts req)"
    by (simp add: artifact_decisions_def comp_def)
  then show ?thesis
    using mset_split [of "Pair KIND_ARTIFACT \<circ> artifact_name" "\<lambda>c. artifact_reason req (scope_of req) c \<noteq> None"
        "rq_artifact_candidates req"]
    by (simp add: denials_ids ordered_artifacts_def)
qed

lemma mset_map_distinct:
  assumes "distinct xs" "inj f" "set xs = A"
  shows "mset (map f xs) = mset_set (f ` A)"
proof -
  have "distinct (map f xs)"
    using assms(1,2) by (auto simp: distinct_map intro: inj_on_subset)
  then show ?thesis
    using mset_set_set [of "map f xs"] assms(3) by simp
qed

lemma tool_decision_ids:
  "mset (map decision_of (fst (assembly_tools req scope))) =
   mset_set (Pair KIND_TOOL ` (set (rq_requested_tools req) \<union> ta_tool_name ` set (rq_tool_authorizations req)))"
proof -
  let ?r = "sort (remdups (rq_requested_tools req))"
    and ?o = "sort (filter (\<lambda>n. n \<notin> set (rq_requested_tools req)) (map fst (dict_by ta_tool_name (rq_tool_authorizations req))))"
  have "distinct (?r @ ?o)"
    using distinct_keys_dict_by [of ta_tool_name "rq_tool_authorizations req"] by (auto simp: distinct_keys_def)
  moreover have "set (?r @ ?o) = set (rq_requested_tools req) \<union> ta_tool_name ` set (rq_tool_authorizations req)"
    using keys_dict_by [of ta_tool_name "rq_tool_authorizations req"] by auto
  ultimately have "mset (map (Pair KIND_TOOL) (?r @ ?o)) =
      mset_set (Pair KIND_TOOL ` (set (rq_requested_tools req) \<union> ta_tool_name ` set (rq_tool_authorizations req)))"
    by (intro mset_map_distinct) (auto simp: inj_def)
  moreover have "map decision_of (fst (assembly_tools req scope)) = map (Pair KIND_TOOL) (?r @ ?o)"
    by (simp add: assembly_tools_def Let_def comp_def)
  ultimately show ?thesis
    by simp
qed


lemma item_reason_denies: "item_reason req scope c = Some r \<Longrightarrow> \<not> chosen r"
  using access_reason_denies by (auto simp: item_reason_def chosen_def split: option.splits if_splits)

lemma artifact_reason_denies: "artifact_reason req scope c = Some r \<Longrightarrow> r \<noteq> SELECTED"
  using access_reason_denies by (auto simp: artifact_reason_def split: option.splits if_splits)

lemma all_decisions_kinds:
  assumes "d \<in> set (all_decisions req)"
  shows "cd_candidate_kind d = KIND_ITEM \<Longrightarrow>
      d \<in> set (denials KIND_ITEM ic_item_id (item_reason req (scope_of req)) (rq_candidates req)) \<or> d \<in> set (fst (picked req))"
    and "cd_candidate_kind d = KIND_ARTIFACT \<Longrightarrow>
      d \<in> set (denials KIND_ARTIFACT artifact_name (artifact_reason req (scope_of req)) (rq_artifact_candidates req)) \<or>
      d \<in> set (artifact_decisions req)"
    and "cd_candidate_kind d = KIND_TOOL \<Longrightarrow> d \<in> set (fst (assembly_tools req (scope_of req)))"
proof -
  have kinds: "cd_candidate_kind x = k" if "x \<in> set (denials k name reason cs)" for x k name reason and cs :: "'c list"
    using denial_reason [OF that] by auto
  have "cd_candidate_kind x = KIND_ITEM" if "x \<in> set (fst (picked req))" for x
    using that pick_decisions [of "rq_policy req" "ordered_entries req" 0 0, THEN arg_cong [where f = set]] by fastforce
  moreover have "cd_candidate_kind x = KIND_ARTIFACT" if "x \<in> set (artifact_decisions req)" for x
    using that by (auto simp: artifact_decisions_def decided_def)
  moreover have "cd_candidate_kind x = KIND_TOOL" if "x \<in> set (fst (assembly_tools req (scope_of req)))" for x
    using that by (auto simp: assembly_tools_def decided_def Let_def)
  ultimately show "cd_candidate_kind d = KIND_ITEM \<Longrightarrow>
      d \<in> set (denials KIND_ITEM ic_item_id (item_reason req (scope_of req)) (rq_candidates req)) \<or> d \<in> set (fst (picked req))"
    and "cd_candidate_kind d = KIND_ARTIFACT \<Longrightarrow>
      d \<in> set (denials KIND_ARTIFACT artifact_name (artifact_reason req (scope_of req)) (rq_artifact_candidates req)) \<or>
      d \<in> set (artifact_decisions req)"
    and "cd_candidate_kind d = KIND_TOOL \<Longrightarrow> d \<in> set (fst (assembly_tools req (scope_of req)))"
    using assms kinds unfolding all_decisions_def by (auto; fastforce)+
qed

lemma item_decision_exact:
  assumes "distinct (map ic_item_id (rq_candidates req))"
    and d: "d \<in> set (denials KIND_ITEM ic_item_id (item_reason req (scope_of req)) (rq_candidates req)) \<or> d \<in> set (fst (picked req))"
  shows "chosen (cd_reason d) \<longleftrightarrow> (\<exists>e \<in> set (snd (picked req)). cd_candidate_id d \<in> sl_item_id ` set (se_sources e))"
proof -
  have elig: "distinct (map ic_item_id (eligible_items req))"
    using assms(1) by (simp add: eligible_items_def distinct_map_filter)
  from d show ?thesis
  proof
    assume "d \<in> set (fst (picked req))"
    moreover have "distinct (concat (map (\<lambda>e. map sl_item_id (se_sources e)) (ordered_entries req)))"
      using elig mset_eq_imp_distinct_iff [OF ordered_ids [of req]] by simp
    ultimately show ?thesis
      by (rule pick_kept [rotated])
  next
    assume "d \<in> set (denials KIND_ITEM ic_item_id (item_reason req (scope_of req)) (rq_candidates req))"
    then obtain c where c: "c \<in> set (rq_candidates req)" "cd_candidate_id d = ic_item_id c"
        "item_reason req (scope_of req) c = Some (cd_reason d)"
      using denial_reason by blast
    have "cd_candidate_id d \<notin> sl_item_id ` set (se_sources e)" if e: "e \<in> set (snd (picked req))" for e
    proof
      assume "cd_candidate_id d \<in> sl_item_id ` set (se_sources e)"
      moreover have "e \<in> set (ordered_entries req)"
        using e pick_set by blast
      then obtain g where "e = merged g" "g \<noteq> []" "set g \<subseteq> set (eligible_items req)"
        using ordered_entry by blast
      ultimately obtain x where x: "x \<in> set (eligible_items req)" "ic_item_id x = ic_item_id c"
        using merged_entry(1) [of g] c(2) by (auto simp: label_of_def)
      then have "x = c"
        using assms(1) c(1) by (auto simp: eligible_items_def distinct_map inj_on_def)
      with x c(3) show False
        by (simp add: eligible_items_def)
    qed
    then show ?thesis
      using item_reason_denies [OF c(3)] by blast
  qed
qed


lemma artifact_decision_exact:
  assumes "distinct (map artifact_name (rq_artifact_candidates req))"
    and d: "d \<in> set (denials KIND_ARTIFACT artifact_name (artifact_reason req (scope_of req)) (rq_artifact_candidates req)) \<or>
      d \<in> set (artifact_decisions req)"
  shows "cd_reason d = SELECTED \<longleftrightarrow> cd_candidate_id d \<in> artifact_name ` set (chosen_artifacts req)"
proof -
  have same: "x = c" if "x \<in> set (rq_artifact_candidates req)" "c \<in> set (rq_artifact_candidates req)" "artifact_name x = artifact_name c" for x c
    using assms(1) that by (auto simp: distinct_map inj_on_def)
  have here: "x \<in> set (rq_artifact_candidates req) \<and> artifact_reason req (scope_of req) x = None" if "x \<in> set (ordered_artifacts req)" for x
    using that by (simp add: ordered_artifacts_def)
  have taken: "x \<in> set (ordered_artifacts req)" if "x \<in> set (chosen_artifacts req)" for x
    using that by (rule in_set_takeD)
  from d show ?thesis
  proof
    assume "d \<in> set (artifact_decisions req)"
    then obtain c where c: "c \<in> set (ordered_artifacts req)" "cd_candidate_id d = artifact_name c"
        "cd_reason d = SELECTED \<longleftrightarrow> af_artifact_id (acd_artifact c) \<in> (af_artifact_id \<circ> acd_artifact) ` set (chosen_artifacts req)"
      by (auto simp: artifact_decisions_def decided_def)
    have "af_artifact_id (acd_artifact c) \<in> (af_artifact_id \<circ> acd_artifact) ` set (chosen_artifacts req) \<longleftrightarrow>
        artifact_name c \<in> artifact_name ` set (chosen_artifacts req)"
    proof -
      have "x = c" if "x \<in> set (chosen_artifacts req)" "artifact_name x = artifact_name c" for x
        using same here taken that c(1) by blast
      moreover have "x = c" if "x \<in> set (chosen_artifacts req)" "af_artifact_id (acd_artifact x) = af_artifact_id (acd_artifact c)" for x
        using calculation [OF that(1)] that(2) by (simp add: artifact_name_def)
      ultimately show ?thesis
        by auto
    qed
    then show ?thesis
      using c(2,3) by simp
  next
    assume "d \<in> set (denials KIND_ARTIFACT artifact_name (artifact_reason req (scope_of req)) (rq_artifact_candidates req))"
    then obtain c where c: "c \<in> set (rq_artifact_candidates req)" "cd_candidate_id d = artifact_name c"
        "artifact_reason req (scope_of req) c = Some (cd_reason d)"
      using denial_reason by blast
    have "artifact_name c \<notin> artifact_name ` set (chosen_artifacts req)"
      using same [OF _ c(1)] here taken c(3) by (metis (no_types, lifting) imageE option.distinct(1))
    then show ?thesis
      using artifact_reason_denies [OF c(3)] c(2) by simp
  qed
qed

lemma tool_decision_exact:
  assumes "d \<in> set (fst (assembly_tools req scope))"
  shows "cd_reason d = SELECTED \<longleftrightarrow> cd_candidate_id d \<in> set (snd (assembly_tools req scope))"
  using assms by (auto simp: assembly_tools_def decided_def Let_def)

text \<open>(C21) The decision report accounts for everything. It has exactly one decision for every item and artifact candidate
  and for every tool that was requested or authorised, sorted by kind and identifier; an item is reported selected or
  deduplicated exactly when an entry of the bundle names it as a source, an artifact or tool is reported selected exactly
  when the context has it.\<close>

theorem assembly_decisions_account:
  assumes "assemble req = Inr res" "valid_request req"
  shows "\<exists>b. tk_dependency_data (rr_context res) = [(''context_bundle'', dump_bundle b)] \<and>
    mset (map decision_of (rr_decisions res)) = mset (map (Pair KIND_ITEM \<circ> ic_item_id) (rq_candidates req)) +
      mset (map (Pair KIND_ARTIFACT \<circ> artifact_name) (rq_artifact_candidates req)) +
      mset_set (Pair KIND_TOOL ` (set (rq_requested_tools req) \<union> ta_tool_name ` set (rq_tool_authorizations req))) \<and>
    sorted (map decision_key (rr_decisions res)) \<and>
    (\<forall>d \<in> set (rr_decisions res). case cd_candidate_kind d of
       KIND_ITEM \<Rightarrow> chosen (cd_reason d) = (\<exists>e \<in> set (cb_entries b). cd_candidate_id d \<in> sl_item_id ` set (se_sources e))
     | KIND_ARTIFACT \<Rightarrow> (cd_reason d = SELECTED) =
         (cd_candidate_id d \<in> (str_uuid \<circ> af_artifact_id) ` set (tk_artifacts (rr_context res)))
     | KIND_TOOL \<Rightarrow> (cd_reason d = SELECTED) = (cd_candidate_id d \<in> set (tk_allowed_tools (rr_context res))))"
proof -
  let ?b = "bundle_for req (scope_of req) (snd (picked req))"
  note d = assembleD [OF assms(1)]
  have u: "distinct (map ic_item_id (rq_candidates req))" "distinct (map artifact_name (rq_artifact_candidates req))"
    using assms(2) by (simp_all add: valid_request_def unique_strings_def artifact_name_def [abs_def])
  have "mset (map decision_of (rr_decisions res)) = mset (map decision_of (all_decisions req))"
    by (simp add: d(6))
  also have "\<dots> = mset (map (Pair KIND_ITEM \<circ> ic_item_id) (rq_candidates req)) +
      mset (map (Pair KIND_ARTIFACT \<circ> artifact_name) (rq_artifact_candidates req)) +
      mset_set (Pair KIND_TOOL ` (set (rq_requested_tools req) \<union> ta_tool_name ` set (rq_tool_authorizations req)))"
    using item_decisions [of req] artifact_decision_ids [of req] tool_decision_ids [of req "scope_of req"]
    unfolding all_decisions_def map_append [of _ "_ @ _"] mset_append [of "map decision_of (_ @ _)"] by simp
  finally have account: "mset (map decision_of (rr_decisions res)) = mset (map (Pair KIND_ITEM \<circ> ic_item_id) (rq_candidates req)) +
      mset (map (Pair KIND_ARTIFACT \<circ> artifact_name) (rq_artifact_candidates req)) +
      mset_set (Pair KIND_TOOL ` (set (rq_requested_tools req) \<union> ta_tool_name ` set (rq_tool_authorizations req)))" .
  have parts: "tk_artifacts (rr_context res) = map acd_artifact (chosen_artifacts req)"
      "tk_allowed_tools (rr_context res) = snd (assembly_tools req (scope_of req))" "cb_entries ?b = snd (picked req)"
      "tk_dependency_data (rr_context res) = [(''context_bundle'', dump_bundle ?b)]"
    by (simp_all add: d(6) context_placeholder_def bundle_for_def)
  have art: "(str_uuid \<circ> af_artifact_id) ` set (map acd_artifact cs) = artifact_name ` set cs" for cs
    by (force simp: artifact_name_def)
  have "case cd_candidate_kind x of
       KIND_ITEM \<Rightarrow> chosen (cd_reason x) = (\<exists>e \<in> set (cb_entries ?b). cd_candidate_id x \<in> sl_item_id ` set (se_sources e))
     | KIND_ARTIFACT \<Rightarrow> (cd_reason x = SELECTED) =
         (cd_candidate_id x \<in> (str_uuid \<circ> af_artifact_id) ` set (tk_artifacts (rr_context res)))
     | KIND_TOOL \<Rightarrow> (cd_reason x = SELECTED) = (cd_candidate_id x \<in> set (tk_allowed_tools (rr_context res)))"
    if "x \<in> set (rr_decisions res)" for x
  proof -
    have "x \<in> set (all_decisions req)"
      using that by (simp add: d(6))
    note k = all_decisions_kinds [OF this]
    show ?thesis
      unfolding parts art
      using k item_decision_exact [OF u(1), of x] artifact_decision_exact [OF u(2), of x] tool_decision_exact [of x req "scope_of req"]
      by (cases "cd_candidate_kind x") simp_all
  qed
  then show ?thesis
    using account parts(4) by (intro exI [of _ ?b]) (simp add: d(6))
qed


subsection \<open>The assembly as one equation\<close>

abbreviation protected_overflow :: "assembly_request \<Rightarrow> bool" where
  "protected_overflow req \<equiv> int (length (filter se_protected (ordered_entries req))) > ap_max_selected_items (rq_policy req) \<or>
     total_bytes (filter se_protected (ordered_entries req)) > ap_max_selected_content_bytes (rq_policy req)"

abbreviation artifact_overflow :: "assembly_request \<Rightarrow> bool" where
  "artifact_overflow req \<equiv> int (length (filter acd_protected (ordered_artifacts req))) > ap_max_artifacts (rq_policy req)"

definition assembled_bundle :: "assembly_request \<Rightarrow> context_bundle" where
  "assembled_bundle req = bundle_for req (scope_of req) (snd (picked req))"

definition assembled_placeholder :: "assembly_request \<Rightarrow> task_context" where
  "assembled_placeholder req = context_placeholder req (scope_of req) (assembled_bundle req)
     (map acd_artifact (chosen_artifacts req)) (snd (assembly_tools req (scope_of req)))"

definition assembled :: "assembly_request \<Rightarrow> assembly_result" where
  "assembled req = \<lparr>rr_context = (assembled_placeholder req)
       \<lparr>tk_context_manifest_sha256 := task_context_manifest_sha256 (assembled_placeholder req)\<rparr>,
     rr_policy_version = ap_policy_version (rq_policy req), rr_selected_content_bytes = total_bytes (snd (picked req)),
     rr_decisions = sort_key decision_key (all_decisions req)\<rparr>"

definition protected_error :: assembly_error where
  "protected_error = AssemblyError ''CONTEXT_PROTECTED_OVERFLOW''
     ''Protected context exceeds the active lossless context policy.''
     ''Increase the approved context budget or move large content to an authorized artifact.''"

definition artifact_error :: assembly_error where
  "artifact_error = AssemblyError ''CONTEXT_PROTECTED_ARTIFACT_OVERFLOW''
     ''Protected artifact references exceed the active context policy.''
     ''Increase the approved artifact-reference limit or reduce the protected set.''"

lemma entries_eq: "assembly_entries req (scope_of req) = (
    if \<not> list_all valid_selected_entry (ordered_entries req) then Inl AssemblyInvalid
    else if protected_overflow req then Inl protected_error
    else Inr (denials KIND_ITEM ic_item_id (item_reason req (scope_of req)) (rq_candidates req) @ fst (picked req), snd (picked req)))"
proof -
  have "list_all valid_selected_entry (map merged (item_groups req)) = list_all valid_selected_entry (ordered_entries req)"
    by (simp add: ordered_entries_def list_all_iff)
  then show ?thesis
    by (simp add: assembly_entries_def merge_groups_def sift_def denials_def ordered_entries_def item_groups_def eligible_items_def
        protected_error_def Let_def split: prod.split)
qed

lemma artifacts_eq: "assembly_artifacts req (scope_of req) = (
    if artifact_overflow req then Inl artifact_error
    else Inr (denials KIND_ARTIFACT artifact_name (artifact_reason req (scope_of req)) (rq_artifact_candidates req) @
      artifact_decisions req, map acd_artifact (chosen_artifacts req)))"
  by (simp add: assembly_artifacts_def sift_def denials_def ordered_artifacts_def artifact_decisions_def artifact_error_def Let_def)

lemma assemble_eq: "assemble req = (case validate_assembly req of Inl e \<Rightarrow> Inl e | Inr _ \<Rightarrow>
    if \<not> list_all valid_selected_entry (ordered_entries req) then Inl AssemblyInvalid
    else if protected_overflow req then Inl protected_error
    else if artifact_overflow req then Inl artifact_error
    else if \<not> valid_bundle (assembled_bundle req) \<or> \<not> valid_task_context (assembled_placeholder req) then Inl AssemblyInvalid
    else Inr (assembled req))"
  unfolding assemble_def entries_eq artifacts_eq Let_def
  by (simp add: assembled_def assembled_bundle_def assembled_placeholder_def all_decisions_def split: sum.split prod.split)

subsection \<open>Errors\<close>

lemma group_content:
  assumes "valid_request req" "validate_assembly req = Inr ()" "g \<in> set (item_groups req)"
  shows "content_group g"
proof -
  obtain i where g: "g = filter (\<lambda>x. ic_content_sha256 x = i) (eligible_items req)" "g \<noteq> []"
    using group_in_groups assms(3) unfolding item_groups_def by blast
  have d: "distinct (map ic_item_id g)"
    using assms(1) unfolding g(1) eligible_items_def
    by (simp add: valid_request_def unique_strings_def distinct_map_filter)
  have h: "hd g \<in> set g"
    using g(2) by simp
  have all: "valid_item_candidate c \<and> ic_content_sha256 c = context_content_sha256 (ic_content c) \<and> ic_content_sha256 c = i"
    if "c \<in> set g" for c
    using that assms(1,2) eligible_item [of c req]
    by (auto simp: g(1) valid_request_def list_all_iff list_ex_iff validate_assembly_def split: if_splits)
  show ?thesis
    unfolding content_group_def using d g(2) all all [OF h] by metis
qed

lemma entries_sha256: "map (se_content_sha256 \<circ> merged) (item_groups req) = map fst (group_by ic_content_sha256 (eligible_items req))"
proof -
  have "se_content_sha256 (merged (snd p)) = fst p" if "p \<in> set (group_by ic_content_sha256 (eligible_items req))" for p
  proof -
    have "map_of (group_by ic_content_sha256 (eligible_items req)) (fst p) = Some (snd p)"
      using that distinct_keys_group_by [of ic_content_sha256 "eligible_items req"] by (cases p) (auto simp: distinct_keys_def)
    then have g: "snd p = filter (\<lambda>x. ic_content_sha256 x = fst p) (eligible_items req)" "snd p \<noteq> []"
      by (auto simp: map_of_group_by filter_empty_conv split: if_splits)
    then show ?thesis
      using merged_entry(2) [OF g(2)] by auto
  qed
  then show ?thesis
    by (simp add: item_groups_def)
qed

lemma distinct_entries: "distinct (map se_content_sha256 (ordered_entries req))"
proof -
  have "distinct (map (se_content_sha256 \<circ> merged) (item_groups req))"
    unfolding entries_sha256 using distinct_keys_group_by by (simp add: distinct_keys_def)
  moreover have "mset (map se_content_sha256 (ordered_entries req)) = mset (map (se_content_sha256 \<circ> merged) (item_groups req))"
    by (simp add: ordered_entries_def multiset.map_comp)
  ultimately show ?thesis
    using mset_eq_imp_distinct_iff by blast
qed

lemma distinct_picked: "distinct (map f es) \<Longrightarrow> distinct (map f (snd (pick_entries p es n bytes)))"
proof (induction es arbitrary: n bytes)
  case (Cons e es)
  then show ?case
    using pick_set [of p es "n + 1" "bytes + se_content_size_bytes e"] by auto
qed simp

lemma assembled_valid:
  assumes "valid_request req" "validate_assembly req = Inr ()"
  shows "list_all valid_selected_entry (ordered_entries req)" "valid_bundle (assembled_bundle req)"
    "valid_task_context (assembled_placeholder req)"
proof -
  show entries: "list_all valid_selected_entry (ordered_entries req)"
    using merged_valid group_content [OF assms] by (auto simp: ordered_entries_def list_all_iff)
  then have e: "list_all valid_selected_entry (snd (picked req))"
    using pick_set unfolding list_all_iff by blast
  then have "unique_strings (map se_content_sha256 (snd (picked req)))"
    using distinct_picked [OF distinct_entries] by (auto simp: unique_strings_def list_all_iff valid_selected_entry_def is_sha256_def)
  moreover have "0 \<le> total_bytes (snd (picked req))"
    using e by (auto simp: total_bytes_def list_all_iff valid_selected_entry_def intro!: sum_list_nonneg)
  ultimately show "valid_bundle (assembled_bundle req)"
    using e assms(1)
    by (simp add: valid_bundle_def assembled_bundle_def bundle_for_def authorization_sha256_def total_bytes_def valid_request_def
        valid_assembly_policy_def)
  have "valid_scope (scope_of req)"
    using assms(1) by (auto simp: valid_request_def valid_scope_def canonical_scope_def) (metis remdups_eq_nil_iff set_empty set_sort)
  moreover have "list_all valid_artifact_ref (map acd_artifact (chosen_artifacts req))"
    using assms(1) chosen_artifact by (auto simp: list_all_iff valid_request_def valid_artifact_candidate_def simp del: set_take_subset)
  moreover have "is_sha256 (replicate 64 (CHR ''0''))"
    by (simp add: is_sha256_def list_all_iff is_hex_char_def)
  ultimately show "valid_task_context (assembled_placeholder req)"
    using assms(1) by (auto simp: assembled_placeholder_def context_placeholder_def valid_task_context_def valid_request_def)
qed



subsection \<open>Order of arrival\<close>

lemma sort_remdups_cong: "set xs = set ys \<Longrightarrow> sort (remdups xs) = sort (remdups ys)"
  for xs :: "'a :: linorder list"
  by (metis sorted_list_of_set_sort_remdups)

lemma sort_key_cong_mset:
  assumes "mset xs = mset ys" "inj_on f (set xs)"
  shows "sort_key f xs = sort_key f ys"
  using sort_key_inj_key_eq [of xs "sort_key f ys" f] assms by simp

lemma dict_by_cong_mset:
  assumes "mset xs = mset ys" "distinct (map k xs)"
  shows "map_of (dict_by k xs) = map_of (dict_by k ys)"
proof
  fix i
  have s: "set xs = set ys" "distinct (map k ys)"
    using assms mset_eq_setD mset_eq_imp_distinct_iff [of "map k xs" "map k ys"] by auto
  show "map_of (dict_by k xs) i = map_of (dict_by k ys) i"
  proof (cases "i \<in> k ` set xs")
    case True
    then show ?thesis
      using map_of_dict_by_distinct [OF assms(2)] map_of_dict_by_distinct [OF s(2)] s(1) by auto
  next
    case False
    then have "map_of (dict_by k xs) i = None" "map_of (dict_by k ys) i = None"
      using s(1) by (simp_all add: map_of_eq_None_iff)
    then show ?thesis by simp
  qed
qed

text \<open>What the parts of the assembly read of a request.\<close>

definition same_for_assembly :: "assembly_request \<Rightarrow> assembly_request \<Rightarrow> bool" where
  "same_for_assembly req req' = (scope_of req' = scope_of req \<and> rq_policy req' = rq_policy req \<and>
     rq_clearance req' = rq_clearance req \<and> set (rq_granted_permissions req') = set (rq_granted_permissions req) \<and>
     mset (rq_candidates req') = mset (rq_candidates req) \<and>
     mset (rq_artifact_candidates req') = mset (rq_artifact_candidates req) \<and>
     mset (rq_tool_authorizations req') = mset (rq_tool_authorizations req) \<and>
     set (rq_requested_tools req') = set (rq_requested_tools req))"

lemma same_reasons:
  assumes "same_for_assembly req req'"
  shows "access_reason a req' scope = access_reason a req scope" "item_reason req' scope c = item_reason req scope c"
    "artifact_reason req' scope d = artifact_reason req scope d"
proof -
  show a: "access_reason a req' scope = access_reason a req scope" for a
    using assms by (simp add: access_reason_def same_for_assembly_def)
  then show "item_reason req' scope c = item_reason req scope c" "artifact_reason req' scope d = artifact_reason req scope d"
    using assms by (simp_all add: item_reason_def artifact_reason_def same_for_assembly_def)
qed

lemma entry_key_inj: "distinct (map se_content_sha256 es) \<Longrightarrow> inj_on entry_key (set es)"
  by (auto simp: distinct_map inj_on_def entry_key_def)

lemma same_entries:
  assumes "same_for_assembly req req'" "distinct (map ic_item_id (rq_candidates req))"
  shows "ordered_entries req' = ordered_entries req"
proof -
  let ?group = "\<lambda>r i. filter (\<lambda>x. ic_content_sha256 x = i) (eligible_items r)"
  have elig: "mset (eligible_items req') = mset (eligible_items req)"
    using assms(1) same_reasons [OF assms(1)] by (simp add: eligible_items_def same_for_assembly_def)
  then have set: "set (eligible_items req') = set (eligible_items req)"
    by (rule mset_eq_setD)
  have "merged (?group req' i) = merged (?group req i)" for i
  proof -
    have "inj_on ic_item_id (set (?group req i))"
      using assms(2) by (auto simp: eligible_items_def distinct_map inj_on_def)
    moreover have "mset (?group req i) = mset (?group req' i)"
      using elig by simp
    ultimately have "sort_key ic_item_id (?group req i) = sort_key ic_item_id (?group req' i)"
      by (rule sort_key_cong_mset [rotated])
    then show ?thesis
      by (simp add: merged_def)
  qed
  then have m: "mset (map merged (item_groups req)) = mset (map merged (item_groups req'))"
    unfolding item_groups_def mset_groups set by simp
  have "inj_on entry_key (set (map merged (item_groups req)))"
    using entry_key_inj [OF distinct_entries [of req]] by (simp add: ordered_entries_def)
  with m show ?thesis
    unfolding ordered_entries_def by (rule sort_key_cong_mset [symmetric])
qed

lemma same_artifacts:
  assumes "same_for_assembly req req'" "distinct (map artifact_name (rq_artifact_candidates req))"
  shows "ordered_artifacts req' = ordered_artifacts req"
proof -
  let ?el = "\<lambda>r. filter (\<lambda>c. artifact_reason r (scope_of r) c = None) (rq_artifact_candidates r)"
  have "mset (?el req) = mset (?el req')"
    using assms(1) same_reasons [OF assms(1)] by (simp add: same_for_assembly_def)
  moreover have "inj_on artifact_key (set (?el req))"
    using assms(2) by (auto simp: distinct_map inj_on_def artifact_key_def)
  ultimately show ?thesis
    unfolding ordered_artifacts_def by (rule sort_key_cong_mset [symmetric])
qed

lemma same_tools:
  assumes "same_for_assembly req req'" "distinct (map ta_tool_name (rq_tool_authorizations req))"
  shows "assembly_tools req' scope = assembly_tools req scope"
proof -
  let ?d = "\<lambda>r. dict_by ta_tool_name (rq_tool_authorizations r)"
  let ?o = "\<lambda>r. filter (\<lambda>n. n \<notin> set (rq_requested_tools r)) (map fst (?d r))"
  have m: "map_of (?d req) = map_of (?d req')"
    using assms by (intro dict_by_cong_mset) (simp_all add: same_for_assembly_def)
  moreover have "tool_access_reason t req' scope = tool_access_reason t req scope" for t
    unfolding tool_access_reason_def by (rule same_reasons(1) [OF assms(1)])
  ultimately have reason: "tool_reason req' scope n = tool_reason req scope n" for n
    by (simp add: tool_reason_def split: option.split)
  have names: "set (?o r) = ta_tool_name ` set (rq_tool_authorizations r) - set (rq_requested_tools r)" for r
    using keys_dict_by [of ta_tool_name "rq_tool_authorizations r"] by (auto simp del: keys_dict_by)
  have "set (rq_tool_authorizations req') = set (rq_tool_authorizations req)"
    using assms(1) by (intro mset_eq_setD) (simp add: same_for_assembly_def)
  then have "set (?o req') = set (?o req)"
    using assms(1) unfolding names by (simp add: same_for_assembly_def)
  moreover have "distinct (?o r)" for r
    using distinct_keys_dict_by [of ta_tool_name "rq_tool_authorizations r"] by (simp add: distinct_keys_def)
  ultimately have "sort (?o req') = sort (?o req)"
    by (metis (no_types) distinct_remdups_id sort_remdups_cong)
  moreover have r: "sort (remdups (rq_requested_tools req')) = sort (remdups (rq_requested_tools req))"
    using assms(1) by (intro sort_remdups_cong) (simp add: same_for_assembly_def)
  moreover have "set (rq_requested_tools req') = set (rq_requested_tools req)"
    using assms(1) by (simp add: same_for_assembly_def)
  ultimately show ?thesis
    by (simp add: assembly_tools_def Let_def reason)
qed

lemma decision_key_of: "decision_key d = map_prod candidate_kind_value id (decision_of d)"
  by (simp add: decision_key_def decision_of_def)

lemma kind_value_inject [simp]: "candidate_kind_value k = candidate_kind_value k' \<longleftrightarrow> k = k'"
  by (cases k; cases k') simp_all

lemma all_decisions_ids: "mset (map decision_of (all_decisions req)) =
    mset (map (Pair KIND_ITEM \<circ> ic_item_id) (rq_candidates req)) +
    mset (map (Pair KIND_ARTIFACT \<circ> artifact_name) (rq_artifact_candidates req)) +
    mset_set (Pair KIND_TOOL ` (set (rq_requested_tools req) \<union> ta_tool_name ` set (rq_tool_authorizations req)))"
  using item_decisions [of req] artifact_decision_ids [of req] tool_decision_ids [of req "scope_of req"]
  unfolding all_decisions_def map_append [of _ "_ @ _"] mset_append [of "map decision_of (_ @ _)"] by simp

lemma distinct_decisions:
  assumes "valid_request req"
  shows "distinct (map decision_of (all_decisions req))"
proof -
  let ?tools = "sorted_list_of_set (set (rq_requested_tools req) \<union> ta_tool_name ` set (rq_tool_authorizations req))"
  let ?ids = "map (Pair KIND_ITEM \<circ> ic_item_id) (rq_candidates req) @
      map (Pair KIND_ARTIFACT \<circ> artifact_name) (rq_artifact_candidates req) @ map (Pair KIND_TOOL) ?tools"
  have u: "distinct (map ic_item_id (rq_candidates req))" "distinct (map artifact_name (rq_artifact_candidates req))"
    using assms by (simp_all add: valid_request_def unique_strings_def artifact_name_def [abs_def])
  then have "distinct ?ids"
    by (auto simp: distinct_map comp_inj_on inj_on_def)
  moreover have "mset (map decision_of (all_decisions req)) = mset ?ids"
    unfolding all_decisions_ids
    by (subst mset_map_distinct [of ?tools "Pair KIND_TOOL", symmetric]) (simp_all add: inj_def add.assoc)
  ultimately show ?thesis
    using mset_eq_imp_distinct_iff by metis
qed

lemma denials_cong:
  assumes "mset cs = mset cs'"
  shows "mset (denials k name reason cs) = mset (denials k name reason cs')"
proof -
  have "mset (denials k name reason xs) =
      \<Sum>\<^sub># (image_mset (\<lambda>c. mset (case reason c of Some r \<Rightarrow> [decided k r (name c)] | None \<Rightarrow> [])) (mset xs))" for xs
    by (simp add: denials_def sift_def mset_concat_map comp_def)
  then show ?thesis
    using assms by simp
qed

lemma same_decisions:
  assumes "same_for_assembly req req'" "valid_request req"
  shows "sort_key decision_key (all_decisions req') = sort_key decision_key (all_decisions req)"
proof -
  have u: "distinct (map ic_item_id (rq_candidates req))" "distinct (map artifact_name (rq_artifact_candidates req))"
      "distinct (map ta_tool_name (rq_tool_authorizations req))"
    using assms(2) by (simp_all add: valid_request_def unique_strings_def artifact_name_def [abs_def])
  have s: "scope_of req' = scope_of req" "rq_policy req' = rq_policy req" "mset (rq_candidates req) = mset (rq_candidates req')"
      "mset (rq_artifact_candidates req) = mset (rq_artifact_candidates req')"
    using assms(1) by (simp_all add: same_for_assembly_def)
  have r: "item_reason req' scope = item_reason req scope" "artifact_reason req' scope = artifact_reason req scope" for scope
    using same_reasons [OF assms(1)] by (simp_all add: fun_eq_iff)
  note eqs = same_entries [OF assms(1) u(1)] same_artifacts [OF assms(1) u(2)] same_tools [OF assms(1) u(3)]
  have "mset (all_decisions req) = mset (all_decisions req')"
    unfolding all_decisions_def artifact_decisions_def mset_append s(1,2) r eqs
      denials_cong [OF s(3)] denials_cong [OF s(4)] by (rule refl)
  moreover have "inj_on decision_key (set (all_decisions req))"
    using distinct_decisions [OF assms(2)] by (auto simp: distinct_map inj_on_def decision_key_of map_prod_def split: prod.splits)
  ultimately show ?thesis
    by (rule sort_key_cong_mset [symmetric])
qed

text \<open>(C22) Assembly is deterministic. The order in which candidates, artifacts, tool authorizations and requested tools arrive, and
  the order and repetition of roles and permissions, change nothing: neither the context, its manifest and its
  decisions nor the error that is raised.\<close>

theorem assembly_order_independent:
  assumes "valid_request req"
    and "mset cs = mset (rq_candidates req)" "mset as = mset (rq_artifact_candidates req)"
    and "mset ts = mset (rq_tool_authorizations req)" "mset tools = mset (rq_requested_tools req)"
    and "set ps = set (rq_granted_permissions req)" "set roles = set (ts_role_codes (rq_scope req))"
  shows "assemble (req\<lparr>rq_candidates := cs, rq_artifact_candidates := as, rq_tool_authorizations := ts,
      rq_requested_tools := tools, rq_granted_permissions := ps, rq_scope := (rq_scope req)\<lparr>ts_role_codes := roles\<rparr>\<rparr>) =
    assemble req"
proof -
  let ?r = "req\<lparr>rq_candidates := cs, rq_artifact_candidates := as, rq_tool_authorizations := ts,
      rq_requested_tools := tools, rq_granted_permissions := ps, rq_scope := (rq_scope req)\<lparr>ts_role_codes := roles\<rparr>\<rparr>"
  have u: "distinct (map ic_item_id (rq_candidates req))" "distinct (map artifact_name (rq_artifact_candidates req))"
      "distinct (map ta_tool_name (rq_tool_authorizations req))"
    using assms(1) by (simp_all add: valid_request_def unique_strings_def artifact_name_def [abs_def])
  have scope: "scope_of ?r = scope_of req"
    using sort_remdups_cong [OF assms(7)] by (simp add: canonical_scope_def)
  have same: "same_for_assembly req ?r"
    using assms(2-6) mset_eq_setD [OF assms(5)] scope by (simp add: same_for_assembly_def)
  note eqs = same_entries [OF same u(1)] same_artifacts [OF same u(2)] same_tools [OF same u(3)]
  have "sum_list (map content_size cs) = sum_list (map content_size (rq_candidates req))"
    using assms(2) by (metis mset_map sum_mset_sum_list)
  then have v: "validate_assembly ?r = validate_assembly req"
    using mset_eq_setD [OF assms(2)] by (simp add: validate_assembly_def list_ex_iff)
  have "authorization_sha256 ?r scope = authorization_sha256 req scope" for scope
    using sort_remdups_cong [OF assms(6)] by (simp add: authorization_sha256_def)
  then have b: "assembled_bundle ?r = assembled_bundle req"
    by (simp add: assembled_bundle_def bundle_for_def eqs scope [simplified])
  then have p: "assembled_placeholder ?r = assembled_placeholder req"
    by (simp add: assembled_placeholder_def context_placeholder_def eqs scope [simplified])
  have a: "assembled ?r = assembled req"
    using same_decisions [OF same assms(1)] by (simp add: assembled_def p eqs)
  have policy: "rq_policy ?r = rq_policy req"
    by simp
  show ?thesis
    unfolding assemble_eq [of ?r] assemble_eq [of req] v b p a eqs policy by (rule refl)
qed


subsection \<open>Assembled contexts and children\<close>

lemma assembled_manifest:
  assumes "assemble req = Inr res"
  shows "task_context_manifest_sha256 (rr_context res) = tk_context_manifest_sha256 (rr_context res)"
  by (simp add: assembleD(6) [OF assms] task_context_manifest_sha256_def task_context_payload_def)

lemma assembled_bundle_read:
  assumes "assemble req = Inr res" "read_bundle (dump_bundle (assembled_bundle req)) = Some (assembled_bundle req)"
  shows "context_bundle_of read_bundle (rr_context res) = Inr (assembled_bundle req)"
proof -
  note d = assembleD [OF assms(1)]
  have "raw_bundle (rr_context res) = Some (dump_bundle (assembled_bundle req))"
    by (simp add: d(6) context_placeholder_def raw_bundle_def jget_def dump_bundle_def assembled_bundle_def)
  then show ?thesis
    using assembled_manifest [OF assms(1)] d(5) assms(2) by (simp add: context_bundle_of_def assembled_bundle_def)
qed

lemma prepared_minimal:
  assumes "prepare_children read_bundle draw registry task dispatch inputs = Inr cs" "c \<in> set cs"
  shows "\<exists>d inp deps. minimal_for read_bundle task d inp deps c"
proof (cases "dp_general_agent dispatch")
  case True
  then obtain d b x where "cs = [x]" "minimal_for read_bundle task d (general_input task b) [] x"
    using prepare_childrenD [OF assms(1)] by auto
  then show ?thesis
    using assms(2) by (intro exI [of _ d] exI [of _ "general_input task b"] exI [of _ "[]"]) simp
next
  case False
  then have "list_all2 (child_of_assignment read_bundle registry task inputs) (dp_professional_assignments dispatch) cs"
    using prepare_childrenD [OF assms(1)] by simp
  then obtain a where "child_of_assignment read_bundle registry task inputs a c"
    using assms(2) by (auto simp: list_all2_conv_all_nth in_set_conv_nth)
  then show ?thesis
    by (auto simp: child_of_assignment_def)
qed

text \<open>(C24) Default deny reaches the children. The manifest of an assembled context is the digest of its content, so the child factory
  reads its bundle back, and whatever children it then prepares for any dispatch and inputs, every context entry, artifact
  and tool of every child was granted to the requester of the assembly. That pydantic reads back the bundle it dumped
  is a hypothesis on the parameter that stands for it.\<close>

theorem children_of_assembled_context:
  assumes "assemble req = Inr res" "read_bundle (dump_bundle (assembled_bundle req)) = Some (assembled_bundle req)"
    and "prepare_children read_bundle draw registry (rr_context res) dispatch inputs = Inr cs" "c \<in> set cs"
  shows "task_context_manifest_sha256 (rr_context res) = tk_context_manifest_sha256 (rr_context res) \<and>
    ct_scope c = canonical_scope (rq_scope req) \<and> ct_budget c = rq_budget req \<and>
    (\<forall>e \<in> set (ct_context_entries c). entry_granted req e) \<and>
    (\<forall>a \<in> set (ct_artifacts c). \<exists>k \<in> set (rq_artifact_candidates req). acd_artifact k = a \<and> artifact_granted req k) \<and>
    (\<forall>t \<in> set (ct_allowed_tools c). t \<in> set (rq_requested_tools req) \<and>
      (\<exists>k \<in> set (rq_tool_authorizations req). ta_tool_name k = t \<and> tool_granted req k))"
proof -
  let ?t = "rr_context res"
  note d = assembleD [OF assms(1)]
  obtain def inp deps where "minimal_for read_bundle ?t def inp deps c"
    using prepared_minimal [OF assms(3,4)] by blast
  then have c: "ct_scope c = tk_scope ?t" "ct_budget c = tk_budget ?t" "set (ct_allowed_tools c) \<subseteq> set (tk_allowed_tools ?t)"
      "set (ct_context_entries c) \<subseteq> set (cb_entries (assembled_bundle req))" "set (ct_artifacts c) \<subseteq> set (tk_artifacts ?t)"
    using assembled_bundle_read [where read_bundle = read_bundle, OF assms(1,2)] by (auto simp: minimal_for_def)
  have parts: "tk_artifacts ?t = map acd_artifact (chosen_artifacts req)" "tk_scope ?t = scope_of req" "tk_budget ?t = rq_budget req"
      "tk_allowed_tools ?t = snd (assembly_tools req (scope_of req))" "cb_entries (assembled_bundle req) = snd (picked req)"
    by (simp_all add: d(6) context_placeholder_def assembled_bundle_def bundle_for_def)
  have "entry_granted req e" if "e \<in> set (ct_context_entries c)" for e
    using that c(4) parts(5) picked_granted by auto
  moreover have "\<exists>k \<in> set (rq_artifact_candidates req). acd_artifact k = a \<and> artifact_granted req k" if "a \<in> set (ct_artifacts c)" for a
  proof -
    have "a \<in> set (tk_artifacts ?t)"
      using that c(5) by blast
    then obtain k where "k \<in> set (chosen_artifacts req)" "a = acd_artifact k"
      unfolding parts(1) set_map by blast
    then show ?thesis
      using chosen_artifact by blast
  qed
  moreover have "t \<in> set (rq_requested_tools req) \<and> (\<exists>k \<in> set (rq_tool_authorizations req). ta_tool_name k = t \<and> tool_granted req k)"
    if "t \<in> set (ct_allowed_tools c)" for t
    using that c(3) parts(4) allowed_tool by auto
  ultimately show ?thesis
    using assembled_manifest [OF assms(1)] c(1,2) parts(2,3) by simp
qed


subsection \<open>A sample assembly\<close>

definition sample_item :: "string \<Rightarrow> uuid \<Rightarrow> item_candidate" where
  "sample_item n tenant = \<lparr>ic_item_id = n, ic_scope = child_scope\<lparr>ts_tenant_id := tenant\<rparr>, ic_visibility = VISIBLE_PROJECT,
     ic_source_type = PROJECT_FACT, ic_source_ref = ''log'', ic_source_version = ''1'',
     ic_source_sha256 = replicate 64 (CHR ''0''), ic_trust_level = VERIFIED_INTERNAL, ic_classification = INTERNAL,
     ic_content = [], ic_content_sha256 = context_content_sha256 [], ic_required_roles = [''engineer''],
     ic_required_permissions = [], ic_relevance_score = PyFloat 1 ''1.0'', ic_protected = True, ic_observed_at = utc 0\<rparr>"

definition sample_request :: assembly_request where
  "sample_request = \<lparr>rq_task_id = 7, rq_scope = child_scope, rq_task_class = P3, rq_goal = ''inspect'',
     rq_success_criteria = [''done''], rq_risk_level = RISK_LOW,
     rq_candidates = [sample_item ''a1'' 1, sample_item ''z9'' 8], rq_artifact_candidates = [],
     rq_requested_tools = [''read''],
     rq_tool_authorizations = [\<lparr>ta_tool_name = ''read'', ta_scope = child_scope, ta_visibility = VISIBLE_PROJECT,
       ta_required_roles = [], ta_required_permissions = []\<rparr>],
     rq_granted_permissions = [], rq_clearance = CONFIDENTIAL,
     rq_policy = \<lparr>ap_policy_version = ''v1'', ap_minimum_relevance = PyFloat 0 ''0.0'', ap_max_selected_items = 10,
       ap_max_selected_content_bytes = 100, ap_max_candidate_content_bytes = 1000, ap_max_artifacts = 5\<rparr>,
     rq_skill_versions = [], rq_prompt_versions = [], rq_model_versions = [], rq_knowledge_versions = [],
     rq_budget = child_policy, rq_output_schema_id = ''s'', rq_review_checklist = [], rq_created_at = utc 0\<rparr>"

lemma sample_content_size: "content_size (sample_item n t) = 2"
  by (simp add: content_size_def sample_item_def canonical_json_bytes_def)

lemma sample_item_valid: "n \<in> {''a1'', ''z9''} \<Longrightarrow> valid_item_candidate (sample_item n t)"
  using sha256_hex_pattern zero_digest_pattern
  by (auto simp: sample_item_def valid_item_candidate_def text_len_def is_alnum_def is_lower_def is_upper_def is_decimal_def
      valid_scope_def child_scope_def unique_strings_def is_aware_def utc_def context_content_sha256_def Let_def)

lemma child_policy_valid: "valid_policy child_policy"
  by (simp add: child_policy_def valid_policy_def valid_limit_def text_len_def Let_def)

lemma sample_request_valid: "valid_request sample_request"
  using sample_item_valid child_policy_valid
  by (simp add: sample_request_def valid_request_def valid_scope_def child_scope_def text_len_def valid_tool_authorization_def
      valid_assembly_policy_def unique_strings_def is_aware_def utc_def) (simp add: sample_item_def)

lemma sample_validates: "validate_assembly sample_request = Inr ()"
  by (simp add: validate_assembly_def sample_request_def sample_content_size child_policy_def Let_def) (simp add: sample_item_def)

lemma sample_reasons: "item_reason sample_request (scope_of sample_request) (sample_item ''a1'' 1) = None"
  "item_reason sample_request (scope_of sample_request) (sample_item ''z9'' 8) = Some TENANT_DENIED"
  by (simp_all add: item_reason_def access_reason_def sample_item_def sample_request_def child_scope_def canonical_scope_def)

lemma sample_entries: "ordered_entries sample_request = [merged [sample_item ''a1'' 1]]"
proof -
  have "rq_candidates sample_request = [sample_item ''a1'' 1, sample_item ''z9'' 8]"
    by (simp add: sample_request_def)
  then have "eligible_items sample_request = [sample_item ''a1'' 1]"
    by (simp add: eligible_items_def sample_reasons)
  then show ?thesis
    by (simp add: ordered_entries_def item_groups_def group_by_def)
qed

lemma sample_fits: "\<not> protected_overflow sample_request" "\<not> artifact_overflow sample_request"
proof -
  have "total_bytes [merged [sample_item ''a1'' 1]] = 2"
    by (simp add: total_bytes_def merged_def sample_content_size Let_def)
  moreover have "se_protected (merged [sample_item ''a1'' 1])"
    by (simp add: merged_def sample_item_def Let_def)
  ultimately show "\<not> protected_overflow sample_request" "\<not> artifact_overflow sample_request"
    unfolding sample_entries by (simp_all add: sample_request_def ordered_artifacts_def)
qed

lemma sample_assembles: "assemble sample_request = Inr (assembled sample_request)"
  unfolding assemble_eq sample_validates if_not_P [OF sample_fits(1)] if_not_P [OF sample_fits(2)]
  using assembled_valid [OF sample_request_valid sample_validates] by simp

theorem assembly_default_deny_witness:
  "\<exists>b. tk_dependency_data (rr_context (assembled sample_request)) = [(''context_bundle'', dump_bundle b)] \<and> valid_bundle b \<and>
     (\<forall>e \<in> set (cb_entries b). entry_granted sample_request e)"
  using assembly_default_deny [OF sample_assembles] by blast

theorem assembly_bounded_lossless_witness:
  "\<exists>b. tk_dependency_data (rr_context (assembled sample_request)) = [(''context_bundle'', dump_bundle b)] \<and>
     (\<exists>e \<in> set (cb_entries b). label_of (sample_item ''a1'' 1) \<in> set (se_sources e))"
proof -
  have "item_granted sample_request (sample_item ''a1'' 1)" "ic_protected (sample_item ''a1'' 1)"
      "sample_item ''a1'' 1 \<in> set (rq_candidates sample_request)"
    using sample_reasons(1) by (simp_all add: item_reason_None) (simp_all add: sample_item_def sample_request_def)
  then show ?thesis
    using assembly_bounded_lossless [OF sample_assembles sample_request_valid] by blast
qed

theorem assembly_decisions_account_witness:
  "(KIND_ITEM, ''z9'') \<in># mset (map decision_of (rr_decisions (assembled sample_request))) \<and>
   (KIND_TOOL, ''read'') \<in># mset (map decision_of (rr_decisions (assembled sample_request)))"
proof -
  have "mset (map decision_of (rr_decisions (assembled sample_request))) =
      mset (map (Pair KIND_ITEM \<circ> ic_item_id) (rq_candidates sample_request)) +
      mset (map (Pair KIND_ARTIFACT \<circ> artifact_name) (rq_artifact_candidates sample_request)) +
      mset_set (Pair KIND_TOOL ` (set (rq_requested_tools sample_request) \<union> ta_tool_name ` set (rq_tool_authorizations sample_request)))"
    using assembly_decisions_account [OF sample_assembles sample_request_valid] by blast
  then show ?thesis
    by (simp add: sample_request_def) (simp add: sample_item_def)
qed


theorem assembly_order_independent_witness:
  "assemble (sample_request\<lparr>rq_candidates := rev (rq_candidates sample_request), rq_scope := (rq_scope sample_request)
     \<lparr>ts_role_codes := [''engineer'', ''engineer'']\<rparr>\<rparr>) = assemble sample_request"
  using assembly_order_independent [OF sample_request_valid, of "rev (rq_candidates sample_request)"
      "rq_artifact_candidates sample_request" "rq_tool_authorizations sample_request" "rq_requested_tools sample_request"
      "rq_granted_permissions sample_request" "[''engineer'', ''engineer'']"]
  by (simp add: sample_request_def child_scope_def)


text \<open>A child that asks for the assembled entry.\<close>

definition entry_input :: child_input where
  "entry_input = (sample_input ''a'')\<lparr>ci_context_entry_sha256s := [context_content_sha256 []]\<rparr>"

definition entry_dispatch :: dispatch_plan where
  "entry_dispatch = sample_dispatch\<lparr>dp_professional_assignments :=
     [\<lparr>pa_assignment_id = ''a'', pa_agent_type = ''ut'', pa_depends_on = []\<rparr>]\<rparr>"

abbreviation read_sample :: "json \<Rightarrow> context_bundle option" where
  "read_sample \<equiv> \<lambda>_. Some (assembled_bundle sample_request)"

definition entry_placeholder :: child_context where
  "entry_placeholder = child_placeholder 0 (rr_context (assembled sample_request)) (snd (hd sample_registry)) entry_input []
     [merged [sample_item ''a1'' 1]] []"

lemma sample_task_fields:
  "tk_scope (rr_context (assembled sample_request)) = scope_of sample_request" "tk_artifacts (rr_context (assembled sample_request)) = []"
  "tk_budget (rr_context (assembled sample_request)) = child_policy" "tk_output_schema_id (rr_context (assembled sample_request)) = ''s''"
  "tk_task_id (rr_context (assembled sample_request)) = 7"
  by (simp_all add: assembled_def assembled_placeholder_def context_placeholder_def sample_request_def ordered_artifacts_def)

lemma entry_placeholder_valid: "valid_child_context entry_placeholder"
proof -
  have "valid_selected_entry (merged [sample_item ''a1'' 1])"
    using assembled_valid(1) [OF sample_request_valid sample_validates] by (simp add: sample_entries)
  moreover have "length (common_tools (ci_requested_tools entry_input) b c) \<le> 12" for b c
    by (rule order_trans [OF length_common_tools]) (simp add: entry_input_def sample_input_def)
  moreover have "text_len 1 1024 (''scratch://'' @ str_uuid a @ ''/'' @ str_uuid b @ ''/'' @ str_uuid c @ ''/'' @ str_uuid d)"
    for a b c d
    by (simp add: text_len_def length_str_uuid)
  moreover have "valid_scope (scope_of sample_request)"
    by (simp add: sample_request_def child_scope_def canonical_scope_def valid_scope_def text_len_def)
  ultimately show ?thesis
    using child_policy_valid
    by (simp add: entry_placeholder_def child_placeholder_def valid_child_context_def zero_digest_pattern sample_task_fields
        sample_registry_def, simp add: entry_input_def sample_input_def text_len_def)
qed

lemma entry_prepared: "prepare_children read_sample of_nat sample_registry (rr_context (assembled sample_request)) entry_dispatch [entry_input] =
    Inr [entry_placeholder\<lparr>ct_context_manifest_sha256 := child_context_manifest_sha256 entry_placeholder\<rparr>]"
proof -
  have b: "context_bundle_of read_sample (rr_context (assembled sample_request)) = Inr (assembled_bundle sample_request)"
    by (rule assembled_bundle_read [OF sample_assembles]) simp
  have "cb_entries (assembled_bundle sample_request) = [merged [sample_item ''a1'' 1]]"
  proof -
    have "se_content_size_bytes (merged [sample_item ''a1'' 1]) = 2"
      by (simp add: merged_def sample_content_size Let_def)
    then have "snd (picked sample_request) = [merged [sample_item ''a1'' 1]]"
      unfolding sample_entries by (simp add: sample_request_def)
    then show ?thesis
      by (simp add: assembled_bundle_def bundle_for_def)
  qed
  moreover have "se_content_sha256 (merged [sample_item ''a1'' 1]) = context_content_sha256 []"
    by (simp add: merged_def sample_item_def Let_def)
  ultimately have sel: "select_context_entries read_sample (rr_context (assembled sample_request)) [context_content_sha256 []] =
      Inr [merged [sample_item ''a1'' 1]]"
    by (simp add: select_context_entries_def b dict_by_def)
  have "build_child read_sample 0 (rr_context (assembled sample_request)) (snd (hd sample_registry)) entry_input [] =
      Inr (entry_placeholder\<lparr>ct_context_manifest_sha256 := child_context_manifest_sha256 entry_placeholder\<rparr>)"
    using entry_placeholder_valid
    by (simp add: build_child_def entry_input_def sel sample_input_def select_artifacts_def entry_placeholder_def Let_def)
  moreover have "require_agent sample_registry ''ut'' PROFESSIONAL = Inr (snd (hd sample_registry))"
    by (simp add: require_agent_def sample_registry_def)
  moreover have "dict_by ci_assignment_id [entry_input] = [(''a'', entry_input)]"
    by (simp add: dict_by_def entry_input_def sample_input_def)
  ultimately show ?thesis
    by (simp add: prepare_children_def entry_dispatch_def sample_dispatch_def sample_task_fields Let_def)
qed

theorem children_of_assembled_context_witness:
  "entry_granted sample_request (merged [sample_item ''a1'' 1]) \<and> ct_scope entry_placeholder = canonical_scope child_scope"
proof -
  let ?c = "entry_placeholder\<lparr>ct_context_manifest_sha256 := child_context_manifest_sha256 entry_placeholder\<rparr>"
  have "?c \<in> set [?c]"
    by simp
  from children_of_assembled_context [OF sample_assembles _ entry_prepared this]
  have "ct_scope ?c = canonical_scope (rq_scope sample_request) \<and> (\<forall>e \<in> set (ct_context_entries ?c). entry_granted sample_request e)"
    by simp
  then show ?thesis
    by (simp add: entry_placeholder_def child_placeholder_def sample_request_def)
qed

end
