(* ===== verification/PyFloats.thy ===== *)
theory PyFloats
  imports ContextAssembly
begin

section \<open>Python floats\<close>

text \<open>
  The arithmetic of \<^verbatim>\<open>float\<close>: an operation computes the exact rational result and rounds it to the nearest double, ties to even
  (\<open>to_double\<close>: 53 significant bits). Exponents are unbounded here; the components only divide counts,
  subtract scores within \<open>[0, 100]\<close> and scale thresholds, where the result in the range of the normal doubles or an exact
  subnormal one is the same. \<open>float_repr\<close> is \<^verbatim>\<open>repr(x)\<close>, the shortest decimal text that rounds to \<open>x\<close>,
  of a non-negative double; it is also what \<^verbatim>\<open>json.dumps\<close> writes.
\<close>

definition log2_floor :: "rat \<Rightarrow> int" where
  "log2_floor q = (let (a, b) = quotient_of q; m = int (bit_length (nat a)) - int (bit_length (nat b))
     in if 2 powi m \<le> q then m else m - 1)"

definition to_double :: "rat \<Rightarrow> rat" where
  "to_double q = (if q = 0 then 0 else
     let k = 52 - log2_floor \<bar>q\<bar> in sgn q * of_int (half_even (\<bar>q\<bar> * 2 powi k)) / 2 powi k)"

definition float_div :: "int \<Rightarrow> int \<Rightarrow> rat" where
  "float_div a b = to_double (of_int a / of_int b)"

subsection \<open>Text\<close>

definition log10_floor :: "rat \<Rightarrow> int" where
  "log10_floor q = (let (a, b) = quotient_of q; m = int (length (show_int a)) - int (length (show_int b))
     in if 10 powi m \<le> q then m else m - 1)"

text \<open>The correctly rounded decimal of \<open>n\<close> digits, and the first that reads back as \<open>q\<close>.\<close>

definition decimal :: "rat \<Rightarrow> nat \<Rightarrow> int \<times> int" where
  "decimal q n = (let k = log10_floor q - int n + 1 in (half_even (q / 10 powi k), k))"

definition shortest_decimal :: "rat \<Rightarrow> int \<times> int" where
  "shortest_decimal q = (case find (\<lambda>(d, k). to_double (of_int d * 10 powi k) = q) (map (decimal q) [1..<18]) of
     Some r \<Rightarrow> r | None \<Rightarrow> decimal q 17)"

definition strip_zeros :: "string \<Rightarrow> string" where
  "strip_zeros s = rev (dropWhile (\<lambda>c. c = CHR ''0'') (rev s))"

definition float_repr :: "rat \<Rightarrow> string" where
  "float_repr q = (if q = 0 then ''0.0'' else let
     (d, k) = shortest_decimal q; text = show_int d; point = int (length text) + k; digits = strip_zeros text
   in if 0 < point \<and> point \<le> 16 then
        if int (length digits) \<le> point then digits @ replicate (nat point - length digits) (CHR ''0'') @ ''.0''
        else take (nat point) digits @ ''.'' @ drop (nat point) digits
      else if - 4 < point \<and> point \<le> 0 then ''0.'' @ replicate (nat (- point)) (CHR ''0'') @ digits
      else (if length digits = 1 then digits else hd digits # CHR ''.'' # tl digits) @ ''e'' @
        (if point \<le> 0 then ''-'' else ''+'') @ pad_left 2 (show_int \<bar>point - 1\<bar>))"

definition py_float :: "rat \<Rightarrow> pyfloat" where
  "py_float q = PyFloat q (float_repr q)"

subsection \<open>Rounding\<close>

lemma fval_py_float [simp]: "fval (py_float q) = q"
  by (simp add: py_float_def)

lemma bit_length_bounds: "n \<noteq> 0 \<Longrightarrow> 0 < bit_length n \<and> 2 ^ (bit_length n - 1) \<le> n \<and> n < 2 ^ bit_length n"
proof (induction n rule: bit_length.induct)
  case (1 n)
  show ?case
  proof (cases "n div 2 = 0")
    case True
    with 1 show ?thesis
      by (simp add: bit_length.simps)
  next
    case False
    obtain b where b: "bit_length (n div 2) = Suc b" "2 ^ b \<le> n div 2" "n div 2 < 2 ^ Suc b"
      using 1 False by (cases "bit_length (n div 2)") auto
    then have "2 * 2 ^ b \<le> n" "n < 2 * 2 ^ Suc b"
      by linarith+
    with 1 b(1) show ?thesis
      by (simp add: bit_length.simps [of n])
  qed
qed

lemma log2_floor_bounds:
  assumes "0 < q"
  shows "2 powi log2_floor q \<le> q \<and> q < 2 powi (log2_floor q + 1)"
proof -
  obtain a b where ab: "quotient_of q = (a, b)"
    by force
  have q: "q = of_int a / of_int b" "0 < b"
    using ab quotient_of_div quotient_of_denom_pos by auto
  then have a: "0 < a"
    using assms by (simp add: zero_less_divide_iff)
  define m where "m = int (bit_length (nat a)) - int (bit_length (nat b))"
  obtain x y where x: "bit_length (nat a) = Suc x" "2 ^ x \<le> nat a" "nat a < 2 ^ Suc x"
    and y: "bit_length (nat b) = Suc y" "2 ^ y \<le> nat b" "nat b < 2 ^ Suc y"
    using bit_length_bounds [of "nat a"] bit_length_bounds [of "nat b"] a q(2)
    by (metis Suc_pred diff_Suc_1 nat_0_iff not_less)
  have m: "m = int x - int y"
    by (simp add: m_def x(1) y(1))
  have A: "(2 :: rat) ^ x \<le> of_int a" "of_int a < (2 :: rat) ^ Suc x"
    using x(2,3) a by (metis of_int_le_iff of_int_power of_int_numeral nat_le_iff le_nat_iff less_imp_le nat_less_iff
        of_int_less_iff of_nat_power of_nat_numeral)+
  have B: "(2 :: rat) ^ y \<le> of_int b" "of_int b < (2 :: rat) ^ Suc y"
    using y(2,3) q(2) by (metis of_int_le_iff of_int_power of_int_numeral nat_le_iff le_nat_iff less_imp_le nat_less_iff
        of_int_less_iff of_nat_power of_nat_numeral)+
  have lo: "2 powi (m - 1) \<le> q"
  proof -
    have "(2 :: rat) powi (m - 1) = 2 ^ x / 2 ^ Suc y"
      by (simp add: m power_int_diff)
    also have "\<dots> \<le> of_int a / of_int b"
      using A(1) B(2) q(2) a by (intro frac_le) auto
    finally show ?thesis
      by (simp add: q)
  qed
  have hi: "q < 2 powi (m + 1)"
  proof -
    have "q < 2 ^ Suc x / 2 ^ y"
      unfolding q using A(2) B(1) q(2) a by (intro frac_less) auto
    then show ?thesis
      by (simp add: m power_int_add power_int_diff mult.commute)
  qed
  show ?thesis
    using lo hi by (auto simp: log2_floor_def ab Let_def m_def [symmetric])
qed

lemma half_even_error: "\<bar>of_int (half_even q) - q\<bar> \<le> 1 / 2"
proof -
  have "of_int \<lfloor>q\<rfloor> \<le> q" "q < of_int \<lfloor>q\<rfloor> + 1"
    by linarith+
  then show ?thesis
    unfolding half_even_def Let_def by (auto split: if_splits simp: abs_le_iff)
qed

lemma half_even_mono:
  assumes "p \<le> q"
  shows "half_even p \<le> half_even q"
proof (cases "\<lfloor>p\<rfloor> = \<lfloor>q\<rfloor>")
  case True
  with assms show ?thesis
    by (auto simp: half_even_def Let_def)
next
  case False
  then have "\<lfloor>p\<rfloor> + 1 \<le> \<lfloor>q\<rfloor>"
    using floor_mono [OF assms] by linarith
  then show ?thesis
    by (auto simp: half_even_def Let_def)
qed

lemma half_even_of_int [simp]: "half_even (of_int n) = n"
  by (simp add: half_even_def)

lemma to_double_0 [simp]: "to_double 0 = 0"
  by (simp add: to_double_def)

text \<open>The relative error of one rounding.\<close>

lemma to_double_error: "\<bar>to_double q - q\<bar> \<le> \<bar>q\<bar> / 2 ^ 53"
proof (cases "q = 0")
  case False
  define e where "e = log2_floor \<bar>q\<bar>"
  define s where "s = (2 :: rat) powi (52 - e)"
  define r where "r = rat_of_int (half_even (\<bar>q\<bar> * s))"
  have s: "0 < s"
    by (simp add: s_def)
  have "2 powi e \<le> \<bar>q\<bar>"
    using log2_floor_bounds [of "\<bar>q\<bar>"] False by (simp add: e_def)
  moreover have "1 / s = 2 powi e / 2 ^ 52"
    by (simp add: s_def power_int_diff)
  ultimately have ulp: "1 / s \<le> \<bar>q\<bar> / 2 ^ 52"
    by (simp add: divide_right_mono)
  have "to_double q - q = sgn q * (r / s - \<bar>q\<bar>)"
    using False by (simp add: to_double_def Let_def e_def [symmetric] s_def [symmetric] r_def [symmetric] right_diff_distrib
        sgn_mult_abs)
  then have "\<bar>to_double q - q\<bar> = \<bar>r / s - \<bar>q\<bar>\<bar>"
    using False by (simp add: abs_mult abs_sgn_eq)
  also have "\<dots> = \<bar>r - \<bar>q\<bar> * s\<bar> / s"
    using s by (metis abs_divide abs_of_pos diff_divide_distrib less_irrefl nonzero_mult_div_cancel_right)
  also have "\<dots> \<le> 1 / 2 / s"
    using divide_right_mono [OF half_even_error [of "\<bar>q\<bar> * s"], of s] s by (simp add: r_def)
  also have "\<dots> \<le> \<bar>q\<bar> / 2 ^ 53"
    using ulp by simp
  finally show ?thesis .
qed simp

lemma to_double_bounds:
  assumes "0 \<le> q"
  shows "q * (1 - 1 / 2 ^ 53) \<le> to_double q" "to_double q \<le> q * (1 + 1 / 2 ^ 53)"
proof -
  have "to_double q - q \<le> q / 2 ^ 53" "q - to_double q \<le> q / 2 ^ 53"
    using to_double_error [of q] assms by linarith+
  then show "q * (1 - 1 / 2 ^ 53) \<le> to_double q" "to_double q \<le> q * (1 + 1 / 2 ^ 53)"
    by (simp_all add: algebra_simps)
qed

lemma to_double_nonneg: "0 \<le> q \<Longrightarrow> 0 \<le> to_double q"
  using to_double_bounds(1) [of q] by (rule order_trans [rotated]) (simp_all add: zero_le_mult_iff)

lemma to_double_exact:
  assumes "\<bar>q\<bar> * 2 powi (52 - log2_floor \<bar>q\<bar>) = of_int n"
  shows "to_double q = q"
proof (cases "q = 0")
  case False
  have "(2 :: rat) powi k \<noteq> 0" for k
    by simp
  then have "of_int n / 2 powi (52 - log2_floor \<bar>q\<bar>) = \<bar>q\<bar>"
    by (metis assms nonzero_mult_div_cancel_right)
  with False show ?thesis
    unfolding to_double_def Let_def assms half_even_of_int
    by (metis times_divide_eq_right sgn_mult_abs)
qed simp

text \<open>Numbers of at most 53 bits are doubles.\<close>

lemma to_double_dyadic:
  assumes "\<bar>n\<bar> \<le> 2 ^ 52"
  shows "to_double (of_int n / 2 ^ k) = of_int n / 2 ^ k"
proof (cases "n = 0")
  case False
  define q :: rat where "q = of_int n / 2 ^ k"
  define e where "e = log2_floor \<bar>q\<bar>"
  have "2 powi e \<le> \<bar>q\<bar>"
    using log2_floor_bounds [of "\<bar>q\<bar>"] False by (simp add: e_def q_def)
  then have "2 powi (e + int k) \<le> rat_of_int \<bar>n\<bar>"
    by (simp add: q_def power_int_add field_simps)
  also have "\<dots> \<le> 2 powi 52"
    using assms by (metis of_int_le_iff of_int_numeral of_int_power power_int_numeral)
  finally have "e + int k \<le> 52"
    by (rule power_int_le_imp_le_exp [rotated]) simp_all
  then obtain m where m: "52 - e = int (m + k)"
    by (metis add.commute diff_ge_0_iff_ge le_diff_eq nonneg_int_cases of_nat_add diff_add_cancel diff_diff_eq)
  have "\<bar>q\<bar> * 2 powi (52 - e) = of_int (\<bar>n\<bar> * 2 ^ m)"
    unfolding m power_int_of_nat by (simp add: q_def power_add)
  then show ?thesis
    using to_double_exact [of q "\<bar>n\<bar> * 2 ^ m"] by (simp add: e_def q_def)
qed simp

lemma to_double_of_int: "\<bar>n\<bar> \<le> 2 ^ 52 \<Longrightarrow> to_double (of_int n) = of_int n"
  using to_double_dyadic [of n 0] by simp

subsection \<open>Monotonicity\<close>

lemma log2_floor_mono:
  assumes "0 < p" "p \<le> q"
  shows "log2_floor p \<le> log2_floor q"
proof (rule ccontr)
  assume "\<not> log2_floor p \<le> log2_floor q"
  then have "(2 :: rat) powi (log2_floor q + 1) \<le> 2 powi log2_floor p"
    by (intro power_int_increasing) simp_all
  then show False
    using log2_floor_bounds [of p] log2_floor_bounds [of q] assms by linarith
qed

lemma half_even_le: "q \<le> of_int n \<Longrightarrow> half_even q \<le> n"
  using half_even_mono [of q "of_int n"] by simp

lemma half_even_ge: "of_int n \<le> q \<Longrightarrow> n \<le> half_even q"
  using half_even_mono [of "of_int n" q] by simp

text \<open>Rounding keeps the binade: the powers of two around \<open>q\<close> are doubles.\<close>

lemma to_double_binade:
  assumes "0 < q"
  shows "2 powi log2_floor q \<le> to_double q" "to_double q \<le> 2 powi (log2_floor q + 1)"
proof -
  define e where "e = log2_floor q"
  define s where "s = (2 :: rat) powi (52 - e)"
  have s: "0 < s" "to_double q = of_int (half_even (q * s)) / s"
    using assms by (simp_all add: to_double_def Let_def e_def s_def)
  have lo: "2 powi e * s = of_int (2 ^ 52)" and hi: "2 powi (e + 1) * s = of_int (2 ^ 53)"
    by (simp_all add: s_def power_int_add power_int_diff)
  have "of_int (2 ^ 52) \<le> q * s" "q * s \<le> of_int (2 ^ 53)"
    using log2_floor_bounds [OF assms] s(1) unfolding lo [symmetric] hi [symmetric] e_def [symmetric] by auto
  then have "rat_of_int (2 ^ 52) \<le> of_int (half_even (q * s))" "rat_of_int (half_even (q * s)) \<le> of_int (2 ^ 53)"
    using half_even_le half_even_ge of_int_le_iff by blast+
  then show "2 powi log2_floor q \<le> to_double q" "to_double q \<le> 2 powi (log2_floor q + 1)"
    unfolding e_def [symmetric] s(2) using s(1) lo hi by (simp_all add: field_simps)
qed

lemma to_double_mono:
  assumes "0 \<le> p" "p \<le> q"
  shows "to_double p \<le> to_double q"
proof (cases "p = 0")
  case True
  with assms show ?thesis
    using to_double_nonneg by simp
next
  case False
  then have pos: "0 < p" "0 < q"
    using assms by simp_all
  show ?thesis
  proof (cases "log2_floor p = log2_floor q")
    case True
    have "half_even (p * 2 powi (52 - log2_floor p)) \<le> half_even (q * 2 powi (52 - log2_floor p))"
      using assms(2) by (intro half_even_mono mult_right_mono) simp_all
    with pos True show ?thesis
      by (simp add: to_double_def Let_def divide_right_mono)
  next
    case False
    then have "log2_floor p + 1 \<le> log2_floor q"
      using log2_floor_mono [OF pos(1) assms(2)] by linarith
    then have "(2 :: rat) powi (log2_floor p + 1) \<le> 2 powi log2_floor q"
      by (intro power_int_increasing) simp_all
    with to_double_binade(2) [OF pos(1)] to_double_binade(1) [OF pos(2)] show ?thesis
      by linarith
  qed
qed

end
