(* ===== verification/Compression.thy ===== *)
theory Compression
  imports PyFloats
begin

section \<open>Compression of task context\<close>

text \<open>
  \<^verbatim>\<open>context/compression_models.py\<close> and \<^verbatim>\<open>context/compression.py\<close>: the policy selects a level from the pressure on the
  context; C0 and C1 are lossless, C2 and C3 send unprotected events to the semantic adapter. The adapter is a parameter:
  it raises (\<open>None\<close>) or answers, and may answer differently at each call, so calls are numbered and the state of
  \<open>compress\<close> is the number of calls made.
\<close>

datatype compression_error =
    CompressionError (compression_code: string) string string   \<comment> \<open>\<^verbatim>\<open>ContextCompressionError\<close>\<close>
  | ValidationFailure (validation_code: string) string string   \<comment> \<open>\<^verbatim>\<open>CompressionValidationError\<close>\<close>
  | CompressionInvalid                                          \<comment> \<open>\<^verbatim>\<open>pydantic.ValidationError\<close>\<close>

subsection \<open>Models\<close>

datatype compression_level = C0 | C1 | C2 | C3

fun level_value :: "compression_level \<Rightarrow> string" where
  "level_value C0 = ''C0''"
| "level_value C1 = ''C1''"
| "level_value C2 = ''C2''"
| "level_value C3 = ''C3''"

datatype context_event_kind =
    EV_SYSTEM_INSTRUCTION | EV_USER_TURN | EV_ASSISTANT_TURN | EV_PROJECT_FACT | EV_RETRIEVAL | EV_TOOL_LOG
  | EV_DECISION | EV_OPEN_ISSUE

fun event_kind_value :: "context_event_kind \<Rightarrow> string" where
  "event_kind_value EV_SYSTEM_INSTRUCTION = ''SYSTEM_INSTRUCTION''"
| "event_kind_value EV_USER_TURN = ''USER_TURN''"
| "event_kind_value EV_ASSISTANT_TURN = ''ASSISTANT_TURN''"
| "event_kind_value EV_PROJECT_FACT = ''PROJECT_FACT''"
| "event_kind_value EV_RETRIEVAL = ''RETRIEVAL''"
| "event_kind_value EV_TOOL_LOG = ''TOOL_LOG''"
| "event_kind_value EV_DECISION = ''DECISION''"
| "event_kind_value EV_OPEN_ISSUE = ''OPEN_ISSUE''"

datatype item_kind = RAW_EVENT | ARTIFACT_REFERENCE | SEMANTIC_SUMMARY

datatype compression_state = CS_READY | CS_REQUIRED

record compression_policy =
  cp_policy_version :: string
  cp_c1_threshold :: pyfloat
  cp_c2_threshold :: pyfloat
  cp_c3_threshold :: pyfloat
  cp_recent_turn_count :: int
  cp_c2_summary_token_limit :: int
  cp_c3_digest_token_limit :: int
  cp_max_semantic_compressions :: int

definition valid_compression_policy :: "compression_policy \<Rightarrow> bool" where
  "valid_compression_policy p = (text_len 1 128 (cp_policy_version p) \<and>
     0 < fval (cp_c1_threshold p) \<and> fval (cp_c1_threshold p) < 1 \<and>
     0 < fval (cp_c2_threshold p) \<and> fval (cp_c2_threshold p) < 1 \<and>
     0 < fval (cp_c3_threshold p) \<and> fval (cp_c3_threshold p) < 1 \<and>
     1 \<le> cp_recent_turn_count p \<and> cp_recent_turn_count p \<le> 20 \<and>
     1 \<le> cp_c2_summary_token_limit p \<and> cp_c2_summary_token_limit p \<le> 800 \<and>
     1 \<le> cp_c3_digest_token_limit p \<and> cp_c3_digest_token_limit p \<le> 1200 \<and>
     1 \<le> cp_max_semantic_compressions p \<and> cp_max_semantic_compressions p \<le> 2 \<and>
     fval (cp_c1_threshold p) < fval (cp_c2_threshold p) \<and> fval (cp_c2_threshold p) < fval (cp_c3_threshold p))"

text \<open>\<^verbatim>\<open>contracts/v1.py\<close>: a durable checkpoint.\<close>

record checkpoint =
  ck_checkpoint_id :: uuid
  ck_task_id :: uuid
  ck_scope :: tenant_scope
  ck_sequence :: int
  ck_graph_version :: string
  ck_state_schema_version :: string
  ck_state_artifact :: artifact_ref
  ck_state_sha256 :: string
  ck_committed_side_effect_ids :: "uuid list"
  ck_created_at :: datetime

definition valid_checkpoint :: "checkpoint \<Rightarrow> bool" where
  "valid_checkpoint c = (valid_scope (ck_scope c) \<and> 0 \<le> ck_sequence c \<and> text_len 1 128 (ck_graph_version c) \<and>
     text_len 1 64 (ck_state_schema_version c) \<and> valid_artifact_ref (ck_state_artifact c) \<and> is_sha256 (ck_state_sha256 c))"

record raw_event =
  re_event_id :: string
  re_task_id :: uuid
  re_scope :: tenant_scope
  re_sequence :: int
  re_kind :: context_event_kind
  re_content :: "(string \<times> json) list"
  re_content_sha256 :: string
  re_token_estimate :: int
  re_protected :: bool
  re_recoverable_artifact :: "artifact_ref option"
  re_created_at :: datetime

definition valid_raw_event :: "raw_event \<Rightarrow> bool" where
  "valid_raw_event e = (text_len 1 128 (re_event_id e) \<and>
     list_all (\<lambda>ch. is_alnum ch \<or> ch \<in> set ''._:-'') (re_event_id e) \<and> valid_scope (re_scope e) \<and>
     0 \<le> re_sequence e \<and> is_sha256 (re_content_sha256 e) \<and>
     1 \<le> re_token_estimate e \<and> re_token_estimate e \<le> 2000000 \<and>
     opt_all valid_artifact_ref (re_recoverable_artifact e) \<and>
     context_content_sha256 (re_content e) = re_content_sha256 e \<and>
     opt_all (\<lambda>a. dump_scope (af_scope a) = dump_scope (re_scope e)) (re_recoverable_artifact e) \<and>
     is_aware (re_created_at e))"

definition dump_raw_event :: "raw_event \<Rightarrow> json" where
  "dump_raw_event e = JObj
    [(''schema_version'', JStr ''1.0.0''),
     (''event_id'', JStr (re_event_id e)),
     (''task_id'', JStr (str_uuid (re_task_id e))),
     (''scope'', dump_scope (re_scope e)),
     (''sequence'', JInt (re_sequence e)),
     (''kind'', JStr (event_kind_value (re_kind e))),
     (''is_semantic_summary'', JBool False),
     (''content'', JObj (re_content e)),
     (''content_sha256'', JStr (re_content_sha256 e)),
     (''token_estimate'', JInt (re_token_estimate e)),
     (''protected'', JBool (re_protected e)),
     (''recoverable_artifact'', json_opt dump_artifact_ref (re_recoverable_artifact e)),
     (''created_at'', JStr (json_datetime (re_created_at e)))]"

record compression_request =
  qr_task_id :: uuid
  qr_scope :: tenant_scope
  qr_raw_events :: "raw_event list"
  qr_active_context_tokens :: int
  qr_active_context_limit :: int
  qr_semantic_compressions_used :: int
  qr_checkpoint :: "checkpoint option"
  qr_policy :: compression_policy

definition valid_compression_request :: "compression_request \<Rightarrow> bool" where
  "valid_compression_request r = (valid_scope (qr_scope r) \<and>
     1 \<le> length (qr_raw_events r) \<and> length (qr_raw_events r) \<le> 1000 \<and> list_all valid_raw_event (qr_raw_events r) \<and>
     1 \<le> qr_active_context_tokens r \<and> qr_active_context_tokens r \<le> 10000000 \<and>
     1 \<le> qr_active_context_limit r \<and> qr_active_context_limit r \<le> 10000000 \<and>
     0 \<le> qr_semantic_compressions_used r \<and> qr_semantic_compressions_used r \<le> 2 \<and>
     opt_all valid_checkpoint (qr_checkpoint r) \<and> valid_compression_policy (qr_policy r) \<and>
     distinct (map re_event_id (qr_raw_events r)) \<and> distinct (map re_sequence (qr_raw_events r)) \<and>
     sorted (map re_sequence (qr_raw_events r)))"

record semantic_request =
  sr_task_id :: uuid
  sr_scope :: tenant_scope
  sr_level :: compression_level
  sr_source_events :: "raw_event list"
  sr_max_output_tokens :: int
  sr_policy_version :: string

definition valid_semantic_request :: "semantic_request \<Rightarrow> bool" where
  "valid_semantic_request r = (valid_scope (sr_scope r) \<and> sr_level r \<in> {C2, C3} \<and> sr_source_events r \<noteq> [] \<and>
     list_all valid_raw_event (sr_source_events r) \<and> 1 \<le> sr_max_output_tokens r \<and> sr_max_output_tokens r \<le> 1200 \<and>
     text_len 1 128 (sr_policy_version r))"

record semantic_result =
  sm_content :: "(string \<times> json) list"
  sm_source_event_ids :: "string list"
  sm_output_tokens :: int
  sm_provider_version :: string
  sm_model_version :: string
  sm_prompt_version :: string

definition valid_semantic_result :: "semantic_result \<Rightarrow> bool" where
  "valid_semantic_result r = (sm_content r \<noteq> [] \<and> sm_source_event_ids r \<noteq> [] \<and> 1 \<le> sm_output_tokens r \<and>
     sm_output_tokens r \<le> 1200 \<and> text_len 1 128 (sm_provider_version r) \<and> text_len 1 128 (sm_model_version r) \<and>
     text_len 1 128 (sm_prompt_version r))"

type_synonym semantic_compressor = "nat \<Rightarrow> semantic_request \<Rightarrow> semantic_result option"

record compressed_item =
  ci_kind :: item_kind
  ci_source_event_ids :: "string list"
  ci_content :: "(string \<times> json) list"
  ci_content_sha256 :: string
  ci_token_estimate :: int
  ci_protected :: bool

definition valid_compressed_item :: "compressed_item \<Rightarrow> bool" where
  "valid_compressed_item c = (ci_source_event_ids c \<noteq> [] \<and> is_sha256 (ci_content_sha256 c) \<and>
     1 \<le> ci_token_estimate c \<and> ci_token_estimate c \<le> 2000000 \<and>
     context_content_sha256 (ci_content c) = ci_content_sha256 c \<and> distinct (ci_source_event_ids c))"

record compression_result =
  cz_task_id :: uuid
  cz_scope :: tenant_scope
  cz_level :: compression_level
  cz_policy_version :: string
  cz_raw_events_sha256 :: string
  cz_items :: "compressed_item list"
  cz_input_tokens :: int
  cz_output_tokens :: int
  cz_token_reduction_ratio :: rat
  cz_semantic_compressions_used :: int
  cz_checkpoint_id :: "uuid option"
  cz_validation_state :: compression_state
  cz_validation_report_sha256 :: "string option"
  cz_execution_ready :: bool

definition valid_compression_result :: "compression_result \<Rightarrow> bool" where
  "valid_compression_result r = (valid_scope (cz_scope r) \<and> is_sha256 (cz_raw_events_sha256 r) \<and> cz_items r \<noteq> [] \<and>
     list_all valid_compressed_item (cz_items r) \<and> 1 \<le> cz_input_tokens r \<and> 1 \<le> cz_output_tokens r \<and>
     0 \<le> cz_token_reduction_ratio r \<and> cz_token_reduction_ratio r \<le> 1 \<and>
     0 \<le> cz_semantic_compressions_used r \<and> cz_semantic_compressions_used r \<le> 2 \<and>
     opt_all is_sha256 (cz_validation_report_sha256 r) \<and>
     cz_execution_ready r = (cz_validation_state r = CS_READY) \<and>
     \<not> (cz_level r \<in> {C2, C3} \<and> cz_execution_ready r \<and> cz_validation_report_sha256 r = None) \<and>
     \<not> (\<not> cz_execution_ready r \<and> cz_validation_report_sha256 r \<noteq> None) \<and>
     \<not> (cz_level r = C3 \<and> cz_checkpoint_id r = None))"

subsection \<open>Level\<close>

definition select_compression_level :: "compression_request \<Rightarrow> compression_level" where
  "select_compression_level r = (let pressure = float_div (qr_active_context_tokens r) (qr_active_context_limit r);
     p = qr_policy r in
     if pressure < fval (cp_c1_threshold p) then C0
     else if pressure < fval (cp_c2_threshold p) then C1
     else if pressure \<le> fval (cp_c3_threshold p) then C2
     else C3)"

subsection \<open>Items\<close>

definition make_item :: "item_kind \<Rightarrow> string list \<Rightarrow> (string \<times> json) list \<Rightarrow> int \<Rightarrow> bool \<Rightarrow> compressed_item" where
  "make_item kind ids content tokens protected = \<lparr>ci_kind = kind, ci_source_event_ids = ids, ci_content = content,
     ci_content_sha256 = context_content_sha256 content, ci_token_estimate = tokens, ci_protected = protected\<rparr>"

definition raw_item :: "raw_event list \<Rightarrow> compressed_item" where
  "raw_item es = (let first = hd es in
     make_item RAW_EVENT (map re_event_id es) (re_content first) (re_token_estimate first) (re_protected first))"

definition semantic_item :: "semantic_result \<Rightarrow> compressed_item" where
  "semantic_item r = make_item SEMANTIC_SUMMARY (sm_source_event_ids r)
     [(''summary'', JObj (sm_content r)), (''provider_version'', JStr (sm_provider_version r)),
      (''model_version'', JStr (sm_model_version r)), (''prompt_version'', JStr (sm_prompt_version r))]
     (sm_output_tokens r) False"

definition dedup_key :: "raw_event \<Rightarrow> string" where
  "dedup_key e = (if \<not> re_protected e then re_content_sha256 e else ''protected:'' @ re_event_id e)"

text \<open>The groups in the order of their first event. \<open>order\<close> of the code is the insertion order of the dict.\<close>

definition deduplicate_raw_events :: "raw_event list \<Rightarrow> compressed_item list" where
  "deduplicate_raw_events es = map (\<lambda>(key, g). raw_item g) (group_by dedup_key es)"

definition artifact_item :: "raw_event \<Rightarrow> artifact_ref \<Rightarrow> raw_event list \<Rightarrow> compressed_item" where
  "artifact_item e artifact g = make_item ARTIFACT_REFERENCE (map re_event_id g)
     [(''artifact_id'', JStr (str_uuid (af_artifact_id artifact))), (''artifact_sha256'', JStr (af_sha256 artifact)),
      (''media_type'', JStr (af_media_type artifact)), (''source_event_sha256'', JStr (re_content_sha256 e))]
     (min (re_token_estimate e) 80) (re_protected e)"

text \<open>The second loop of \<^verbatim>\<open>_lossless_c1\<close> emits each key at its first event.\<close>

fun emit_c1 :: "(string \<times> raw_event list) list \<Rightarrow> string set \<Rightarrow> raw_event list \<Rightarrow> compressed_item list" where
  "emit_c1 grouped emitted [] = []"
| "emit_c1 grouped emitted (e # es) = (let key = dedup_key e in
     if key \<in> emitted then emit_c1 grouped emitted es
     else let g = the (map_of grouped key) in
       (case (if re_kind e = EV_TOOL_LOG \<and> \<not> re_protected e then re_recoverable_artifact e else None) of
          Some artifact \<Rightarrow> artifact_item e artifact g
        | None \<Rightarrow> raw_item g) # emit_c1 grouped (insert key emitted) es)"

definition lossless_c1 :: "raw_event list \<Rightarrow> compressed_item list" where
  "lossless_c1 es = emit_c1 (group_by dedup_key es) {} es"

definition recent_turn_ids :: "raw_event list \<Rightarrow> int \<Rightarrow> string set" where
  "recent_turn_ids es n = set (last_n (nat n)
     (map re_event_id (filter (\<lambda>e. re_kind e \<in> {EV_USER_TURN, EV_ASSISTANT_TURN}) es)))"

subsection \<open>Compression\<close>

definition same_event_scope :: "tenant_scope \<Rightarrow> tenant_scope \<Rightarrow> bool" where
  "same_event_scope left right = (dump_scope left = dump_scope right)"

definition raw_events_sha256 :: "raw_event list \<Rightarrow> string" where
  "raw_events_sha256 es = sha256_hex (canonical_json_bytes (JArr (map dump_raw_event es)))"

definition validate_events :: "compression_request \<Rightarrow> compression_error + unit" where
  "validate_events r = (if list_ex (\<lambda>e. re_task_id e \<noteq> qr_task_id r \<or> \<not> same_event_scope (re_scope e) (qr_scope r)) (qr_raw_events r)
     then Inl (CompressionError ''CONTEXT_EVENT_SCOPE_MISMATCH''
       ''A raw context event is outside the active task scope.''
       ''Rebuild the request from raw events authorized for the exact task scope.'')
     else Inr ())"

definition validate_checkpoint :: "compression_request \<Rightarrow> compression_error + uuid" where
  "validate_checkpoint r = (case qr_checkpoint r of
     None \<Rightarrow> Inl (CompressionError ''CONTEXT_C3_CHECKPOINT_REQUIRED''
       ''C3 compression cannot start before a durable checkpoint exists.''
       ''Create and verify a task checkpoint, then retry C3 compression.'')
   | Some c \<Rightarrow>
       if ck_task_id c \<noteq> qr_task_id r \<or> \<not> same_event_scope (ck_scope c) (qr_scope r) \<or>
          \<not> same_event_scope (af_scope (ck_state_artifact c)) (qr_scope r)
       then Inl (CompressionError ''CONTEXT_C3_CHECKPOINT_SCOPE_MISMATCH''
         ''The supplied checkpoint does not belong to the active task scope.''
         ''Select a verified checkpoint for the exact tenant, project, user, and task.'')
       else Inr (ck_checkpoint_id c))"

definition tokens_of :: "raw_event list \<Rightarrow> int" where
  "tokens_of es = sum_list (map re_token_estimate es)"

definition validate_semantic_result :: "semantic_request \<Rightarrow> semantic_result \<Rightarrow> compression_error + unit" where
  "validate_semantic_result q r = (
     if sm_source_event_ids r \<noteq> map re_event_id (sr_source_events q)
     then Inl (CompressionError ''CONTEXT_SEMANTIC_SOURCE_MISMATCH''
       ''The semantic compressor did not attest to the exact source event set.''
       ''Reject the output and rerun from the verified raw events.'')
     else if sm_output_tokens r > sr_max_output_tokens q
     then Inl (CompressionError ''CONTEXT_SEMANTIC_OUTPUT_OVERFLOW''
       ''The semantic compressor exceeded the configured output-token limit.''
       ''Reject the output and request a bounded summary from the raw events.'')
     else if sm_output_tokens r \<ge> tokens_of (sr_source_events q)
     then Inl (CompressionError ''CONTEXT_SEMANTIC_NO_REDUCTION''
       ''The semantic output does not reduce the selected raw-event token estimate.''
       ''Reject the output and keep the verified raw events unchanged.'')
     else Inr ())"

text \<open>\<^verbatim>\<open>_result\<close> and the items handed to it: pydantic validates each item and then the result.\<close>

definition result_for :: "compression_request \<Rightarrow> compression_level \<Rightarrow> string \<Rightarrow> int \<Rightarrow> compressed_item list \<Rightarrow> int \<Rightarrow> uuid option \<Rightarrow>
    compression_result" where
  "result_for r level raw_hash input_tokens items increment checkpoint_id = (
     let output_tokens = sum_list (map ci_token_estimate items); semantic = level \<in> {C2, C3} in
     \<lparr>cz_task_id = qr_task_id r, cz_scope = qr_scope r, cz_level = level,
      cz_policy_version = cp_policy_version (qr_policy r), cz_raw_events_sha256 = raw_hash, cz_items = items,
      cz_input_tokens = input_tokens, cz_output_tokens = output_tokens,
      cz_token_reduction_ratio = float_div (input_tokens - output_tokens) input_tokens,
      cz_semantic_compressions_used = qr_semantic_compressions_used r + increment,
      cz_checkpoint_id = checkpoint_id, cz_validation_state = (if semantic then CS_REQUIRED else CS_READY),
      cz_validation_report_sha256 = None, cz_execution_ready = (\<not> semantic)\<rparr>)"

definition checked_result :: "compression_request \<Rightarrow> compression_level \<Rightarrow> compressed_item list \<Rightarrow> int \<Rightarrow> uuid option \<Rightarrow>
    compression_error + compression_result" where
  "checked_result r level items increment checkpoint_id = (
     let result = result_for r level (raw_events_sha256 (qr_raw_events r)) (tokens_of (qr_raw_events r)) items increment checkpoint_id in
     if list_all valid_compressed_item items \<and> valid_compression_result result then Inr result else Inl CompressionInvalid)"

text \<open>What a semantic level keeps and what it may send to the adapter.\<close>

definition keeps_raw :: "compression_request \<Rightarrow> compression_level \<Rightarrow> raw_event \<Rightarrow> bool" where
  "keeps_raw r level e = (re_protected e \<or>
     level = C2 \<and> re_event_id e \<in> recent_turn_ids (qr_raw_events r) (cp_recent_turn_count (qr_policy r)))"

definition semantic_request_for :: "compression_request \<Rightarrow> compression_level \<Rightarrow> semantic_request" where
  "semantic_request_for r level = \<lparr>sr_task_id = qr_task_id r, sr_scope = qr_scope r, sr_level = level,
     sr_source_events = filter (\<lambda>e. \<not> keeps_raw r level e) (qr_raw_events r),
     sr_max_output_tokens = (if level = C2 then cp_c2_summary_token_limit (qr_policy r)
       else cp_c3_digest_token_limit (qr_policy r)),
     sr_policy_version = cp_policy_version (qr_policy r)\<rparr>"

definition call_adapter :: "semantic_compressor \<Rightarrow> semantic_request \<Rightarrow> (nat, compression_error, semantic_result) prog" where
  "call_adapter adapter q = (\<lambda>n. (case adapter n q of
     None \<Rightarrow> Inl (CompressionError ''CONTEXT_SEMANTIC_ADAPTER_FAILED''
       ''The semantic compression adapter failed before producing a valid result.''
       ''Preserve the raw events and inspect or retry the authorized adapter.'')
   | Some result \<Rightarrow> Inr result, Suc n))"

definition compress_semantic :: "semantic_compressor \<Rightarrow> compression_request \<Rightarrow> compression_level \<Rightarrow>
    (nat, compression_error, compression_result) prog" where
  "compress_semantic adapter r level =
     bindP (lift_pure (if level = C2 then Inr None else map_sum id Some (validate_checkpoint r))) (\<lambda>checkpoint_id.
     let retained = filter (keeps_raw r level) (qr_raw_events r); q = semantic_request_for r level in
     if sr_source_events q = [] then lift_pure (checked_result r level (deduplicate_raw_events retained) 0 checkpoint_id)
     else if \<not> valid_semantic_request q then raise CompressionInvalid
     else bindP (call_adapter adapter q) (\<lambda>result.
       thenP (lift_pure (validate_semantic_result q result))
         (lift_pure (checked_result r level (deduplicate_raw_events retained @ [semantic_item result]) 1 checkpoint_id))))"

definition compress :: "semantic_compressor option \<Rightarrow> compression_request \<Rightarrow> (nat, compression_error, compression_result) prog" where
  "compress compressor r = thenP (lift_pure (validate_events r)) (
     let level = select_compression_level r in
     if level = C0 then lift_pure (checked_result r C0 (deduplicate_raw_events (qr_raw_events r)) 0 None)
     else if level = C1 then lift_pure (checked_result r C1 (lossless_c1 (qr_raw_events r)) 0 None)
     else if qr_semantic_compressions_used r \<ge> cp_max_semantic_compressions (qr_policy r)
     then raise (CompressionError ''CONTEXT_SEMANTIC_COMPRESSION_LIMIT''
       ''The task has reached its semantic compression limit.''
       ''Stop or rebuild the task context from a durable raw-event checkpoint.'')
     else case compressor of
       None \<Rightarrow> raise (CompressionError ''CONTEXT_SEMANTIC_COMPRESSOR_UNAVAILABLE''
         ''Semantic compression is required but no authorized adapter is available.''
         ''Configure an authorized semantic compressor or reduce context pressure.'')
     | Some adapter \<Rightarrow> compress_semantic adapter r level)"

end
