(* ===== verification/ContextValidation.thy ===== *)
theory ContextValidation
  imports Compression
begin

section \<open>Validation of compressed context\<close>

text \<open>
  \<^verbatim>\<open>context/validation.py\<close>: a compression candidate is compared leaf by leaf with the raw events; an unsafe one is
  compressed again at the next safer level. The retry loop is \<^verbatim>\<open>while True\<close>: it is a partial function whose value \<open>None\<close> means
  that the call does not return.
\<close>

subsection \<open>Models\<close>

datatype validation_decision = ACCEPT | FALLBACK

fun validation_decision_value :: "validation_decision \<Rightarrow> string" where
  "validation_decision_value ACCEPT = ''ACCEPT''"
| "validation_decision_value FALLBACK = ''FALLBACK''"

record validation_policy =
  vp_policy_version :: string
  vp_critical_retention :: pyfloat
  vp_noncritical_retention :: pyfloat
  vp_max_quality_degradation_points :: pyfloat

definition valid_validation_policy :: "validation_policy \<Rightarrow> bool" where
  "valid_validation_policy p = (text_len 1 128 (vp_policy_version p) \<and>
     1 \<le> fval (vp_critical_retention p) \<and> fval (vp_critical_retention p) \<le> 1 \<and>
     to_double (98 / 100) \<le> fval (vp_noncritical_retention p) \<and> fval (vp_noncritical_retention p) \<le> 1 \<and>
     0 \<le> fval (vp_max_quality_degradation_points p) \<and> fval (vp_max_quality_degradation_points p) \<le> 3)"

record validation_request =
  vr_compression_request :: compression_request
  vr_candidate :: compression_result
  vr_policy :: validation_policy
  vr_baseline_quality_score :: pyfloat
  vr_candidate_quality_scores :: "(compression_level \<times> pyfloat) list"

definition valid_validation_request :: "validation_request \<Rightarrow> bool" where
  "valid_validation_request v = (valid_compression_request (vr_compression_request v) \<and>
     valid_compression_result (vr_candidate v) \<and> valid_validation_policy (vr_policy v) \<and>
     0 \<le> fval (vr_baseline_quality_score v) \<and> fval (vr_baseline_quality_score v) \<le> 100 \<and>
     distinct_keys (vr_candidate_quality_scores v) \<and>
     list_all (\<lambda>(level, score). 0 \<le> fval score \<and> fval score \<le> 100) (vr_candidate_quality_scores v))"

record validation_report =
  vt_policy_version :: string
  vt_candidate_level :: compression_level
  vt_decision :: validation_decision
  vt_critical_total :: int
  vt_critical_retained :: int
  vt_noncritical_total :: int
  vt_noncritical_retained :: int
  vt_critical_retention_ratio :: rat
  vt_noncritical_retention_ratio :: rat
  vt_quality_degradation_points :: rat
  vt_missing_critical :: "string list"
  vt_missing_noncritical_count :: int
  vt_report_sha256 :: string

definition valid_report :: "validation_report \<Rightarrow> bool" where
  "valid_report t = (0 \<le> vt_critical_total t \<and> 0 \<le> vt_critical_retained t \<and> 0 \<le> vt_noncritical_total t \<and>
     0 \<le> vt_noncritical_retained t \<and> 0 \<le> vt_critical_retention_ratio t \<and> vt_critical_retention_ratio t \<le> 1 \<and>
     0 \<le> vt_noncritical_retention_ratio t \<and> vt_noncritical_retention_ratio t \<le> 1 \<and>
     0 \<le> vt_quality_degradation_points t \<and> vt_quality_degradation_points t \<le> 100 \<and>
     0 \<le> vt_missing_noncritical_count t \<and> is_sha256 (vt_report_sha256 t))"

record validation_result =
  vs_result :: compression_result
  vs_reports :: "validation_report list"
  vs_fallback_levels :: "compression_level list"

subsection \<open>Leaves\<close>

text \<open>\<^verbatim>\<open>_flatten\<close>: the leaves of a JSON value, each under the key it is nearest to. Lists keep the name of their key.\<close>

fun flatten :: "json \<Rightarrow> string \<Rightarrow> (string \<times> string) list" where
  "flatten (JObj kvs) name = concat (map snd (sort_key fst (map (\<lambda>kv. (fst kv, flatten (snd kv) (fst kv))) kvs)))"
| "flatten (JArr xs) name = concat (map (\<lambda>x. flatten x name) xs)"
| "flatten leaf name = [(name, dumps False leaf)]"

definition leaves :: "(string \<times> json) list \<Rightarrow> (string \<times> string) list" where
  "leaves content = flatten (JObj content) ''root''"

text \<open>\<^verbatim>\<open>_is_number\<close>: \<^verbatim>\<open>json.loads\<close> reads the text as an \<^verbatim>\<open>int\<close> or a \<^verbatim>\<open>float\<close>. It skips white space around the value and
  knows the constants \<^verbatim>\<open>NaN\<close>, \<^verbatim>\<open>Infinity\<close> and \<^verbatim>\<open>-Infinity\<close>.\<close>

definition number_exponent :: "string \<Rightarrow> bool" where
  "number_exponent s = (case s of [] \<Rightarrow> True | c # t \<Rightarrow> c \<in> set ''eE'' \<and>
     (let d = (if t \<noteq> [] \<and> hd t \<in> set ''+-'' then tl t else t) in d \<noteq> [] \<and> list_all is_decimal d))"

definition number_fraction :: "string \<Rightarrow> bool" where
  "number_fraction s = (if s \<noteq> [] \<and> hd s = CHR ''.''
     then takeWhile is_decimal (tl s) \<noteq> [] \<and> number_exponent (dropWhile is_decimal (tl s)) else number_exponent s)"

definition json_number :: "string \<Rightarrow> bool" where
  "json_number s = (let t = (if s \<noteq> [] \<and> hd s = CHR ''-'' then tl s else s); whole = takeWhile is_decimal t in
     whole \<noteq> [] \<and> (hd whole = CHR ''0'' \<longrightarrow> length whole = 1) \<and> number_fraction (dropWhile is_decimal t))"

definition json_space :: "char \<Rightarrow> bool" where
  "json_space c = ((of_char c :: nat) \<in> {32, 9, 10, 13})"

definition is_number :: "string \<Rightarrow> bool" where
  "is_number v = (let t = rev (dropWhile json_space (rev (dropWhile json_space v))) in
     t \<in> {''NaN'', ''Infinity'', ''-Infinity''} \<or> json_number t)"

text \<open>\<^verbatim>\<open>str.lower()\<close> for the code points below 256, and \<^verbatim>\<open>in\<close> on texts.\<close>

definition lower_char :: "char \<Rightarrow> char" where
  "lower_char c = (let n = of_char c :: nat in
     if 65 \<le> n \<and> n \<le> 90 \<or> 192 \<le> n \<and> n \<le> 222 \<and> n \<noteq> 215 then char_of (n + 32) else c)"

definition contains :: "string \<Rightarrow> string \<Rightarrow> bool" where
  "contains marker s = list_ex (\<lambda>i. take (length marker) (drop i s) = marker) [0..<length s + 1]"

definition critical_names :: "string list" where
  "critical_names = [''instruction'', ''security'', ''permission'', ''tenant'', ''conflict'', ''unresolved'', ''open_issue'',
     ''standard'', ''clause'', ''value'', ''unit'', ''citation'', ''source_hash'', ''sha256'', ''tool_error'', ''error'',
     ''approval'', ''decision'']"

record atom =
  at_event_id :: string
  at_name :: string
  at_value :: string
  at_critical :: bool

definition atom_key :: "atom \<Rightarrow> string \<times> string" where
  "atom_key a = (at_name a, at_value a)"

definition signature :: "atom \<Rightarrow> string" where
  "signature a = at_name a @ ''='' @ at_value a"

definition critical_leaf :: "string \<times> string \<Rightarrow> bool" where
  "critical_leaf k = (list_ex (\<lambda>marker. contains marker (map lower_char (fst k))) critical_names \<or> is_number (snd k))"

definition extract_atoms :: "raw_event \<Rightarrow> atom list" where
  "extract_atoms e = map (\<lambda>k. \<lparr>at_event_id = re_event_id e, at_name = fst k, at_value = snd k,
     at_critical = (re_protected e \<or> critical_leaf k)\<rparr>) (leaves (re_content e))"

subsection \<open>Evaluation\<close>

definition recovered_events :: "compression_result \<Rightarrow> string set" where
  "recovered_events z = set (concat (map ci_source_event_ids (filter (\<lambda>c. ci_kind c = ARTIFACT_REFERENCE) (cz_items z))))"

definition output_atoms :: "compression_result \<Rightarrow> (string \<times> string) multiset" where
  "output_atoms z = mset (concat (map (leaves \<circ> ci_content) (cz_items z)))"

text \<open>The loop over the atoms: those retained and those missing, while the available leaves of the output are used up.\<close>

fun retain :: "string set \<Rightarrow> (string \<times> string) multiset \<Rightarrow> atom list \<Rightarrow> atom list \<times> atom list" where
  "retain recovered available [] = ([], [])"
| "retain recovered available (a # as) = (
     if at_event_id a \<in> recovered then let (r, m) = retain recovered available as in (a # r, m)
     else if count available (atom_key a) > 0
     then let (r, m) = retain recovered (available - {# atom_key a #}) as in (a # r, m)
     else let (r, m) = retain recovered available as in (r, a # m))"

definition retention_ratio :: "int \<Rightarrow> int \<Rightarrow> rat" where
  "retention_ratio kept whole = (if whole = 0 then 1 else float_div kept whole)"

definition degradation :: "compression_level \<Rightarrow> pyfloat \<Rightarrow> (compression_level \<times> pyfloat) list \<Rightarrow> rat" where
  "degradation level baseline scores = (
     let quality = (if level \<in> {C0, C1} then Some baseline else map_of scores level) in
     case quality of None \<Rightarrow> 100 | Some q \<Rightarrow> max 0 (to_double (fval baseline - fval q)))"

definition report_payload :: "validation_report \<Rightarrow> json" where
  "report_payload t = JObj
    [(''policy_version'', JStr (vt_policy_version t)),
     (''candidate_level'', JStr (level_value (vt_candidate_level t))),
     (''decision'', JStr (validation_decision_value (vt_decision t))),
     (''critical_total'', JInt (vt_critical_total t)),
     (''critical_retained'', JInt (vt_critical_retained t)),
     (''noncritical_total'', JInt (vt_noncritical_total t)),
     (''noncritical_retained'', JInt (vt_noncritical_retained t)),
     (''critical_retention_ratio'', JFloat (float_repr (vt_critical_retention_ratio t))),
     (''noncritical_retention_ratio'', JFloat (float_repr (vt_noncritical_retention_ratio t))),
     (''quality_degradation_points'', JFloat (float_repr (vt_quality_degradation_points t))),
     (''missing_critical'', str_list (vt_missing_critical t)),
     (''missing_noncritical_count'', JInt (vt_missing_noncritical_count t))]"

definition count_atoms :: "(atom \<Rightarrow> bool) \<Rightarrow> atom list \<Rightarrow> int" where
  "count_atoms p as = int (length (filter p as))"

definition evaluate :: "raw_event list \<Rightarrow> compression_result \<Rightarrow> validation_policy \<Rightarrow> pyfloat \<Rightarrow>
    (compression_level \<times> pyfloat) list \<Rightarrow> validation_report" where
  "evaluate raw_events z p baseline scores = (
     let atoms = concat (map extract_atoms raw_events);
         (retained, missing) = retain (recovered_events z) (output_atoms z) atoms;
         critical = count_atoms at_critical atoms; noncritical = count_atoms (Not \<circ> at_critical) atoms;
         retained_critical = count_atoms at_critical retained; retained_noncritical = count_atoms (Not \<circ> at_critical) retained;
         critical_ratio = retention_ratio retained_critical critical; noncritical_ratio = retention_ratio retained_noncritical noncritical;
         points = degradation (cz_level z) baseline scores;
         accepted = (critical_ratio \<ge> fval (vp_critical_retention p) \<and>
           noncritical_ratio \<ge> fval (vp_noncritical_retention p) \<and> points \<le> fval (vp_max_quality_degradation_points p));
         report = \<lparr>vt_policy_version = vp_policy_version p, vt_candidate_level = cz_level z,
           vt_decision = (if accepted then ACCEPT else FALLBACK), vt_critical_total = critical,
           vt_critical_retained = retained_critical, vt_noncritical_total = noncritical,
           vt_noncritical_retained = retained_noncritical, vt_critical_retention_ratio = critical_ratio,
           vt_noncritical_retention_ratio = noncritical_ratio, vt_quality_degradation_points = points,
           vt_missing_critical = sort (map signature (filter at_critical missing)),
           vt_missing_noncritical_count = count_atoms (Not \<circ> at_critical) missing, vt_report_sha256 = []\<rparr>
     in report\<lparr>vt_report_sha256 := sha256_hex (canonical_json_bytes (report_payload report))\<rparr>)"

subsection \<open>Binding and fallback\<close>

definition validate_binding :: "compression_request \<Rightarrow> compression_result \<Rightarrow> compression_error + unit" where
  "validate_binding r z = (
     if cz_task_id z \<noteq> qr_task_id r \<or> dump_scope (cz_scope z) \<noteq> dump_scope (qr_scope r) \<or>
        cz_raw_events_sha256 z \<noteq> sha256_hex (canonical_json_bytes (JArr (map dump_raw_event (qr_raw_events r))))
     then Inl (ValidationFailure ''CONTEXT_VALIDATION_BINDING_MISMATCH''
       ''The compression candidate is not bound to the exact raw context request.''
       ''Discard it and rebuild compression from the verified raw events.'')
     else if mset (concat (map ci_source_event_ids (cz_items z))) \<noteq> mset (map re_event_id (qr_raw_events r))
     then Inl (ValidationFailure ''CONTEXT_VALIDATION_SOURCE_COVERAGE''
       ''The compression candidate does not cover every raw event exactly once.''
       ''Discard it and rebuild from the complete ordered raw-event stream.'')
     else Inr ())"

fun fallback_level :: "compression_level \<Rightarrow> compression_level option" where
  "fallback_level C3 = Some C2"
| "fallback_level C2 = Some C1"
| "fallback_level _ = None"

text \<open>The pressure aimed at is half way between two thresholds, in floating point; \<^verbatim>\<open>int\<close> truncates.\<close>

definition fallback_pressure :: "compression_policy \<Rightarrow> compression_level \<Rightarrow> rat" where
  "fallback_pressure p level = (
     if level = C2 then to_double (to_double (fval (cp_c2_threshold p) + fval (cp_c3_threshold p)) / 2)
     else to_double (to_double (fval (cp_c1_threshold p) + fval (cp_c2_threshold p)) / 2))"

definition request_for_level :: "compression_request \<Rightarrow> compression_level \<Rightarrow> int \<Rightarrow> compression_request" where
  "request_for_level r level used = r\<lparr>
     qr_active_context_tokens := max 1 \<lfloor>to_double (of_int (qr_active_context_limit r) * fallback_pressure (qr_policy r) level)\<rfloor>,
     qr_semantic_compressions_used := used\<rparr>"

definition accept :: "compression_result \<Rightarrow> validation_report \<Rightarrow> compression_result" where
  "accept z report = z\<lparr>cz_validation_state := CS_READY, cz_validation_report_sha256 := Some (vt_report_sha256 report),
     cz_execution_ready := True\<rparr>"

definition report_on :: "validation_request \<Rightarrow> compression_result \<Rightarrow> validation_report" where
  "report_on v z = evaluate (qr_raw_events (vr_compression_request v)) z (vr_policy v) (vr_baseline_quality_score v)
     (vr_candidate_quality_scores v)"

definition exhausted :: compression_error where
  "exhausted = ValidationFailure ''CONTEXT_VALIDATION_EXHAUSTED''
     ''No safe compression level satisfied the retention policy.''
     ''Keep the uncompressed verified raw context and request review.''"

partial_function (option) validation_loop :: "semantic_compressor option \<Rightarrow> validation_request \<Rightarrow> compression_result \<Rightarrow>
    validation_report list \<Rightarrow> compression_level list \<Rightarrow> nat \<Rightarrow> ((compression_error + validation_result) \<times> nat) option" where
  "validation_loop c v z reports fallbacks n = (
     let report = report_on v z in
     if \<not> valid_report report then Some (Inl CompressionInvalid, n)
     else if vt_decision report = ACCEPT
     then Some (Inr \<lparr>vs_result = accept z report, vs_reports = reports @ [report], vs_fallback_levels = fallbacks\<rparr>, n)
     else case fallback_level (cz_level z) of None \<Rightarrow> Some (Inl exhausted, n)
     | Some level \<Rightarrow>
         let retry = request_for_level (vr_compression_request v) level (cz_semantic_compressions_used z) in
         (case compress c retry n of (Inl e, n') \<Rightarrow> Some (Inl e, n')
          | (Inr z', n') \<Rightarrow> (case validate_binding retry z' of Inl e \<Rightarrow> Some (Inl e, n')
             | Inr _ \<Rightarrow> validation_loop c v z' (reports @ [report]) (fallbacks @ [level]) n')))"

definition validate_or_fallback :: "semantic_compressor option \<Rightarrow> validation_request \<Rightarrow> nat \<Rightarrow>
    ((compression_error + validation_result) \<times> nat) option" where
  "validate_or_fallback c v n = (case validate_binding (vr_compression_request v) (vr_candidate v) of
     Inl e \<Rightarrow> Some (Inl e, n) | Inr _ \<Rightarrow> validation_loop c v (vr_candidate v) [] [] n)"

end
