(* ===== verification/CompressionRules.thy ===== *)
theory CompressionRules
  imports Compression ContextAssemblyRules
begin

section \<open>What a compression keeps\<close>

text \<open>
  The levels C0 and C1 build one item for each group of events with the same key. \<open>event_items\<close> states what the pipeline needs
  of such a builder; it is interpreted on the builders of both levels, and every lemma on coverage, tokens and validity
  is proved once inside it. The rules on results and on the semantic levels rest on its facts.
\<close>

subsection \<open>Groups in the order of their first event\<close>

lemma keys_snoc: "map fst (group_by k (xs @ [x])) = map fst (group_by k xs) @ (if k x \<in> k ` set xs then [] else [k x])"
  by (simp add: group_by_snoc update_keys keys_group_by del: set_map)

lemma keys_append: "\<exists>more. map fst (group_by k (xs @ ys)) = map fst (group_by k xs) @ more"
proof (induction ys rule: rev_induct)
  case (snoc y ys)
  then show ?case
    using keys_snoc [of k "xs @ ys" y] by auto
qed simp

lemma hd_first_in_group: "k x \<notin> k ` set xs \<Longrightarrow> hd (filter (\<lambda>y. k y = k x) (xs @ x # ys)) = x"
  by (induction xs) auto

text \<open>The item C1 builds for a group.\<close>

definition c1_item :: "raw_event list \<Rightarrow> compressed_item" where
  "c1_item g = (let e = hd g in
     case (if re_kind e = EV_TOOL_LOG \<and> \<not> re_protected e then re_recoverable_artifact e else None) of
       Some artifact \<Rightarrow> artifact_item e artifact g
     | None \<Rightarrow> raw_item g)"

lemma emit_c1_first:
  assumes "dedup_key e \<notin> emitted" "map_of grouped (dedup_key e) = Some g" "hd g = e"
  shows "emit_c1 grouped emitted (e # es) = c1_item g # emit_c1 grouped (insert (dedup_key e) emitted) es"
  using assms by (simp add: c1_item_def Let_def)

lemma emit_c1_groups:
  "emit_c1 (group_by dedup_key (pre @ es)) (dedup_key ` set pre) es =
    map (\<lambda>i. c1_item (filter (\<lambda>e. dedup_key e = i) (pre @ es)))
      (drop (length (group_by dedup_key pre)) (map fst (group_by dedup_key (pre @ es))))"
proof (induction es arbitrary: pre)
  case (Cons e es)
  let ?k = dedup_key and ?all = "pre @ e # es"
  have IH: "emit_c1 (group_by ?k ?all) (insert (?k e) (?k ` set pre)) es =
      map (\<lambda>i. c1_item (filter (\<lambda>e. ?k e = i) ?all)) (drop (length (group_by ?k (pre @ [e]))) (map fst (group_by ?k ?all)))"
    using Cons.IH [of "pre @ [e]"] by simp
  have len: "length (group_by ?k (pre @ [e])) = length (group_by ?k pre) + (if ?k e \<in> ?k ` set pre then 0 else 1)"
    using arg_cong [OF keys_snoc [of ?k pre e], of length] by simp
  show ?case
  proof (cases "?k e \<in> ?k ` set pre")
    case True
    then show ?thesis
      using IH len by (simp add: insert_absorb)
  next
    case False
    obtain more where more: "map fst (group_by ?k ?all) = map fst (group_by ?k (pre @ [e])) @ more"
      using keys_append [of ?k "pre @ [e]" es] by auto
    then have "drop (length (group_by ?k pre)) (map fst (group_by ?k ?all)) =
        ?k e # drop (length (group_by ?k (pre @ [e]))) (map fst (group_by ?k ?all))"
      using False keys_snoc [of ?k pre e] len by simp
    moreover have "emit_c1 (group_by ?k ?all) (?k ` set pre) (e # es) =
        c1_item (filter (\<lambda>x. ?k x = ?k e) ?all) # emit_c1 (group_by ?k ?all) (insert (?k e) (?k ` set pre)) es"
      by (rule emit_c1_first [OF False _ hd_first_in_group [OF False]]) (simp add: map_of_group_by)
    ultimately show ?thesis
      using IH by simp
  qed
qed simp

text \<open>One item for each group.\<close>

definition group_items :: "(raw_event list \<Rightarrow> compressed_item) \<Rightarrow> raw_event list \<Rightarrow> compressed_item list" where
  "group_items build es = map build (map snd (group_by dedup_key es))"

lemma lossless_c1_groups: "lossless_c1 es = group_items c1_item es"
  using emit_c1_groups [of "[]" es] by (simp add: lossless_c1_def group_items_def groups_eq comp_def)

lemma deduplicate_groups: "deduplicate_raw_events es = group_items raw_item es"
  by (simp add: deduplicate_raw_events_def group_items_def split_beta comp_def)

lemma tokens_of_concat: "tokens_of (concat gs) = sum_list (map tokens_of gs)"
  by (induction gs) (simp_all add: tokens_of_def)

lemma tokens_of_mset: "mset es = mset es' \<Longrightarrow> tokens_of es = tokens_of es'"
  unfolding tokens_of_def by (metis mset_map sum_mset_sum_list)

subsection \<open>Builders of items\<close>

locale event_items =
  fixes build :: "raw_event list \<Rightarrow> compressed_item"
  assumes sources: "ci_source_event_ids (build g) = map re_event_id g"
    and tokens: "valid_raw_event (hd g) \<Longrightarrow> 1 \<le> ci_token_estimate (build g) \<and> ci_token_estimate (build g) \<le> re_token_estimate (hd g)"
    and content_hash: "ci_content_sha256 (build g) = context_content_sha256 (ci_content (build g))"
    and keeps_protected: "re_protected e \<Longrightarrow> build [e] = raw_item [e]"
begin

lemma items_cover: "mset (concat (map ci_source_event_ids (group_items build es))) = mset (map re_event_id es)"
proof -
  have "concat (map ci_source_event_ids (group_items build es)) = map re_event_id (concat (map snd (group_by dedup_key es)))"
    by (simp add: group_items_def sources comp_def map_concat)
  then show ?thesis
    using mset_concat_groups [of dedup_key es] by (metis mset_map)
qed

lemma item_of_group: "c \<in> set (group_items build es) \<Longrightarrow> \<exists>g. c = build g \<and> g \<noteq> [] \<and> set g \<subseteq> set es"
  using group_in_groups [of _ dedup_key es] by (fastforce simp: group_items_def)

lemma items_nonempty: "es \<noteq> [] \<Longrightarrow> group_items build es \<noteq> []"
  using items_cover [of es] by force

lemma items_valid:
  assumes "list_all valid_raw_event es" "distinct (map re_event_id es)"
  shows "list_all valid_compressed_item (group_items build es)"
proof -
  have "valid_compressed_item (build g)" if in_groups: "g \<in> set (map snd (group_by dedup_key es))" for g
  proof -
    obtain i where g: "g = filter (\<lambda>x. dedup_key x = i) es" "g \<noteq> []"
      using group_in_groups [OF in_groups] by blast
    have "hd g \<in> set es"
      using g by (metis filter_is_subset hd_in_set subsetD)
    then have "valid_raw_event (hd g)"
      using assms(1) by (simp add: list_all_iff)
    then show ?thesis
      using tokens [of g] g assms(2)
      by (simp add: valid_compressed_item_def valid_raw_event_def sources content_hash distinct_map_filter context_content_sha256_def)
  qed
  then show ?thesis
    by (simp add: group_items_def list_all_iff)
qed

lemma items_tokens:
  assumes "list_all valid_raw_event es"
  shows "int (length (group_items build es)) \<le> sum_list (map ci_token_estimate (group_items build es)) \<and>
    sum_list (map ci_token_estimate (group_items build es)) \<le> tokens_of es"
proof -
  have bounds: "1 \<le> ci_token_estimate (build g) \<and> ci_token_estimate (build g) \<le> tokens_of g"
    if in_groups: "g \<in> set (map snd (group_by dedup_key es))" for g
  proof -
    obtain i where g: "g = filter (\<lambda>x. dedup_key x = i) es" "g \<noteq> []"
      using group_in_groups [OF in_groups] by blast
    then have "list_all valid_raw_event g"
      using assms by (simp add: list_all_iff)
    then have "valid_raw_event (hd g)" "0 \<le> sum_list (map re_token_estimate (tl g))"
      using g(2) by (cases g; auto simp: list_all_iff valid_raw_event_def intro!: sum_list_nonneg; force)+
    moreover have "tokens_of g = re_token_estimate (hd g) + sum_list (map re_token_estimate (tl g))"
      using g(2) by (cases g) (simp_all add: tokens_of_def)
    ultimately show ?thesis
      using tokens [of g] by simp
  qed
  have "tokens_of es = sum_list (map tokens_of (map snd (group_by dedup_key es)))"
  proof -
    have "tokens_of es = tokens_of (concat (map snd (group_by dedup_key es)))"
      by (rule tokens_of_mset) (simp add: mset_concat_groups)
    also have "\<dots> = sum_list (map tokens_of (map snd (group_by dedup_key es)))"
      by (rule tokens_of_concat)
    finally show ?thesis .
  qed
  moreover have "int (length gs) \<le> sum_list (map (ci_token_estimate \<circ> build) gs) \<and>
      sum_list (map (ci_token_estimate \<circ> build) gs) \<le> sum_list (map tokens_of gs)"
    if in_groups: "set gs \<subseteq> set (map snd (group_by dedup_key es))" for gs
    using in_groups bounds by (induction gs) fastforce+
  from this [of "map snd (group_by dedup_key es)"]
  have "int (length (group_by dedup_key es)) \<le> sum_list (map ci_token_estimate (group_items build es))"
    "sum_list (map ci_token_estimate (group_items build es)) \<le> sum_list (map tokens_of (map snd (group_by dedup_key es)))"
    by (simp_all add: group_items_def comp_assoc)
  ultimately show ?thesis
    by (simp add: group_items_def)
qed

lemma protected_item:
  assumes "e \<in> set es" "re_protected e" "distinct (map re_event_id es)" "list_all valid_raw_event es"
  shows "raw_item [e] \<in> set (group_items build es)"
proof -
  have "filter (\<lambda>x. dedup_key x = dedup_key e) es = [e]"
  proof -
    have "dedup_key x = dedup_key e \<longleftrightarrow> x = e" if "x \<in> set es" for x
    proof
      assume same: "dedup_key x = dedup_key e"
      have "is_sha256 (re_content_sha256 x)"
        using that assms(4) by (simp add: list_all_iff valid_raw_event_def)
      then have "re_content_sha256 x \<noteq> ''protected:'' @ re_event_id e"
        by (auto simp: is_sha256_def is_hex_char_def)
      with same assms(2) have "re_event_id x = re_event_id e"
        by (auto simp: dedup_key_def split: if_splits)
      with assms(1,3) that show "x = e"
        by (simp add: distinct_map inj_on_def)
    qed simp
    then have "filter (\<lambda>x. dedup_key x = dedup_key e) es = filter (\<lambda>x. x = e) es"
      by (intro filter_cong) auto
    also have "\<dots> = [e]"
      using assms(1,3) by (induction es) (auto simp: filter_empty_conv)
    finally show ?thesis .
  qed
  then show ?thesis
    using in_some_group [OF assms(1), of dedup_key] keeps_protected [OF assms(2)]
    by (simp only: group_items_def set_map) (metis image_eqI)
qed

end

interpretation raw_items: event_items raw_item
  by unfold_locales (simp_all add: raw_item_def make_item_def valid_raw_event_def Let_def)

interpretation c1_items: event_items c1_item
  by unfold_locales (auto simp: c1_item_def raw_item_def artifact_item_def make_item_def valid_raw_event_def Let_def
      split: option.split if_splits)

subsection \<open>Results\<close>

lemma float_div_unit:
  assumes "0 \<le> a" "a \<le> b" "1 \<le> b" "b \<le> 2000000000"
  shows "0 \<le> float_div (b - a) b \<and> float_div (b - a) b \<le> 1"
proof (cases "a = 0")
  case True
  with assms show ?thesis
    using to_double_of_int [of 1] by (simp add: float_div_def)
next
  case False
  define q :: rat where "q = of_int (b - a) / of_int b"
  have "0 \<le> q"
    using assms by (simp add: q_def)
  have "q = 1 - of_int a / of_int b"
    using assms by (simp add: q_def diff_divide_distrib)
  moreover have "(1 :: rat) / 2000000000 \<le> of_int a / of_int b"
    using assms False by (intro frac_le) auto
  ultimately have "q \<le> 1 - 1 / 2000000000"
    by simp
  then have "q * (1 + 1 / 2 ^ 53) \<le> (1 - 1 / 2000000000) * (1 + 1 / 2 ^ 53)"
    by (rule mult_right_mono) simp
  also have "\<dots> \<le> 1"
    by simp
  finally have "q * (1 + 1 / 2 ^ 53) \<le> 1" .
  with to_double_bounds(2) [OF \<open>0 \<le> q\<close>] to_double_nonneg [OF \<open>0 \<le> q\<close>] show ?thesis
    by (simp add: float_div_def q_def)
qed

lemma tokens_of_bounds:
  assumes "list_all valid_raw_event es"
  shows "int (length es) \<le> tokens_of es \<and> tokens_of es \<le> 2000000 * int (length es)"
  using assms by (induction es) (auto simp: tokens_of_def valid_raw_event_def)

text \<open>A result whose items are valid, no larger than the input and at least one is valid.\<close>

lemma checked_result_valid:
  assumes r: "valid_compression_request r" and items: "list_all valid_compressed_item items" "items \<noteq> []"
    and smaller: "sum_list (map ci_token_estimate items) \<le> tokens_of (qr_raw_events r)"
    and used: "0 \<le> increment" "qr_semantic_compressions_used r + increment \<le> 2" and ck: "level = C3 \<Longrightarrow> checkpoint_id \<noteq> None"
  shows "checked_result r level items increment checkpoint_id = Inr (result_for r level (raw_events_sha256 (qr_raw_events r))
    (tokens_of (qr_raw_events r)) items increment checkpoint_id)"
proof -
  have events: "list_all valid_raw_event (qr_raw_events r)" "1 \<le> length (qr_raw_events r)" "length (qr_raw_events r) \<le> 1000"
    using r by (simp_all add: valid_compression_request_def)
  have total: "1 \<le> tokens_of (qr_raw_events r)" "tokens_of (qr_raw_events r) \<le> 2000000000"
    using tokens_of_bounds [OF events(1)] events(2,3) by linarith+
  have "int (length items) \<le> sum_list (map ci_token_estimate items)"
    using items(1) by (induction items) (auto simp: valid_compressed_item_def)
  then have out: "1 \<le> sum_list (map ci_token_estimate items)"
    using items(2) by (cases items) auto
  show ?thesis
    using r items ck used total out smaller
      float_div_unit [of "sum_list (map ci_token_estimate items)" "tokens_of (qr_raw_events r)"]
    by (auto simp: checked_result_def result_for_def valid_compression_result_def Let_def valid_compression_request_def
        raw_events_sha256_def)
qed

lemma checked_resultD:
  "checked_result r level items increment checkpoint_id = Inr z \<Longrightarrow>
    z = result_for r level (raw_events_sha256 (qr_raw_events r)) (tokens_of (qr_raw_events r)) items increment checkpoint_id \<and>
    list_all valid_compressed_item items \<and> valid_compression_result z"
  by (auto simp: checked_result_def Let_def split: if_splits)

lemma result_for_simps [simp]:
  "cz_task_id (result_for r level h n items i c) = qr_task_id r"
  "cz_scope (result_for r level h n items i c) = qr_scope r"
  "cz_level (result_for r level h n items i c) = level"
  "cz_raw_events_sha256 (result_for r level h n items i c) = h"
  "cz_items (result_for r level h n items i c) = items"
  "cz_input_tokens (result_for r level h n items i c) = n"
  "cz_output_tokens (result_for r level h n items i c) = sum_list (map ci_token_estimate items)"
  "cz_semantic_compressions_used (result_for r level h n items i c) = qr_semantic_compressions_used r + i"
  "cz_execution_ready (result_for r level h n items i c) = (level \<notin> {C2, C3})"
  "cz_validation_report_sha256 (result_for r level h n items i c) = None"
  by (simp_all add: result_for_def Let_def)

text \<open>The items of a result: the groups of what is kept, and the summary of the rest when there is one.\<close>

definition kept_events :: "compression_request \<Rightarrow> raw_event list" where
  "kept_events r = filter (keeps_raw r (select_compression_level r)) (qr_raw_events r)"

definition shared_events :: "compression_request \<Rightarrow> raw_event list" where
  "shared_events r = filter (\<lambda>e. \<not> keeps_raw r (select_compression_level r) e) (qr_raw_events r)"

lemma source_events [simp]: "sr_source_events (semantic_request_for r (select_compression_level r)) = shared_events r"
  by (simp add: semantic_request_for_def shared_events_def)

lemma kept_and_shared: "mset (kept_events r) + mset (shared_events r) = mset (qr_raw_events r)"
  by (simp add: kept_events_def shared_events_def)

lemma semantic_item_simps [simp]:
  "ci_source_event_ids (semantic_item s) = sm_source_event_ids s" "ci_token_estimate (semantic_item s) = sm_output_tokens s"
  "ci_kind (semantic_item s) = SEMANTIC_SUMMARY"
  by (simp_all add: semantic_item_def make_item_def)

lemma semantic_item_valid:
  "valid_semantic_result s \<Longrightarrow> distinct (sm_source_event_ids s) \<Longrightarrow> valid_compressed_item (semantic_item s)"
  by (simp add: semantic_item_def make_item_def valid_compressed_item_def valid_semantic_result_def context_content_sha256_def)

lemma semantic_request_valid:
  assumes "valid_compression_request r" "shared_events r \<noteq> []" "select_compression_level r \<in> {C2, C3}"
  shows "valid_semantic_request (semantic_request_for r (select_compression_level r))"
proof -
  have "list_all valid_raw_event (shared_events r)"
    using assms(1) by (auto simp: shared_events_def valid_compression_request_def list_all_iff)
  with assms show ?thesis
    by (auto simp: valid_semantic_request_def valid_compression_request_def valid_compression_policy_def semantic_request_for_def
        shared_events_def)
qed

subsection \<open>The branches of a compression\<close>

text \<open>Where a result comes from.\<close>

lemma compress_returns:
  assumes "compress c r n = (Inr z, n')"
  shows "validate_events r = Inr () \<and> (
    (\<exists>build. (select_compression_level r = C0 \<and> build = raw_item \<or> select_compression_level r = C1 \<and> build = c1_item) \<and> n' = n \<and>
       checked_result r (select_compression_level r) (group_items build (qr_raw_events r)) 0 None = Inr z) \<or>
    (\<exists>ck. select_compression_level r \<in> {C2, C3} \<and> shared_events r = [] \<and> n' = n \<and>
       qr_semantic_compressions_used r < cp_max_semantic_compressions (qr_policy r) \<and>
       checked_result r (select_compression_level r) (group_items raw_item (kept_events r)) 0 ck = Inr z) \<or>
    (\<exists>adapter s ck. c = Some adapter \<and> select_compression_level r \<in> {C2, C3} \<and> shared_events r \<noteq> [] \<and> n' = Suc n \<and>
       qr_semantic_compressions_used r < cp_max_semantic_compressions (qr_policy r) \<and>
       adapter n (semantic_request_for r (select_compression_level r)) = Some s \<and>
       validate_semantic_result (semantic_request_for r (select_compression_level r)) s = Inr () \<and>
       checked_result r (select_compression_level r) (group_items raw_item (kept_events r) @ [semantic_item s]) 1 ck = Inr z))"
proof (cases "select_compression_level r \<in> {C0, C1}")
  case True
  with assms show ?thesis
    by (auto simp: compress_def thenP_def bindP_def lossless_c1_groups deduplicate_groups Let_def split: sum.splits)
next
  case False
  then have "select_compression_level r \<in> {C2, C3}"
    by (cases "select_compression_level r") auto
  with assms show ?thesis
    by (auto simp: compress_def compress_semantic_def thenP_def bindP_def deduplicate_groups Let_def call_adapter_def kept_events_def
        split: sum.splits option.splits if_splits prod.splits)
qed

lemma compress_cases [consumes 1, case_names lossless kept semantic]:
  assumes "compress c r n = (Inr z, n')"
  obtains build where "select_compression_level r = C0 \<and> build = raw_item \<or> select_compression_level r = C1 \<and> build = c1_item" "n' = n"
      "checked_result r (select_compression_level r) (group_items build (qr_raw_events r)) 0 None = Inr z"
  | ck where "select_compression_level r \<in> {C2, C3}" "shared_events r = []" "n' = n"
      "qr_semantic_compressions_used r < cp_max_semantic_compressions (qr_policy r)"
      "checked_result r (select_compression_level r) (group_items raw_item (kept_events r)) 0 ck = Inr z"
  | adapter s ck where "c = Some adapter" "select_compression_level r \<in> {C2, C3}" "shared_events r \<noteq> []" "n' = Suc n"
      "qr_semantic_compressions_used r < cp_max_semantic_compressions (qr_policy r)"
      "adapter n (semantic_request_for r (select_compression_level r)) = Some s"
      "validate_semantic_result (semantic_request_for r (select_compression_level r)) s = Inr ()"
      "checked_result r (select_compression_level r) (group_items raw_item (kept_events r) @ [semantic_item s]) 1 ck = Inr z"
  using compress_returns [OF assms] by blast

end
