(* ===== verification/CompressionProperties.thy ===== *)
theory CompressionProperties
  imports CompressionRules
begin

section \<open>Compression: properties\<close>

text \<open>
  Every result covers every raw event exactly once, is bound to the request, never larger than the input and ready only at the
  lossless levels; protected events stay verbatim and are never sent to the adapter; C0 and C1 lose unshared.
\<close>

lemma request_parts:
  assumes "valid_compression_request r"
  shows "list_all valid_raw_event (qr_raw_events r)" "qr_raw_events r \<noteq> []" "distinct (map re_event_id (qr_raw_events r))"
    "list_all valid_raw_event (kept_events r)" "list_all valid_raw_event (shared_events r)"
    "distinct (map re_event_id (kept_events r))" "distinct (map re_event_id (shared_events r))"
    "qr_semantic_compressions_used r \<le> 2" "0 \<le> qr_semantic_compressions_used r" "cp_max_semantic_compressions (qr_policy r) \<le> 2"
  using assms by (auto simp: valid_compression_request_def valid_compression_policy_def kept_events_def shared_events_def list_all_iff
      distinct_map_filter)

lemma attested: "validate_semantic_result (semantic_request_for r (select_compression_level r)) s = Inr () \<Longrightarrow>
    sm_source_event_ids s = map re_event_id (shared_events r) \<and> sm_output_tokens s < tokens_of (shared_events r)"
  by (auto simp: validate_semantic_result_def split: if_splits)

lemma tokens_split: "tokens_of (kept_events r) + tokens_of (shared_events r) = tokens_of (qr_raw_events r)"
proof -
  have "tokens_of (kept_events r @ shared_events r) = tokens_of (qr_raw_events r)"
    by (rule tokens_of_mset) (simp add: kept_and_shared)
  then show ?thesis
    by (simp add: tokens_of_def)
qed

lemma no_shared_events: "shared_events r = [] \<Longrightarrow> kept_events r = qr_raw_events r"
  by (auto simp: kept_events_def shared_events_def filter_empty_conv filter_id_conv)

text \<open>The items of a result, whichever branch built it, name every event once and are no larger than the input.\<close>

lemma result_covers:
  assumes "valid_compression_request r" "compress c r n = (Inr z, n')"
  shows "mset (concat (map ci_source_event_ids (cz_items z))) = mset (map re_event_id (qr_raw_events r))"
proof -
  note parts = request_parts [OF assms(1)]
  have split: "mset (map re_event_id (qr_raw_events r)) = image_mset re_event_id (mset (kept_events r)) + image_mset re_event_id (mset (shared_events r))"
    using kept_and_shared [of r] by (metis image_mset_union mset_map)
  from assms(2) show ?thesis
  proof (cases rule: compress_cases)
    case (lossless build)
    then show ?thesis
      using raw_items.items_cover c1_items.items_cover by (auto dest: checked_resultD)
  next
    case (kept ck)
    then show ?thesis
      using raw_items.items_cover by (auto dest!: checked_resultD no_shared_events)
  next
    case (semantic adapter s ck)
    then show ?thesis
      using raw_items.items_cover [of "kept_events r"] attested [of r s] unfolding split by (auto dest!: checked_resultD)
  qed
qed

lemma group_items_ok:
  assumes "list_all valid_raw_event es" "distinct (map re_event_id es)"
  shows "list_all valid_compressed_item (group_items raw_item es)" "list_all valid_compressed_item (group_items c1_item es)"
    "sum_list (map ci_token_estimate (group_items raw_item es)) \<le> tokens_of es"
    "sum_list (map ci_token_estimate (group_items c1_item es)) \<le> tokens_of es"
    "es \<noteq> [] \<Longrightarrow> group_items raw_item es \<noteq> []" "es \<noteq> [] \<Longrightarrow> group_items c1_item es \<noteq> []"
  using assms raw_items.items_valid c1_items.items_valid raw_items.items_tokens c1_items.items_tokens
    raw_items.items_nonempty c1_items.items_nonempty by blast+

text \<open>No model that a compression builds is invalid, provided that the adapter answers with validated results.\<close>

definition adapter_valid :: "semantic_compressor option \<Rightarrow> bool" where
  "adapter_valid c = (\<forall>adapter n q s. c = Some adapter \<longrightarrow> adapter n q = Some s \<longrightarrow> valid_semantic_result s)"

lemma checkpoint_checked: "validate_checkpoint r = Inl e \<Longrightarrow> \<exists>code message action. e = CompressionError code message action"
  by (auto simp: validate_checkpoint_def split: option.splits if_splits)

lemma semantic_checked: "validate_semantic_result q s = Inl e \<Longrightarrow> \<exists>code message action. e = CompressionError code message action"
  by (auto simp: validate_semantic_result_def split: if_splits)

lemma events_checked: "validate_events r = Inl e \<Longrightarrow> \<exists>code message action. e = CompressionError code message action"
  by (auto simp: validate_events_def split: if_splits)

lemma semantic_never_invalid:
  assumes r: "valid_compression_request r" and adapter: "adapter_valid (Some adapter)"
    and level: "level = select_compression_level r" "level \<in> {C2, C3}"
    and used: "qr_semantic_compressions_used r < cp_max_semantic_compressions (qr_policy r)"
  shows "wp (compress_semantic adapter r level) (\<lambda>z _. valid_compression_result z)
    (\<lambda>e _. \<exists>code message action. e = CompressionError code message action) n"
proof -
  note parts = request_parts [OF r]
  note kept = group_items_ok [OF parts(4,6)] and all = group_items_ok [OF parts(1,3)]
  have used2: "qr_semantic_compressions_used r + 1 \<le> 2"
    using used parts(10) by linarith
  have at_level: "filter (keeps_raw r level) (qr_raw_events r) = kept_events r"
    "sr_source_events (semantic_request_for r level) = shared_events r"
    by (simp_all add: level(1) kept_events_def)
  define sound where "sound = (\<lambda>e. \<exists>code message action. e = CompressionError code message action)"
  have kept_result: "wp (lift_pure (checked_result r level (group_items raw_item (kept_events r)) 0 ck))
      (\<lambda>z _. valid_compression_result z) (\<lambda>e _. sound e) n'"
    if unshared: "shared_events r = []" and ck: "level = C3 \<Longrightarrow> ck \<noteq> None" for ck n'
  proof -
    have everything: "kept_events r = qr_raw_events r"
      using unshared by (rule no_shared_events)
    obtain z where "checked_result r level (group_items raw_item (kept_events r)) 0 ck = Inr z"
      using checked_result_valid [OF r, of "group_items raw_item (qr_raw_events r)" 0 level ck] all parts(2,8,9) ck
      unfolding everything by auto
    then show ?thesis
      by (auto simp: wp_lift_pure dest: checked_resultD)
  qed
  have summary_result: "wp (lift_pure (checked_result r level (group_items raw_item (kept_events r) @ [semantic_item s]) 1 ck))
      (\<lambda>z _. valid_compression_result z) (\<lambda>e _. sound e) n'"
    if s: "valid_semantic_result s" "validate_semantic_result (semantic_request_for r level) s = Inr ()"
      and ck: "level = C3 \<Longrightarrow> ck \<noteq> None" for ck s n'
  proof -
    have ids: "sm_source_event_ids s = map re_event_id (shared_events r)" "sm_output_tokens s < tokens_of (shared_events r)"
      using attested s(2) level(1) by blast+
    obtain z where "checked_result r level (group_items raw_item (kept_events r) @ [semantic_item s]) 1 ck = Inr z"
      using checked_result_valid [OF r, of "group_items raw_item (kept_events r) @ [semantic_item s]" 1 level ck] kept(1,3) parts(7)
        used2 semantic_item_valid [OF s(1)] tokens_split [of r] ids ck by auto
    then show ?thesis
      by (auto simp: wp_lift_pure dest: checked_resultD)
  qed
  have checkpoint: "wp (lift_pure (if level = C2 then Inr None else map_sum id Some (validate_checkpoint r)))
      (\<lambda>ck n'. level = C3 \<longrightarrow> ck \<noteq> None) (\<lambda>e _. sound e) n"
    using level(2) checkpoint_checked [of r] by (cases "validate_checkpoint r") (auto simp: wp_lift_pure sound_def)
  have call: "wp (call_adapter adapter q) (\<lambda>s _. valid_semantic_result s) (\<lambda>e _. sound e) n'" for q n'
    using adapter by (auto simp: wp_def call_adapter_def adapter_valid_def sound_def split: option.split)
  have validated: "wp (lift_pure (validate_semantic_result q s)) (\<lambda>_ _. validate_semantic_result q s = Inr ()) (\<lambda>e _. sound e) n'" for q s n'
    using semantic_checked [of q s] by (auto simp: wp_lift_pure sound_def split: sum.split)
  have request: "shared_events r \<noteq> [] \<Longrightarrow> valid_semantic_request (semantic_request_for r level)"
    using semantic_request_valid r level by simp
  have "wp (compress_semantic adapter r level) (\<lambda>z _. valid_compression_result z) (\<lambda>e _. sound e) n"
    unfolding compress_semantic_def wp_bindP
  proof (rule wp_mono [OF checkpoint])
    fix ck :: "uuid option" and n' :: nat
    assume ck: "level = C3 \<longrightarrow> ck \<noteq> None"
    show "wp (let retained = filter (keeps_raw r level) (qr_raw_events r); q = semantic_request_for r level
       in if sr_source_events q = [] then lift_pure (checked_result r level (deduplicate_raw_events retained) 0 ck)
          else if \<not> valid_semantic_request q then raise CompressionInvalid
          else bindP (call_adapter adapter q) (\<lambda>result. thenP (lift_pure (validate_semantic_result q result))
            (lift_pure (checked_result r level (deduplicate_raw_events retained @ [semantic_item result]) 1 ck))))
       (\<lambda>z _. valid_compression_result z) (\<lambda>e _. sound e) n'"
      using kept_result [of ck n'] ck request
      by (auto simp: Let_def deduplicate_groups wp_bindP wp_thenP wp_raise at_level intro!: wp_mono [OF call] wp_mono [OF validated] summary_result)
  qed
  then show ?thesis
    by (simp add: sound_def)
qed

lemma compress_never_invalid:
  assumes "valid_compression_request r" "adapter_valid c"
  shows "wp (compress c r) (\<lambda>z _. valid_compression_result z) (\<lambda>e _. \<exists>code message action. e = CompressionError code message action) n"
proof -
  note parts = request_parts [OF assms(1)] and all = group_items_ok [OF request_parts(1,3) [OF assms(1)]]
  have lossless: "\<exists>z. checked_result r level (group_items build (qr_raw_events r)) 0 None = Inr z \<and> valid_compression_result z"
    if "build = raw_item \<or> build = c1_item" "level \<noteq> C3" for build level
    using checked_result_valid [OF assms(1), of "group_items build (qr_raw_events r)" 0 level None] that all parts(2,8,9)
    by (metis checked_resultD add.right_neutral order_refl)
  have semantic: "select_compression_level r \<noteq> C0 \<Longrightarrow> select_compression_level r \<noteq> C1 \<Longrightarrow> select_compression_level r \<in> {C2, C3}"
    by (cases "select_compression_level r") auto
  show ?thesis
    using lossless [of raw_item C0] lossless [of c1_item C1] events_checked [of r] semantic
      semantic_never_invalid [OF assms(1) _ refl, of _ n] assms(2)
    by (auto simp: compress_def wp_thenP wp_lift_pure wp_raise Let_def deduplicate_groups lossless_c1_groups adapter_valid_def
        split: sum.split option.split)
qed

lemma kept_no_larger:
  assumes "valid_compression_request r"
  shows "sum_list (map ci_token_estimate (group_items raw_item (kept_events r))) \<le> tokens_of (kept_events r)"
  using group_items_ok(3) request_parts(4,6) assms by blast

lemma result_binding:
  assumes r: "valid_compression_request r" and returned: "compress c r n = (Inr z, n')"
  shows "cz_task_id z = qr_task_id r \<and> cz_scope z = qr_scope r \<and> cz_level z = select_compression_level r \<and>
    cz_raw_events_sha256 z = raw_events_sha256 (qr_raw_events r) \<and> cz_output_tokens z \<le> cz_input_tokens z \<and>
    cz_input_tokens z = tokens_of (qr_raw_events r) \<and> cz_execution_ready z = (cz_level z \<in> {C0, C1}) \<and>
    cz_semantic_compressions_used z \<le> max (qr_semantic_compressions_used r) (cp_max_semantic_compressions (qr_policy r)) \<and>
    cz_semantic_compressions_used z = qr_semantic_compressions_used r + int (n' - n) \<and> n \<le> n' \<and> n' \<le> Suc n"
proof -
  note parts = request_parts [OF r] and all = group_items_ok [OF request_parts(1,3) [OF r]]
  have level: "select_compression_level r \<notin> {C2, C3} \<longleftrightarrow> select_compression_level r \<in> {C0, C1}"
    by (cases "select_compression_level r") auto
  from returned show ?thesis
  proof (cases rule: compress_cases)
    case (lossless build)
    then show ?thesis
      using all level by (auto dest!: checked_resultD)
  next
    case (kept ck)
    then show ?thesis
      using kept_no_larger [OF r] no_shared_events [of r] level by (auto dest!: checked_resultD)
  next
    case (semantic adapter s ck)
    then have "sm_output_tokens s < tokens_of (shared_events r)"
      using attested by blast
    then show ?thesis
      using semantic kept_no_larger [OF r] tokens_split [of r] level by (auto dest!: checked_resultD)
  qed
qed

text \<open>(C27) A compression of a valid request whose adapter answers with validated results fails only with its own named errors, and its
  result is a valid model bound to the task, scope, level and digest of the raw events. It names every raw event exactly once,
  has no more tokens than the input, spends at most one semantic call and none beyond the policy, and is ready for
  execution exactly at the lossless levels.\<close>

theorem compress_sound:
  assumes "valid_compression_request r" "adapter_valid c"
  shows "case compress c r n of
      (Inl e, n') \<Rightarrow> (\<exists>code message action. e = CompressionError code message action)
    | (Inr z, n') \<Rightarrow> valid_compression_result z \<and> cz_task_id z = qr_task_id r \<and> cz_scope z = qr_scope r \<and>
        cz_level z = select_compression_level r \<and> cz_raw_events_sha256 z = raw_events_sha256 (qr_raw_events r) \<and>
        mset (concat (map ci_source_event_ids (cz_items z))) = mset (map re_event_id (qr_raw_events r)) \<and>
        cz_output_tokens z \<le> cz_input_tokens z \<and> cz_execution_ready z = (cz_level z \<in> {C0, C1}) \<and>
        cz_semantic_compressions_used z = qr_semantic_compressions_used r + int (n' - n) \<and> n' \<in> {n, Suc n} \<and>
        cz_semantic_compressions_used z \<le> max (qr_semantic_compressions_used r) (cp_max_semantic_compressions (qr_policy r))"
proof -
  obtain res n' where run: "compress c r n = (res, n')"
    by force
  show ?thesis
  proof (cases res)
    case (Inl e)
    with run wp_outcomeD_Inl [OF compress_never_invalid [OF assms]] show ?thesis
      by simp
  next
    case (Inr z)
    with run have returned: "compress c r n = (Inr z, n')"
      by simp
    have "n' \<in> {n, Suc n}"
      using result_binding [OF assms(1) returned] by auto
    with returned result_binding [OF assms(1) returned] result_covers [OF assms(1) returned]
      wp_outcomeD_Inr [OF compress_never_invalid [OF assms] returned] show ?thesis
      unfolding returned prod.case sum.case by (elim conjE) (intro conjI, assumption+)
  qed
qed

lemma raw_item_simps [simp]:
  "ci_kind (raw_item g) = RAW_EVENT" "ci_source_event_ids (raw_item g) = map re_event_id g" "ci_content (raw_item g) = re_content (hd g)"
  "ci_content_sha256 (raw_item g) = context_content_sha256 (re_content (hd g))" "ci_protected (raw_item g) = re_protected (hd g)"
  by (simp_all add: raw_item_def make_item_def Let_def)

lemma protected_kept:
  assumes r: "valid_compression_request r" and returned: "compress c r n = (Inr z, n')" and e: "e \<in> set (qr_raw_events r)" "re_protected e"
  shows "raw_item [e] \<in> set (cz_items z)"
proof -
  note parts = request_parts [OF r]
  have kept: "raw_item [e] \<in> set (group_items raw_item (kept_events r))"
    using e parts(4,6) by (intro raw_items.protected_item) (auto simp: kept_events_def keeps_raw_def)
  from returned show ?thesis
  proof (cases rule: compress_cases)
    case (lossless build)
    then show ?thesis
      using raw_items.protected_item [OF e parts(3,1)] c1_items.protected_item [OF e parts(3,1)] by (auto dest!: checked_resultD)
  qed (use kept in \<open>auto dest!: checked_resultD\<close>)
qed

lemma bindP_lift_pure: "bindP (lift_pure x) k n = (case x of Inl e \<Rightarrow> (Inl e, n) | Inr y \<Rightarrow> k y n)"
  by (simp add: bindP_def split: sum.split)

lemma compress_semantic_cong:
  "adapter' n (semantic_request_for r level) = adapter n (semantic_request_for r level) \<Longrightarrow>
    compress_semantic adapter' r level n = compress_semantic adapter r level n"
proof -
  assume same: "adapter' n (semantic_request_for r level) = adapter n (semantic_request_for r level)"
  have "bindP (call_adapter adapter' (semantic_request_for r level)) k n = bindP (call_adapter adapter (semantic_request_for r level)) k n"
    for k :: "semantic_result \<Rightarrow> (nat, compression_error, compression_result) prog"
    by (simp add: bindP_def call_adapter_def same)
  then have "(if b then m else if b' then m' else bindP (call_adapter adapter' (semantic_request_for r level)) k) n =
      (if b then m else if b' then m' else bindP (call_adapter adapter (semantic_request_for r level)) k) n"
    for b b' m m' and k :: "semantic_result \<Rightarrow> (nat, compression_error, compression_result) prog"
    by simp
  then show ?thesis
    unfolding compress_semantic_def Let_def bindP_lift_pure by (simp only:)
qed

lemma compress_cong:
  assumes "adapter' n (semantic_request_for r (select_compression_level r)) = adapter n (semantic_request_for r (select_compression_level r))"
  shows "compress (Some adapter') r n = compress (Some adapter) r n"
  using compress_semantic_cong [of adapter' n r "select_compression_level r" adapter, OF assms]
  by (simp add: compress_def thenP_def bindP_def Let_def split: sum.split)

lemma compress_semantic_called:
  "compress_semantic adapter r level n = (res, n') \<Longrightarrow> n' = n \<or> n' = Suc n \<and> (level \<noteq> C2 \<longrightarrow> (\<exists>ck. validate_checkpoint r = Inr ck))"
  by (cases "validate_checkpoint r")
    (auto simp: compress_semantic_def thenP_def bindP_def call_adapter_def Let_def split: sum.splits option.splits if_splits)

lemma compress_called:
  assumes "compress (Some adapter) r n = (res, n')" "n' \<noteq> n"
  shows "validate_events r = Inr () \<and> n' = Suc n \<and> select_compression_level r \<notin> {C0, C1} \<and>
    (select_compression_level r \<noteq> C2 \<longrightarrow> (\<exists>ck. validate_checkpoint r = Inr ck))"
  using assms compress_semantic_called [of adapter r "select_compression_level r" n res n']
  by (auto simp: compress_def thenP_def bindP_def Let_def split: sum.splits if_splits)

lemma level_cases: "level \<noteq> C0 \<Longrightarrow> level \<noteq> C1 \<Longrightarrow> level \<in> {C2, C3}"
  by (cases level) auto

text \<open>(C28) Compression protects what is protected. Whatever the level, a protected event is in the result verbatim, as an item of
  its own. The adapter is asked at most once and only at C2 and C3 (at C3 only with a checkpoint of this task and scope), and what it is shown are
  exactly the events of the task and scope that are neither protected nor, at C2, among the recent turns: no other call of
  the adapter can affect the outcome.\<close>

theorem compress_protects:
  assumes "valid_compression_request r" "compress (Some adapter) r n = (res, n')"
  shows "let level = select_compression_level r; q = semantic_request_for r level in
    (\<forall>z e. res = Inr z \<longrightarrow> e \<in> set (qr_raw_events r) \<longrightarrow> re_protected e \<longrightarrow>
      (\<exists>c \<in> set (cz_items z). ci_kind c = RAW_EVENT \<and> ci_source_event_ids c = [re_event_id e] \<and> ci_content c = re_content e \<and> ci_protected c)) \<and>
    (\<forall>adapter'. adapter' n q = adapter n q \<longrightarrow> compress (Some adapter') r n = (res, n')) \<and>
    (n' = n \<or> n' = Suc n \<and> level \<in> {C2, C3} \<and>
      (\<forall>e. e \<in> set (sr_source_events q) \<longleftrightarrow> e \<in> set (qr_raw_events r) \<and> \<not> re_protected e \<and>
        \<not> (level = C2 \<and> re_event_id e \<in> recent_turn_ids (qr_raw_events r) (cp_recent_turn_count (qr_policy r)))) \<and>
      (\<forall>e \<in> set (sr_source_events q). re_task_id e = qr_task_id r \<and> re_scope e = qr_scope r) \<and>
      (level = C3 \<longrightarrow> (\<exists>ck. qr_checkpoint r = Some ck \<and> ck_task_id ck = qr_task_id r \<and> ck_scope ck = qr_scope r)))"
  unfolding Let_def
proof (intro conjI)
  show "\<forall>z e. res = Inr z \<longrightarrow> e \<in> set (qr_raw_events r) \<longrightarrow> re_protected e \<longrightarrow>
      (\<exists>c \<in> set (cz_items z). ci_kind c = RAW_EVENT \<and> ci_source_event_ids c = [re_event_id e] \<and> ci_content c = re_content e \<and> ci_protected c)"
    using protected_kept [OF assms(1)] assms(2) by (metis raw_item_simps list.simps(8,9) list.sel(1))
  show "\<forall>adapter'. adapter' n (semantic_request_for r (select_compression_level r)) = adapter n (semantic_request_for r (select_compression_level r)) \<longrightarrow>
      compress (Some adapter') r n = (res, n')"
    using assms(2) compress_cong by metis
qed (use compress_called [OF assms(2)] level_cases [of "select_compression_level r"] in
    \<open>auto simp: semantic_request_for_def keeps_raw_def validate_events_def list_ex_iff same_event_scope_def
       validate_checkpoint_def split: if_splits option.splits\<close>)

text \<open>An item of a lossless level names the content of every event it stands for.\<close>

lemma group_hash:
  assumes "e \<in> set es" "list_all valid_raw_event es" "\<not> re_protected e"
  defines "g \<equiv> filter (\<lambda>x. dedup_key x = dedup_key e) es"
  shows "hd g \<in> set es \<and> \<not> re_protected (hd g) \<and> re_content_sha256 (hd g) = re_content_sha256 e"
proof -
  have "g \<noteq> []"
    using assms(1) by (auto simp: g_def filter_empty_conv)
  then have g: "hd g \<in> set es" "dedup_key (hd g) = dedup_key e"
    using hd_in_set [of g] by (auto simp: g_def)
  have "is_sha256 (re_content_sha256 e)"
    using assms(1,2) by (simp add: list_all_iff valid_raw_event_def)
  then have "re_content_sha256 e \<noteq> ''protected:'' @ re_event_id (hd g)"
    by (auto simp: is_sha256_def is_hex_char_def)
  with g assms(3) show ?thesis
    by (auto simp: dedup_key_def split: if_splits)
qed

definition names_artifact :: "raw_event \<Rightarrow> compressed_item \<Rightarrow> bool" where
  "names_artifact e c = (\<exists>a. re_recoverable_artifact e = Some a \<and> ci_kind c = ARTIFACT_REFERENCE \<and>
     map_of (ci_content c) ''artifact_id'' = Some (JStr (str_uuid (af_artifact_id a))) \<and>
     map_of (ci_content c) ''artifact_sha256'' = Some (JStr (af_sha256 a)) \<and>
     map_of (ci_content c) ''source_event_sha256'' = Some (JStr (re_content_sha256 e)))"

lemma c1_item_cases: "c1_item g = raw_item g \<or> \<not> re_protected (hd g) \<and> re_kind (hd g) = EV_TOOL_LOG \<and> names_artifact (hd g) (c1_item g)"
  by (auto simp: c1_item_def Let_def names_artifact_def artifact_item_def make_item_def split: option.split)

text \<open>(C29) C0 and C1 are lossless and call no model. Every event is named by an item that carries its content digest: a raw item whose
  content has that digest, or, at C1 and for unprotected events only, a reference that names the event's digest and the
  immutable artifact of a tool log with that same digest.\<close>

theorem compress_lossless:
  assumes "valid_compression_request r" "compress c r n = (Inr z, n')" "select_compression_level r \<in> {C0, C1}" "e \<in> set (qr_raw_events r)"
  shows "n' = n \<and> (\<exists>k \<in> set (cz_items z). re_event_id e \<in> set (ci_source_event_ids k) \<and>
    (ci_kind k = RAW_EVENT \<and> context_content_sha256 (ci_content k) = re_content_sha256 e \<or>
     select_compression_level r = C1 \<and> \<not> re_protected e \<and> (\<exists>log \<in> set (qr_raw_events r).
       re_kind log = EV_TOOL_LOG \<and> re_content_sha256 log = re_content_sha256 e \<and> names_artifact log k)))"
proof -
  note parts = request_parts [OF assms(1)]
  have level: "select_compression_level r \<notin> {C2, C3}"
    using assms(3) by auto
  obtain build where build: "select_compression_level r = C0 \<and> build = raw_item \<or> select_compression_level r = C1 \<and> build = c1_item"
    and n: "n' = n" and items: "cz_items z = group_items build (qr_raw_events r)"
    using assms(2) by (cases rule: compress_cases) (use level in \<open>auto dest: checked_resultD\<close>)
  define g where "g = filter (\<lambda>x. dedup_key x = dedup_key e) (qr_raw_events r)"
  have in_items: "build g \<in> set (cz_items z)"
    using in_some_group [OF assms(4), of dedup_key] unfolding items group_items_def g_def set_map [of build] by (rule imageI)
  have sources: "re_event_id e \<in> set (ci_source_event_ids (build g))"
    using build assms(4) raw_items.sources c1_items.sources by (auto simp: g_def)
  have hash: "context_content_sha256 (re_content x) = re_content_sha256 x" if "x \<in> set (qr_raw_events r)" for x
    using that parts(1) by (simp add: list_all_iff valid_raw_event_def)
  show ?thesis
  proof (cases "re_protected e")
    case True
    then show ?thesis
      using protected_kept [OF assms(1,2,4) True] hash [OF assms(4)] n by (intro conjI bexI [of _ "raw_item [e]"]) auto
  next
    case False
    note first = group_hash [OF assms(4) parts(1) False, folded g_def]
    show ?thesis
      using build c1_item_cases [of g] first hash [of "hd g"] in_items sources n False
      by (intro conjI bexI [of _ "build g"]) auto
  qed
qed

subsection \<open>A sample compression\<close>

definition compression_scope :: tenant_scope where
  "compression_scope = \<lparr>ts_tenant_id = 1, ts_project_id = 2, ts_user_id = 3, ts_role_codes = [''inspector''], ts_permission_version = ''1''\<rparr>"

definition sample_event :: "nat \<Rightarrow> context_event_kind \<Rightarrow> bool \<Rightarrow> (string \<times> json) list \<Rightarrow> raw_event" where
  "sample_event i kind protected content = \<lparr>re_event_id = ''e'' @ show_nat i, re_task_id = 7, re_scope = compression_scope,
     re_sequence = int i, re_kind = kind, re_content = content, re_content_sha256 = context_content_sha256 content,
     re_token_estimate = 100, re_protected = protected, re_recoverable_artifact = None, re_created_at = utc 0\<rparr>"

definition sample_compression_policy :: compression_policy where
  "sample_compression_policy = \<lparr>cp_policy_version = ''1'', cp_c1_threshold = PyFloat (1 / 4) ''0.25'', cp_c2_threshold = PyFloat (1 / 2) ''0.5'',
     cp_c3_threshold = PyFloat (3 / 4) ''0.75'', cp_recent_turn_count = 1, cp_c2_summary_token_limit = 800,
     cp_c3_digest_token_limit = 1200, cp_max_semantic_compressions = 2\<rparr>"

definition sample_compression :: "raw_event list \<Rightarrow> int \<Rightarrow> int \<Rightarrow> compression_request" where
  "sample_compression events tokens limit = \<lparr>qr_task_id = 7, qr_scope = compression_scope, qr_raw_events = events,
     qr_active_context_tokens = tokens, qr_active_context_limit = limit, qr_semantic_compressions_used = 0, qr_checkpoint = None,
     qr_policy = sample_compression_policy\<rparr>"

definition sample_summary :: semantic_result where
  "sample_summary = \<lparr>sm_content = [(''text'', JStr ''dull'')], sm_source_event_ids = [''e2''], sm_output_tokens = 10,
     sm_provider_version = ''1'', sm_model_version = ''1'', sm_prompt_version = ''1''\<rparr>"

text \<open>A protected fact, a fact that may be summarised and a recent turn.\<close>

definition sample_events :: "raw_event list" where
  "sample_events = [sample_event 1 EV_PROJECT_FACT True [(''unit'', JStr ''mm'')],
     sample_event 2 EV_PROJECT_FACT False [(''text'', JStr ''dull'')], sample_event 3 EV_USER_TURN False []]"

lemma sample_event_valid: "i < 10 \<Longrightarrow> valid_raw_event (sample_event i kind p content)"
  by (auto simp: valid_raw_event_def sample_event_def text_len_def show_nat.simps compression_scope_def valid_scope_def
      is_alnum_def is_lower_def is_decimal_def is_upper_def digit_char_def context_content_sha256_def is_aware_def utc_def Let_def nth_Cons'
      split: if_splits)

definition sample_c2 :: compression_request where
  "sample_c2 = sample_compression sample_events 3 4"

definition sample_c0 :: compression_request where
  "sample_c0 = sample_compression sample_events 1 8"

definition sample_adapter :: semantic_compressor where
  "sample_adapter n q = Some sample_summary"

lemma digit_texts: "show_nat 1 = ''1''" "show_nat (Suc 0) = ''1''" "show_nat 2 = ''2''" "show_nat 3 = ''3''"
  by (simp_all add: show_nat.simps digit_char_def)

lemma sample_policy_ok: "valid_compression_policy sample_compression_policy"
  by (simp add: valid_compression_policy_def sample_compression_policy_def text_len_def)

lemma sample_valid: "valid_compression_request sample_c2" "valid_compression_request sample_c0"
  using sample_policy_ok sample_event_valid [of 1] sample_event_valid [of 2] sample_event_valid [of 3]
  by (simp_all add: sample_c2_def sample_c0_def sample_compression_def valid_compression_request_def sample_events_def
      compression_scope_def valid_scope_def text_len_def, simp_all add: sample_event_def digit_texts)

lemma sample_level: "select_compression_level sample_c2 = C2" "select_compression_level sample_c0 = C0"
  using to_double_dyadic [of 3 2] to_double_dyadic [of 1 3]
  by (simp_all add: select_compression_level_def sample_c2_def sample_c0_def sample_compression_def sample_compression_policy_def
      float_div_def Let_def)

lemma sample_adapter_valid: "adapter_valid (Some sample_adapter)"
  by (simp add: adapter_valid_def sample_adapter_def sample_summary_def valid_semantic_result_def text_len_def)

lemma sample_shared: "shared_events sample_c2 = [sample_event 2 EV_PROJECT_FACT False [(''text'', JStr ''dull'')]]"
  by (simp add: shared_events_def keeps_raw_def sample_level)
    (simp add: sample_c2_def sample_compression_def sample_events_def recent_turn_ids_def sample_event_def sample_compression_policy_def
      digit_texts last_n_def)

lemma sample_compresses: "\<exists>z. compress (Some sample_adapter) sample_c2 0 = (Inr z, 1)"
proof -
  let ?res = "compress (Some sample_adapter) sample_c2 0"
  have validated: "validate_semantic_result (semantic_request_for sample_c2 C2) sample_summary = Inr ()"
    using sample_shared source_events [of sample_c2]
    by (simp add: validate_semantic_result_def sample_level sample_summary_def)
      (simp add: sample_event_def digit_texts tokens_of_def semantic_request_for_def sample_c2_def sample_compression_def
        sample_compression_policy_def)
  have scoped: "validate_events sample_c2 = Inr ()"
    by (simp add: validate_events_def sample_c2_def sample_compression_def sample_events_def sample_event_def same_event_scope_def)
  have request: "valid_semantic_request (semantic_request_for sample_c2 C2)" "sr_source_events (semantic_request_for sample_c2 C2) \<noteq> []"
    using semantic_request_valid [OF sample_valid(1)] sample_shared source_events [of sample_c2] by (simp_all add: sample_level)
  have used: "\<not> cp_max_semantic_compressions (qr_policy sample_c2) \<le> qr_semantic_compressions_used sample_c2"
    by (simp add: sample_c2_def sample_compression_def sample_compression_policy_def)
  have run: "?res = (checked_result sample_c2 C2 (deduplicate_raw_events (filter (keeps_raw sample_c2 C2) (qr_raw_events sample_c2)) @
      [semantic_item sample_summary]) 1 None, 1)"
    using used scoped request validated
    by (simp add: compress_def compress_semantic_def bindP_def thenP_def sample_level call_adapter_def sample_adapter_def Let_def)
  have sound: "wp (compress (Some sample_adapter) sample_c2) (\<lambda>z _. valid_compression_result z)
      (\<lambda>e _. \<exists>code message action. e = CompressionError code message action) 0"
    by (rule compress_never_invalid [OF sample_valid(1) sample_adapter_valid])
  show ?thesis
    using sound unfolding wp_def run by (auto simp: checked_result_def Let_def split: if_splits)
qed

theorem compress_sound_witness:
  "\<exists>z. compress (Some sample_adapter) sample_c2 0 = (Inr z, 1) \<and> cz_level z = C2 \<and> \<not> cz_execution_ready z \<and>
    cz_semantic_compressions_used z = 1 \<and> mset (concat (map ci_source_event_ids (cz_items z))) = {#''e1'', ''e2'', ''e3''#}"
proof -
  obtain z where z: "compress (Some sample_adapter) sample_c2 0 = (Inr z, 1)"
    using sample_compresses by blast
  have "qr_semantic_compressions_used sample_c2 = 0" "map re_event_id (qr_raw_events sample_c2) = [''e1'', ''e2'', ''e3'']"
    by (simp_all add: sample_c2_def sample_compression_def sample_events_def sample_event_def digit_texts)
  then show ?thesis
    using compress_sound [OF sample_valid(1) sample_adapter_valid, of 0] z by (simp add: sample_level)
qed

theorem compress_protects_witness:
  "\<exists>z. compress (Some sample_adapter) sample_c2 0 = (Inr z, 1) \<and>
    (\<exists>c \<in> set (cz_items z). ci_kind c = RAW_EVENT \<and> ci_source_event_ids c = [''e1''] \<and> ci_content c = [(''unit'', JStr ''mm'')])"
proof -
  obtain z where z: "compress (Some sample_adapter) sample_c2 0 = (Inr z, 1)"
    using sample_compresses by blast
  let ?e = "sample_event 1 EV_PROJECT_FACT True [(''unit'', JStr ''mm'')]"
  have e: "?e \<in> set (qr_raw_events sample_c2)" "re_protected ?e" "re_event_id ?e = ''e1''" "re_content ?e = [(''unit'', JStr ''mm'')]"
    by (simp_all add: sample_c2_def sample_compression_def sample_events_def, simp_all add: sample_event_def digit_texts)
  show ?thesis
    using compress_protects [OF sample_valid(1) z, unfolded Let_def, THEN conjunct1, rule_format, OF refl e(1,2)] z unfolding e(3,4) by blast
qed

theorem compress_lossless_witness:
  "\<exists>z. compress None sample_c0 0 = (Inr z, 0) \<and>
    (\<exists>k \<in> set (cz_items z). ''e2'' \<in> set (ci_source_event_ids k) \<and> ci_kind k = RAW_EVENT \<and>
      context_content_sha256 (ci_content k) = context_content_sha256 [(''text'', JStr ''dull'')])"
proof -
  let ?e = "sample_event 2 EV_PROJECT_FACT False [(''text'', JStr ''dull'')]"
  have "validate_events sample_c0 = Inr ()"
    by (simp add: validate_events_def sample_c0_def sample_compression_def sample_events_def sample_event_def same_event_scope_def)
  moreover have "wp (compress None sample_c0) (\<lambda>z _. valid_compression_result z)
      (\<lambda>e _. \<exists>code message action. e = CompressionError code message action) 0"
    by (rule compress_never_invalid [OF sample_valid(2)]) (simp add: adapter_valid_def)
  ultimately obtain z where z: "compress None sample_c0 0 = (Inr z, 0)"
    by (auto simp: compress_def thenP_def bindP_def sample_level wp_def checked_result_def Let_def split: if_splits)
  have "?e \<in> set (qr_raw_events sample_c0)"
    by (simp add: sample_c0_def sample_compression_def sample_events_def)
  from compress_lossless [OF sample_valid(2) z _ this] show ?thesis
    using z by (simp add: sample_level) (simp add: sample_event_def digit_texts)
qed

end
