(* ===== verification/ContextValidationRules.thy ===== *)
theory ContextValidationRules
  imports ContextValidation CompressionProperties
begin

section \<open>What an evaluation measures\<close>

text \<open>
  The loop over the atoms is a multiset subtraction: what is missing are the leaves of the events that no artifact recovers minus the leaves of
  the output. A ratio in floating point reaches its threshold only when the counts do, for any realistic number of
  atoms, and a report is always a valid model.
\<close>

subsection \<open>Retained and missing atoms\<close>

lemma add_mset_diff_in: "k \<in># A \<Longrightarrow> add_mset k N - A = N - (A - {#k#})"
  by (rule multiset_eqI) auto

lemma add_mset_diff_out: "k \<notin># A \<Longrightarrow> add_mset k N - A = add_mset k (N - A)"
  by (rule multiset_eqI) (auto simp: not_in_iff)

lemma retain_reference:
  "retain recovered available as = (r, m) \<Longrightarrow> mset r + mset m = mset as \<and>
    image_mset atom_key (mset m) = image_mset atom_key (mset (filter (\<lambda>a. at_event_id a \<notin> recovered) as)) - available \<and>
    image_mset atom_key (mset (filter (\<lambda>a. at_event_id a \<notin> recovered) r)) \<subseteq># available"
proof (induction recovered available as arbitrary: r m rule: retain.induct)
  case (2 recovered available a as)
  show ?case
  proof (cases "at_event_id a \<in> recovered")
    case True
    with 2 show ?thesis
      by (auto split: prod.splits)
  next
    case False
    show ?thesis
    proof (cases "atom_key a \<in># available")
      case True
      with 2 False show ?thesis
        by (auto simp: add_mset_diff_in insert_subset_eq_iff split: prod.splits)
    next
      case out: False
      with 2 False show ?thesis
        by (auto simp: add_mset_diff_out not_in_iff split: prod.splits)
    qed
  qed
qed simp

definition atoms_of :: "validation_request \<Rightarrow> atom list" where
  "atoms_of v = concat (map extract_atoms (qr_raw_events (vr_compression_request v)))"

definition missing_atoms :: "validation_request \<Rightarrow> compression_result \<Rightarrow> atom list" where
  "missing_atoms v z = snd (retain (recovered_events z) (output_atoms z) (atoms_of v))"

definition retained_atoms :: "validation_request \<Rightarrow> compression_result \<Rightarrow> atom list" where
  "retained_atoms v z = fst (retain (recovered_events z) (output_atoms z) (atoms_of v))"

definition unrecovered :: "validation_request \<Rightarrow> compression_result \<Rightarrow> atom list" where
  "unrecovered v z = filter (\<lambda>a. at_event_id a \<notin> recovered_events z) (atoms_of v)"

lemma retained_reference:
  "mset (retained_atoms v z) + mset (missing_atoms v z) = mset (atoms_of v)"
  "image_mset atom_key (mset (missing_atoms v z)) = image_mset atom_key (mset (unrecovered v z)) - output_atoms z"
  "image_mset atom_key (mset (filter (\<lambda>a. at_event_id a \<notin> recovered_events z) (retained_atoms v z))) \<subseteq># output_atoms z"
  using retain_reference [of "recovered_events z" "output_atoms z" "atoms_of v" "retained_atoms v z" "missing_atoms v z"]
  by (simp_all add: retained_atoms_def missing_atoms_def unrecovered_def)

lemma count_atoms_split: "count_atoms p (retained_atoms v z) + count_atoms p (missing_atoms v z) = count_atoms p (atoms_of v)"
proof -
  have "count_atoms p xs = int (size (filter_mset p (mset xs)))" for xs
    by (metis count_atoms_def mset_filter size_mset)
  then show ?thesis
    using retained_reference(1) [of v z] by (metis filter_union_mset of_nat_add size_union)
qed

lemma count_atoms_nonneg: "0 \<le> count_atoms p as"
  by (simp add: count_atoms_def)

lemma count_atoms_0: "count_atoms p as = 0 \<longleftrightarrow> (\<forall>a \<in> set as. \<not> p a)"
  by (simp add: count_atoms_def filter_empty_conv)

lemma count_atoms_le: "count_atoms p as \<le> int (length as)"
  by (simp add: count_atoms_def)

text \<open>The fields of a report.\<close>

lemma report_fields:
  "vt_candidate_level (report_on v z) = cz_level z"
  "vt_critical_total (report_on v z) = count_atoms at_critical (atoms_of v)"
  "vt_critical_retained (report_on v z) = count_atoms at_critical (retained_atoms v z)"
  "vt_noncritical_total (report_on v z) = count_atoms (Not \<circ> at_critical) (atoms_of v)"
  "vt_noncritical_retained (report_on v z) = count_atoms (Not \<circ> at_critical) (retained_atoms v z)"
  "vt_critical_retention_ratio (report_on v z) = retention_ratio (count_atoms at_critical (retained_atoms v z)) (count_atoms at_critical (atoms_of v))"
  "vt_noncritical_retention_ratio (report_on v z) =
    retention_ratio (count_atoms (Not \<circ> at_critical) (retained_atoms v z)) (count_atoms (Not \<circ> at_critical) (atoms_of v))"
  "vt_quality_degradation_points (report_on v z) = degradation (cz_level z) (vr_baseline_quality_score v) (vr_candidate_quality_scores v)"
  "vt_missing_noncritical_count (report_on v z) = count_atoms (Not \<circ> at_critical) (missing_atoms v z)"
  "vt_decision (report_on v z) = ACCEPT \<longleftrightarrow>
    fval (vp_critical_retention (vr_policy v)) \<le> vt_critical_retention_ratio (report_on v z) \<and>
    fval (vp_noncritical_retention (vr_policy v)) \<le> vt_noncritical_retention_ratio (report_on v z) \<and>
    vt_quality_degradation_points (report_on v z) \<le> fval (vp_max_quality_degradation_points (vr_policy v))"
  by (simp_all add: report_on_def evaluate_def retained_atoms_def missing_atoms_def atoms_of_def Let_def split_beta)

lemma report_digest: "vt_report_sha256 (report_on v z) = sha256_hex (canonical_json_bytes (report_payload (report_on v z)))"
  by (simp add: report_on_def evaluate_def Let_def split_beta report_payload_def)

subsection \<open>Ratios\<close>

lemma retention_ratio_unit:
  assumes "0 \<le> kept" "kept \<le> whole"
  shows "0 \<le> retention_ratio kept whole \<and> retention_ratio kept whole \<le> 1"
proof (cases "whole = 0")
  case False
  define q :: rat where "q = of_int kept / of_int whole"
  have q: "0 \<le> q" "q \<le> 1"
    using assms False by (simp_all add: q_def)
  have "to_double q \<le> to_double 1"
    by (rule to_double_mono [OF q])
  with to_double_nonneg [OF q(1)] to_double_of_int [of 1] False show ?thesis
    by (simp add: retention_ratio_def float_div_def q_def)
qed (simp add: retention_ratio_def)

lemma to_double_below:
  assumes "0 \<le> q" "q + 1 / 2 ^ 50 \<le> p" "p \<le> 1"
  shows "to_double q < to_double p"
proof -
  have "to_double q \<le> q + q / 2 ^ 53" "p - p / 2 ^ 53 \<le> to_double p"
    using to_double_bounds(2) [OF assms(1)] to_double_bounds(1) [of p] assms by (simp_all add: algebra_simps)
  with assms show ?thesis
    by simp
qed

lemma retention_ratio_full:
  assumes "1 \<le> retention_ratio kept whole" "0 \<le> kept" "kept \<le> whole" "whole \<le> 2 ^ 40"
  shows "kept = whole"
proof (rule ccontr)
  assume less: "kept \<noteq> whole"
  with assms have whole: "0 < whole" "kept + 1 \<le> whole"
    by linarith+
  define q :: rat where "q = of_int kept / of_int whole"
  have "q \<le> 1 - 1 / of_int whole"
    using whole of_int_le_iff [where ?'a = rat, of "kept + 1" whole] by (simp add: q_def field_simps)
  moreover have "(1 :: rat) / 2 ^ 40 \<le> 1 / of_int whole"
    using whole assms(4) of_int_le_iff [where ?'a = rat, of whole "2 ^ 40"] by (intro divide_left_mono) simp_all
  ultimately have "q + 1 / 2 ^ 50 \<le> 1"
    by simp
  then have "to_double q < to_double 1"
    using assms(2) whole by (intro to_double_below) (simp_all add: q_def)
  with assms(1) whole to_double_of_int [of 1] show False
    by (simp add: retention_ratio_def float_div_def q_def)
qed

lemma retention_ratio_98:
  assumes "to_double (98 / 100) \<le> retention_ratio kept whole" "0 \<le> kept" "kept \<le> whole" "whole \<le> 2 ^ 40"
  shows "98 * whole \<le> 100 * kept"
proof (rule ccontr)
  assume less: "\<not> 98 * whole \<le> 100 * kept"
  then have whole: "0 < whole" "50 * kept + 1 \<le> 49 * whole"
    using assms(2) by linarith+
  define q :: rat where "q = of_int kept / of_int whole"
  have "rat_of_int (50 * kept + 1) \<le> of_int (49 * whole)"
    using whole(2) of_int_le_iff by blast
  then have "q \<le> 49 / 50 - 1 / (50 * of_int whole)"
    using whole(1) by (simp add: q_def field_simps)
  moreover have "(1 :: rat) / (50 * 2 ^ 40) \<le> 1 / (50 * of_int whole)"
    using whole(1) assms(4) of_int_le_iff [where ?'a = rat, of whole "2 ^ 40"] by (intro divide_left_mono) simp_all
  ultimately have "q + 1 / 2 ^ 50 \<le> 98 / 100"
    by simp
  then have "to_double q < to_double (98 / 100)"
    using assms(2) whole by (intro to_double_below) (simp_all add: q_def)
  with assms(1) whole show False
    by (simp add: retention_ratio_def float_div_def q_def)
qed

lemma to_double_nonpos: "q \<le> 0 \<Longrightarrow> to_double q \<le> 0"
  using to_double_error [of q] by (cases "to_double q \<le> 0") (simp_all add: abs_le_iff)

lemma degradation_bounds:
  assumes "valid_validation_request v"
  shows "0 \<le> degradation level (vr_baseline_quality_score v) (vr_candidate_quality_scores v) \<and>
    degradation level (vr_baseline_quality_score v) (vr_candidate_quality_scores v) \<le> 100"
proof -
  define b where "b = fval (vr_baseline_quality_score v)"
  have b: "0 \<le> b" "b \<le> 100"
    using assms by (simp_all add: valid_validation_request_def b_def)
  have loss: "max 0 (to_double (b - q)) \<le> 100" if "0 \<le> q" for q
  proof (cases "0 \<le> b - q")
    case True
    then have "to_double (b - q) \<le> to_double (of_int 100)"
      using b(2) that by (intro to_double_mono) simp_all
    then show ?thesis
      using to_double_of_int [of 100] by simp
  next
    case False
    then have "to_double (b - q) \<le> 0"
      using to_double_nonpos [of "b - q"] by simp
    then show ?thesis
      by simp
  qed
  have "0 \<le> fval score" if "map_of (vr_candidate_quality_scores v) level = Some score" for score
    using assms that by (auto simp: valid_validation_request_def list_all_iff dest!: map_of_SomeD)
  then show ?thesis
    using loss [of b] loss b by (auto simp: degradation_def Let_def b_def [symmetric] split: option.split)
qed

lemma report_valid: "valid_validation_request v \<Longrightarrow> valid_report (report_on v z)"
  using count_atoms_nonneg retention_ratio_unit [OF count_atoms_nonneg] count_atoms_split [of _ v z] degradation_bounds [of v]
  by (simp add: valid_report_def report_fields report_digest) (metis add_increasing2 count_atoms_nonneg le_add_same_cancel1)

end
