(* ===== verification/ContextValidationProperties.thy ===== *)
theory ContextValidationProperties
  imports ContextValidationRules
begin

section \<open>Validation: properties\<close>

text \<open>
  What a validated context guarantees, when the retry loop ends, an input on which it does not, and the duplicates it refuses.
\<close>

subsection \<open>Safety\<close>

lemma validate_binding_iff: "validate_binding r z = Inr () \<longleftrightarrow>
    cz_task_id z = qr_task_id r \<and> cz_scope z = qr_scope r \<and> cz_raw_events_sha256 z = raw_events_sha256 (qr_raw_events r) \<and>
    mset (concat (map ci_source_event_ids (cz_items z))) = mset (map re_event_id (qr_raw_events r))"
  by (auto simp: validate_binding_def raw_events_sha256_def)

lemma validate_binding_retry [simp]: "validate_binding (request_for_level r level used) z = validate_binding r z"
  by (simp add: validate_binding_def request_for_level_def)

lemma validation_returned:
  assumes "validation_loop c v z reports fallbacks n = Some (Inr s, n')" "validate_binding (vr_compression_request v) z = Inr ()"
    "\<forall>t \<in> set reports. vt_decision t = FALLBACK"
  shows "\<exists>z' earlier. validate_binding (vr_compression_request v) z' = Inr () \<and> vt_decision (report_on v z') = ACCEPT \<and>
    vs_result s = accept z' (report_on v z') \<and> vs_reports s = earlier @ [report_on v z'] \<and> (\<forall>t \<in> set earlier. vt_decision t = FALLBACK)"
proof -
  define P where "P = (\<lambda>(c :: semantic_compressor option) v (z :: compression_result) (reports :: validation_report list) (fallbacks :: compression_level list) (n :: nat) (r :: (compression_error + validation_result) \<times> nat).
    validate_binding (vr_compression_request v) z = Inr () \<longrightarrow> (\<forall>t \<in> set reports. vt_decision t = FALLBACK) \<longrightarrow>
    (\<forall>s. fst r = Inr s \<longrightarrow> (\<exists>z' earlier. validate_binding (vr_compression_request v) z' = Inr () \<and> vt_decision (report_on v z') = ACCEPT \<and>
      vs_result s = accept z' (report_on v z') \<and> vs_reports s = earlier @ [report_on v z'] \<and> (\<forall>t \<in> set earlier. vt_decision t = FALLBACK))))"
  have "P c v z reports fallbacks n (Inr s, n')"
  proof (rule validation_loop.raw_induct [where P = P, OF _ assms(1)])
    fix loop c v z reports fallbacks n r
    assume IH: "\<And>c v z reports fallbacks n r. loop c v z reports fallbacks n = Some r \<Longrightarrow> P c v z reports fallbacks n r"
      and step: "(let report = report_on v z in
        if \<not> valid_report report then Some (Inl CompressionInvalid, n)
        else if vt_decision report = ACCEPT
        then Some (Inr \<lparr>vs_result = accept z report, vs_reports = reports @ [report], vs_fallback_levels = fallbacks\<rparr>, n)
        else case fallback_level (cz_level z) of None \<Rightarrow> Some (Inl exhausted, n)
        | Some level \<Rightarrow>
            let retry = request_for_level (vr_compression_request v) level (cz_semantic_compressions_used z) in
            (case compress c retry n of (Inl e, n') \<Rightarrow> Some (Inl e, n')
             | (Inr z', n') \<Rightarrow> (case validate_binding retry z' of Inl e \<Rightarrow> Some (Inl e, n')
                | Inr _ \<Rightarrow> loop c v z' (reports @ [report]) (fallbacks @ [level]) n'))) = Some r"
    have other: "vt_decision t \<noteq> ACCEPT \<Longrightarrow> vt_decision t = FALLBACK" for t
      by (cases "vt_decision t") auto
    show "P c v z reports fallbacks n r"
    proof (cases "vt_decision (report_on v z) = ACCEPT")
      case True
      with step show ?thesis
        by (auto simp: P_def Let_def intro!: exI [of _ z] split: if_splits)
    next
      case False
      then have "vt_decision (report_on v z) = FALLBACK"
        by (rule other)
      with step show ?thesis
        by (auto simp: Let_def P_def split: if_splits option.splits prod.splits sum.splits dest!: IH)
    qed
  qed
  then show ?thesis
    using assms(2,3) by (simp add: P_def)
qed

text \<open>What an accepted report says of the candidate, for any realistic number of leaves.\<close>

lemma accepted_report:
  assumes v: "valid_validation_request v" and accept: "vt_decision (report_on v z) = ACCEPT" and small: "length (atoms_of v) \<le> 2 ^ 40"
  shows "image_mset atom_key (mset (filter at_critical (unrecovered v z))) \<subseteq># output_atoms z"
    "\<forall>a \<in> set (missing_atoms v z). \<not> at_critical a"
    "98 * count_atoms (Not \<circ> at_critical) (atoms_of v) \<le> 100 * count_atoms (Not \<circ> at_critical) (retained_atoms v z)"
    "degradation (cz_level z) (vr_baseline_quality_score v) (vr_candidate_quality_scores v) \<le> fval (vp_max_quality_degradation_points (vr_policy v))"
proof -
  have "int (length (atoms_of v)) \<le> 2 ^ 40"
    using small by simp
  then have counts: "count_atoms p (retained_atoms v z) \<le> count_atoms p (atoms_of v)" "count_atoms p (atoms_of v) \<le> 2 ^ 40" for p
    using count_atoms_split [of p v z] count_atoms_nonneg [of p "missing_atoms v z"] count_atoms_le [of p "atoms_of v"] by linarith+
  have policy: "1 \<le> fval (vp_critical_retention (vr_policy v))" "to_double (98 / 100) \<le> fval (vp_noncritical_retention (vr_policy v))"
    using v by (simp_all add: valid_validation_request_def valid_validation_policy_def)
  have "count_atoms at_critical (retained_atoms v z) = count_atoms at_critical (atoms_of v)"
    using accept policy(1) counts [of at_critical] by (intro retention_ratio_full) (auto simp: report_fields count_atoms_nonneg)
  then show missing: "\<forall>a \<in> set (missing_atoms v z). \<not> at_critical a"
    using count_atoms_split [of at_critical v z] by (simp flip: count_atoms_0)
  show "98 * count_atoms (Not \<circ> at_critical) (atoms_of v) \<le> 100 * count_atoms (Not \<circ> at_critical) (retained_atoms v z)"
    using accept policy(2) counts [of "Not \<circ> at_critical"] by (intro retention_ratio_98) (auto simp: report_fields count_atoms_nonneg)
  show "degradation (cz_level z) (vr_baseline_quality_score v) (vr_candidate_quality_scores v) \<le> fval (vp_max_quality_degradation_points (vr_policy v))"
    using accept by (simp add: report_fields)
  have "mset (filter at_critical (unrecovered v z)) = filter_mset at_critical (filter_mset (\<lambda>a. at_event_id a \<notin> recovered_events z)
      (mset (retained_atoms v z) + mset (missing_atoms v z)))"
    by (simp only: retained_reference(1) unrecovered_def mset_filter)
  also have "\<dots> = filter_mset at_critical (filter_mset (\<lambda>a. at_event_id a \<notin> recovered_events z) (mset (retained_atoms v z)))"
    using missing by simp
  also have "\<dots> \<subseteq># mset (filter (\<lambda>a. at_event_id a \<notin> recovered_events z) (retained_atoms v z))"
    by (simp add: multiset_filter_subset)
  finally show "image_mset atom_key (mset (filter at_critical (unrecovered v z))) \<subseteq># output_atoms z"
    using retained_reference(3) [where v = v and z = z] by (meson image_mset_subseteq_mono subset_mset.order_trans)
qed

lemma accept_simps [simp]:
  "cz_task_id (accept z t) = cz_task_id z" "cz_scope (accept z t) = cz_scope z" "cz_level (accept z t) = cz_level z"
  "cz_raw_events_sha256 (accept z t) = cz_raw_events_sha256 z" "cz_items (accept z t) = cz_items z"
  "cz_validation_state (accept z t) = CS_READY" "cz_execution_ready (accept z t)"
  "cz_validation_report_sha256 (accept z t) = Some (vt_report_sha256 t)"
  "output_atoms (accept z t) = output_atoms z" "unrecovered v (accept z t) = unrecovered v z" "retained_atoms v (accept z t) = retained_atoms v z"
  by (simp_all add: accept_def output_atoms_def unrecovered_def recovered_events_def retained_atoms_def)

text \<open>(C25) A validated context is safe. Whatever the candidate, the adapter and the fallbacks taken, the context that is returned as ready is
  bound to the task, scope and digest of the raw events and names each of them once; it carries the digest of the last
  report, the only accepting one; every critical leaf of every event is among its leaves, as often as it occurs, or its event is replaced by
  an artifact reference; at least 98 of 100 other leaves are retained; and at a semantic level a measured quality score is at most three
  points below the baseline. The bound on the number of leaves is where doubles still tell the counts apart.\<close>

theorem validated_context_safe:
  assumes "valid_validation_request v" "validate_or_fallback c v n = Some (Inr s, n')" "length (atoms_of v) \<le> 2 ^ 40"
  shows "let r = vr_compression_request v; z = vs_result s in
    cz_execution_ready z \<and> cz_validation_state z = CS_READY \<and>
    cz_task_id z = qr_task_id r \<and> cz_scope z = qr_scope r \<and> cz_raw_events_sha256 z = raw_events_sha256 (qr_raw_events r) \<and>
    mset (concat (map ci_source_event_ids (cz_items z))) = mset (map re_event_id (qr_raw_events r)) \<and>
    (\<exists>earlier t. vs_reports s = earlier @ [t] \<and> vt_decision t = ACCEPT \<and> (\<forall>t' \<in> set earlier. vt_decision t' = FALLBACK) \<and>
      cz_validation_report_sha256 z = Some (sha256_hex (canonical_json_bytes (report_payload t)))) \<and>
    image_mset atom_key (mset (filter at_critical (unrecovered v z))) \<subseteq># output_atoms z \<and>
    98 * count_atoms (Not \<circ> at_critical) (atoms_of v) \<le> 100 * count_atoms (Not \<circ> at_critical) (retained_atoms v z) \<and>
    (cz_level z \<in> {C2, C3} \<longrightarrow> (\<exists>score. map_of (vr_candidate_quality_scores v) (cz_level z) = Some score \<and>
      to_double (fval (vr_baseline_quality_score v) - fval score) \<le> 3))"
proof -
  have bound: "validate_binding (vr_compression_request v) (vr_candidate v) = Inr ()"
    and loop: "validation_loop c v (vr_candidate v) [] [] n = Some (Inr s, n')"
    using assms(2) by (auto simp: validate_or_fallback_def split: sum.splits)
  obtain z earlier where z: "validate_binding (vr_compression_request v) z = Inr ()" "vt_decision (report_on v z) = ACCEPT"
      "vs_result s = accept z (report_on v z)" "vs_reports s = earlier @ [report_on v z]" "\<forall>t \<in> set earlier. vt_decision t = FALLBACK"
    using validation_returned [OF loop bound] by auto
  have "fval (vp_max_quality_degradation_points (vr_policy v)) \<le> 3"
    using assms(1) by (simp add: valid_validation_request_def valid_validation_policy_def)
  then have "degradation (cz_level z) (vr_baseline_quality_score v) (vr_candidate_quality_scores v) \<le> 3"
    using accepted_report(4) [OF assms(1) z(2) assms(3)] by linarith
  then have "cz_level z \<in> {C2, C3} \<longrightarrow> (\<exists>score. map_of (vr_candidate_quality_scores v) (cz_level z) = Some score \<and>
      to_double (fval (vr_baseline_quality_score v) - fval score) \<le> 3)"
    by (auto simp: degradation_def Let_def split: option.splits if_splits)
  then show ?thesis
    using z(1,2,4,5) accepted_report(1,3) [OF assms(1) z(2) assms(3)] unfolding Let_def z(3)
    by (simp add: validate_binding_iff report_digest)
qed

subsection \<open>Termination\<close>

text \<open>The request built for a fallback level has a pressure below the upper of its two thresholds.\<close>

lemma fallback_pressure_below:
  fixes a b :: rat and limit :: int
  assumes "0 < a" "a + 1 / 2 ^ 40 \<le> b" "b \<le> 1" "1 \<le> of_int limit * a"
  defines "p \<equiv> to_double (to_double (a + b) / 2)"
  defines "t \<equiv> max 1 \<lfloor>to_double (of_int limit * p)\<rfloor>"
  shows "float_div t limit < b"
proof -
  have limit: "0 < (of_int limit :: rat)"
    using assms(1,4) by (metis less_le_not_le linorder_not_less mult_nonpos_nonneg not_one_le_zero order_trans)
  have s: "(a + b) * (1 - 1 / 2 ^ 53) \<le> to_double (a + b)" "to_double (a + b) \<le> (a + b) * (1 + 1 / 2 ^ 53)"
    using to_double_bounds [of "a + b"] assms(1,2) by simp_all
  then have nonneg: "0 \<le> to_double (a + b) / 2"
    using to_double_nonneg [of "a + b"] assms(1,2) by simp
  have p: "to_double (a + b) / 2 * (1 - 1 / 2 ^ 53) \<le> p" "p \<le> to_double (a + b) / 2 * (1 + 1 / 2 ^ 53)"
    using to_double_bounds [OF nonneg] by (simp_all only: p_def)
  have "a \<le> p" "p * (1 + 1 / 2 ^ 53) * (1 + 1 / 2 ^ 53) < b"
    using s p assms(1,2,3) by simp_all
  then have one: "1 \<le> of_int limit * p"
    using assms(4) limit by (meson mult_left_mono order_trans less_imp_le)
  have "to_double 1 \<le> to_double (of_int limit * p)"
    using one by (intro to_double_mono) simp_all
  then have "t = \<lfloor>to_double (of_int limit * p)\<rfloor>"
    using to_double_of_int [of 1] by (simp add: t_def)
  then have "of_int t \<le> to_double (of_int limit * p)"
    by simp
  also have "\<dots> \<le> of_int limit * p * (1 + 1 / 2 ^ 53)"
    using to_double_bounds(2) [of "of_int limit * p"] one by simp
  finally have "of_int t / of_int limit \<le> p * (1 + 1 / 2 ^ 53)"
    using limit by (simp add: pos_divide_le_eq mult.commute mult.left_commute)
  moreover have "(0 :: rat) \<le> of_int t / of_int limit"
    using limit by (simp add: t_def)
  ultimately have "float_div t limit \<le> p * (1 + 1 / 2 ^ 53) * (1 + 1 / 2 ^ 53)"
    unfolding float_div_def using to_double_bounds(2) [of "of_int t / of_int limit"]
    by (meson mult_right_mono order_trans zero_le_one add_nonneg_nonneg zero_le_divide_1_iff zero_le_power zero_le_numeral)
  with \<open>p * (1 + 1 / 2 ^ 53) * (1 + 1 / 2 ^ 53) < b\<close> show ?thesis
    by linarith
qed

text \<open>Thresholds that are apart, and a limit large enough for the lowest of them.\<close>

definition thresholds_apart :: "compression_request \<Rightarrow> bool" where
  "thresholds_apart r = (let p = qr_policy r in
     fval (cp_c1_threshold p) + 1 / 2 ^ 40 \<le> fval (cp_c2_threshold p) \<and>
     fval (cp_c2_threshold p) + 1 / 2 ^ 40 \<le> fval (cp_c3_threshold p) \<and>
     1 \<le> of_int (qr_active_context_limit r) * fval (cp_c1_threshold p))"

lemma retry_level:
  assumes "valid_compression_request r" "thresholds_apart r"
  shows "select_compression_level (request_for_level r C2 used) \<noteq> C3" "select_compression_level (request_for_level r C1 used) \<in> {C0, C1}"
proof -
  define p where "p = qr_policy r"
  have policy: "0 < fval (cp_c1_threshold p)" "fval (cp_c2_threshold p) \<le> 1" "fval (cp_c3_threshold p) \<le> 1" "0 < fval (cp_c2_threshold p)"
    "fval (cp_c1_threshold p) \<le> fval (cp_c2_threshold p)" "0 \<le> qr_active_context_limit r"
    using assms(1) by (simp_all add: valid_compression_request_def valid_compression_policy_def p_def)
  have apart: "fval (cp_c1_threshold p) + 1 / 2 ^ 40 \<le> fval (cp_c2_threshold p)"
    "fval (cp_c2_threshold p) + 1 / 2 ^ 40 \<le> fval (cp_c3_threshold p)" "1 \<le> of_int (qr_active_context_limit r) * fval (cp_c1_threshold p)"
    using assms(2) by (simp_all add: thresholds_apart_def Let_def p_def)
  have "(of_int (qr_active_context_limit r) :: rat) * fval (cp_c1_threshold p) \<le> of_int (qr_active_context_limit r) * fval (cp_c2_threshold p)"
    using policy(5,6) by (intro mult_left_mono) simp_all
  with apart(3) have "1 \<le> of_int (qr_active_context_limit r) * fval (cp_c2_threshold p)"
    by linarith
  from fallback_pressure_below [OF policy(4) apart(2) policy(3) this] fallback_pressure_below [OF policy(1) apart(1) policy(2) apart(3)]
  show "select_compression_level (request_for_level r C2 used) \<noteq> C3" "select_compression_level (request_for_level r C1 used) \<in> {C0, C1}"
    by (auto simp: select_compression_level_def request_for_level_def fallback_pressure_def Let_def p_def)
qed

lemma compress_level: "compress c r n = (Inr z, n') \<Longrightarrow> cz_level z = select_compression_level r \<and> n \<le> n' \<and> n' \<le> Suc n"
  by (erule compress_cases) (auto dest!: checked_resultD)

text \<open>One round of the loop.\<close>

lemma validation_round:
  assumes "valid_validation_request v"
  shows "validation_loop c v z reports fallbacks n = (
    if vt_decision (report_on v z) = ACCEPT
    then Some (Inr \<lparr>vs_result = accept z (report_on v z), vs_reports = reports @ [report_on v z], vs_fallback_levels = fallbacks\<rparr>, n)
    else case fallback_level (cz_level z) of None \<Rightarrow> Some (Inl exhausted, n)
    | Some level \<Rightarrow> (case compress c (request_for_level (vr_compression_request v) level (cz_semantic_compressions_used z)) n of
        (Inl e, n') \<Rightarrow> Some (Inl e, n')
      | (Inr z', n') \<Rightarrow> (case validate_binding (vr_compression_request v) z' of Inl e \<Rightarrow> Some (Inl e, n')
          | Inr _ \<Rightarrow> validation_loop c v z' (reports @ [report_on v z]) (fallbacks @ [level]) n')))"
  by (subst validation_loop.simps) (simp only: Let_def validate_binding_retry report_valid [OF assms] simp_thms if_False)

text \<open>\<open>ends_within k x n\<close>: the call returns after at most \<open>k\<close> further rounds of adapter calls.\<close>

definition ends_within :: "nat \<Rightarrow> nat \<Rightarrow> nat \<Rightarrow> ((compression_error + validation_result) \<times> nat) option \<Rightarrow> bool" where
  "ends_within k m n x = (\<exists>res n'. x = Some (res, n') \<and> n \<le> n' \<and> n' \<le> n + k \<and> (\<forall>s. res = Inr s \<longrightarrow> length (vs_reports s) \<le> m))"

lemma ends_within_later: "ends_within k m n' x \<Longrightarrow> n \<le> n' \<Longrightarrow> n' \<le> Suc n \<Longrightarrow> ends_within (Suc k) m n x"
  by (fastforce simp: ends_within_def)

lemma ends_within_more: "ends_within k m n x \<Longrightarrow> k \<le> k' \<Longrightarrow> ends_within k' m n x"
  by (fastforce simp: ends_within_def)

lemma ends_within_Some: "ends_within k m n (Some (Inl e, n'')) \<longleftrightarrow> n \<le> n'' \<and> n'' \<le> n + k"
  by (simp add: ends_within_def)

lemma compress_calls: "compress c r n = (res, n') \<Longrightarrow> n \<le> n' \<and> n' \<le> Suc n"
proof (cases c)
  case None
  assume "compress c r n = (res, n')"
  with None show ?thesis
    by (auto simp: compress_def thenP_def bindP_def Let_def split: sum.splits if_splits)
next
  case (Some adapter)
  assume "compress c r n = (res, n')"
  with Some compress_called [of adapter r n res n'] show ?thesis
    by (cases "n' = n") auto
qed

text \<open>A level below which the loop ends is reached in at most as many rounds as there are levels.\<close>

lemma loop_ends_lossless:
  assumes "valid_validation_request v" "cz_level z \<in> {C0, C1}" "length reports < m"
  shows "ends_within 0 m n (validation_loop c v z reports fallbacks n)"
  using assms(2,3) by (subst validation_round [OF assms(1)]) (auto simp: ends_within_def)

lemma loop_ends_next:
  assumes v: "valid_validation_request v" and level: "fallback_level (cz_level z) = Some level" and few: "length reports < m"
    and ends: "\<And>z' n'. cz_level z' = select_compression_level (request_for_level (vr_compression_request v) level (cz_semantic_compressions_used z)) \<Longrightarrow>
      ends_within k m n' (validation_loop c v z' (reports @ [report_on v z]) (fallbacks @ [level]) n')"
  shows "ends_within (Suc k) m n (validation_loop c v z reports fallbacks n)"
proof (cases "vt_decision (report_on v z) = ACCEPT")
  case True
  with few show ?thesis
    by (subst validation_round [OF v]) (simp add: ends_within_def)
next
  case False
  obtain res n' where run: "compress c (request_for_level (vr_compression_request v) level (cz_semantic_compressions_used z)) n = (res, n')"
    by force
  note calls = compress_calls [OF run]
  show ?thesis
  proof (cases res)
    case (Inl e)
    with False run calls level show ?thesis
      by (subst validation_round [OF v]) (simp add: ends_within_Some)
  next
    case (Inr z')
    have "ends_within (Suc k) m n (validation_loop c v z' (reports @ [report_on v z]) (fallbacks @ [level]) n')"
      using ends_within_later [OF ends] compress_level run calls Inr by metis
    with False run calls level Inr show ?thesis
      by (subst validation_round [OF v]) (auto simp: ends_within_Some split: sum.split)
  qed
qed

text \<open>(C26) When the retry loop ends. If the thresholds of the policy are at least \<open>2\<^sup>-\<^sup>4\<^sup>0\<close> apart and the context limit is at least the reciprocal
  of the lowest threshold, the call returns for every candidate and every behaviour of the adapter, after at most two
  adapter calls and three reports.\<close>

theorem validation_terminates:
  assumes "valid_validation_request v" "thresholds_apart (vr_compression_request v)"
  shows "\<exists>res n'. validate_or_fallback c v n = Some (res, n') \<and> n' \<le> n + 2 \<and> (\<forall>s. res = Inr s \<longrightarrow> length (vs_reports s) \<le> 3)"
proof -
  let ?z = "vr_candidate v"
  have r: "valid_compression_request (vr_compression_request v)"
    using assms(1) by (simp add: valid_validation_request_def)
  note retry = retry_level [OF r assms(2)]
  have lossless: "ends_within 0 3 n (validation_loop c v z reports fallbacks n)" if "cz_level z \<in> {C0, C1}" "length reports < 3" for z reports fallbacks n
    by (rule loop_ends_lossless [OF assms(1) that])
  have from_C2: "ends_within 1 3 n (validation_loop c v z reports fallbacks n)" if "cz_level z = C2" "length reports < 2" for z reports fallbacks n
    using loop_ends_next [OF assms(1), of z C1 reports 3 0] that lossless retry(2) by simp
  have upto_C2: "ends_within 1 3 n (validation_loop c v z reports fallbacks n)" if "cz_level z \<noteq> C3" "length reports < 2" for z reports fallbacks n
    using that from_C2 ends_within_more [OF lossless [of z reports n fallbacks], of 1] by (cases "cz_level z") simp_all
  have "ends_within 2 3 n (validation_loop c v ?z [] [] n)"
  proof (cases "cz_level ?z = C3")
    case True
    then show ?thesis
      using loop_ends_next [OF assms(1), of ?z C2 "[]" 3 1] upto_C2 retry(1) by (simp add: numeral_2_eq_2)
  next
    case False
    then show ?thesis
      using ends_within_more [OF upto_C2 [of ?z "[]" n "[]"], of 2] by simp
  qed
  then show ?thesis
    by (auto simp: validate_or_fallback_def ends_within_def split: sum.split)
qed

subsection \<open>An input on which the loop does not end\<close>

lemma compress_C3_checkpoint:
  assumes "compress (Some adapter) r n = (Inr z, n')" "select_compression_level r = C3"
  shows "validate_events r = Inr () \<and> (\<exists>ck. validate_checkpoint r = Inr ck)"
  using assms by (cases "validate_checkpoint r")
    (auto simp: compress_def compress_semantic_def thenP_def bindP_def Let_def split: sum.splits if_splits)

lemma request_for_level_simps [simp]:
  "qr_raw_events (request_for_level r level used) = qr_raw_events r" "qr_policy (request_for_level r level used) = qr_policy r"
  "qr_semantic_compressions_used (request_for_level r level used) = used" "qr_checkpoint (request_for_level r level used) = qr_checkpoint r"
  "qr_active_context_limit (request_for_level r level used) = qr_active_context_limit r"
  "qr_task_id (request_for_level r level used) = qr_task_id r" "qr_scope (request_for_level r level used) = qr_scope r"
  by (simp_all add: request_for_level_def)

lemma validate_retry [simp]:
  "validate_events (request_for_level r level used) = validate_events r"
  "validate_checkpoint (request_for_level r level used) = validate_checkpoint r"
  by (simp_all add: validate_events_def validate_checkpoint_def cong: option.case_cong)

text \<open>With a limit of one token the request built for C2 has a pressure of one.\<close>

lemma limit_one_level:
  assumes "valid_compression_request r" "qr_active_context_limit r = 1"
  shows "select_compression_level (request_for_level r C2 used) = C3"
    "0 \<le> used \<Longrightarrow> used \<le> 2 \<Longrightarrow> valid_compression_request (request_for_level r C2 used)"
proof -
  define p where "p = fallback_pressure (qr_policy r) C2"
  have policy: "0 < fval (cp_c2_threshold (qr_policy r))" "fval (cp_c2_threshold (qr_policy r)) < 1" "0 < fval (cp_c3_threshold (qr_policy r))"
    "fval (cp_c3_threshold (qr_policy r)) < 1" "fval (cp_c1_threshold (qr_policy r)) < 1"
    using assms(1) by (simp_all add: valid_compression_request_def valid_compression_policy_def)
  define c where "c = fval (cp_c2_threshold (qr_policy r)) + fval (cp_c3_threshold (qr_policy r))"
  have c: "0 \<le> c" "c \<le> of_int 2"
    using policy by (simp_all add: c_def)
  then have "to_double c \<le> 2" "0 \<le> to_double c"
    using to_double_mono [OF c] to_double_of_int [of 2] to_double_nonneg [OF c(1)] by simp_all
  then have half: "0 \<le> to_double c / 2" "to_double c / 2 \<le> of_int 1"
    by simp_all
  have p: "0 \<le> p" "p \<le> of_int 1"
    using to_double_mono [OF half] to_double_of_int [of 1] to_double_nonneg [OF half(1)] by (simp_all add: p_def fallback_pressure_def c_def)
  have "to_double p \<le> 1"
    using to_double_mono [OF p] to_double_of_int [of 1] by simp
  then have "\<lfloor>to_double p\<rfloor> \<le> 1"
    by linarith
  then have tokens: "qr_active_context_tokens (request_for_level r C2 used) = 1"
    using assms(2) by (simp add: request_for_level_def p_def)
  then show "select_compression_level (request_for_level r C2 used) = C3"
    using to_double_of_int [of 1] policy assms(2) by (simp add: select_compression_level_def float_div_def Let_def)
  show "0 \<le> used \<Longrightarrow> used \<le> 2 \<Longrightarrow> valid_compression_request (request_for_level r C2 used)"
    using assms(1) tokens unfolding valid_compression_request_def by (simp add: request_for_level_def)
qed

lemma limit_one_retry:
  assumes r: "valid_compression_request r" "qr_active_context_limit r = 1" "\<forall>e \<in> set (qr_raw_events r). re_protected e"
    and checks: "validate_events r = Inr ()" "validate_checkpoint r = Inr ck"
    and used: "0 \<le> used" "used < cp_max_semantic_compressions (qr_policy r)"
  shows "\<exists>z. compress (Some adapter) (request_for_level r C2 used) n = (Inr z, n) \<and> cz_level z = C3 \<and>
    cz_semantic_compressions_used z = used \<and> validate_binding r z = Inr ()"
proof -
  let ?retry = "request_for_level r C2 used"
  have max: "cp_max_semantic_compressions (qr_policy r) \<le> 2"
    using r(1) by (simp add: valid_compression_request_def valid_compression_policy_def)
  have valid: "valid_compression_request ?retry" and level: "select_compression_level ?retry = C3"
    using limit_one_level [OF r(1,2)] used max by simp_all
  have "shared_events ?retry = []"
    using r(3) by (simp add: shared_events_def keeps_raw_def filter_empty_conv)
  then have nothing_shared: "sr_source_events (semantic_request_for ?retry C3) = []"
    using source_events [of ?retry] level by simp
  have kept: "filter (keeps_raw ?retry C3) (qr_raw_events r) = qr_raw_events r"
    using r(3) by (simp add: keeps_raw_def filter_id_conv)
  note parts = request_parts [OF r(1)] and ok = group_items_ok [OF request_parts(1,3) [OF r(1)]]
  obtain z where z: "checked_result ?retry C3 (deduplicate_raw_events (qr_raw_events r)) 0 (Some ck) = Inr z"
    using checked_result_valid [OF valid, of "deduplicate_raw_events (qr_raw_events r)" 0 C3 "Some ck"] ok parts(2) used max
    by (simp add: deduplicate_groups)
  have run: "compress (Some adapter) ?retry n = (Inr z, n)"
    using used checks nothing_shared kept z level
    by (simp add: compress_def compress_semantic_def bindP_def thenP_def Let_def)
  have "validate_binding ?retry z = Inr ()"
    using result_binding [OF valid run] result_covers [OF valid run] by (simp only: validate_binding_iff)
  with run result_binding [OF valid run] level show ?thesis
    by simp
qed

lemma unmeasured_rejected:
  assumes "valid_validation_request v" "cz_level z = C3" "map_of (vr_candidate_quality_scores v) C3 = None"
  shows "vt_decision (report_on v z) \<noteq> ACCEPT"
proof -
  have "fval (vp_max_quality_degradation_points (vr_policy v)) \<le> 3"
    using assms(1) by (simp add: valid_validation_request_def valid_validation_policy_def)
  with assms show ?thesis
    by (simp add: report_fields degradation_def)
qed

lemma stuck_loop:
  assumes v: "valid_validation_request v" and scores: "map_of (vr_candidate_quality_scores v) C3 = None"
    and next_round: "\<And>n used. 0 \<le> used \<Longrightarrow> used < limit \<Longrightarrow> \<exists>z. compress c (request_for_level (vr_compression_request v) C2 used) n = (Inr z, n) \<and>
      cz_level z = C3 \<and> cz_semantic_compressions_used z = used \<and> validate_binding (vr_compression_request v) z = Inr ()"
    and z: "cz_level z = C3" "0 \<le> cz_semantic_compressions_used z" "cz_semantic_compressions_used z < limit"
  shows "validation_loop c v z reports fallbacks n = None"
proof (cases "validation_loop c v z reports fallbacks n")
  case (Some r)
  define P where "P = (\<lambda>(c' :: semantic_compressor option) v' (z :: compression_result) (reports :: validation_report list)
    (fallbacks :: compression_level list) (n :: nat) (r :: (compression_error + validation_result) \<times> nat).
    \<not> (c' = c \<and> v' = v \<and> cz_level z = C3 \<and> 0 \<le> cz_semantic_compressions_used z \<and> cz_semantic_compressions_used z < limit))"
  have "P c v z reports fallbacks n r"
  proof (rule validation_loop.raw_induct [where P = P, OF _ Some])
    fix loop c' v' z reports fallbacks n r
    assume IH: "\<And>c v z reports fallbacks n r. loop c v z reports fallbacks n = Some r \<Longrightarrow> P c v z reports fallbacks n r"
      and step: "(let report = report_on v' z in
        if \<not> valid_report report then Some (Inl CompressionInvalid, n)
        else if vt_decision report = ACCEPT
        then Some (Inr \<lparr>vs_result = accept z report, vs_reports = reports @ [report], vs_fallback_levels = fallbacks\<rparr>, n)
        else case fallback_level (cz_level z) of None \<Rightarrow> Some (Inl exhausted, n)
        | Some level \<Rightarrow>
            let retry = request_for_level (vr_compression_request v') level (cz_semantic_compressions_used z) in
            (case compress c' retry n of (Inl e, n') \<Rightarrow> Some (Inl e, n')
             | (Inr z', n') \<Rightarrow> (case validate_binding retry z' of Inl e \<Rightarrow> Some (Inl e, n')
                | Inr _ \<Rightarrow> loop c' v' z' (reports @ [report]) (fallbacks @ [level]) n'))) = Some r"
    show "P c' v' z reports fallbacks n r"
      unfolding P_def
    proof
      assume here: "c' = c \<and> v' = v \<and> cz_level z = C3 \<and> 0 \<le> cz_semantic_compressions_used z \<and> cz_semantic_compressions_used z < limit"
      then obtain z' where z': "compress c (request_for_level (vr_compression_request v) C2 (cz_semantic_compressions_used z)) n = (Inr z', n)"
          "cz_level z' = C3" "cz_semantic_compressions_used z' = cz_semantic_compressions_used z"
          "validate_binding (vr_compression_request v) z' = Inr ()"
        using next_round by blast
      have "loop c v z' (reports @ [report_on v z]) (fallbacks @ [C2]) n = Some r"
        using step here z' report_valid [OF v, of z] unmeasured_rejected [OF v _ scores, of z] by (simp add: Let_def)
      then show False
        using IH here z' by (fastforce simp: P_def)
    qed
  qed
  with z show ?thesis
    by (simp add: P_def)
qed

text \<open>(C37) The retry loop may run for ever. When the context limit is one token and every event is protected, the request that is built to retry at C2
  is compressed at C3 again; without a quality score for C3 every round is refused, no adapter call is ever made, and the
  call on the compressor's own result does not return.\<close>

theorem validation_may_not_return:
  assumes "valid_validation_request v" "compress (Some adapter) (vr_compression_request v) n = (Inr (vr_candidate v), n')"
    and "qr_active_context_limit (vr_compression_request v) = 1" "\<forall>e \<in> set (qr_raw_events (vr_compression_request v)). re_protected e"
    and "map_of (vr_candidate_quality_scores v) C3 = None"
  shows "validate_or_fallback (Some adapter) v m = None"
proof -
  let ?r = "vr_compression_request v" and ?z = "vr_candidate v"
  have r: "valid_compression_request ?r"
    using assms(1) by (simp add: valid_validation_request_def)
  have "1 \<le> qr_active_context_tokens ?r" "fval (cp_c1_threshold (qr_policy ?r)) < 1" "fval (cp_c2_threshold (qr_policy ?r)) < 1"
    "fval (cp_c3_threshold (qr_policy ?r)) < 1" "qr_active_context_tokens ?r \<le> 10000000"
    using r by (simp_all add: valid_compression_request_def valid_compression_policy_def)
  then have level: "select_compression_level ?r = C3"
    using to_double_of_int [of "qr_active_context_tokens ?r"] assms(3)
    by (simp add: select_compression_level_def float_div_def Let_def)
  obtain ck where checks: "validate_events ?r = Inr ()" "validate_checkpoint ?r = Inr ck"
    using compress_C3_checkpoint [OF assms(2) level] by blast
  have unshared: "shared_events ?r = []"
    using assms(4) by (simp add: shared_events_def keeps_raw_def filter_empty_conv)
  have used: "qr_semantic_compressions_used ?r < cp_max_semantic_compressions (qr_policy ?r)" "n' = n"
    using assms(2) by (cases rule: compress_cases; use level unshared in simp)+
  note binding = result_binding [OF r assms(2)]
  have "validate_binding ?r ?z = Inr ()"
    using binding result_covers [OF r assms(2)] by (simp only: validate_binding_iff)
  moreover have "validation_loop (Some adapter) v ?z [] [] m = None"
    using limit_one_retry [OF r assms(3,4) checks] binding used request_parts(9) [OF r] level
    by (intro stuck_loop [OF assms(1,5)]) auto
  ultimately show ?thesis
    by (simp add: validate_or_fallback_def)
qed

subsection \<open>Duplicates\<close>

lemma sum_list_less:
  fixes f :: "'a \<Rightarrow> nat"
  assumes "\<forall>x \<in> set xs. f x \<le> g x" "\<exists>x \<in> set xs. f x < g x"
  shows "sum_list (map f xs) < sum_list (map g xs)"
  using assms
proof (induction xs)
  case (Cons x xs)
  then have le: "sum_list (map f xs) \<le> sum_list (map g xs)"
    by (intro sum_list_mono) auto
  show ?case
  proof (cases "\<exists>y \<in> set xs. f y < g y")
    case True
    with Cons show ?thesis
      by (simp add: add_le_less_mono)
  next
    case False
    with Cons.prems le show ?thesis
      by (auto simp: add_less_le_mono)
  qed
qed simp

lemma count_concat: "count (mset (concat xss)) k = sum_list (map (\<lambda>xs. count (mset xs) k) xss)"
  by (induction xss) simp_all

text \<open>Deduplication drops a leaf that two events share.\<close>

lemma duplicate_leaf_lost:
  assumes e: "e1 \<in> set es" "e2 \<in> set es" "e1 \<noteq> e2" "dedup_key e1 = dedup_key e2"
    and k: "k \<in> set (leaves (re_content e1))" "k \<in> set (leaves (re_content e2))"
  shows "count (mset (concat (map (leaves \<circ> ci_content) (group_items raw_item es)))) k < count (mset (concat (map (leaves \<circ> re_content) es))) k"
proof -
  define f where "f = (\<lambda>e :: raw_event. count (mset (leaves (re_content e))) k)"
  define gs where "gs = map snd (group_by dedup_key es)"
  have out: "count (mset (concat (map (leaves \<circ> ci_content) (group_items raw_item es)))) k = sum_list (map (f \<circ> hd) gs)"
    by (simp add: count_concat group_items_def f_def gs_def comp_def)
  have "sum_list (map f es) = sum_list (map f (concat gs))"
    using mset_concat_groups [of dedup_key es] unfolding gs_def by (metis mset_map sum_mset_sum_list)
  also have "\<dots> = sum_list (map (\<lambda>g. sum_list (map f g)) gs)"
    by (induction gs) simp_all
  finally have all: "count (mset (concat (map (leaves \<circ> re_content) es))) k = sum_list (map (\<lambda>g. sum_list (map f g)) gs)"
    by (simp add: count_concat f_def comp_def)
  have le: "f (hd g) \<le> sum_list (map f g)" if in_groups: "g \<in> set gs" for g
  proof -
    have "g \<noteq> []"
      using group_in_groups in_groups unfolding gs_def by blast
    then show ?thesis
      by (cases g) simp_all
  qed
  define g where "g = filter (\<lambda>x. dedup_key x = dedup_key e1) es"
  have g: "g \<in> set gs" "e1 \<in> set g" "e2 \<in> set g"
    using e in_some_group [OF e(1), of dedup_key] by (simp_all add: g_def gs_def)
  obtain x xs where x: "g = x # xs"
    using g(2) by (cases g) auto
  define other where "other = (if e1 = x then e2 else e1)"
  have "other \<in> set xs" "0 < f other"
    using g(2,3) e(3) k by (auto simp: x other_def f_def count_greater_zero_iff)
  then have "f (hd g) < sum_list (map f g)"
    using member_le_sum_list [of "f other" "map f xs"] by (simp add: x)
  with le g(1) show ?thesis
    unfolding out all by (intro sum_list_less) auto
qed

lemma atom_keys: "image_mset atom_key (mset (atoms_of v)) = mset (concat (map (leaves \<circ> re_content) (qr_raw_events (vr_compression_request v))))"
proof -
  have "map atom_key (extract_atoms e) = leaves (re_content e)" for e
    by (simp add: extract_atoms_def atom_key_def comp_def)
  then have "map atom_key (atoms_of v) = concat (map (leaves \<circ> re_content) (qr_raw_events (vr_compression_request v)))"
    by (simp add: atoms_of_def map_concat comp_def)
  then show ?thesis
    by (metis mset_map)
qed

lemma atom_critical: "a \<in> set (atoms_of v) \<Longrightarrow> critical_leaf (atom_key a) \<Longrightarrow> at_critical a"
  by (auto simp: atoms_of_def extract_atoms_def atom_key_def)

lemma deduplicated_items:
  assumes "select_compression_level r = C0 \<or> select_compression_level r = C1 \<and> (\<forall>e \<in> set (qr_raw_events r). re_recoverable_artifact e = None)"
    and "compress c r n = (Inr z, n')"
  shows "cz_items z = group_items raw_item (qr_raw_events r)"
proof -
  have "c1_item g = raw_item g" if in_groups: "g \<in> set (map snd (group_by dedup_key (qr_raw_events r)))"
      and no_artifacts: "\<forall>e \<in> set (qr_raw_events r). re_recoverable_artifact e = None" for g
  proof -
    obtain i where "g = filter (\<lambda>x. dedup_key x = i) (qr_raw_events r)" "g \<noteq> []"
      using group_in_groups [OF in_groups] by blast
    then have "hd g \<in> set (qr_raw_events r)"
      using hd_in_set [of g] by simp
    with no_artifacts show ?thesis
      by (simp add: c1_item_def Let_def)
  qed
  then have "\<forall>e \<in> set (qr_raw_events r). re_recoverable_artifact e = None \<Longrightarrow>
      group_items c1_item (qr_raw_events r) = group_items raw_item (qr_raw_events r)"
    unfolding group_items_def by (intro map_cong) auto
  with assms(2,1) show ?thesis
    by (cases rule: compress_cases) (auto dest: checked_resultD)
qed

text \<open>(C38) Validation refuses lossless deduplication. If two unprotected events have the same content and that content has a critical
  leaf (a number, say), then the deduplicated result of the compressor's own C0, or of C1 where no event has an artifact, has the
  leaf once while the events have it twice; the validator counts it as missing and, as there is no safer level,
  gives up with \<^verbatim>\<open>CONTEXT_VALIDATION_EXHAUSTED\<close>.\<close>

theorem lossless_duplicates_refused:
  assumes "valid_validation_request v" "compress c (vr_compression_request v) n = (Inr (vr_candidate v), n')"
    and "select_compression_level (vr_compression_request v) = C0 \<or> select_compression_level (vr_compression_request v) = C1 \<and>
      (\<forall>e \<in> set (qr_raw_events (vr_compression_request v)). re_recoverable_artifact e = None)"
    and "e1 \<in> set (qr_raw_events (vr_compression_request v))" "e2 \<in> set (qr_raw_events (vr_compression_request v))" "e1 \<noteq> e2"
    and "\<not> re_protected e1" "\<not> re_protected e2" "re_content e1 = re_content e2"
    and "k \<in> set (leaves (re_content e1))" "critical_leaf k" "length (atoms_of v) \<le> 2 ^ 40"
  shows "validate_or_fallback c' v m = Some (Inl exhausted, m)"
proof -
  let ?r = "vr_compression_request v" and ?z = "vr_candidate v"
  have r: "valid_compression_request ?r"
    using assms(1) by (simp add: valid_validation_request_def)
  have items: "cz_items ?z = group_items raw_item (qr_raw_events ?r)"
    by (rule deduplicated_items [OF assms(3,2)])
  have content_digest: "re_content_sha256 e = context_content_sha256 (re_content e)" if "e \<in> set (qr_raw_events ?r)" for e
    using that request_parts(1) [OF r] by (simp add: list_all_iff valid_raw_event_def)
  have "dedup_key e1 = dedup_key e2"
    using assms(4,5,7,8,9) content_digest by (simp add: dedup_key_def)
  then have lost: "count (output_atoms ?z) k < count (image_mset atom_key (mset (atoms_of v))) k"
    unfolding output_atoms_def items atom_keys by (rule duplicate_leaf_lost [OF assms(4,5,6)]) (use assms(9,10) in simp_all)
  have "ci_kind c = RAW_EVENT" if "c \<in> set (cz_items ?z)" for c
    using that by (auto simp: items group_items_def)
  then have "recovered_events ?z = {}"
    by (auto simp: recovered_events_def)
  then have "k \<in># image_mset atom_key (mset (missing_atoms v ?z))"
    using lost unfolding retained_reference(2) by (simp add: unrecovered_def in_diff_count)
  then obtain a where a: "a \<in> set (missing_atoms v ?z)" "atom_key a = k"
    by auto
  have "set (missing_atoms v ?z) \<subseteq> set (atoms_of v)"
    using arg_cong [OF retained_reference(1) [of v ?z], of set_mset] by auto
  then have "at_critical a"
    using a assms(11) atom_critical by blast
  then have "vt_decision (report_on v ?z) \<noteq> ACCEPT"
    using accepted_report(2) [OF assms(1) _ assms(12), of ?z] a(1) by blast
  moreover have "cz_level ?z \<in> {C0, C1}"
    using assms(3) compress_level [OF assms(2)] by auto
  ultimately have "validation_loop c' v ?z [] [] m = Some (Inl exhausted, m)"
    by (subst validation_round [OF assms(1)]) auto
  moreover have "validate_binding ?r ?z = Inr ()"
    using result_binding [OF r assms(2)] result_covers [OF r assms(2)] by (simp only: validate_binding_iff)
  ultimately show ?thesis
    by (simp add: validate_or_fallback_def)
qed

subsection \<open>Samples\<close>

lemma lossless_returns:
  assumes "valid_compression_request r" "validate_events r = Inr ()" "select_compression_level r = C0"
  shows "\<exists>z. compress None r n = (Inr z, n)"
proof -
  have "wp (compress None r) (\<lambda>z _. valid_compression_result z) (\<lambda>e _. \<exists>code message action. e = CompressionError code message action) n"
    by (rule compress_never_invalid [OF assms(1)]) (simp add: adapter_valid_def)
  with assms(2,3) show ?thesis
    by (auto simp: compress_def thenP_def bindP_def wp_def checked_result_def Let_def split: if_splits)
qed

lemma complete_accepted:
  assumes v: "valid_validation_request v" and z: "cz_level z \<in> {C0, C1}" "missing_atoms v z = []"
  shows "vt_decision (report_on v z) = ACCEPT"
proof -
  have "count_atoms p (retained_atoms v z) = count_atoms p (atoms_of v)" for p
    using count_atoms_split [of p v z] z(2) by (simp add: count_atoms_def)
  moreover have "retention_ratio x x = 1" for x
    using to_double_of_int [of 1] by (simp add: retention_ratio_def float_div_def)
  ultimately show ?thesis
    using v z(1) by (simp add: report_fields degradation_def Let_def valid_validation_request_def valid_validation_policy_def)
qed

definition sample_validation :: "compression_request \<Rightarrow> compression_result \<Rightarrow> validation_request" where
  "sample_validation r z = \<lparr>vr_compression_request = r, vr_candidate = z,
     vr_policy = \<lparr>vp_policy_version = ''1'', vp_critical_retention = PyFloat 1 ''1.0'', vp_noncritical_retention = PyFloat 1 ''1.0'',
       vp_max_quality_degradation_points = PyFloat 3 ''3.0''\<rparr>,
     vr_baseline_quality_score = PyFloat 90 ''90.0'', vr_candidate_quality_scores = []\<rparr>"

definition sample_reading :: "nat \<Rightarrow> bool \<Rightarrow> raw_event" where
  "sample_reading i protected = sample_event i EV_PROJECT_FACT protected [(''value'', JInt 5)]"

definition sample_checkpoint :: checkpoint where
  "sample_checkpoint = \<lparr>ck_checkpoint_id = 9, ck_task_id = 7, ck_scope = compression_scope, ck_sequence = 0, ck_graph_version = ''1'',
     ck_state_schema_version = ''1'', ck_state_artifact = \<lparr>af_artifact_id = 8, af_scope = compression_scope, af_artifact_version = ''1'',
       af_uri = ''u'', af_media_type = ''m'', af_size_bytes = 1, af_sha256 = replicate 64 (CHR ''0''), af_classification = INTERNAL,
       af_immutable = True\<rparr>,
     ck_state_sha256 = replicate 64 (CHR ''0''), ck_committed_side_effect_ids = [], ck_created_at = utc 0\<rparr>"

definition stuck_request :: compression_request where
  "stuck_request = (sample_compression [sample_reading 1 True] 1 1)\<lparr>qr_checkpoint := Some sample_checkpoint\<rparr>"

lemma sample_validation_valid:
  "valid_compression_request r \<Longrightarrow> valid_compression_result z \<Longrightarrow> valid_validation_request (sample_validation r z)"
  using to_double_mono [of "98 / 100" 1] to_double_of_int [of 1]
  by (simp add: valid_validation_request_def sample_validation_def valid_validation_policy_def text_len_def distinct_keys_def)

lemma reading_valid: "i < 10 \<Longrightarrow> valid_raw_event (sample_reading i p)"
  by (simp add: sample_reading_def sample_event_valid)

lemma reading_fields [simp]:
  "re_event_id (sample_reading i p) = ''e'' @ show_nat i" "re_sequence (sample_reading i p) = int i" "re_protected (sample_reading i p) = p"
  "re_task_id (sample_reading i p) = 7" "re_scope (sample_reading i p) = compression_scope"
  "re_content (sample_reading i p) = [(''value'', JInt 5)]" "re_recoverable_artifact (sample_reading i p) = None"
  by (simp_all add: sample_reading_def sample_event_def)

lemma reading_leaves: "leaves [(''value'', JInt 5)] = [(''value'', ''5'')]"
  by (simp add: leaves_def show_int_def show_nat.simps digit_char_def)

lemma reading_critical: "critical_leaf (''value'', ''5'')"
  by (simp add: critical_leaf_def critical_names_def contains_def lower_char_def Let_def upt_rec)

lemma sample_readings:
  assumes "events = [sample_reading 1 False] \<or> events = [sample_reading 1 False, sample_reading 2 False]"
  shows "valid_compression_request (sample_compression events 1 8)" "select_compression_level (sample_compression events 1 8) = C0"
    "validate_events (sample_compression events 1 8) = Inr ()"
  using assms sample_policy_ok reading_valid [of 1] reading_valid [of 2] to_double_dyadic [of 1 3]
  by (auto simp: sample_compression_def valid_compression_request_def compression_scope_def valid_scope_def text_len_def digit_texts
      select_compression_level_def float_div_def sample_compression_policy_def Let_def validate_events_def same_event_scope_def)

lemma sample_candidate:
  assumes "events = [sample_reading 1 False] \<or> events = [sample_reading 1 False, sample_reading 2 False]"
  shows "\<exists>z. compress None (sample_compression events 1 8) 0 = (Inr z, 0) \<and>
    valid_validation_request (sample_validation (sample_compression events 1 8) z)"
proof -
  note r = sample_readings [OF assms]
  obtain z where z: "compress None (sample_compression events 1 8) 0 = (Inr z, 0)"
    using lossless_returns [OF r(1,3,2)] by blast
  have "valid_compression_result z"
    by (rule wp_outcomeD_Inr [OF compress_never_invalid [OF r(1)] z]) (simp add: adapter_valid_def)
  with z sample_validation_valid [OF r(1)] show ?thesis
    by blast
qed

theorem validated_context_safe_witness:
  "\<exists>z s. compress None (sample_compression [sample_reading 1 False] 1 8) 0 = (Inr z, 0) \<and>
    validate_or_fallback None (sample_validation (sample_compression [sample_reading 1 False] 1 8) z) 0 = Some (Inr s, 0) \<and>
    cz_execution_ready (vs_result s) \<and> {#(''value'', ''5'')#} \<subseteq># output_atoms (vs_result s)"
proof -
  let ?r = "sample_compression [sample_reading 1 False] 1 8"
  obtain z where z: "compress None ?r 0 = (Inr z, 0)" and v: "valid_validation_request (sample_validation ?r z)"
    using sample_candidate by blast
  let ?v = "sample_validation ?r z"
  note r = sample_readings [OF disjI1 [OF refl]]
  have events: "qr_raw_events ?r = [sample_reading 1 False]"
    by (simp add: sample_compression_def)
  have items: "cz_items z = [raw_item [sample_reading 1 False]]"
    using deduplicated_items [OF _ z] r(2) events by (simp add: group_items_def group_by_def del: One_nat_def)
  have atoms: "atoms_of ?v = [\<lparr>at_event_id = ''e1'', at_name = ''value'', at_value = ''5'', at_critical = True\<rparr>]"
    using reading_critical by (simp add: atoms_of_def sample_validation_def events extract_atoms_def reading_leaves digit_texts del: One_nat_def)
  have "output_atoms z = {#(''value'', ''5'')#}" "recovered_events z = {}"
    by (simp_all add: output_atoms_def recovered_events_def items reading_leaves)
  then have "missing_atoms ?v z = []" "unrecovered ?v z = atoms_of ?v"
    by (simp_all add: missing_atoms_def unrecovered_def atoms atom_key_def del: One_nat_def)
  then have "vt_decision (report_on ?v z) = ACCEPT"
    using complete_accepted [OF v] compress_level [OF z] r(2) by (simp del: One_nat_def)
  then obtain s where loop: "validation_loop None ?v z [] [] 0 = Some (Inr s, 0)" and result: "vs_result s = accept z (report_on ?v z)"
    using validation_round [OF v, of None z "[]" "[]" 0] by simp
  have "validate_binding ?r z = Inr ()"
    using result_binding [OF r(1) z] result_covers [OF r(1) z] by (simp only: validate_binding_iff)
  then have run: "validate_or_fallback None ?v 0 = Some (Inr s, 0)"
    using loop by (simp add: validate_or_fallback_def sample_validation_def)
  have "unrecovered ?v (vs_result s) = atoms_of ?v"
    using \<open>unrecovered ?v z = atoms_of ?v\<close> by (simp add: result)
  then have critical: "image_mset atom_key (mset (filter at_critical (unrecovered ?v (vs_result s)))) = {#(''value'', ''5'')#}"
    by (simp add: atoms atom_key_def del: One_nat_def)
  have "length (atoms_of ?v) \<le> 2 ^ 40"
    by (simp add: atoms del: One_nat_def)
  from validated_context_safe [OF v run this] have "cz_execution_ready (vs_result s)" "{#(''value'', ''5'')#} \<subseteq># output_atoms (vs_result s)"
    unfolding Let_def critical by blast+
  with z run show ?thesis
    by blast
qed

theorem validation_terminates_witness:
  "\<exists>z res n'. validate_or_fallback None (sample_validation (sample_compression [sample_reading 1 False] 1 8) z) 0 = Some (res, n') \<and> n' \<le> 2"
proof -
  obtain z where v: "valid_validation_request (sample_validation (sample_compression [sample_reading 1 False] 1 8) z)"
    using sample_candidate by blast
  have "thresholds_apart (vr_compression_request (sample_validation (sample_compression [sample_reading 1 False] 1 8) z))"
    by (simp add: thresholds_apart_def sample_validation_def sample_compression_def sample_compression_policy_def Let_def)
  from validation_terminates [OF v this, of None 0] show ?thesis
    by (metis add_0)
qed

theorem validation_may_not_return_witness:
  "\<exists>z. compress (Some sample_adapter) stuck_request 0 = (Inr z, 0) \<and>
    validate_or_fallback (Some sample_adapter) (sample_validation stuck_request z) 0 = None"
proof -
  have artifact: "is_sha256 (replicate 64 (CHR ''0''))"
    by (simp add: is_sha256_def is_hex_char_def list_all_iff)
  have r: "valid_compression_request stuck_request"
    using sample_policy_ok reading_valid [of 1] artifact
    by (simp add: stuck_request_def sample_compression_def valid_compression_request_def compression_scope_def valid_scope_def text_len_def
        valid_checkpoint_def sample_checkpoint_def valid_artifact_ref_def)
  have fields: "qr_active_context_limit stuck_request = 1" "qr_active_context_tokens stuck_request = 1" "qr_raw_events stuck_request = [sample_reading 1 True]"
    "qr_policy stuck_request = sample_compression_policy" "qr_semantic_compressions_used stuck_request = 0"
    "cp_max_semantic_compressions sample_compression_policy = 2"
    by (simp_all add: stuck_request_def sample_compression_def sample_compression_policy_def)
  have checks: "validate_events stuck_request = Inr ()" "validate_checkpoint stuck_request = Inr 9"
    by (simp_all add: validate_events_def validate_checkpoint_def stuck_request_def sample_compression_def same_event_scope_def sample_checkpoint_def)
  have doubles: "to_double (5 / 4) = 5 / 4" "to_double (5 / 8) = 5 / 8"
    using to_double_dyadic [of 5 2] to_double_dyadic [of 5 3] by simp_all
  have "max 1 \<lfloor>to_double (fallback_pressure sample_compression_policy C2)\<rfloor> = 1"
    by (simp add: fallback_pressure_def sample_compression_policy_def doubles)
  then have retry: "request_for_level stuck_request C2 0 = stuck_request"
    using fields by (simp add: request_for_level_def)
  obtain z where z: "compress (Some sample_adapter) stuck_request 0 = (Inr z, 0)"
    using limit_one_retry [OF r fields(1) _ checks, of 0 sample_adapter 0] fields by (auto simp: retry)
  have "valid_compression_result z"
    by (rule wp_outcomeD_Inr [OF compress_never_invalid [OF r sample_adapter_valid] z])
  then have "valid_validation_request (sample_validation stuck_request z)"
    by (rule sample_validation_valid [OF r])
  then have "validate_or_fallback (Some sample_adapter) (sample_validation stuck_request z) 0 = None"
    using z fields by (intro validation_may_not_return [where n = 0 and n' = 0]) (simp_all add: sample_validation_def)
  with z show ?thesis
    by blast
qed

theorem lossless_duplicates_refused_witness:
  "\<exists>z. compress None (sample_compression [sample_reading 1 False, sample_reading 2 False] 1 8) 0 = (Inr z, 0) \<and>
    validate_or_fallback None (sample_validation (sample_compression [sample_reading 1 False, sample_reading 2 False] 1 8) z) 0 =
      Some (Inl exhausted, 0)"
proof -
  let ?r = "sample_compression [sample_reading 1 False, sample_reading 2 False] 1 8"
  obtain z where z: "compress None ?r 0 = (Inr z, 0)" and v: "valid_validation_request (sample_validation ?r z)"
    using sample_candidate by blast
  have fields: "vr_compression_request (sample_validation ?r z) = ?r" "vr_candidate (sample_validation ?r z) = z"
    "qr_raw_events ?r = [sample_reading 1 False, sample_reading 2 False]"
    by (simp_all add: sample_validation_def sample_compression_def)
  have "sample_reading 1 False \<noteq> sample_reading 2 False"
    by (simp add: sample_reading_def sample_event_def)
  moreover have "length (atoms_of (sample_validation ?r z)) \<le> 2 ^ 40"
    by (simp add: atoms_of_def fields extract_atoms_def reading_leaves del: One_nat_def)
  ultimately have "validate_or_fallback None (sample_validation ?r z) 0 = Some (Inl exhausted, 0)"
    using sample_readings(2) [of "[sample_reading 1 False, sample_reading 2 False]"] reading_critical
    by (intro lossless_duplicates_refused [OF v, of None 0 0 "sample_reading 1 False" "sample_reading 2 False" "(''value'', ''5'')"])
      (simp_all add: fields z reading_leaves del: One_nat_def)
  with z show ?thesis
    by blast
qed

end
