(* ===== verification/Spec2Isabelle.thy ===== *)
theory Spec2Isabelle
  imports BudgetProperties ApprovalProperties MainGraph CacheProperties CacheKeys MemoryProperties
    LifecycleProperties DispatchPipeline ContextAssemblyProperties
    ContextValidationProperties
begin

section \<open>A verification development for the governance core of NDT-Agents\<close>

text \<open>
  NDT-Agents coordinates model and tool calls for non-destructive-testing work. A request is routed
  (\<^verbatim>\<open>orchestration/routing.py\<close>, \<^verbatim>\<open>main_graph.py\<close>) to child agents that run under a budget guard
  (\<^verbatim>\<open>orchestration/budget.py\<close>); high-risk steps wait for human approval (\<^verbatim>\<open>approval/service.py\<close>), which is
  recorded in a hash-chained journal and in a hash-chained audit log (\<^verbatim>\<open>observability/audit.py\<close>); results and
  knowledge are kept in a scoped cache (\<^verbatim>\<open>cache/\<close>), a scoped memory (\<^verbatim>\<open>memory/\<close>) and a governed object
  store with retention, holds and erasure (\<^verbatim>\<open>lifecycle/service.py\<close>), whose destructive operations ask for the approval
  records of the approval service. This development models these parts from their sources (paths below are
  under \<^verbatim>\<open>src/src/ndt_agents/\<close>) and proves the properties that make them correct.

  \<^bold>\<open>How the code is modelled.\<close>
  \<^item> \<open>Prelude\<close>: a method that mutates its object and may raise is a state transformer that returns an error or a value
    and the state it leaves behind (also when it raises), with weakest-precondition rules; reachable states and the locale
    \<open>invariant_machine\<close>; Python dicts as item lists; the locale \<open>write_once_store\<close>.
  \<^item> \<open>PyValues\<close>, \<open>CanonicalJson\<close>, \<open>Uuid5\<close>: text, UUIDs, aware and naive datetimes, JSON with \<^verbatim>\<open>json.dumps\<close> in sorted form,
    SHA-256, SHA-1 and \<^verbatim>\<open>uuid5\<close>. Digests are real functions; no theorem assumes that they do not collide. Where a property
    depends on it, the two colliding texts are named in the statement.
  \<^item> \<open>Contracts\<close>: the models of \<^verbatim>\<open>contracts/v1.py\<close> that are shared. A pydantic model is a record; its field constraints and
    validators are a bool-valued predicate; constructing an invalid instance is an error branch.
  \<^item> Clocks, \<^verbatim>\<open>uuid4\<close>, the OpenTelemetry span, Unicode NFKC, pydantic's reading of an untrusted payload into fields and the
    key provider are parameters. Clock readings and draws are numbered, so every reading may differ.

  \<^bold>\<open>Budget guard\<close> (\<open>Budget\<close>, \<open>BudgetGuard\<close>, \<open>BudgetInvariant\<close>, \<open>BudgetSafety\<close>, \<open>BudgetProperties\<close>): the default policies,
  elevation, and every method of \<^verbatim>\<open>BudgetGuard\<close>. In every reachable guard each counter stays within its active limit, a
  refused call changes only the event log, reservations are settled once, a physical tool call is not repeated without a
  new observation, a guard restored from telemetry continues with the same counters, and no call fails inside the guard.

  \<^bold>\<open>Audit log\<close> (\<open>HashChain\<close>, \<open>AuditLog\<close>, \<open>AuditProperties\<close>): records, events, repository and service. The locale
  \<open>hash_chain\<close> holds the chain lemmas once; it is interpreted for the audit log and for the approval journal. Chains
  verify in every reachable state, identifiers are bound to one content, the log only grows, and a verified chain is pinned
  down by its last digest.

  \<^bold>\<open>Approval service\<close> (\<open>Approval\<close>, \<open>ApprovalService\<close>, \<open>ApprovalJournal\<close>, \<open>ApprovalInvariant\<close>, \<open>ApprovalRules\<close>, \<open>ApprovalCalls\<close>,
  \<open>ApprovalProgress\<close>, \<open>ApprovalProperties\<close>): policies, journal and all methods, composed with the audit log. A grant is
  backed by a quorum of distinct independent approvers with required roles; decisions are authorised; the service refines a
  five-phase lifecycle; terminal checkpoints are frozen; refusals are atomic; retries replay; every journal event is audited.

  \<^bold>\<open>Routing and Main Graph\<close> (\<open>Routing\<close>, \<open>MainGraph\<close>): the cycle check ends and accepts exactly the assignments some order can
  run; the graph answers every payload with a valid result whose transitions are a run of its phase machine (locale
  \<open>graph_router\<close> states what it needs of a router, interpreted on the rules-first router); dispatch is minimal and reviewed.

  \<^bold>\<open>Context assembly\<close> (\<open>ContextModels\<close>, \<open>ContextAssembly\<close>, \<open>ContextAssemblyRules\<close>, \<open>ContextAssemblyProperties\<close>): the models of
  \<^verbatim>\<open>context/models.py\<close> and the assembler of \<^verbatim>\<open>context/assembly.py\<close>. Everything in an assembled context was granted to
  the requester, limits hold and drop nothing protected, every candidate has one decision, the order of the inputs does not
  matter, and a valid request fails only with the five named errors. The children of an assembled context see
  only what was granted. Timestamps in the sort key are rounded to doubles as Python does.

  \<^bold>\<open>Compression and validation of context\<close> (\<open>PyFloats\<close>, \<open>Compression\<close>, \<open>CompressionRules\<close>, \<open>CompressionProperties\<close>,
  \<open>ContextValidation\<close>, \<open>ContextValidationRules\<close>, \<open>ContextValidationProperties\<close>): \<^verbatim>\<open>context/compression.py\<close> and
  \<^verbatim>\<open>validation.py\<close>. Quotients, thresholds and scores are rounded as doubles (\<open>to_double\<close>, with its error bound and
  monotonicity). The locale \<open>event_items\<close> states what the pipeline needs of a builder of items and is interpreted on those of C0 and
  C1. Results cover every event once, protected events are verbatim and never sent to the adapter, and a
  validated context keeps every critical leaf. The retry loop is a partial function: it ends for separated thresholds, and two
  properties state defects, an input on which it never returns and the refusal of lossless deduplication.

  \<^bold>\<open>Child contexts and runs\<close> (\<open>ChildModels\<close>, \<open>ChildRun\<close>, \<open>ChildRunRules\<close>, \<open>ChildProperties\<close>): the agent
  registry, the factory of \<^verbatim>\<open>child_context.py\<close> and the one-call subgraph of \<^verbatim>\<open>subgraph.py\<close> with its calls on the budget guard. The executor is a parameter that may answer, raise and use the guard. A child gets no more
  than its parent has, a completed outcome carries a verified result, and a run always returns an outcome.

  \<^bold>\<open>Scheduler\<close> (\<open>Scheduler\<close>, \<open>SchedulerWaves\<close>, \<open>SchedulerRules\<close>, \<open>SchedulerBatches\<close>, \<open>SchedulerExecution\<close>,
  \<open>SchedulerProperties\<close>, \<open>SchedulerQueue\<close>): validation, topological waves, the concurrent batches as event machines whose
  scripts are the event loop's choices, and the queue. Waves exist exactly for acyclic assignments, the same that the router
  accepts; executions account for every assignment under every interleaving, respect the concurrency limit and can always be
  completed; the queue refines a small life cycle in which results are final and bindings never change.
  \<open>DispatchPipeline\<close> composes the parts: what the Main Graph dispatches and the factory prepares, the scheduler accepts.

  \<^bold>\<open>Cache\<close> (\<open>Cache\<close>, \<open>CacheProperties\<close>, \<open>CacheKeys\<close>): backend, service and keys. A hit is sound for any history, writes
  without refresh never replace, counters account for every lookup, invalidation is exact, and a key covers exactly the
  request, versions and authorization.

  \<^bold>\<open>Memory\<close> (\<open>Memory\<close>, \<open>MemoryProperties\<close>): reads stay in scope, queries are exact, records are immutable. One property
  states a gap: reading by identifier checks neither clearance nor the candidate permission.

  \<^bold>\<open>Data lifecycle\<close> (\<open>Lifecycle\<close>, \<open>LifecycleSteps\<close>, \<open>LifecycleInvariant\<close>, \<open>LifecycleProperties\<close>): the methods refine a guarded
  transition relation, over which the properties are proved: holds protect, removal is authorised, tombstones are final,
  deletion replays, changes are logged, exports are exact. One property states a gap: deletion does not recompute the
  digest of the preview it is handed.

  \<^bold>\<open>Bounds.\<close> There is no fuel: every recursion of the model is structural or has a termination proof, apart from the retry loop
  above. Code points above 255 and datetimes outside the years 1 to 9999 are not represented; floats are exact rationals
  (similarities, confidences, usage ratios), rounded where compression and assembly compute with them, or carried as their
  text in JSON. Statements on the counts of leaves assume at most \<open>2\<^sup>4\<^sup>0\<close> of them, below which doubles tell the ratios apart.

  \<^bold>\<open>Not modelled.\<close> The HTTP runtime, identity middleware and desktop client (I/O and framework glue); model providers, web
  search, MCP and file gateways and reference adapters (external services and processes); PostgreSQL, Redis and object
  storage adapters; the LangGraph runtime and the configured delegates around it; knowledge intake, parsing and retrieval;
  professional report and review content; operations evidence; the
  recovery and review graphs.
\<close>

end
